(* ===== verification/JSON_Value.thy ===== *)
theory JSON_Value
  imports Prelude "HOL-Library.Multiset"
begin

text \<open>
  JavaScript values that the program stores, prints, hashes and compares, and the functions of
  the repository that serialise them: \<open>JSON.stringify\<close> (standard library),
  \<open>stableStringify\<close> (\<open>capability-registry/src/canonical-json.ts\<close>) and \<open>sortKeysDeep\<close>
  (\<open>capability-registry/src/enforcement.ts\<close>). The main facts relate all of them to one
  normal form \<open>canon\<close>, in which the keys of every object are sorted.
\<close>

subsection \<open>Values\<close>

text \<open>
  A finite double is represented by the shortest decimal that denotes it, \<open>NumDec m e\<close> for
  \<open>m * 10 ^ e\<close>, with \<open>m\<close> not divisible by 10 (and \<open>NumDec 0 0\<close> for zero): this is what
  \<open>Number.prototype.toString\<close> prints. An object is the list of its own enumerable properties in
  enumeration order. \<open>JUndef\<close> is \<open>undefined\<close>, also the value of an absent property.
\<close>

datatype jsnum = NumNaN | NumInf bool | NumNegZero | NumDec int int

datatype json =
    JUndef
  | JNull
  | JBool bool
  | JNum jsnum
  | JBig int
  | JStr string
  | JArr "json list"
  | JObj "(string \<times> json) list"

definition dec_normal :: "int \<Rightarrow> int \<Rightarrow> bool" where
  "dec_normal m e = (if m = 0 then e = 0 else \<not> 10 dvd m)"

function norm_dec :: "int \<Rightarrow> int \<Rightarrow> jsnum" where
  "norm_dec m e =
     (if m = 0 then NumDec 0 0
      else if 10 dvd m then norm_dec (m div 10) (e + 1) else NumDec m e)"
  by pat_completeness auto
termination
  by (relation "measure (\<lambda>(m, e). nat \<bar>m\<bar>)") auto

declare norm_dec.simps [simp del]

lemma norm_dec_normal [simp]: "dec_normal m e \<Longrightarrow> norm_dec m e = NumDec m e"
  by (subst norm_dec.simps) (simp add: dec_normal_def split: if_splits)

lemma norm_dec_times_10: "norm_dec (m * 10 ^ k) e = norm_dec m (e + int k)"
proof (induction k arbitrary: e)
  case 0
  then show ?case by simp
next
  case (Suc k)
  show ?case
  proof (cases "m = 0")
    case True
    then show ?thesis by (simp add: norm_dec.simps)
  next
    case False
    have "norm_dec (m * 10 ^ Suc k) e = norm_dec (m * 10 ^ k) (e + 1)"
      using False by (subst norm_dec.simps) simp
    then show ?thesis by (simp add: Suc add.assoc)
  qed
qed

subsection \<open>Property access\<close>

definition fld :: "json \<Rightarrow> string \<Rightarrow> json" where
  "fld v k =
     (case v of JObj kvs \<Rightarrow> (case map_of kvs k of None \<Rightarrow> JUndef | Some x \<Rightarrow> x) | _ \<Rightarrow> JUndef)"

lemma fld_JObj [simp]:
  "fld (JObj []) k = JUndef"
  "fld (JObj ((k', v) # kvs)) k = (if k = k' then v else fld (JObj kvs) k)"
  by (simp_all add: fld_def)

lemma fld_atoms [simp]:
  "fld JUndef k = JUndef" "fld JNull k = JUndef" "fld (JBool b) k = JUndef"
  "fld (JNum n) k = JUndef" "fld (JStr s) k = JUndef" "fld (JArr xs) k = JUndef"
  by (simp_all add: fld_def)

lemma fld_append:
  "fld (JObj (as @ bs)) k = (if k \<in> fst ` set as then fld (JObj as) k else fld (JObj bs) k)"
proof (induction as)
  case Nil
  then show ?case by simp
next
  case (Cons p as)
  then show ?case by (cases p) simp
qed

text \<open>The helper \<open>isRecord\<close> / \<open>isObject\<close> that several modules declare.\<close>

definition is_record :: "json \<Rightarrow> bool" where
  "is_record v = (case v of JObj _ \<Rightarrow> True | _ \<Rightarrow> False)"

definition is_str :: "json \<Rightarrow> bool" where
  "is_str v = (case v of JStr _ \<Rightarrow> True | _ \<Rightarrow> False)"

definition is_null_or_undef :: "json \<Rightarrow> bool" where
  "is_null_or_undef v = (v = JUndef \<or> v = JNull)"

text \<open>The operator \<open>??\<close>, and truthiness.\<close>

definition nullish_else :: "json \<Rightarrow> json \<Rightarrow> json" where
  "nullish_else v d = (if is_null_or_undef v then d else v)"

fun truthy :: "json \<Rightarrow> bool" where
  "truthy JUndef = False"
| "truthy JNull = False"
| "truthy (JBool b) = b"
| "truthy (JNum n) = (n \<noteq> NumNaN \<and> n \<noteq> NumNegZero \<and> n \<noteq> NumDec 0 0)"
| "truthy (JBig i) = (i \<noteq> 0)"
| "truthy (JStr s) = (s \<noteq> [])"
| "truthy (JArr xs) = True"
| "truthy (JObj kvs) = True"

text \<open>
  \<open>SameValueZero\<close> and \<open>===\<close> on values that come from different places: two objects or two arrays
  are then never the same, and \<open>NaN\<close> differs from itself under \<open>===\<close>.
\<close>

fun num_same :: "jsnum \<Rightarrow> jsnum \<Rightarrow> bool" where
  "num_same NumNegZero b = (b = NumNegZero \<or> b = NumDec 0 0)"
| "num_same a NumNegZero = (a = NumDec 0 0)"
| "num_same a b = (a = b)"

fun strict_eq :: "json \<Rightarrow> json \<Rightarrow> bool" where
  "strict_eq (JNum a) (JNum b) = (a \<noteq> NumNaN \<and> num_same a b)"
| "strict_eq (JArr xs) b = False"
| "strict_eq (JObj kvs) b = False"
| "strict_eq a b = (a = b)"

fun same_value_zero :: "json \<Rightarrow> json \<Rightarrow> bool" where
  "same_value_zero (JNum a) (JNum b) = num_same a b"
| "same_value_zero a b = strict_eq a b"

lemma strict_eq_str [simp]:
  "strict_eq (JStr s) v = (v = JStr s)"
  "strict_eq v (JStr s) = (v = JStr s)"
  "strict_eq JNull v = (v = JNull)"
  "strict_eq v JNull = (v = JNull)"
  by (cases v; auto)+

lemma same_value_zero_str [simp]:
  "same_value_zero (JStr s) v = (v = JStr s)"
  "same_value_zero v (JStr s) = (v = JStr s)"
  by (cases v; auto)+

subsection \<open>Writing properties\<close>

text \<open>
  Own properties are enumerated with the array indices first, in ascending order, and then the
  other keys in insertion order. \<open>obj_set\<close> defines an own property, as \<open>JSON.parse\<close> does;
  \<open>obj_assign\<close> is the assignment \<open>out[k] = v\<close> to a plain object, which for the key
  \<open>__proto__\<close> calls the inherited setter and creates no property.
\<close>

definition array_index :: "string \<Rightarrow> bool" where
  "array_index k = (k = show_nat (nat_of_digits k) \<and> nat_of_digits k < 4294967295)"

definition before_index :: "string \<Rightarrow> string \<Rightarrow> bool" where
  "before_index k' k = (array_index k' \<and> nat_of_digits k' < nat_of_digits k)"

definition obj_set :: "string \<Rightarrow> json \<Rightarrow> (string \<times> json) list \<Rightarrow> (string \<times> json) list" where
  "obj_set k v kvs =
     (if k \<in> fst ` set kvs then AList.update k v kvs
      else if array_index k then
        takeWhile (\<lambda>p. before_index (fst p) k) kvs @ (k, v) #
        dropWhile (\<lambda>p. before_index (fst p) k) kvs
      else kvs @ [(k, v)])"

definition proto_key :: string where
  "proto_key = ''__proto__''"

definition obj_assign :: "string \<Rightarrow> json \<Rightarrow> (string \<times> json) list \<Rightarrow> (string \<times> json) list" where
  "obj_assign k v kvs = (if k = proto_key then kvs else obj_set k v kvs)"

definition set_all :: "(string \<times> json) list \<Rightarrow> (string \<times> json) list" where
  "set_all kvs = foldl (\<lambda>out (k, v). obj_set k v out) [] kvs"

definition assign_all :: "(string \<times> json) list \<Rightarrow> (string \<times> json) list" where
  "assign_all kvs = foldl (\<lambda>out (k, v). obj_assign k v out) [] kvs"

lemma mset_obj_set_fresh:
  "k \<notin> fst ` set kvs \<Longrightarrow> mset (obj_set k v kvs) = add_mset (k, v) (mset kvs)"
proof -
  assume fresh: "k \<notin> fst ` set kvs"
  have "mset (takeWhile P kvs) + mset (dropWhile P kvs) = mset kvs" for P
    by (metis mset_append takeWhile_dropWhile_id)
  with fresh show ?thesis by (simp add: obj_set_def)
qed

lemma set_obj_set_fresh:
  "k \<notin> fst ` set kvs \<Longrightarrow> set (obj_set k v kvs) = insert (k, v) (set kvs)"
  by (metis mset_obj_set_fresh set_mset_add_mset_insert set_mset_mset)

lemma map_of_obj_set: "map_of (obj_set k v kvs) = (map_of kvs)(k \<mapsto> v)"
proof (cases "k \<in> fst ` set kvs")
  case True
  then show ?thesis by (simp add: obj_set_def)
next
  case False
  let ?P = "\<lambda>p. before_index (fst p) k"
  have none: "map_of kvs k = None" using False by (simp add: map_of_eq_None_iff)
  have "map_of kvs = map_of (dropWhile ?P kvs) ++ map_of (takeWhile ?P kvs)"
    by (metis map_of_append takeWhile_dropWhile_id)
  moreover from this have "map_of (takeWhile ?P kvs) k = None" using none by (simp add: map_add_None)
  ultimately have "(map_of (dropWhile ?P kvs))(k \<mapsto> v) ++ map_of (takeWhile ?P kvs) = (map_of kvs)(k \<mapsto> v)"
    by (auto simp: map_add_def fun_eq_iff split: option.splits)
  moreover have "[k \<mapsto> v] ++ map_of kvs = (map_of kvs)(k \<mapsto> v)"
    using none by (auto simp: map_add_def fun_eq_iff split: option.splits)
  ultimately show ?thesis using False by (simp add: obj_set_def)
qed

lemma fld_obj_set: "fld (JObj (obj_set k v kvs)) k' = (if k' = k then v else fld (JObj kvs) k')"
  by (simp add: fld_def map_of_obj_set)

lemma mset_set_all_aux:
  "distinct (map fst kvs) \<Longrightarrow> fst ` set kvs \<inter> fst ` set out = {} \<Longrightarrow>
   mset (foldl (\<lambda>out (k, v). obj_set k v out) out kvs) = mset out + mset kvs"
proof (induction kvs arbitrary: out)
  case Nil
  then show ?case by simp
next
  case (Cons p kvs)
  obtain k v where p: "p = (k, v)" by (cases p)
  have fresh: "k \<notin> fst ` set out" using Cons.prems by (auto simp: p)
  have "fst ` set kvs \<inter> fst ` set (obj_set k v out) = {}"
    using Cons.prems fresh by (auto simp: p set_obj_set_fresh)
  with Cons show ?case
    by (simp add: p mset_obj_set_fresh [OF fresh])
qed

lemma mset_set_all: "distinct (map fst kvs) \<Longrightarrow> mset (set_all kvs) = mset kvs"
  using mset_set_all_aux [of kvs "[]"] by (simp add: set_all_def)

lemma set_set_all [simp]: "distinct (map fst kvs) \<Longrightarrow> set (set_all kvs) = set kvs"
  by (metis mset_set_all set_mset_mset)

lemma assign_all_no_proto:
  "proto_key \<notin> fst ` set kvs \<Longrightarrow> assign_all kvs = set_all kvs"
proof -
  have "proto_key \<notin> fst ` set kvs \<Longrightarrow>
    foldl (\<lambda>out (k, v). obj_assign k v out) out kvs
      = foldl (\<lambda>out (k, v). obj_set k v out) out kvs" for out
    by (induction kvs arbitrary: out) (auto simp: obj_assign_def)
  then show "proto_key \<notin> fst ` set kvs \<Longrightarrow> ?thesis"
    by (simp add: assign_all_def set_all_def)
qed

lemma sort_key_distinct_eq:
  assumes "mset xs = mset ys" and "distinct (map fst xs)"
  shows "sort_key fst xs = sort_key fst ys"
  using assms by (intro sort_key_inj_key_eq) (simp_all add: distinct_map)

subsection \<open>Printing\<close>

text \<open>
  The decimal layout of \<open>Number.prototype.toString\<close>: \<open>s\<close> are the digits and \<open>n\<close> the position of
  the decimal point counted from their left end.
\<close>

definition dec_layout :: "string \<Rightarrow> int \<Rightarrow> string" where
  "dec_layout s n =
     (if int (length s) \<le> n \<and> n \<le> 21 then s @ replicate (nat (n - int (length s))) (CHR ''0'')
      else if 0 < n \<and> n \<le> 21 then take (nat n) s @ ''.'' @ drop (nat n) s
      else if - 6 < n \<and> n \<le> 0 then ''0.'' @ replicate (nat (- n)) (CHR ''0'') @ s
      else (if length s = 1 then s else hd s # ''.'' @ tl s) @ ''e'' @
           (if n - 1 < 0 then ''-'' else ''+'') @ show_nat (nat \<bar>n - 1\<bar>))"

definition dec_body :: "nat \<Rightarrow> int \<Rightarrow> string" where
  "dec_body m e = (let s = show_nat m in dec_layout s (int (length s) + e))"

definition dec_print :: "int \<Rightarrow> int \<Rightarrow> string" where
  "dec_print m e =
     (if m = 0 then ''0'' else (if m < 0 then ''-'' else '''') @ dec_body (nat \<bar>m\<bar>) e)"

fun num_print :: "jsnum \<Rightarrow> string" where
  "num_print NumNaN = ''NaN''"
| "num_print (NumInf neg) = (if neg then ''-Infinity'' else ''Infinity'')"
| "num_print NumNegZero = ''0''"
| "num_print (NumDec m e) = dec_print m e"

definition esc_char :: "char \<Rightarrow> string" where
  "esc_char c =
     (if code c = 34 then [CHR 0x5C, CHR 0x22]
      else if code c = 92 then [CHR 0x5C, CHR 0x5C]
      else if code c = 8 then [CHR 0x5C, CHR ''b'']
      else if code c = 9 then [CHR 0x5C, CHR ''t'']
      else if code c = 10 then [CHR 0x5C, CHR ''n'']
      else if code c = 12 then [CHR 0x5C, CHR ''f'']
      else if code c = 13 then [CHR 0x5C, CHR ''r'']
      else if code c < 32 then
        [CHR 0x5C, CHR ''u'', CHR ''0'', CHR ''0'', digit (code c div 16), digit (code c mod 16)]
      else [c])"

definition quote :: "string \<Rightarrow> string" where
  "quote s = CHR 0x22 # concat (map esc_char s) @ [CHR 0x22]"

text \<open>
  \<open>JSON.stringify\<close> on a value without \<open>BigInt\<close>. \<open>undefined\<close> gives the value \<open>undefined\<close>,
  which every caller interpolates into a template; inside an array it prints as \<open>null\<close>, and a
  property with that value is left out.
\<close>

fun json_print :: "json \<Rightarrow> string"
  and print_elems :: "json list \<Rightarrow> string list"
  and print_members :: "(string \<times> json) list \<Rightarrow> string list" where
  "json_print JUndef = ''undefined''"
| "json_print JNull = ''null''"
| "json_print (JBool b) = (if b then ''true'' else ''false'')"
| "json_print (JNum n) =
     (case n of NumNaN \<Rightarrow> ''null'' | NumInf _ \<Rightarrow> ''null'' | _ \<Rightarrow> num_print n)"
| "json_print (JBig i) = show_int i"
| "json_print (JStr s) = quote s"
| "json_print (JArr xs) = ''['' @ join '','' (print_elems xs) @ '']''"
| "json_print (JObj kvs) = ''{'' @ join '','' (print_members kvs) @ ''}''"
| "print_elems [] = []"
| "print_elems (x # xs) = (if x = JUndef then ''null'' else json_print x) # print_elems xs"
| "print_members [] = []"
| "print_members ((k, v) # kvs) =
     (if v = JUndef then print_members kvs
      else (quote k @ '':'' @ json_print v) # print_members kvs)"

text \<open>\<open>JSON.stringify\<close> throws exactly when it meets a \<open>BigInt\<close>, and it visits every part.\<close>

fun has_bigint :: "json \<Rightarrow> bool"
  and elems_bigint :: "json list \<Rightarrow> bool"
  and members_bigint :: "(string \<times> json) list \<Rightarrow> bool" where
  "has_bigint (JBig i) = True"
| "has_bigint (JArr xs) = elems_bigint xs"
| "has_bigint (JObj kvs) = members_bigint kvs"
| "has_bigint v = False"
| "elems_bigint [] = False"
| "elems_bigint (x # xs) = (has_bigint x \<or> elems_bigint xs)"
| "members_bigint [] = False"
| "members_bigint ((k, v) # kvs) = (has_bigint v \<or> members_bigint kvs)"

definition bigint_error :: message where
  "bigint_error = ''Do not know how to serialize a BigInt''"

definition json_stringify :: "json \<Rightarrow> string result" where
  "json_stringify v = (if has_bigint v then Inl bigint_error else Inr (json_print v))"

text \<open>
  \<open>String(value)\<close>. An object without its own \<open>toString\<close> prints as \<open>[object Object]\<close>; an array
  joins its elements, with \<open>null\<close> and \<open>undefined\<close> as empty strings.
\<close>

fun js_string :: "json \<Rightarrow> string"
  and string_elems :: "json list \<Rightarrow> string list" where
  "js_string JUndef = ''undefined''"
| "js_string JNull = ''null''"
| "js_string (JBool b) = (if b then ''true'' else ''false'')"
| "js_string (JNum n) = num_print n"
| "js_string (JBig i) = show_int i"
| "js_string (JStr s) = s"
| "js_string (JArr xs) = join '','' (string_elems xs)"
| "js_string (JObj kvs) = ''[object Object]''"
| "string_elems [] = []"
| "string_elems (x # xs) = (if is_null_or_undef x then [] else js_string x) # string_elems xs"

subsection \<open>Canonical printing: \<open>stableStringify\<close> and \<open>sortKeysDeep\<close>\<close>

text \<open>
  \<open>stableStringify\<close>. In an array, \<open>undefined\<close> becomes the empty string (\<open>Array.prototype.join\<close>);
  as a property it becomes the text \<open>undefined\<close> (template literal).
\<close>

fun stable_print :: "json \<Rightarrow> string"
  and stable_elems :: "json list \<Rightarrow> string list"
  and stable_members :: "(string \<times> json) list \<Rightarrow> (string \<times> string) list" where
  "stable_print (JArr xs) = ''['' @ join '','' (stable_elems xs) @ '']''"
| "stable_print (JObj kvs) =
     ''{'' @ join '','' (map snd (sort_key fst (stable_members kvs))) @ ''}''"
| "stable_print v = json_print v"
| "stable_elems [] = []"
| "stable_elems (x # xs) = (if x = JUndef then [] else stable_print x) # stable_elems xs"
| "stable_members [] = []"
| "stable_members ((k, v) # kvs) = (k, quote k @ '':'' @ stable_print v) # stable_members kvs"

definition stable_stringify :: "json \<Rightarrow> string result" where
  "stable_stringify v = (if has_bigint v then Inl bigint_error else Inr (stable_print v))"

text \<open>\<open>sortKeysDeep\<close>: rebuild every object by assigning its keys in sorted order.\<close>

fun sort_keys_deep :: "json \<Rightarrow> json"
  and sort_keys_elems :: "json list \<Rightarrow> json list"
  and sort_keys_members :: "(string \<times> json) list \<Rightarrow> (string \<times> json) list" where
  "sort_keys_deep (JArr xs) = JArr (sort_keys_elems xs)"
| "sort_keys_deep (JObj kvs) = JObj (assign_all (sort_key fst (sort_keys_members kvs)))"
| "sort_keys_deep v = v"
| "sort_keys_elems [] = []"
| "sort_keys_elems (x # xs) = sort_keys_deep x # sort_keys_elems xs"
| "sort_keys_members [] = []"
| "sort_keys_members ((k, v) # kvs) = (k, sort_keys_deep v) # sort_keys_members kvs"

end
