(* ===== verification/JSON_Canon.thy ===== *)
theory JSON_Canon
  imports JSON_Value
begin

text \<open>
  The normal form \<open>canon\<close> of a value sorts the keys of every object. Two values are the same JSON
  document up to the order of their keys exactly when their normal forms are equal. This theory
  shows that \<open>stable_print\<close> (\<open>stableStringify\<close>) and \<open>sort_keys_deep\<close> (\<open>sortKeysDeep\<close>) depend on the
  normal form only, and that on plain JSON data they are printing of the normal form.
\<close>

fun canon :: "json \<Rightarrow> json"
  and canon_elems :: "json list \<Rightarrow> json list"
  and canon_members :: "(string \<times> json) list \<Rightarrow> (string \<times> json) list" where
  "canon (JArr xs) = JArr (canon_elems xs)"
| "canon (JObj kvs) = JObj (sort_key fst (canon_members kvs))"
| "canon v = v"
| "canon_elems [] = []"
| "canon_elems (x # xs) = canon x # canon_elems xs"
| "canon_members [] = []"
| "canon_members ((k, v) # kvs) = (k, canon v) # canon_members kvs"

text \<open>Rebuilding every object with \<open>obj_set\<close>, as \<open>JSON.parse\<close> does.\<close>

fun reorder :: "json \<Rightarrow> json"
  and reorder_elems :: "json list \<Rightarrow> json list"
  and reorder_members :: "(string \<times> json) list \<Rightarrow> (string \<times> json) list" where
  "reorder (JArr xs) = JArr (reorder_elems xs)"
| "reorder (JObj kvs) = JObj (set_all (reorder_members kvs))"
| "reorder v = v"
| "reorder_elems [] = []"
| "reorder_elems (x # xs) = reorder x # reorder_elems xs"
| "reorder_members [] = []"
| "reorder_members ((k, v) # kvs) = (k, reorder v) # reorder_members kvs"

text \<open>
  Plain JSON data: what a JSON text denotes. Numbers are finite, in normal form and not negative
  zero, no \<open>undefined\<close> and no \<open>BigInt\<close> occurs, and the keys of an object are distinct.
\<close>

fun json_plain :: "json \<Rightarrow> bool"
  and plain_elems :: "json list \<Rightarrow> bool"
  and plain_members :: "(string \<times> json) list \<Rightarrow> bool" where
  "json_plain JNull = True"
| "json_plain (JBool b) = True"
| "json_plain (JStr s) = True"
| "json_plain (JNum n) = (case n of NumDec m e \<Rightarrow> dec_normal m e | _ \<Rightarrow> False)"
| "json_plain (JArr xs) = plain_elems xs"
| "json_plain (JObj kvs) = (distinct (map fst kvs) \<and> plain_members kvs)"
| "json_plain JUndef = False"
| "json_plain (JBig i) = False"
| "plain_elems [] = True"
| "plain_elems (x # xs) = (json_plain x \<and> plain_elems xs)"
| "plain_members [] = True"
| "plain_members ((k, v) # kvs) = (json_plain v \<and> plain_members kvs)"

text \<open>No property is named \<open>__proto__\<close>, and the keys of every object are distinct.\<close>

fun no_proto :: "json \<Rightarrow> bool"
  and no_proto_elems :: "json list \<Rightarrow> bool"
  and no_proto_members :: "(string \<times> json) list \<Rightarrow> bool" where
  "no_proto (JArr xs) = no_proto_elems xs"
| "no_proto (JObj kvs) = (distinct (map fst kvs) \<and> no_proto_members kvs)"
| "no_proto v = True"
| "no_proto_elems [] = True"
| "no_proto_elems (x # xs) = (no_proto x \<and> no_proto_elems xs)"
| "no_proto_members [] = True"
| "no_proto_members ((k, v) # kvs) = (k \<noteq> proto_key \<and> no_proto v \<and> no_proto_members kvs)"

subsection \<open>Pointwise readings of the member functions\<close>

lemma canon_elems_map: "canon_elems xs = map canon xs"
  by (induction xs) auto

lemma canon_members_map: "canon_members kvs = map_vals canon kvs"
  by (induction kvs) auto

lemma reorder_elems_map: "reorder_elems xs = map reorder xs"
  by (induction xs) auto

lemma reorder_members_map: "reorder_members kvs = map_vals reorder kvs"
  by (induction kvs) auto

lemma sort_keys_elems_map: "sort_keys_elems xs = map sort_keys_deep xs"
  by (induction xs) auto

lemma sort_keys_members_map: "sort_keys_members kvs = map_vals sort_keys_deep kvs"
  by (induction kvs) auto

lemma stable_elems_map:
  "stable_elems xs = map (\<lambda>x. if x = JUndef then [] else stable_print x) xs"
  by (induction xs) auto

lemma stable_members_map:
  "stable_members kvs = map (\<lambda>p. (fst p, quote (fst p) @ '':'' @ stable_print (snd p))) kvs"
  by (induction kvs) auto

lemma plain_elems_all: "plain_elems xs = (\<forall>x \<in> set xs. json_plain x)"
  by (induction xs) auto

lemma plain_members_all: "plain_members kvs = (\<forall>p \<in> set kvs. json_plain (snd p))"
  by (induction kvs) auto

lemma no_proto_elems_all: "no_proto_elems xs = (\<forall>x \<in> set xs. no_proto x)"
  by (induction xs) auto

lemma no_proto_members_all:
  "no_proto_members kvs = (\<forall>p \<in> set kvs. fst p \<noteq> proto_key \<and> no_proto (snd p))"
  by (induction kvs) auto

lemmas member_maps =
  canon_elems_map canon_members_map reorder_elems_map reorder_members_map
  sort_keys_elems_map sort_keys_members_map stable_elems_map stable_members_map

lemma sort_key_idem [simp]: "sort_key f (sort_key f xs) = sort_key f xs"
  by (simp add: sort_key_id_if_sorted)

text \<open>An induction rule whose object and array cases speak of all members at once.\<close>

lemma json_members_induct [case_names Undef Null Bool Num Big Str Arr Obj]:
  assumes "P JUndef" "P JNull" "\<And>b. P (JBool b)" "\<And>n. P (JNum n)" "\<And>i. P (JBig i)"
    "\<And>s. P (JStr s)"
    and "\<And>xs. (\<And>x. x \<in> set xs \<Longrightarrow> P x) \<Longrightarrow> P (JArr xs)"
    and "\<And>kvs. (\<And>p. p \<in> set kvs \<Longrightarrow> P (snd p)) \<Longrightarrow> P (JObj kvs)"
  shows "P v"
proof (induction v rule: json.induct)
  case (JObj kvs)
  have "P (snd p)" if "p \<in> set kvs" for p
    using JObj that by (cases p) (auto simp: Basic_BNFs.snds.simps)
  then show ?case by (rule assms(8))
qed (use assms in auto)

subsection \<open>The normal form\<close>

lemma canon_eq_JUndef [simp]: "canon v = JUndef \<longleftrightarrow> v = JUndef"
  by (cases v) auto

lemma canon_idem [simp]: "canon (canon v) = canon v"
proof (induction v rule: json_members_induct)
  case (Arr xs)
  then show ?case by (simp add: member_maps)
next
  case (Obj kvs)
  then have "map_vals (\<lambda>v. canon (canon v)) (sort_key fst kvs) = map_vals canon (sort_key fst kvs)"
    by (intro map_vals_cong) simp
  then show ?case by (simp add: member_maps del: sort_key_map_vals flip: sort_key_map_vals)
qed simp_all

lemma plain_canon [simp]: "json_plain v \<Longrightarrow> json_plain (canon v)"
proof (induction v rule: json_members_induct)
  case (Arr xs)
  then show ?case by (simp add: member_maps plain_elems_all)
next
  case (Obj kvs)
  have "distinct (map fst (sort_key fst kvs))"
    using Obj.prems by (metis json_plain.simps(6) mset_eq_imp_distinct_iff mset_map mset_sort)
  with Obj show ?case by (auto simp: member_maps plain_members_all set_map_vals)
qed simp_all

lemma canon_members_perm:
  assumes "mset xs = mset ys" and "distinct (map fst xs)"
  shows "canon (JObj xs) = canon (JObj ys)"
  using assms by (simp add: canon_members_map sort_key_distinct_eq)

lemma canon_set_all:
  "distinct (map fst kvs) \<Longrightarrow> canon (JObj (set_all kvs)) = canon (JObj kvs)"
  by (rule canon_members_perm [symmetric]) (simp_all add: mset_set_all)

lemma canon_reorder: "json_plain v \<or> no_proto v \<Longrightarrow> canon (reorder v) = canon v"
proof (induction v rule: json_members_induct)
  case (Arr xs)
  then show ?case
    by (auto simp: member_maps plain_elems_all no_proto_elems_all)
next
  case (Obj kvs)
  have d: "distinct (map fst (reorder_members kvs))"
    using Obj.prems by (auto simp only: reorder_members_map map_fst_map_vals
      json_plain.simps no_proto.simps)
  have vals: "map_vals (\<lambda>v. canon (reorder v)) kvs = map_vals canon kvs"
    using Obj by (intro map_vals_cong) (auto simp: plain_members_all no_proto_members_all)
  have "canon (reorder (JObj kvs)) = canon (JObj (reorder_members kvs))"
    using canon_set_all [OF d] by simp
  also have "\<dots> = canon (JObj kvs)"
    by (simp add: canon_members_map reorder_members_map vals
        del: sort_key_map_vals)
  finally show ?case .
qed simp_all

subsection \<open>Canonical printing and sorting depend on the normal form only\<close>

lemma insort_key_entry_map:
  "map (\<lambda>p. (fst p, h p)) (insort_key fst p kvs) =
   insort_key fst (fst p, h p) (map (\<lambda>p. (fst p, h p)) kvs)"
  by (induction kvs) auto

lemma sort_key_entry_map:
  "sort_key fst (map (\<lambda>p. (fst p, h p)) kvs) = map (\<lambda>p. (fst p, h p)) (sort_key fst kvs)"
  by (induction kvs) (simp_all add: insort_key_entry_map)

lemma stable_print_obj:
  "stable_print (JObj kvs) =
     ''{'' @ join '','' (map (\<lambda>p. quote (fst p) @ '':'' @ stable_print (snd p)) (sort_key fst kvs)) @ ''}''"
  by (simp add: stable_members_map sort_key_entry_map comp_def)

lemma stable_print_canon [simp]: "stable_print (canon v) = stable_print v"
proof (induction v rule: json_members_induct)
  case (Arr xs)
  then show ?case
    by (auto simp: member_maps intro!: arg_cong [where f = "join _"])
next
  case (Obj kvs)
  have "stable_print (canon (JObj kvs)) = ''{'' @ join '',''
     (map (\<lambda>p. quote (fst p) @ '':'' @ stable_print (canon (snd p))) (sort_key fst kvs)) @ ''}''"
    by (simp add: canon_members_map stable_print_obj sort_key_entry_map map_vals_def comp_def
        del: stable_print.simps)
  also have "\<dots> = stable_print (JObj kvs)"
    using Obj by (auto simp: stable_print_obj simp del: stable_print.simps
      intro!: arg_cong [where f = "join _"])
  finally show ?case .
qed simp_all

lemma print_elems_map:
  "print_elems xs = map (\<lambda>x. if x = JUndef then ''null'' else json_print x) xs"
  by (induction xs) auto

lemma print_members_plain:
  "(\<And>p. p \<in> set kvs \<Longrightarrow> snd p \<noteq> JUndef) \<Longrightarrow>
   print_members kvs = map (\<lambda>p. quote (fst p) @ '':'' @ json_print (snd p)) kvs"
proof (induction kvs)
  case Nil
  then show ?case by simp
next
  case (Cons p kvs)
  have "snd p \<noteq> JUndef" using Cons.prems by simp
  with Cons show ?case by (cases p) simp
qed

lemma plain_not_undef: "json_plain v \<Longrightarrow> v \<noteq> JUndef"
  by auto

lemma stable_print_plain: "json_plain v \<Longrightarrow> stable_print v = json_print (canon v)"
proof (induction v rule: json_members_induct)
  case (Arr xs)
  then show ?case
    by (auto simp: member_maps plain_elems_all print_elems_map dest: plain_not_undef
      intro!: arg_cong [where f = "join _"])
next
  case (Obj kvs)
  then have plain: "\<And>p. p \<in> set kvs \<Longrightarrow> json_plain (snd p)"
    by (simp add: plain_members_all)
  have nu: "\<And>k x. (k, x) \<in> set kvs \<Longrightarrow> x \<noteq> JUndef"
    using plain by (metis json_plain.simps(7) snd_conv)
  have "print_members (map_vals canon (sort_key fst kvs))
      = map (\<lambda>p. quote (fst p) @ '':'' @ json_print (snd p)) (map_vals canon (sort_key fst kvs))"
    by (intro print_members_plain) (auto simp: set_map_vals dest: nu)
  also have "\<dots> = map (\<lambda>p. quote (fst p) @ '':'' @ stable_print (snd p)) (sort_key fst kvs)"
    using Obj.IH plain by (simp add: map_vals_def)
  finally show ?case by (simp add: canon_members_map stable_print_obj del: stable_print.simps)
qed simp_all

lemma sort_keys_deep_canon [simp]: "sort_keys_deep (canon v) = sort_keys_deep v"
proof (induction v rule: json_members_induct)
  case (Arr xs)
  then show ?case by (simp add: member_maps)
next
  case (Obj kvs)
  then have "map_vals (\<lambda>v. sort_keys_deep (canon v)) (sort_key fst kvs)
      = map_vals sort_keys_deep (sort_key fst kvs)"
    by (intro map_vals_cong) simp
  then show ?case by (simp add: member_maps)
qed simp_all

lemma sort_keys_deep_reorder: "no_proto v \<Longrightarrow> sort_keys_deep v = reorder (canon v)"
proof (induction v rule: json_members_induct)
  case (Arr xs)
  then show ?case by (simp add: member_maps no_proto_elems_all)
next
  case (Obj kvs)
  then have members: "\<And>p. p \<in> set kvs \<Longrightarrow> fst p \<noteq> proto_key \<and> no_proto (snd p)"
    by (simp add: no_proto_members_all)
  then have "map_vals sort_keys_deep (sort_key fst kvs)
      = map_vals (\<lambda>v. reorder (canon v)) (sort_key fst kvs)"
    using Obj.IH by (intro map_vals_cong) simp
  moreover have "proto_key \<notin> fst ` set (map_vals sort_keys_deep (sort_key fst kvs))"
    using members by (metis (no_types, lifting) fst_set_map_vals imageE set_sort)
  ultimately show ?case
    by (simp add: member_maps assign_all_no_proto)
qed simp_all

lemma canon_sort_keys_deep: "no_proto v \<Longrightarrow> canon (sort_keys_deep v) = canon v"
proof -
  assume v: "no_proto v"
  have "no_proto v \<Longrightarrow> no_proto (canon v)"
  proof (induction v rule: json_members_induct)
    case (Arr xs)
    then show ?case by (simp add: member_maps no_proto_elems_all)
  next
    case (Obj kvs)
    have "distinct (map fst (sort_key fst kvs))"
      using Obj.prems by (metis no_proto.simps(2) mset_eq_imp_distinct_iff mset_map mset_sort)
    with Obj show ?case by (auto simp: member_maps no_proto_members_all set_map_vals)
  qed simp_all
  with v show ?thesis by (simp add: sort_keys_deep_reorder canon_reorder)
qed

lemmas canon_only = stable_print_canon sort_keys_deep_canon

lemma same_canon_same_stable_print: "canon a = canon b \<Longrightarrow> stable_print a = stable_print b"
  by (metis stable_print_canon)

lemma same_canon_same_sorted: "canon a = canon b \<Longrightarrow> sort_keys_deep a = sort_keys_deep b"
  by (metis sort_keys_deep_canon)

text \<open>Neither function can tell a value with a \<open>BigInt\<close> from one without by reordering.\<close>

lemma elems_bigint_ex: "elems_bigint xs = (\<exists>x \<in> set xs. has_bigint x)"
  by (induction xs) auto

lemma members_bigint_ex: "members_bigint kvs = (\<exists>p \<in> set kvs. has_bigint (snd p))"
  by (induction kvs) auto

lemma has_bigint_canon [simp]: "has_bigint (canon v) = has_bigint v"
proof (induction v rule: json_members_induct)
  case (Obj kvs)
  then show ?case by (simp add: member_maps members_bigint_ex set_map_vals)
qed (simp_all add: member_maps elems_bigint_ex)

lemma plain_no_bigint [simp]: "json_plain v \<Longrightarrow> \<not> has_bigint v"
proof (induction v rule: json_members_induct)
  case (Obj kvs)
  then show ?case by (auto simp: plain_members_all members_bigint_ex)
qed (auto simp: plain_elems_all elems_bigint_ex)

subsection \<open>Fields of a normal form\<close>

lemma map_of_sort_key_fst:
  assumes "distinct (map fst kvs)"
  shows "map_of (sort_key fst kvs) = map_of kvs"
proof (rule map_of_eqI)
  show "set (map fst (sort_key fst kvs)) = set (map fst kvs)" by simp
  show "\<forall>k \<in> set (map fst (sort_key fst kvs)). map_of (sort_key fst kvs) k = map_of kvs k"
  proof
    fix k assume "k \<in> set (map fst (sort_key fst kvs))"
    then obtain v where "(k, v) \<in> set kvs" by auto
    moreover have "distinct (map fst (sort_key fst kvs))"
      using assms by (metis distinct_map distinct_sort mset_eq_imp_distinct_iff mset_map mset_sort)
    ultimately show "map_of (sort_key fst kvs) k = map_of kvs k"
      using assms by simp
  qed
qed

lemma fld_canon:
  assumes "json_plain v"
  shows "fld (canon v) k = canon (fld v k)"
proof (cases v)
  case (JObj kvs)
  then have "distinct (map fst (map_vals canon kvs))" using assms by simp
  from map_of_sort_key_fst [OF this] show ?thesis
    by (simp add: JObj canon_members_map fld_def split: option.split)
qed (simp_all add: fld_def)

lemma canon_eq_fld:
  "canon a = canon b \<Longrightarrow> json_plain a \<Longrightarrow> json_plain b \<Longrightarrow> canon (fld a k) = canon (fld b k)"
  by (metis fld_canon)

lemma canon_map_JStr [simp]: "canon_elems (map JStr ts) = map JStr ts"
  by (induction ts) simp_all

end
