(* ===== verification/JSON_Text.thy ===== *)
theory JSON_Text
  imports JSON_Canon
begin

text \<open>
  \<open>JSON.parse\<close>: a recursive-descent parser for JSON texts over strings of Latin-1 code units, and
  its round trip with \<open>JSON.stringify\<close>. A numeral denotes its exact decimal value (a numeral with
  more digits than a double keeps would be rounded by the real parser; \<open>JSON.stringify\<close> never
  writes one). An escape above code unit 255 is outside the string model and is rejected.

  The parser takes fuel; every call of \<open>json_parse\<close> supplies twice the length of the text plus two, and
  \<open>parse_fuel_enough\<close> shows that more fuel never changes the answer.
\<close>

definition json_ws :: "char \<Rightarrow> bool" where
  "json_ws c = (code c \<in> {9, 10, 13, 32})"

definition skip_ws :: "string \<Rightarrow> string" where
  "skip_ws s = dropWhile json_ws s"

fun hex_val :: "char \<Rightarrow> nat option" where
  "hex_val c =
     (if is_digit c then Some (code c - 48)
      else if 97 \<le> code c \<and> code c \<le> 102 then Some (code c - 87)
      else if 65 \<le> code c \<and> code c \<le> 70 then Some (code c - 55)
      else None)"

definition unescape :: "char \<Rightarrow> char option" where
  "unescape c =
     (if code c \<in> {34, 92, 47} then Some c
      else if code c = 98 then Some (char_of (8::nat))
      else if code c = 102 then Some (char_of (12::nat))
      else if code c = 110 then Some (char_of (10::nat))
      else if code c = 114 then Some (char_of (13::nat))
      else if code c = 116 then Some (char_of (9::nat))
      else None)"

text \<open>
  One step inside a string literal: \<open>None\<close> on a malformed literal, \<open>Some (None, r)\<close> at the closing
  quote, \<open>Some (Some c, r)\<close> for a character.
\<close>

definition parse_escape :: "string \<Rightarrow> (char option \<times> string) option" where
  "parse_escape s =
     (case s of
        [] \<Rightarrow> None
      | d # r \<Rightarrow>
          if code d = 117 then
            (case r of
              h1 # h2 # h3 # h4 # r' \<Rightarrow>
                (case (hex_val h1, hex_val h2, hex_val h3, hex_val h4) of
                  (Some a1, Some a2, Some a3, Some a4) \<Rightarrow>
                    if a1 = 0 \<and> a2 = 0 then Some (Some (char_of (16 * a3 + a4)), r') else None
                | _ \<Rightarrow> None)
            | _ \<Rightarrow> None)
          else map_option (\<lambda>x. (Some x, r)) (unescape d))"

definition next_char :: "string \<Rightarrow> (char option \<times> string) option" where
  "next_char s =
     (case s of
        [] \<Rightarrow> None
      | c # r \<Rightarrow>
          if code c = 34 then Some (None, r)
          else if code c < 32 then None
          else if code c \<noteq> 92 then Some (Some c, r)
          else parse_escape r)"

lemma parse_escape_length: "parse_escape s = Some (x, r) \<Longrightarrow> length r < length s"
  by (auto simp: parse_escape_def simp del: hex_val.simps split: list.splits if_splits option.splits)

lemma next_char_length: "next_char s = Some (x, r) \<Longrightarrow> length r < length s"
  by (auto simp: next_char_def dest: parse_escape_length split: list.splits if_splits)

text \<open>The characters of a string literal, after its opening quote, up to and with the closing one.\<close>

function (sequential) parse_chars :: "string \<Rightarrow> (string \<times> string) option" where
  "parse_chars s =
     (case next_char s of
        None \<Rightarrow> None
      | Some (None, r) \<Rightarrow> Some ([], r)
      | Some (Some c, r) \<Rightarrow> map_option (\<lambda>(x, r'). (c # x, r')) (parse_chars r))"
  by pat_completeness auto
termination
  by (relation "measure length") (auto dest: next_char_length)

declare parse_chars.simps [simp del]

text \<open>
  A numeral: optional minus, an integer part without leading zeros, optional fraction, optional
  exponent. The value is the integer of all its digits, scaled by the fraction and the exponent.
\<close>

definition span_digits :: "string \<Rightarrow> string \<times> string" where
  "span_digits s = (takeWhile is_digit s, dropWhile is_digit s)"

definition parse_exp :: "string \<Rightarrow> (int \<times> string) option" where
  "parse_exp s =
     (case s of
        c # r \<Rightarrow>
          if code c = 101 \<or> code c = 69 then
            (let (neg, r1) = (case r of
                   d # r' \<Rightarrow> if code d = 45 then (True, r') else if code d = 43 then (False, r')
                             else (False, r)
                 | [] \<Rightarrow> (False, []));
                 (ds, r2) = span_digits r1
             in if ds = [] then None
                else Some ((if neg then - int (nat_of_digits ds) else int (nat_of_digits ds)), r2))
          else Some (0, s)
      | [] \<Rightarrow> Some (0, s))"

definition parse_frac :: "string \<Rightarrow> (string \<times> string) option" where
  "parse_frac s =
     (case s of
        c # r \<Rightarrow>
          if code c = 46 then
            (let (ds, r1) = span_digits r in if ds = [] then None else Some (ds, r1))
          else Some ([], s)
      | [] \<Rightarrow> Some ([], s))"

definition parse_unum :: "string \<Rightarrow> (nat \<times> int \<times> string) option" where
  "parse_unum s =
     (let (ip, s2) = span_digits s
      in if ip = [] \<or> (1 < length ip \<and> hd ip = CHR ''0'') then None
         else (case parse_frac s2 of
             None \<Rightarrow> None
           | Some (fp, s3) \<Rightarrow>
               (case parse_exp s3 of
                  None \<Rightarrow> None
                | Some (x, s4) \<Rightarrow> Some (nat_of_digits (ip @ fp), x - int (length fp), s4))))"

definition parse_num :: "string \<Rightarrow> (jsnum \<times> string) option" where
  "parse_num s =
     (let neg = (s \<noteq> [] \<and> code (hd s) = 45)
      in (case parse_unum (if neg then tl s else s) of
            None \<Rightarrow> None
          | Some (m, x, r) \<Rightarrow>
              Some (if neg \<and> m = 0 then NumNegZero
                    else norm_dec (if neg then - int m else int m) x, r)))"

definition literal :: "string \<Rightarrow> json \<Rightarrow> string \<Rightarrow> (json \<times> string) option" where
  "literal w v s = (if starts_with w s then Some (v, drop (length w) s) else None)"

text \<open>
  \<open>parse_value\<close> reads one value at the head of the text (white space already skipped);
  \<open>parse_elems\<close> the elements after the first and the closing bracket; \<open>parse_members\<close> one member
  and what follows it.
\<close>

fun parse_value :: "nat \<Rightarrow> string \<Rightarrow> (json \<times> string) option"
  and parse_elems :: "nat \<Rightarrow> string \<Rightarrow> (json list \<times> string) option"
  and parse_members :: "nat \<Rightarrow> string \<Rightarrow> ((string \<times> json) list \<times> string) option" where
  "parse_value 0 s = None"
| "parse_value (Suc f) [] = None"
| "parse_value (Suc f) (c # r) =
     (if code c = 34 then map_option (\<lambda>(s, r'). (JStr s, r')) (parse_chars r)
      else if code c = 91 then
        (case skip_ws r of
           d # r1 \<Rightarrow>
             if code d = 93 then Some (JArr [], r1)
             else map_option (\<lambda>(xs, r'). (JArr xs, r')) (parse_elems f (d # r1))
         | [] \<Rightarrow> None)
      else if code c = 123 then
        (case skip_ws r of
           d # r1 \<Rightarrow>
             if code d = 125 then Some (JObj [], r1)
             else map_option (\<lambda>(kvs, r'). (JObj (set_all kvs), r')) (parse_members f (d # r1))
         | [] \<Rightarrow> None)
      else if c = CHR ''t'' then literal ''true'' (JBool True) (c # r)
      else if c = CHR ''f'' then literal ''false'' (JBool False) (c # r)
      else if c = CHR ''n'' then literal ''null'' JNull (c # r)
      else map_option (\<lambda>(n, r'). (JNum n, r')) (parse_num (c # r)))"
| "parse_elems 0 s = None"
| "parse_elems (Suc f) s =
     (case parse_value f (skip_ws s) of
        None \<Rightarrow> None
      | Some (v, r) \<Rightarrow>
          (case skip_ws r of
             d # r1 \<Rightarrow>
               if code d = 93 then Some ([v], r1)
               else if code d = 44 then map_option (\<lambda>(vs, r'). (v # vs, r')) (parse_elems f r1)
               else None
           | [] \<Rightarrow> None))"
| "parse_members 0 s = None"
| "parse_members (Suc f) s =
     (case skip_ws s of
        q # r0 \<Rightarrow>
          if code q \<noteq> 34 then None
          else (case parse_chars r0 of
              None \<Rightarrow> None
            | Some (k, r) \<Rightarrow>
                (case skip_ws r of
                   d # r1 \<Rightarrow>
                     if code d \<noteq> 58 then None
                     else (case parse_value f (skip_ws r1) of
                         None \<Rightarrow> None
                       | Some (v, r2) \<Rightarrow>
                           (case skip_ws r2 of
                              e # r3 \<Rightarrow>
                                if code e = 125 then Some ([(k, v)], r3)
                                else if code e = 44 then
                                  map_option (\<lambda>(kvs, r'). ((k, v) # kvs, r')) (parse_members f r3)
                                else None
                            | [] \<Rightarrow> None))
                 | [] \<Rightarrow> None))
      | [] \<Rightarrow> None)"

definition json_parse :: "string \<Rightarrow> json option" where
  "json_parse s =
     (case parse_value (2 * length s + 2) (skip_ws s) of
        Some (v, r) \<Rightarrow> if skip_ws r = [] then Some v else None
      | None \<Rightarrow> None)"

subsection \<open>What the parsers leave is shorter\<close>

lemma skip_ws_length [simp]: "length (skip_ws s) \<le> length s"
  by (simp add: skip_ws_def length_dropWhile_le)

lemma skip_ws_Cons_length: "skip_ws s = c # r \<Longrightarrow> length r < length s"
  by (metis Suc_le_eq length_Cons skip_ws_length)

lemma parse_chars_SomeE:
  assumes "parse_chars s = Some (x, r)"
  obtains "next_char s = Some (None, r)" "x = []"
  | c s' y where "next_char s = Some (Some c, s')" "parse_chars s' = Some (y, r)" "x = c # y"
  using assms by (subst (asm) parse_chars.simps) (auto split: option.splits)

lemma parse_chars_length: "parse_chars s = Some (x, r) \<Longrightarrow> length r < length s"
proof (induction s arbitrary: x r rule: parse_chars.induct)
  case (1 s)
  from "1.prems" show ?case
  proof (cases rule: parse_chars_SomeE)
    case 1
    then show ?thesis by (simp add: next_char_length)
  next
    case (2 c s' y)
    then have "length r < length s'" using "1.IH" by blast
    then show ?thesis using next_char_length [OF 2(1)] by simp
  qed
qed

lemma span_digits_length: "span_digits s = (ds, r) \<Longrightarrow> length s = length ds + length r"
  by (metis length_append prod.inject span_digits_def takeWhile_dropWhile_id)

lemma parse_exp_length: "parse_exp s = Some (x, r) \<Longrightarrow> length r \<le> length s"
  by (auto simp: parse_exp_def span_digits_def Let_def split: list.splits if_splits
      intro: le_SucI order_trans [OF length_dropWhile_le])

lemma parse_frac_length: "parse_frac s = Some (x, r) \<Longrightarrow> length r \<le> length s"
  by (auto simp: parse_frac_def span_digits_def Let_def split: list.splits if_splits
      intro: le_SucI order_trans [OF length_dropWhile_le])

lemma parse_unum_length: "parse_unum s = Some (m, x, r) \<Longrightarrow> length r < length s"
proof -
  assume p: "parse_unum s = Some (m, x, r)"
  obtain ip s2 where sp: "span_digits s = (ip, s2)" by (cases "span_digits s")
  with p obtain fp s3 x' where "ip \<noteq> []" "parse_frac s2 = Some (fp, s3)" "parse_exp s3 = Some (x', r)"
    by (auto simp: parse_unum_def split: if_splits option.splits)
  then show ?thesis
    using span_digits_length [OF sp] parse_frac_length [of s2 fp s3] parse_exp_length [of s3 x' r]
    by (cases ip) simp_all
qed

lemma parse_num_length: "parse_num s = Some (v, r) \<Longrightarrow> length r < length s"
  by (cases s) (auto simp: parse_num_def Let_def split: if_splits option.splits
      dest!: parse_unum_length)

lemma literal_length: "literal w v s = Some (x, r) \<Longrightarrow> w \<noteq> [] \<Longrightarrow> s \<noteq> [] \<Longrightarrow> length r < length s"
  by (auto simp: literal_def split: if_splits)

lemma parse_length:
  "parse_value f s = Some (v, r) \<Longrightarrow> length r < length s"
  "parse_elems f s = Some (vs, r) \<Longrightarrow> length r < length s"
  "parse_members f s = Some (kvs, r) \<Longrightarrow> length r < length s"
proof (induction f s and f s and f s arbitrary: v r and vs r and kvs r
    rule: parse_value_parse_elems_parse_members.induct)
  case (3 f c t)
  show ?case
  proof (cases "code c = 91 \<or> code c = 123")
    case False
    with "3.prems" show ?thesis
      by (auto split: if_splits dest!: parse_chars_length parse_num_length literal_length)
  next
    case True
    with "3.prems" obtain d t1 where skip: "skip_ws t = d # t1"
      by (auto split: list.splits if_splits)
    note len = skip_ws_Cons_length [OF skip]
    have "length r < length (d # t1)" if "parse_elems f (d # t1) = Some (a, r)" "code d \<noteq> 93" "code c = 91" for a
      using that skip by (intro "3.IH"(1)) simp_all
    moreover have "length r < length (d # t1)"
      if "parse_members f (d # t1) = Some (a, r)" "code d \<noteq> 125" "code c = 123" for a
      using that skip by (intro "3.IH"(2)) simp_all
    ultimately show ?thesis
      using "3.prems" True skip len by (auto split: if_splits)
  qed
next
  case (5 f s)
  from "5.prems" obtain w r0 where w: "parse_value f (skip_ws s) = Some (w, r0)"
    by (auto split: option.splits)
  with "5.prems" obtain d r1 where d: "skip_ws r0 = d # r1"
    by (auto split: list.splits)
  have "length r0 < length s"
    using "5.IH"(1) [OF w] skip_ws_length [of s] by linarith
  moreover note skip_ws_Cons_length [OF d]
  moreover have "length r < length r1" if "parse_elems f r1 = Some (a, r)" "code d = 44" for a
    using that w d by (intro "5.IH"(2)) simp_all
  ultimately show ?case
    using "5.prems" w d by (auto split: if_splits)
next
  case (7 f s)
  from "7.prems" obtain q r0 where q: "skip_ws s = q # r0" "code q = 34"
    by (auto split: list.splits if_splits)
  with "7.prems" obtain k r1 where k: "parse_chars r0 = Some (k, r1)"
    by (auto split: option.splits)
  with q "7.prems" obtain d r2 where d: "skip_ws r1 = d # r2" "code d = 58"
    by (auto split: list.splits if_splits)
  with q k "7.prems" obtain w r3 where w: "parse_value f (skip_ws r2) = Some (w, r3)"
    by (auto split: option.splits)
  with q k d "7.prems" obtain e r4 where e: "skip_ws r3 = e # r4"
    by (auto split: list.splits)
  have "length r3 < length (skip_ws r2)"
    using q k d w by (intro "7.IH"(1)) simp_all
  then have "length r4 < length s"
    using skip_ws_Cons_length [OF q(1)] parse_chars_length [OF k] skip_ws_Cons_length [OF d(1)]
      skip_ws_Cons_length [OF e] skip_ws_length [of r2] by linarith
  moreover have "length r < length r4" if "parse_members f r4 = Some (a, r)" "code e = 44" for a
    using that q k d w e by (intro "7.IH"(2)) simp_all
  ultimately show ?case
    using "7.prems" q k d w e by (auto split: if_splits)
qed simp_all

subsection \<open>Fuel\<close>

lemma skip_ws_idem [simp]: "skip_ws (skip_ws s) = skip_ws s"
  by (simp add: skip_ws_def)

lemma skip_ws_same_or_shorter: "skip_ws s = s \<or> length (skip_ws s) < length s"
  by (cases s) (auto simp: skip_ws_def length_dropWhile_le less_Suc_eq_le)

lemma parse_fuel:
  "(\<forall>f g. 2 * length s + 1 \<le> f \<longrightarrow> 2 * length s + 1 \<le> g \<longrightarrow> parse_value f s = parse_value g s) \<and>
   (\<forall>f g. 2 * length s + 2 \<le> f \<longrightarrow> 2 * length s + 2 \<le> g \<longrightarrow> parse_elems f s = parse_elems g s) \<and>
   (\<forall>f g. 2 * length s + 2 \<le> f \<longrightarrow> 2 * length s + 2 \<le> g \<longrightarrow> parse_members f s = parse_members g s)"
proof (induction s rule: measure_induct_rule [of length])
  case (less s)
  have V: "parse_value f t = parse_value g t"
    if "length t < length s" "2 * length t + 1 \<le> f" "2 * length t + 1 \<le> g" for f g t
    using less that by blast
  have E: "parse_elems f t = parse_elems g t"
    if "length t < length s" "2 * length t + 2 \<le> f" "2 * length t + 2 \<le> g" for f g t
    using less that by blast
  have M: "parse_members f t = parse_members g t"
    if "length t < length s" "2 * length t + 2 \<le> f" "2 * length t + 2 \<le> g" for f g t
    using less that by blast
  have value_eq: "parse_value f s = parse_value g s"
    if fuel: "2 * length s + 1 \<le> f" "2 * length s + 1 \<le> g" for f g
  proof (cases s)
    case Nil
    with fuel show ?thesis by (cases f; cases g) simp_all
  next
    case (Cons c r)
    obtain f' g' where fg: "f = Suc f'" "g = Suc g'"
      using fuel by (cases f; cases g) auto
    have "2 * length r + 2 \<le> f'" "2 * length r + 2 \<le> g'" "length s = Suc (length r)"
      using fuel by (simp_all add: Cons fg)
    then have len: "length (skip_ws r) < length s" "2 * length (skip_ws r) + 2 \<le> f'"
      "2 * length (skip_ws r) + 2 \<le> g'"
      using skip_ws_length [of r] by linarith+
    then have "parse_elems f' (skip_ws r) = parse_elems g' (skip_ws r)"
      "parse_members f' (skip_ws r) = parse_members g' (skip_ws r)"
      by (auto intro: E M)
    then show ?thesis unfolding Cons fg by (cases "skip_ws r") simp_all
  qed
  have head: "parse_value f (skip_ws s) = parse_value g (skip_ws s)"
    if "2 * length s + 1 \<le> f" "2 * length s + 1 \<le> g" for f g
    using skip_ws_same_or_shorter [of s] that value_eq [of f g] V [of "skip_ws s" f g] by fastforce
  have elems: "parse_elems f s = parse_elems g s"
    if fuel: "2 * length s + 2 \<le> f" "2 * length s + 2 \<le> g" for f g
  proof -
    obtain f' g' where fg: "f = Suc f'" "g = Suc g'"
      using fuel by (cases f; cases g) auto
    have rest: "parse_elems f' r1 = parse_elems g' r1"
      if "parse_value g' (skip_ws s) = Some (v, r)" "skip_ws r = d # r1" for v r d r1
    proof (rule E)
      have "length r1 < length s"
        using skip_ws_Cons_length [OF that(2)] parse_length(1) [OF that(1)] skip_ws_length [of s]
        by linarith
      then show "length r1 < length s" "2 * length r1 + 2 \<le> f'" "2 * length r1 + 2 \<le> g'"
        using \<open>2 * length s + 2 \<le> f\<close> \<open>2 * length s + 2 \<le> g\<close> fg by simp_all
    qed
    have "parse_value f' (skip_ws s) = parse_value g' (skip_ws s)"
      using fuel fg by (intro head) simp_all
    then show ?thesis
      unfolding fg by (auto split: option.split list.split simp: rest)
  qed
  have members: "parse_members f s = parse_members g s"
    if fuel: "2 * length s + 2 \<le> f" "2 * length s + 2 \<le> g" for f g
  proof -
    obtain f' g' where fg: "f = Suc f'" "g = Suc g'"
      using fuel by (cases f; cases g) auto
    have val: "parse_value f' (skip_ws t) = parse_value g' (skip_ws t)"
      if "length t < length s" for t
      using that fuel fg skip_ws_length [of t] by (intro V) linarith+
    have short: "length r2 < length s"
      if "skip_ws s = q # r0" "parse_chars r0 = Some (k, r1)" "skip_ws r1 = d # r2" for q r0 k r1 d r2
      using skip_ws_Cons_length [OF that(1)] parse_chars_length [OF that(2)]
        skip_ws_Cons_length [OF that(3)] by linarith
    have rest: "parse_members f' r4 = parse_members g' r4"
      if "length r2 < length s" "parse_value g' (skip_ws r2) = Some (v, r3)" "skip_ws r3 = e # r4"
      for r2 v r3 e r4
    proof (rule M)
      have "length r4 < length s"
        using skip_ws_Cons_length [OF that(3)] parse_length(1) [OF that(2)] skip_ws_length [of r2] that(1)
        by linarith
      then show "length r4 < length s" "2 * length r4 + 2 \<le> f'" "2 * length r4 + 2 \<le> g'"
        using fuel fg by simp_all
    qed
    show ?thesis
      unfolding fg
      by (auto split: option.split list.split simp: val [OF short] rest [OF short])
  qed
  from value_eq elems members show ?case by blast
qed

text \<open>\<open>json_parse\<close> gives the parser all the fuel it can use.\<close>

lemma parse_fuel_enough:
  assumes "2 * length s + 2 \<le> f"
  shows "parse_value f (skip_ws s) = parse_value (2 * length s + 2) (skip_ws s)"
proof -
  have "2 * length (skip_ws s) + 1 \<le> 2 * length s + 2"
    using skip_ws_length [of s] by linarith
  moreover from this have "2 * length (skip_ws s) + 1 \<le> f" using assms by simp
  ultimately show ?thesis using parse_fuel [of "skip_ws s"] by blast
qed

subsection \<open>Round trip\<close>

text \<open>String literals.\<close>

lemma char_of_nat_code: "char_of (code c) = c"
  by simp

lemma hex_val_digit: "d < 16 \<Longrightarrow> hex_val (digit d) = Some d"
  by (simp add: code_digit is_digit_def)

lemma next_char_esc:
  "next_char (esc_char c @ r) = Some (Some c, r)"
proof -
  have c: "char_of n = c" if "code c = n" for n :: nat using that by auto
  have hex: "hex_val (digit d) = Some d" if "d < 16" for d using that by (rule hex_val_digit)
  have bound: "code c div 16 < 16" "code c mod 16 < 16" "16 * (code c div 16) + code c mod 16 = code c"
    using code_less_256 [of c] by (simp_all add: less_mult_imp_div_less)
  consider "code c = 34" | "code c = 92" | "code c = 8" | "code c = 9" | "code c = 10"
    | "code c = 12" | "code c = 13" | "code c < 32" "code c \<notin> {8, 9, 10, 12, 13}"
    | "32 \<le> code c" "code c \<notin> {34, 92}"
    by fastforce
  then show ?thesis
  proof cases
    case 1
    then have "c = CHR 0x22" by (intro of_char_eqI [where 'a = nat]) simp
    then show ?thesis by (simp add: esc_char_def next_char_def parse_escape_def unescape_def)
  next
    case 2
    then have "c = CHR 0x5C" by (intro of_char_eqI [where 'a = nat]) simp
    then show ?thesis by (simp add: esc_char_def next_char_def parse_escape_def unescape_def)
  next
    case 8
    have "hex_val CHR ''0'' = Some 0" by (simp add: is_digit_def)
    with 8 bound c [OF refl] show ?thesis
      by (simp add: esc_char_def next_char_def parse_escape_def hex del: hex_val.simps)
  qed (simp_all add: c esc_char_def next_char_def parse_escape_def unescape_def)
qed

lemma parse_chars_quote:
  "parse_chars (concat (map esc_char s) @ CHR 0x22 # r) = Some (s, r)"
proof (induction s)
  case Nil
  show ?case by (subst parse_chars.simps) (simp add: next_char_def)
next
  case (Cons c s)
  have "next_char (esc_char c @ concat (map esc_char s) @ CHR 0x22 # r)
      = Some (Some c, concat (map esc_char s) @ CHR 0x22 # r)"
    by (rule next_char_esc)
  with Cons show ?case by (subst parse_chars.simps) simp
qed

text \<open>Numerals. A numeral must not be followed by a character that would extend it.\<close>

definition num_stop :: "string \<Rightarrow> bool" where
  "num_stop r = (r = [] \<or> (\<not> is_digit (hd r) \<and> code (hd r) \<notin> {46, 69, 101}))"

lemma span_digits_append:
  "\<forall>c \<in> set ds. is_digit c \<Longrightarrow> r = [] \<or> \<not> is_digit (hd r) \<Longrightarrow> span_digits (ds @ r) = (ds, r)"
  by (cases r) (auto simp: span_digits_def)

lemma parse_exp_stop [simp]: "num_stop r \<Longrightarrow> parse_exp r = Some (0, r)"
  by (auto simp: parse_exp_def num_stop_def split: list.splits)

lemma parse_frac_stop [simp]: "num_stop r \<Longrightarrow> parse_frac r = Some ([], r)"
  by (auto simp: parse_frac_def num_stop_def split: list.splits)

lemma show_nat_no_leading_zero:
  "0 < n \<Longrightarrow> hd (show_nat n) \<noteq> CHR ''0''"
  by (rule show_nat_head)

lemma parse_exp_print:
  assumes "num_stop r"
  shows "parse_exp (''e'' @ (if x < 0 then ''-'' else ''+'') @ show_nat (nat \<bar>x\<bar>) @ r) = Some (x, r)"
proof -
  have "span_digits (show_nat (nat \<bar>x\<bar>) @ r) = (show_nat (nat \<bar>x\<bar>), r)"
    using assms by (intro span_digits_append) (auto simp: num_stop_def dest: show_nat_digits)
  then show ?thesis by (cases "x < 0") (simp_all add: parse_exp_def)
qed

lemma num_stop_e [simp]: "parse_frac (CHR ''e'' # r) = Some ([], CHR ''e'' # r)"
  by (simp add: parse_frac_def)

lemma parse_frac_digits:
  assumes "\<forall>c \<in> set ds. is_digit c" "ds \<noteq> []" "r = [] \<or> \<not> is_digit (hd r)"
  shows "parse_frac (CHR ''.'' # ds @ r) = Some (ds, r)"
  using assms by (simp add: parse_frac_def span_digits_append)

lemma parse_unum_body:
  assumes "\<forall>c \<in> set ip. is_digit c" "ip \<noteq> []" "length ip = 1 \<or> hd ip \<noteq> CHR ''0''"
    and "parse_frac s2 = Some (fp, s3)" "parse_exp s3 = Some (x, r)"
    and "s2 = [] \<or> \<not> is_digit (hd s2)"
  shows "parse_unum (ip @ s2) = Some (nat_of_digits (ip @ fp), x - int (length fp), r)"
proof -
  have "span_digits (ip @ s2) = (ip, s2)" using assms by (intro span_digits_append) auto
  then show ?thesis using assms by (auto simp: parse_unum_def)
qed

lemma parse_unum_dec_body:
  assumes "0 < m" and stop: "num_stop r"
  shows "\<exists>j. parse_unum (dec_body m e @ r) = Some (m * 10 ^ j, e - int j, r)"
proof -
  define s where "s = show_nat m"
  define n where "n = int (length s) + e"
  have layout: "dec_body m e = dec_layout s n" by (simp add: dec_body_def Let_def s_def n_def)
  have digits: "\<forall>c \<in> set s. is_digit c" by (simp add: s_def show_nat_digits)
  have ne: "s \<noteq> []" by (simp add: s_def)
  have hd: "hd s \<noteq> CHR ''0''" using assms by (simp add: s_def show_nat_head)
  have val: "nat_of_digits s = m" by (simp add: s_def)
  have r: "r = [] \<or> \<not> is_digit (hd r)" using stop by (auto simp: num_stop_def)
  consider (int) "int (length s) \<le> n" "n \<le> 21"
    | (point) "\<not> (int (length s) \<le> n \<and> n \<le> 21)" "0 < n" "n \<le> 21"
    | (small) "\<not> (int (length s) \<le> n \<and> n \<le> 21)" "\<not> (0 < n \<and> n \<le> 21)" "- 6 < n" "n \<le> 0"
    | (exp) "\<not> (int (length s) \<le> n \<and> n \<le> 21)" "\<not> (0 < n \<and> n \<le> 21)" "\<not> (- 6 < n \<and> n \<le> 0)"
    by blast
  then show ?thesis
  proof cases
    case int
    let ?z = "replicate (nat e) (CHR ''0'')"
    have "nat (n - int (length s)) = nat e" "0 \<le> e" using int by (simp_all add: n_def)
    then have body: "dec_body m e = s @ ?z" using int
      by (simp add: layout dec_layout_def)
    have "parse_unum ((s @ ?z) @ r) = Some (nat_of_digits ((s @ ?z) @ []), 0 - int (length ([] :: string)), r)"
      using digits ne hd stop r
      by (intro parse_unum_body) (auto simp: is_digit_def)
    then show ?thesis
      using body val int by (intro exI [of _ "nat e"]) (simp add: nat_of_digits_append_zeros n_def)
  next
    case point
    have lt: "nat n < length s" using point by linarith
    have body: "dec_body m e = take (nat n) s @ ''.'' @ drop (nat n) s"
      using point by (simp add: layout dec_layout_def)
    have f: "parse_frac (CHR ''.'' # drop (nat n) s @ r) = Some (drop (nat n) s, r)"
      using lt digits r by (intro parse_frac_digits) (auto dest: in_set_dropD)
    have "parse_unum (take (nat n) s @ CHR ''.'' # drop (nat n) s @ r)
       = Some (nat_of_digits (take (nat n) s @ drop (nat n) s), 0 - int (length (drop (nat n) s)), r)"
      using f stop digits ne hd point(2)
      by (intro parse_unum_body) (auto simp: is_digit_def dest: in_set_takeD)
    moreover have "0 - int (length (drop (nat n) s)) = e" using lt point(2) by (simp add: n_def)
    ultimately show ?thesis using body val by (intro exI [of _ 0]) simp
  next
    case small
    let ?z = "replicate (nat (- n)) (CHR ''0'')"
    have body: "dec_body m e = ''0'' @ ''.'' @ (?z @ s)"
      using small by (simp add: layout dec_layout_def)
    have f: "parse_frac (CHR ''.'' # (?z @ s) @ r) = Some (?z @ s, r)"
      using digits ne r by (intro parse_frac_digits) (auto simp: is_digit_def)
    have "parse_unum (''0'' @ CHR ''.'' # (?z @ s) @ r)
       = Some (nat_of_digits (''0'' @ ?z @ s), 0 - int (length (?z @ s)), r)"
      using f stop by (intro parse_unum_body) (auto simp: is_digit_def)
    moreover have "nat_of_digits (''0'' @ ?z @ s) = m"
      using nat_of_digits_zeros_append [of "Suc (nat (- n))" s] val by simp
    moreover have "0 - int (length (?z @ s)) = e" using small by (simp add: n_def)
    ultimately show ?thesis using body by (intro exI [of _ 0]) simp
  next
    case exp
    let ?x = "''e'' @ (if n - 1 < 0 then ''-'' else ''+'') @ show_nat (nat \<bar>n - 1\<bar>) @ r"
    have x: "parse_exp ?x = Some (n - 1, r)" using stop by (rule parse_exp_print)
    have "dec_body m e = (if length s = 1 then s else hd s # ''.'' @ tl s) @ ''e'' @
        (if n - 1 < 0 then ''-'' else ''+'') @ show_nat (nat \<bar>n - 1\<bar>)"
      by (simp only: layout dec_layout_def exp if_False)
    then have body: "dec_body m e @ r = (if length s = 1 then s else hd s # ''.'' @ tl s) @ ?x"
      by (simp only: append_assoc)
    obtain d ds where s: "s = d # ds" using ne by (cases s) auto
    show ?thesis
    proof (cases "ds = []")
      case True
      have "parse_unum (s @ ?x) = Some (nat_of_digits (s @ []), n - 1 - int (length ([] :: string)), r)"
        using x digits hd s True by (intro parse_unum_body) (auto simp: is_digit_def)
      then show ?thesis using body val s True by (intro exI [of _ 0]) (simp add: n_def)
    next
      case False
      have f: "parse_frac (CHR ''.'' # ds @ ?x) = Some (ds, ?x)"
        using digits s False by (intro parse_frac_digits) (auto simp: is_digit_def)
      have "parse_unum ([d] @ CHR ''.'' # ds @ ?x)
        = Some (nat_of_digits ([d] @ ds), n - 1 - int (length ds), r)"
        using f x digits s by (intro parse_unum_body) (auto simp: is_digit_def)
      then show ?thesis using body val s False by (intro exI [of _ 0]) (simp add: n_def)
    qed
  qed
qed

lemma dec_body_head:
  assumes "0 < m"
  obtains c r where "dec_body m e = c # r" "is_digit c"
proof -
  obtain d ds where s: "show_nat m = d # ds" by (cases "show_nat m") auto
  define n where "n = int (length (d # ds)) + e"
  have "is_digit d" using show_nat_digits [of d m] s by simp
  moreover have "is_digit (CHR ''0'')" by (simp add: is_digit_def)
  moreover have "\<exists>c r. dec_layout (d # ds) n = c # r \<and> (c = d \<or> c = CHR ''0'')"
  proof (cases "0 < n \<and> n \<le> 21")
    case True
    then obtain k where "nat n = Suc k" by (metis zero_less_nat_eq gr0_implies_Suc)
    with True show ?thesis by (simp add: dec_layout_def)
  next
    case False
    then show ?thesis by (auto simp: dec_layout_def)
  qed
  moreover have "dec_body m e = dec_layout (d # ds) n" by (simp add: dec_body_def Let_def s n_def)
  ultimately show ?thesis using that by metis
qed

lemma parse_num_print:
  assumes "dec_normal m e" and "num_stop r"
  shows "parse_num (dec_print m e @ r) = Some (NumDec m e, r)"
proof (cases "m = 0")
  case True
  have "parse_unum (''0'' @ r) = Some (nat_of_digits (''0'' @ []), 0 - int (length ([] :: string)), r)"
    using assms(2) by (intro parse_unum_body) (auto simp: is_digit_def num_stop_def)
  with True assms(1) show ?thesis
    by (simp add: parse_num_def dec_print_def dec_normal_def nat_of_digits_def digit_val_def norm_dec.simps)
next
  case False
  let ?n = "nat \<bar>m\<bar>"
  have pos: "0 < ?n" using False by simp
  obtain j where j: "parse_unum (dec_body ?n e @ r) = Some (?n * 10 ^ j, e - int j, r)"
    using parse_unum_dec_body [OF pos assms(2)] by blast
  obtain c t where ct: "dec_body ?n e = c # t" "is_digit c" using dec_body_head [OF pos] .
  then have "code c \<noteq> 45" by (auto simp: is_digit_def)
  moreover have "int (?n * 10 ^ j) = \<bar>m\<bar> * 10 ^ j" by simp
  moreover have "norm_dec (m * 10 ^ j) (e - int j) = NumDec m e"
    using assms(1) by (simp add: norm_dec_times_10)
  ultimately show ?thesis
    using False j ct by (simp add: parse_num_def dec_print_def)
qed

text \<open>Values. The first character of a printed value decides how it is read.\<close>

lemma json_ws_codes [simp]: "json_ws c \<longleftrightarrow> code c \<in> {9, 10, 13, 32}"
  by (simp add: json_ws_def)

lemma json_print_head:
  assumes "json_plain v"
  obtains c r where "json_print v = c # r" "code c \<notin> {9, 10, 13, 32, 44, 58, 93, 125}"
proof -
  have dig: "code c \<notin> {9, 10, 13, 32, 44, 58, 93, 125}" if "is_digit c" for c
    using that by (auto simp: is_digit_def)
  show ?thesis
  proof (cases v)
    case (JNum n)
    then obtain m e where n: "n = NumDec m e" using assms by (cases n) auto
    show ?thesis
    proof (cases "m = 0")
      case True
      then show ?thesis using that JNum n by (simp add: dec_print_def)
    next
      case False
      then obtain c r where "dec_body (nat \<bar>m\<bar>) e = c # r" "is_digit c"
        using dec_body_head [of "nat \<bar>m\<bar>" e] by auto
      then show ?thesis using that JNum n False dig by (cases "m < 0") (auto simp: dec_print_def)
    qed
  next
    case (JBool b)
    then show ?thesis using that by (cases b) auto
  qed (use assms that in \<open>auto simp: quote_def\<close>)
qed

lemma skip_ws_print:
  assumes "json_plain v"
  shows "skip_ws (json_print v @ r) = json_print v @ r"
  using assms by (rule json_print_head) (simp add: skip_ws_def)

lemma skip_ws_Cons [simp]: "code c \<notin> {9, 10, 13, 32} \<Longrightarrow> skip_ws (c # r) = c # r"
  by (simp add: skip_ws_def)

text \<open>The induction hypothesis of the round trip, for one value.\<close>

definition reads_back :: "json \<Rightarrow> bool" where
  "reads_back v = (\<forall>f r. num_stop r \<longrightarrow> 2 * length (json_print v @ r) < f \<longrightarrow>
     parse_value f (json_print v @ r) = Some (reorder v, r))"

lemma reads_backD:
  "reads_back v \<Longrightarrow> num_stop r \<Longrightarrow> 2 * length (json_print v @ r) < f \<Longrightarrow>
   parse_value f (json_print v @ r) = Some (reorder v, r)"
  by (simp add: reads_back_def)

lemma num_stop_Cons [simp]:
  "num_stop (c # r) \<longleftrightarrow> \<not> is_digit c \<and> code c \<notin> {46, 69, 101}"
  by (simp add: num_stop_def)

lemma parse_elems_print:
  assumes "\<forall>x \<in> set xs. json_plain x \<and> reads_back x" and "xs \<noteq> []"
    and "2 * length (join '','' (map json_print xs) @ CHR '']'' # r) + 1 < f"
  shows "parse_elems f (join '','' (map json_print xs) @ CHR '']'' # r) = Some (map reorder xs, r)"
  using assms
proof (induction xs arbitrary: f)
  case Nil
  then show ?case by simp
next
  case (Cons x xs)
  obtain g where f: "f = Suc g" using Cons.prems by (cases f) auto
  have x: "json_plain x" "reads_back x" using Cons.prems by auto
  show ?case
  proof (cases xs)
    case Nil
    have "parse_value g (json_print x @ CHR '']'' # r) = Some (reorder x, CHR '']'' # r)"
      using Cons.prems Nil f by (intro reads_backD [OF x(2)]) (auto simp: is_digit_def)
    then show ?thesis by (simp add: f Nil skip_ws_print [OF x(1)])
  next
    case (Cons y ys)
    let ?rest = "join '','' (map json_print xs) @ CHR '']'' # r"
    have shape: "join '','' (map json_print (x # xs)) @ CHR '']'' # r = json_print x @ CHR '','' # ?rest"
      by (simp add: Cons)
    have "parse_value g (json_print x @ CHR '','' # ?rest) = Some (reorder x, CHR '','' # ?rest)"
      using Cons.prems Cons f by (intro reads_backD [OF x(2)]) (auto simp: is_digit_def)
    moreover have "parse_elems g ?rest = Some (map reorder xs, r)"
      using Cons.prems f Cons by (intro Cons.IH) auto
    ultimately show ?thesis unfolding shape by (simp add: f skip_ws_print [OF x(1)])
  qed
qed

lemma parse_chars_quoted:
  "parse_chars (tl (quote k) @ r) = Some (k, r)"
  by (simp add: quote_def parse_chars_quote)

lemma quote_hd: "quote k = CHR 0x22 # tl (quote k)"
  by (simp add: quote_def)

abbreviation member_text :: "string \<times> json \<Rightarrow> string" where
  "member_text p \<equiv> quote (fst p) @ '':'' @ json_print (snd p)"

lemma parse_members_print:
  assumes "\<forall>p \<in> set kvs. json_plain (snd p) \<and> reads_back (snd p)" and "kvs \<noteq> []"
    and "2 * length (join '','' (map member_text kvs) @ CHR ''}'' # r) + 1 < f"
  shows "parse_members f (join '','' (map member_text kvs) @ CHR ''}'' # r)
    = Some (map_vals reorder kvs, r)"
  using assms
proof (induction kvs arbitrary: f)
  case Nil
  then show ?case by simp
next
  case (Cons p kvs)
  obtain g where f: "f = Suc g" using Cons.prems by (cases f) auto
  have p: "json_plain (snd p)" "reads_back (snd p)" using Cons.prems by auto
  have key: "skip_ws (quote (fst p) @ u) = CHR 0x22 # tl (quote (fst p)) @ u" for u
    by (subst quote_hd) simp
  show ?case
  proof (cases kvs)
    case Nil
    have "parse_value g (json_print (snd p) @ CHR ''}'' # r) = Some (reorder (snd p), CHR ''}'' # r)"
      using Cons.prems Nil f by (intro reads_backD [OF p(2)]) (auto simp: is_digit_def)
    then show ?thesis
      by (simp add: f Nil key parse_chars_quoted skip_ws_print [OF p(1)])
  next
    case (Cons q ys)
    let ?rest = "join '','' (map member_text kvs) @ CHR ''}'' # r"
    have shape: "join '','' (map member_text (p # kvs)) @ CHR ''}'' # r
        = quote (fst p) @ CHR '':'' # json_print (snd p) @ CHR '','' # ?rest"
      by (simp add: Cons)
    have "parse_value g (json_print (snd p) @ CHR '','' # ?rest)
        = Some (reorder (snd p), CHR '','' # ?rest)"
      using Cons.prems Cons f by (intro reads_backD [OF p(2)]) (auto simp: is_digit_def)
    moreover have "parse_members g ?rest = Some (map_vals reorder kvs, r)"
      using Cons.prems f Cons by (intro Cons.IH) auto
    ultimately show ?thesis
      unfolding shape by (simp add: f key parse_chars_quoted skip_ws_print [OF p(1)])
  qed
qed

lemma join_head:
  assumes "ps \<noteq> []" and "hd ps = c # t"
  shows "\<exists>u. join sep ps = c # u"
proof (cases ps)
  case Nil
  with assms show ?thesis by simp
next
  case (Cons p qs)
  with assms show ?thesis by (cases qs) auto
qed

lemma plain_print_elems: "plain_elems xs \<Longrightarrow> print_elems xs = map json_print xs"
  by (auto simp: print_elems_map plain_elems_all dest: plain_not_undef)

lemma plain_print_members: "plain_members kvs \<Longrightarrow> print_members kvs = map member_text kvs"
  by (intro print_members_plain) (auto simp: plain_members_all dest: plain_not_undef)

lemma num_head:
  assumes "dec_normal m e"
  obtains c u where "dec_print m e = c # u" "is_digit c \<or> code c = 45"
proof (cases "m = 0")
  case True
  then show ?thesis using that by (simp add: dec_print_def is_digit_def)
next
  case False
  then obtain c r where "dec_body (nat \<bar>m\<bar>) e = c # r" "is_digit c"
    using dec_body_head [of "nat \<bar>m\<bar>" e] by auto
  then show ?thesis using that by (cases "m < 0") (auto simp: dec_print_def False)
qed

lemma reads_back_num:
  assumes "dec_normal m e"
  shows "reads_back (JNum (NumDec m e))"
proof (unfold reads_back_def, intro allI impI)
  fix f r
  assume stop: "num_stop r" and "2 * length (json_print (JNum (NumDec m e)) @ r) < f"
  then obtain g where f: "f = Suc g" by (cases f) auto
  obtain c u where cu: "dec_print m e = c # u" "is_digit c \<or> code c = 45"
    using assms by (rule num_head)
  then have "code c \<notin> {34, 91, 123}" "c \<noteq> CHR ''t''" "c \<noteq> CHR ''f''" "c \<noteq> CHR ''n''"
    by (auto simp: is_digit_def)
  then show "parse_value f (json_print (JNum (NumDec m e)) @ r) = Some (reorder (JNum (NumDec m e)), r)"
    using parse_num_print [OF assms stop] by (simp add: f cu(1))
qed

lemma reads_back_arr:
  assumes IH: "\<And>x. x \<in> set xs \<Longrightarrow> reads_back x" and plain: "plain_elems xs"
  shows "reads_back (JArr xs)"
proof (unfold reads_back_def, intro allI impI)
  fix f r
  assume fuel: "2 * length (json_print (JArr xs) @ r) < f"
  then obtain g where f: "f = Suc g" by (cases f) auto
  let ?body = "join '','' (map json_print xs)"
  have shape: "json_print (JArr xs) @ r = CHR ''['' # ?body @ CHR '']'' # r"
    using plain by (simp add: plain_print_elems)
  show "parse_value f (json_print (JArr xs) @ r) = Some (reorder (JArr xs), r)"
  proof (cases xs)
    case Nil
    then show ?thesis by (simp add: f)
  next
    case (Cons y ys)
    then have "json_plain y" using plain by simp
    then obtain c t where c: "json_print y = c # t" "code c \<notin> {9, 10, 13, 32, 44, 58, 93, 125}"
      by (rule json_print_head)
    obtain u where u: "?body = c # u"
      using join_head [of "map json_print xs" c t "'',''"] Cons c by auto
    have "parse_elems g (?body @ CHR '']'' # r) = Some (map reorder xs, r)"
      using IH plain Cons fuel f unfolding shape
      by (intro parse_elems_print) (auto simp: plain_elems_all)
    with c u show ?thesis unfolding shape f by (simp add: reorder_elems_map)
  qed
qed

lemma reads_back_obj:
  assumes IH: "\<And>p. p \<in> set kvs \<Longrightarrow> reads_back (snd p)" and plain: "plain_members kvs"
  shows "reads_back (JObj kvs)"
proof (unfold reads_back_def, intro allI impI)
  fix f r
  assume fuel: "2 * length (json_print (JObj kvs) @ r) < f"
  then obtain g where f: "f = Suc g" by (cases f) auto
  let ?body = "join '','' (map member_text kvs)"
  have shape: "json_print (JObj kvs) @ r = CHR ''{'' # ?body @ CHR ''}'' # r"
    using plain by (simp add: plain_print_members)
  show "parse_value f (json_print (JObj kvs) @ r) = Some (reorder (JObj kvs), r)"
  proof (cases kvs)
    case Nil
    then show ?thesis by (simp add: f set_all_def)
  next
    case (Cons q ys)
    have "member_text q = CHR 0x22 # tl (quote (fst q)) @ '':'' @ json_print (snd q)"
      by (subst quote_hd) simp
    then have "hd (map member_text kvs) = CHR 0x22 # tl (quote (fst q)) @ '':'' @ json_print (snd q)"
      by (simp only: Cons list.map list.sel)
    then obtain u where u: "?body = CHR 0x22 # u"
      using join_head [of "map member_text kvs" "CHR 0x22" _ "'',''"] Cons by blast
    have "parse_members g (?body @ CHR ''}'' # r) = Some (map_vals reorder kvs, r)"
      using IH plain Cons fuel f unfolding shape
      by (intro parse_members_print) (auto simp: plain_members_all)
    with u show ?thesis unfolding shape f by (simp add: reorder_members_map)
  qed
qed

lemma reads_backI:
  assumes "\<And>g r. num_stop r \<Longrightarrow> parse_value (Suc g) (json_print v @ r) = Some (reorder v, r)"
  shows "reads_back v"
  unfolding reads_back_def by (metis assms gr0_implies_Suc less_nat_zero_code neq0_conv)

lemma reads_back_print: "json_plain v \<Longrightarrow> reads_back v"
proof (induction v rule: json_members_induct)
  case (Num n)
  then show ?case by (cases n) (simp_all add: reads_back_num)
next
  case (Arr xs)
  then show ?case by (intro reads_back_arr) (auto simp: plain_elems_all)
next
  case (Obj kvs)
  then show ?case by (intro reads_back_obj) (auto simp: plain_members_all)
next
  case Null
  show ?case by (rule reads_backI) (simp add: literal_def)
next
  case (Bool b)
  show ?case by (rule reads_backI) (cases b; simp add: literal_def)
next
  case (Str s)
  show ?case by (rule reads_backI) (simp add: quote_def parse_chars_quote)
qed simp_all

text \<open>
  The round trip: parsing what \<open>JSON.stringify\<close> prints gives the value back, with the properties
  of each object in enumeration order.
\<close>

lemma json_parse_print: "json_plain v \<Longrightarrow> json_parse (json_print v) = Some (reorder v)"
proof -
  assume plain: "json_plain v"
  have "num_stop []" by (simp add: num_stop_def)
  then have "parse_value (2 * length (json_print v) + 2) (json_print v @ []) = Some (reorder v, [])"
    by (intro reads_backD [OF reads_back_print [OF plain]]) simp_all
  moreover have "skip_ws (json_print v) = json_print v"
    using skip_ws_print [OF plain, of "[]"] by simp
  ultimately show ?thesis by (simp add: json_parse_def skip_ws_def)
qed

text \<open>Hence canonical printing separates values that are not the same document.\<close>

lemma stable_print_inj:
  assumes "json_plain a" "json_plain b" "stable_print a = stable_print b"
  shows "canon a = canon b"
proof -
  have "json_print (canon a) = json_print (canon b)"
    using assms by (simp add: stable_print_plain)
  then have "Some (reorder (canon a)) = Some (reorder (canon b))"
    by (metis json_parse_print plain_canon assms(1,2))
  then have "canon (reorder (canon a)) = canon (reorder (canon b))" by (simp only: option.inject)
  then show ?thesis by (simp only: canon_reorder plain_canon canon_idem assms(1,2) simp_thms)
qed

lemma json_print_inj:
  assumes "json_plain a" "json_plain b" "json_print a = json_print b"
  shows "canon a = canon b"
proof -
  have "reorder a = reorder b"
    using json_parse_print [OF assms(1)] json_parse_print [OF assms(2)] assms(3) by simp
  then have "canon (reorder a) = canon (reorder b)" by (rule arg_cong)
  then show ?thesis by (simp only: canon_reorder assms(1,2) simp_thms)
qed

text \<open>A printed value holds no raw line break, so it fits on one line of a journal.\<close>

lemma digit_no_newline:
  assumes "d < 16"
  shows "CHR 0x0A \<noteq> digit d"
proof
  assume "CHR 0x0A = digit d"
  then have "code (CHR 0x0A) = code (digit d)" by (rule arg_cong)
  with code_digit [OF assms] show False by (simp split: if_splits)
qed

lemma esc_char_no_newline: "CHR 0x0A \<notin> set (esc_char c)"
proof -
  have "code c div 16 < 16" "code c mod 16 < 16"
    using code_less_256 [of c] by (simp_all add: less_mult_imp_div_less)
  then show ?thesis
    using digit_no_newline [of "code c div 16"] digit_no_newline [of "code c mod 16"]
    by (auto simp: esc_char_def)
qed

lemma quote_no_newline [simp]: "CHR 0x0A \<notin> set (quote s)"
  using esc_char_no_newline by (auto simp: quote_def)

lemma set_join: "set (join sep ps) \<subseteq> set sep \<union> (\<Union>p \<in> set ps. set p)"
  by (induction sep ps rule: join.induct) auto

lemma digits_no_newline: "is_digit c \<Longrightarrow> c \<noteq> CHR 0x0A"
  by (auto simp: is_digit_def)

lemma show_nat_no_newline [simp]: "CHR 0x0A \<notin> set (show_nat n)"
  using digits_no_newline show_nat_digits by blast

lemma num_print_no_newline [simp]: "CHR 0x0A \<notin> set (num_print n)"
proof (cases n)
  case (NumDec m e)
  have layout: "CHR 0x0A \<notin> set (dec_layout (show_nat k) n)" for k n
  proof -
    obtain d ds where s: "show_nat k = d # ds" by (cases "show_nat k") auto
    then have "CHR 0x0A \<notin> set (d # ds)" by (metis show_nat_no_newline)
    then show ?thesis
      unfolding s dec_layout_def by (auto dest: in_set_takeD in_set_dropD simp del: take_Suc_Cons drop_Suc_Cons)
  qed
  show ?thesis
    using layout [of "nat \<bar>m\<bar>"]
    by (auto simp: NumDec dec_print_def dec_body_def Let_def)
qed auto

lemma json_print_no_newline: "CHR 0x0A \<notin> set (json_print v)"
proof (induction v rule: json_members_induct)
  case (Num n)
  show ?case using num_print_no_newline [of n] by (cases n) auto
next
  case (Big i)
  show ?case by (simp add: show_int_def)
next
  case (Arr xs)
  then have "\<forall>p \<in> set (print_elems xs). CHR 0x0A \<notin> set p"
    by (auto simp: print_elems_map)
  then show ?case using set_join [of "'',''" "print_elems xs"] by auto
next
  case (Obj kvs)
  have "\<forall>p \<in> set (print_members kvs). CHR 0x0A \<notin> set p"
    using Obj
  proof (induction kvs)
    case (Cons p kvs)
    have "CHR 0x0A \<notin> set (json_print (snd p))" using Cons.prems by simp
    with Cons show ?case by (cases p) auto
  qed simp
  then show ?case using set_join [of "'',''" "print_members kvs"] by auto
qed auto

text \<open>Keys that are no array indices keep their order.\<close>

lemma not_array_index [simp]: "\<not> is_digit c \<Longrightarrow> \<not> array_index (c # s)"
  using show_nat_digits [of c "nat_of_digits (c # s)"] by (auto simp: array_index_def)

lemma set_all_same:
  assumes "distinct (map fst kvs)" "\<forall>p \<in> set kvs. \<not> array_index (fst p)"
  shows "set_all kvs = kvs"
proof -
  have "foldl (\<lambda>out (k, v). obj_set k v out) out kvs = out @ kvs"
    if "fst ` set out \<inter> fst ` set kvs = {}" for out
    using assms that
  proof (induction kvs arbitrary: out)
    case Nil
    then show ?case by simp
  next
    case (Cons p kvs)
    obtain k v where p: "p = (k, v)" by (cases p)
    have "obj_set k v out = out @ [(k, v)]" using Cons.prems by (auto simp: p obj_set_def)
    then show ?case using Cons.IH [of "out @ [(k, v)]"] Cons.prems by (auto simp: p)
  qed
  from this [of "[]"] show ?thesis by (simp add: set_all_def)
qed

end
