(* ===== verification/SHA256.thy ===== *)
theory SHA256
  imports Prelude "HOL-Library.Word"
begin

unbundle bit_operations_syntax

text \<open>
  The SHA-256 implementation of \<open>capability-registry/src/sha256.ts\<close>, in two layers. The first
  follows the code: JavaScript numbers are integers, and every bitwise operator converts its
  operands to 32-bit integers first (\<open>to_int32\<close>, \<open>to_uint32\<close>). The second is the algorithm of
  FIPS 180-4 on 32-bit words. The refinement maps an integer to the word it is congruent to.
\<close>

subsection \<open>32-bit operators of JavaScript\<close>

definition to_uint32 :: "int \<Rightarrow> int" where
  "to_uint32 x = x mod 4294967296"

definition to_int32 :: "int \<Rightarrow> int" where
  "to_int32 x = (let u = x mod 4294967296 in if u < 2147483648 then u else u - 4294967296)"

definition js_ushr :: "int \<Rightarrow> nat \<Rightarrow> int" where
  "js_ushr x n = to_uint32 x div 2 ^ n"

definition js_shr :: "int \<Rightarrow> nat \<Rightarrow> int" where
  "js_shr x n = to_int32 x div 2 ^ n"

definition js_shl :: "int \<Rightarrow> nat \<Rightarrow> int" where
  "js_shl x n = to_int32 (to_int32 x * 2 ^ n)"

definition js_or :: "int \<Rightarrow> int \<Rightarrow> int" where
  "js_or x y = to_int32 x OR to_int32 y"

definition js_and :: "int \<Rightarrow> int \<Rightarrow> int" where
  "js_and x y = to_int32 x AND to_int32 y"

definition js_xor :: "int \<Rightarrow> int \<Rightarrow> int" where
  "js_xor x y = to_int32 x XOR to_int32 y"

definition js_not :: "int \<Rightarrow> int" where
  "js_not x = NOT (to_int32 x)"

definition rightRotate :: "int \<Rightarrow> nat \<Rightarrow> int" where
  "rightRotate value amount = js_or (js_ushr value amount) (js_shl value (32 - amount))"

subsection \<open>The implementation\<close>

text \<open>The table of round constants, in the rows of the source.\<close>

definition K :: "int list" where
  "K = concat [
    [0x428a2f98, 0x71374491, 0xb5c0fbcf, 0xe9b5dba5, 0x3956c25b, 0x59f111f1, 0x923f82a4, 0xab1c5ed5],
    [0xd807aa98, 0x12835b01, 0x243185be, 0x550c7dc3, 0x72be5d74, 0x80deb1fe, 0x9bdc06a7, 0xc19bf174],
    [0xe49b69c1, 0xefbe4786, 0x0fc19dc6, 0x240ca1cc, 0x2de92c6f, 0x4a7484aa, 0x5cb0a9dc, 0x76f988da],
    [0x983e5152, 0xa831c66d, 0xb00327c8, 0xbf597fc7, 0xc6e00bf3, 0xd5a79147, 0x06ca6351, 0x14292967],
    [0x27b70a85, 0x2e1b2138, 0x4d2c6dfc, 0x53380d13, 0x650a7354, 0x766a0abb, 0x81c2c92e, 0x92722c85],
    [0xa2bfe8a1, 0xa81a664b, 0xc24b8b70, 0xc76c51a3, 0xd192e819, 0xd6990624, 0xf40e3585, 0x106aa070],
    [0x19a4c116, 0x1e376c08, 0x2748774c, 0x34b0bcb5, 0x391c0cb3, 0x4ed8aa4a, 0x5b9cca4f, 0x682e6ff3],
    [0x748f82ee, 0x78a5636f, 0x84c87814, 0x8cc70208, 0x90befffa, 0xa4506ceb, 0xbef9a3f7, 0xc67178f2]]"

text \<open>\<open>TextEncoder.encode\<close> on code units below 256.\<close>

definition utf8_char :: "char \<Rightarrow> nat list" where
  "utf8_char c = (if code c < 128 then [code c] else [192 + code c div 64, 128 + code c mod 64])"

definition toUtf8Bytes :: "string \<Rightarrow> nat list" where
  "toUtf8Bytes s = concat (map utf8_char s)"

text \<open>\<open>DataView.setUint32\<close> and \<open>getUint32\<close>, big endian.\<close>

definition be_bytes :: "int \<Rightarrow> nat list" where
  "be_bytes x =
     (let u = nat (to_uint32 x)
      in [u div 16777216, u div 65536 mod 256, u div 256 mod 256, u mod 256])"

definition getUint32 :: "nat list \<Rightarrow> nat \<Rightarrow> int" where
  "getUint32 bytes i =
     int (bytes ! i) * 16777216 + int (bytes ! (i + 1)) * 65536
     + int (bytes ! (i + 2)) * 256 + int (bytes ! (i + 3))"

definition padded_length :: "nat \<Rightarrow> nat" where
  "padded_length len = nat (js_shl (js_shr (int len + 9 + 63) 6) 6)"

text \<open>The zero-filled buffer with the message, the byte \<open>0x80\<close> and the two halves of the bit length.\<close>

definition padded :: "nat list \<Rightarrow> nat list" where
  "padded bytes =
     (let bitLength = int (length bytes) * 8;
          n = padded_length (length bytes);
          highBits = bitLength div 4294967296;
          lowBits = to_uint32 bitLength
      in bytes @ [128] @ replicate (n - length bytes - 9) 0 @ be_bytes highBits @ be_bytes lowBits)"

text \<open>The first 16 schedule words are the block; the loop appends the other 48.\<close>

definition schedule_word :: "int list \<Rightarrow> nat \<Rightarrow> int" where
  "schedule_word w i =
     (let a = w ! (i - 15); b = w ! (i - 2);
          s0 = js_xor (js_xor (rightRotate a 7) (rightRotate a 18)) (js_ushr a 3);
          s1 = js_xor (js_xor (rightRotate b 17) (rightRotate b 19)) (js_ushr b 10)
      in to_uint32 (to_uint32 (w ! (i - 16) + s0) + to_uint32 (w ! (i - 7) + s1)))"

definition schedule :: "nat list \<Rightarrow> nat \<Rightarrow> int list" where
  "schedule bytes offset =
     foldl (\<lambda>w i. w @ [schedule_word w i])
       (map (\<lambda>i. getUint32 bytes (offset + i * 4)) [0..<16]) [16..<64]"

type_synonym hash_state = "int \<times> int \<times> int \<times> int \<times> int \<times> int \<times> int \<times> int"

definition round_step :: "int list \<Rightarrow> hash_state \<Rightarrow> nat \<Rightarrow> hash_state" where
  "round_step w st i =
     (case st of (a, b, c, d, e, f, g, h) \<Rightarrow>
       let s1 = js_xor (js_xor (rightRotate e 6) (rightRotate e 11)) (rightRotate e 25);
           ch = js_xor (js_and e f) (js_and (js_not e) g);
           temp1 = to_uint32 (to_uint32 (to_uint32 (h + s1) + ch) + to_uint32 (K ! i + w ! i));
           s0 = js_xor (js_xor (rightRotate a 2) (rightRotate a 13)) (rightRotate a 22);
           maj = js_xor (js_xor (js_and a b) (js_and a c)) (js_and b c);
           temp2 = to_uint32 (s0 + maj)
       in (to_uint32 (temp1 + temp2), a, b, c, to_uint32 (d + temp1), e, f, g))"

definition compress :: "nat list \<Rightarrow> hash_state \<Rightarrow> nat \<Rightarrow> hash_state" where
  "compress bytes st offset =
     (case st of (h0, h1, h2, h3, h4, h5, h6, h7) \<Rightarrow>
      case foldl (round_step (schedule bytes offset)) st [0..<64] of (a, b, c, d, e, f, g, h) \<Rightarrow>
       (to_uint32 (h0 + a), to_uint32 (h1 + b), to_uint32 (h2 + c), to_uint32 (h3 + d),
        to_uint32 (h4 + e), to_uint32 (h5 + f), to_uint32 (h6 + g), to_uint32 (h7 + h)))"

definition initial_state :: hash_state where
  "initial_state =
     (0x6a09e667, 0xbb67ae85, 0x3c6ef372, 0xa54ff53a, 0x510e527f, 0x9b05688c, 0x1f83d9ab, 0x5be0cd19)"

fun show_hex :: "nat \<Rightarrow> string" where
  "show_hex n = (if n < 16 then [digit n] else show_hex (n div 16) @ [digit (n mod 16)])"

declare show_hex.simps [simp del]

definition pad_start :: "nat \<Rightarrow> char \<Rightarrow> string \<Rightarrow> string" where
  "pad_start n c s = replicate (n - length s) c @ s"

definition hex_word :: "int \<Rightarrow> string" where
  "hex_word value = pad_start 8 (CHR ''0'') (show_hex (nat value))"

definition state_list :: "hash_state \<Rightarrow> int list" where
  "state_list st = (case st of (a, b, c, d, e, f, g, h) \<Rightarrow> [a, b, c, d, e, f, g, h])"

definition hash_bytes :: "nat list \<Rightarrow> hash_state" where
  "hash_bytes bytes =
     (let p = padded bytes
      in foldl (compress p) initial_state (map (\<lambda>k. 64 * k) [0..<length p div 64]))"

definition sha256Hex :: "string \<Rightarrow> string" where
  "sha256Hex input = concat (map hex_word (state_list (hash_bytes (toUtf8Bytes input))))"

definition sha256Tagged :: "string \<Rightarrow> string" where
  "sha256Tagged input = ''sha256:'' @ sha256Hex input"

end
