(* ===== verification/SHA256_FIPS.thy ===== *)
theory SHA256_FIPS
  imports SHA256
begin

unbundle bit_operations_syntax

text \<open>
  The specification of \<open>sha256.ts\<close>: SHA-256 as FIPS 180-4 defines it on 32-bit words, and the
  refinement of the code to it. \<open>W\<close> is the abstraction, the word an integer is congruent to.
\<close>

subsection \<open>The abstraction\<close>

abbreviation W :: "int \<Rightarrow> 32 word" where "W \<equiv> word_of_int"

lemma of_int_to_uint32 [simp]: "W (to_uint32 x) = W x"
  by (simp add: to_uint32_def word_of_int_eq_iff take_bit_eq_mod)

lemma of_int_to_int32 [simp]: "W (to_int32 x) = W x"
  by (simp add: to_int32_def Let_def word_of_int_eq_iff take_bit_eq_mod mod_simps)

lemma uint_of_int_uint32: "uint (W x) = to_uint32 x"
  by (simp add: to_uint32_def uint_word_of_int)

lemma of_int_js_ushr [simp]: "W (js_ushr x n) = drop_bit n (W x)"
proof (rule word_uint_eqI)
  have "uint (drop_bit n (W x)) = to_uint32 x div 2 ^ n"
    unfolding unsigned_drop_bit_eq
    by (simp add: drop_bit_eq_div uint_of_int_uint32 take_bit_eq_mod to_uint32_def)
  then show "uint (W (js_ushr x n)) = uint (drop_bit n (W x))"
    by (metis js_ushr_def word_of_int_uint)
qed

lemma of_int_js_shl [simp]: "W (js_shl x n) = push_bit n (W x)"
proof -
  have "W (js_shl x n) = W (to_int32 x * 2 ^ n)" by (simp add: js_shl_def)
  also have "... = W (to_int32 x) * 2 ^ n" by (metis wi_hom_mult word_of_int_2p)
  also have "... = push_bit n (W x)" by (simp add: push_bit_eq_mult)
  finally show ?thesis .
qed

lemma of_int_js_bits [simp]:
  "W (js_or x y) = W x OR W y" "W (js_and x y) = W x AND W y"
  "W (js_xor x y) = W x XOR W y" "W (js_not x) = NOT (W x)"
  unfolding js_or_def js_and_def js_xor_def js_not_def
  by (simp_all add: of_int_or_eq of_int_and_eq of_int_xor_eq of_int_not_eq)

lemma to_uint32_range [simp]: "0 \<le> to_uint32 x" "to_uint32 x < 4294967296"
  by (simp_all add: to_uint32_def)

lemma to_uint32_id: "0 \<le> x \<Longrightarrow> x < 4294967296 \<Longrightarrow> to_uint32 x = x"
  by (simp add: to_uint32_def)

subsection \<open>FIPS 180-4\<close>

definition ROTR :: "nat \<Rightarrow> 32 word \<Rightarrow> 32 word" where
  "ROTR n x = drop_bit n x OR push_bit (32 - n) x"

definition SHR :: "nat \<Rightarrow> 32 word \<Rightarrow> 32 word" where
  "SHR n x = drop_bit n x"

definition Ch :: "32 word \<Rightarrow> 32 word \<Rightarrow> 32 word \<Rightarrow> 32 word" where
  "Ch x y z = (x AND y) XOR (NOT x AND z)"

definition Maj :: "32 word \<Rightarrow> 32 word \<Rightarrow> 32 word \<Rightarrow> 32 word" where
  "Maj x y z = (x AND y) XOR (x AND z) XOR (y AND z)"

definition Sigma0 :: "32 word \<Rightarrow> 32 word" where
  "Sigma0 x = ROTR 2 x XOR ROTR 13 x XOR ROTR 22 x"

definition Sigma1 :: "32 word \<Rightarrow> 32 word" where
  "Sigma1 x = ROTR 6 x XOR ROTR 11 x XOR ROTR 25 x"

definition sigma0 :: "32 word \<Rightarrow> 32 word" where
  "sigma0 x = ROTR 7 x XOR ROTR 18 x XOR SHR 3 x"

definition sigma1 :: "32 word \<Rightarrow> 32 word" where
  "sigma1 x = ROTR 17 x XOR ROTR 19 x XOR SHR 10 x"

definition message_word :: "nat list \<Rightarrow> nat \<Rightarrow> 32 word" where
  "message_word block t = foldl (\<lambda>w b. w * 256 + of_nat b) 0 (take 4 (drop (4 * t) block))"

fun schedule_spec :: "nat list \<Rightarrow> nat \<Rightarrow> 32 word" where
  "schedule_spec block t =
     (if t < 16 then message_word block t
      else sigma1 (schedule_spec block (t - 2)) + schedule_spec block (t - 7)
        + sigma0 (schedule_spec block (t - 15)) + schedule_spec block (t - 16))"

declare schedule_spec.simps [simp del]

type_synonym word_state =
  "32 word \<times> 32 word \<times> 32 word \<times> 32 word \<times> 32 word \<times> 32 word \<times> 32 word \<times> 32 word"

definition round_spec :: "nat list \<Rightarrow> word_state \<Rightarrow> nat \<Rightarrow> word_state" where
  "round_spec block st t =
     (case st of (a, b, c, d, e, f, g, h) \<Rightarrow>
       let t1 = h + Sigma1 e + Ch e f g + W (K ! t) + schedule_spec block t;
           t2 = Sigma0 a + Maj a b c
       in (t1 + t2, a, b, c, d + t1, e, f, g))"

definition compress_spec :: "word_state \<Rightarrow> nat list \<Rightarrow> word_state" where
  "compress_spec st block =
     (case st of (h0, h1, h2, h3, h4, h5, h6, h7) \<Rightarrow>
      case foldl (round_spec block) st [0..<64] of (a, b, c, d, e, f, g, h) \<Rightarrow>
       (h0 + a, h1 + b, h2 + c, h3 + d, h4 + e, h5 + f, h6 + g, h7 + h))"

definition be64 :: "nat \<Rightarrow> nat list" where
  "be64 n = map (\<lambda>i. n div 256 ^ (7 - i) mod 256) [0..<8]"

definition pad_spec :: "nat list \<Rightarrow> nat list" where
  "pad_spec m =
     m @ [128] @ replicate (nat ((55 - int (length m)) mod 64)) 0 @ be64 (8 * length m)"

definition initial_spec :: word_state where
  "initial_spec =
     (0x6a09e667, 0xbb67ae85, 0x3c6ef372, 0xa54ff53a, 0x510e527f, 0x9b05688c, 0x1f83d9ab, 0x5be0cd19)"

definition hash_spec :: "nat list \<Rightarrow> word_state" where
  "hash_spec m =
     foldl (\<lambda>st k. compress_spec st (take 64 (drop (64 * k) (pad_spec m)))) initial_spec
       [0..<length (pad_spec m) div 64]"

primrec hex_digits :: "nat \<Rightarrow> nat \<Rightarrow> string" where
  "hex_digits 0 n = []"
| "hex_digits (Suc m) n = hex_digits m (n div 16) @ [digit (n mod 16)]"

definition word_list :: "word_state \<Rightarrow> 32 word list" where
  "word_list st = (case st of (a, b, c, d, e, f, g, h) \<Rightarrow> [a, b, c, d, e, f, g, h])"

definition sha256_spec :: "nat list \<Rightarrow> string" where
  "sha256_spec m = concat (map (\<lambda>w. hex_digits 8 (unat w)) (word_list (hash_spec m)))"

definition abs_state :: "hash_state \<Rightarrow> word_state" where
  "abs_state st =
     (case st of (a, b, c, d, e, f, g, h) \<Rightarrow> (W a, W b, W c, W d, W e, W f, W g, W h))"

lemma state_cases:
  obtains a b c d e f g h where "st = (a, b, c, d, e, f, g, h)"
  by (cases st) auto

subsection \<open>The message schedule\<close>

lemma of_int_rightRotate [simp]: "W (rightRotate x n) = ROTR n (W x)"
  by (simp add: rightRotate_def ROTR_def)

lemma of_int_schedule_word:
  "W (schedule_word w i) =
     sigma1 (W (w ! (i - 2))) + W (w ! (i - 7)) + sigma0 (W (w ! (i - 15))) + W (w ! (i - 16))"
  by (simp add: schedule_word_def Let_def sigma0_def sigma1_def SHR_def ac_simps)

lemma of_int_getUint32:
  assumes "4 * t + 3 < length block"
  shows "W (getUint32 block (4 * t)) = message_word block t"
proof -
  have "take 4 (drop (4 * t) block) =
      [block ! (4 * t), block ! (4 * t + 1), block ! (4 * t + 2), block ! (4 * t + 3)]"
    using assms by (intro nth_equalityI) (auto simp: nth_Cons' less_Suc_eq numeral_eq_Suc)
  then show ?thesis
    by (simp add: getUint32_def message_word_def algebra_simps)
qed

lemma getUint32_drop:
  "offset + i + 3 < length bytes \<Longrightarrow> i + 3 < 64 \<Longrightarrow>
     getUint32 bytes (offset + i) = getUint32 (take 64 (drop offset bytes)) i"
  by (simp add: getUint32_def add.assoc)

lemma schedule_refines:
  assumes "offset + 64 \<le> length bytes"
  shows "length (schedule bytes offset) = 64"
    and "t < 64 \<Longrightarrow>
      W (schedule bytes offset ! t) = schedule_spec (take 64 (drop offset bytes)) t"
proof -
  let ?block = "take 64 (drop offset bytes)"
  let ?first = "map (\<lambda>i. getUint32 bytes (offset + i * 4)) [0..<16]"
  let ?S = "\<lambda>n. foldl (\<lambda>w i. w @ [schedule_word w i]) ?first [16..<16 + n]"
  have main: "length (?S n) = 16 + n \<and>
      (\<forall>t < 16 + n. W (?S n ! t) = schedule_spec ?block t)" for n
  proof (induction n)
    case 0
    have "W (getUint32 bytes (offset + t * 4)) = schedule_spec ?block t" if "t < 16" for t
    proof -
      have "getUint32 bytes (offset + t * 4) = getUint32 ?block (4 * t)"
        using that assms by (subst getUint32_drop) (simp_all add: mult.commute)
      then show ?thesis
        using that assms by (simp add: of_int_getUint32 schedule_spec.simps)
    qed
    then show ?case by simp
  next
    case (Suc n)
    let ?w = "?S n"
    have step: "?S (Suc n) = ?w @ [schedule_word ?w (16 + n)]"
      unfolding add_Suc_right by (subst upt_Suc_append) simp_all
    have "W (schedule_word ?w (16 + n)) = schedule_spec ?block (16 + n)"
      using Suc by (simp add: of_int_schedule_word schedule_spec.simps [of ?block "16 + n"])
    then show ?case
      using Suc unfolding step by (auto simp: nth_append not_less le_eq_less_or_eq)
  qed
  have sum: "(16::nat) + 48 = 64" by simp
  have whole: "length (schedule bytes offset) = 64 \<and>
      (\<forall>t < 64. W (schedule bytes offset ! t) = schedule_spec ?block t)"
    using main [of 48] unfolding schedule_def sum .
  then show "length (schedule bytes offset) = 64" by (rule conjunct1)
  show "W (schedule bytes offset ! t) = schedule_spec ?block t" if "t < 64"
    using whole that by blast
qed

subsection \<open>Compression\<close>

lemma round_step_refines:
  assumes "W (w ! t) = schedule_spec block t"
  shows "abs_state (round_step w st t) = round_spec block (abs_state st) t"
  by (cases st rule: state_cases) (simp add: assms abs_state_def round_step_def round_spec_def Let_def
      Ch_def Maj_def Sigma0_def Sigma1_def ac_simps)

lemma rounds_refine:
  assumes "\<And>t. t \<in> set ts \<Longrightarrow> W (w ! t) = schedule_spec block t"
  shows "abs_state (foldl (round_step w) st ts) = foldl (round_spec block) (abs_state st) ts"
  using assms by (induction ts arbitrary: st) (simp_all add: round_step_refines)

lemma compress_refines:
  assumes "offset + 64 \<le> length bytes"
  shows "abs_state (compress bytes st offset) =
    compress_spec (abs_state st) (take 64 (drop offset bytes))"
proof -
  let ?block = "take 64 (drop offset bytes)"
  have "abs_state (foldl (round_step (schedule bytes offset)) st [0..<64]) =
      foldl (round_spec ?block) (abs_state st) [0..<64]"
    by (rule rounds_refine) (simp add: schedule_refines(2) [OF assms])
  then show ?thesis
    unfolding compress_def compress_spec_def
    by (auto simp: abs_state_def split: prod.splits)
qed

subsection \<open>Padding\<close>

lemma padded_length_eq:
  assumes "len < 2147483576"
  shows "padded_length len = (len + 72) div 64 * 64"
proof -
  have "to_int32 (int len + 9 + 63) = int (len + 72)"
    using assms by (simp add: to_int32_def Let_def)
  then have shr: "js_shr (int len + 9 + 63) 6 = int ((len + 72) div 64)"
    by (simp add: js_shr_def zdiv_int)
  have "to_int32 (int ((len + 72) div 64)) = int ((len + 72) div 64)"
    using assms by (simp add: to_int32_def Let_def)
  moreover have "to_int32 (int ((len + 72) div 64) * 64) = int ((len + 72) div 64) * 64"
    using assms by (simp add: to_int32_def Let_def)
  ultimately show ?thesis
    unfolding padded_length_def shr js_shl_def by (simp add: nat_mult_distrib)
qed

lemma zeros_eq: "(len + 72) div 64 * 64 - len - 9 = nat ((55 - int len) mod 64)"
proof -
  have "(int len + 72) div 64 * 64 - int len - 9 = (55 - int len) mod 64"
  proof -
    let ?r = "(int len + 72) mod 64"
    have "(55 - int len) mod 64 = (63 - (int len + 72) + 64) mod 64" by simp
    also have "... = (63 - ?r) mod 64" unfolding mod_add_self2 by (rule mod_diff_right_eq [symmetric])
    also have "... = 63 - ?r"
      by (rule mod_pos_pos_trivial) (simp_all add: zle_diff1_eq [symmetric] del: zle_diff1_eq)
    finally show ?thesis using div_mult_mod_eq [of "int len + 72" 64] by linarith
  qed
  moreover have "int ((len + 72) div 64 * 64) = (int len + 72) div 64 * 64" by (simp add: zdiv_int)
  ultimately show ?thesis by linarith
qed

lemma mod_div_swap: "0 < b \<Longrightarrow> (n :: nat) mod (b * c) div b = n div b mod c"
  by (simp add: mod_mult2_eq)

lemma be64_eq:
  assumes "n < 18446744073709551616"
  shows "be_bytes (int n div 4294967296) @ be_bytes (to_uint32 (int n)) = be64 n"
proof -
  have high: "nat (to_uint32 (int n div 4294967296)) = n div 4294967296"
    using assms by (simp add: to_uint32_id zdiv_int)
  have low: "nat (to_uint32 (to_uint32 (int n))) = n mod 4294967296"
    by (simp add: to_uint32_def nat_mod_distrib)
  have "[0..<8] = [0, 1, 2, 3, 4, 5, 6, 7 :: nat]" by (simp add: upt_rec)
  then show ?thesis
    unfolding be64_def be_bytes_def high low Let_def using assms
    mod_div_swap [of 16777216 n 256] mod_div_swap [of 65536 n 65536] mod_div_swap [of 256 n 16777216]
      less_mult_imp_div_less [of n 256 72057594037927936]
    by (simp add: div_mult2_eq [symmetric] mod_mod_cancel)
qed

lemma padded_refines:
  assumes "length m < 2147483576"
  shows "padded m = pad_spec m"
proof -
  have "int (length m) * 8 = int (8 * length m)" by simp
  then have "be_bytes (int (length m) * 8 div 4294967296) @ be_bytes (to_uint32 (int (length m) * 8))
      = be64 (8 * length m)"
    using be64_eq [of "8 * length m"] assms by (simp add: mult.commute)
  then show ?thesis
    using padded_length_eq [OF assms] zeros_eq [of "length m"]
    by (simp add: padded_def pad_spec_def Let_def mult.commute)
qed

subsection \<open>The digest\<close>

definition state_range :: "hash_state \<Rightarrow> bool" where
  "state_range st \<longleftrightarrow> list_all (\<lambda>v. 0 \<le> v \<and> v < 4294967296) (state_list st)"

lemma state_range_initial: "state_range initial_state"
  by (simp add: state_range_def state_list_def initial_state_def)

lemma state_range_compress: "state_range (compress bytes st offset)"
  by (auto simp: state_range_def state_list_def compress_def split: prod.splits)

lemma state_range_hash: "state_range (hash_bytes m)"
proof -
  have "state_range (foldl (compress p) st ks)" if "state_range st" for p st ks
    using that by (induction ks arbitrary: st) (simp_all add: state_range_compress)
  then show ?thesis by (simp add: hash_bytes_def Let_def state_range_initial)
qed

lemma length_pad_spec: "length (pad_spec m) mod 64 = 0"
proof -
  let ?z = "nat ((55 - int (length m)) mod 64)"
  have "(length m + 72) div 64 * 64 + (length m + 72) mod 64 = length m + 72" by (rule div_mult_mod_eq)
  moreover have "(length m + 72) mod 64 < 64" by simp
  ultimately have "length m + 9 + ?z = (length m + 72) div 64 * 64"
    using zeros_eq [of "length m"] by linarith
  then have "(length m + 9 + ?z) mod 64 = 0" by simp
  then show ?thesis by (simp add: pad_spec_def be64_def ac_simps)
qed

lemma hash_refines:
  assumes "length m < 2147483576"
  shows "abs_state (hash_bytes m) = hash_spec m"
proof -
  let ?p = "pad_spec m"
  have main: "abs_state (foldl (compress ?p) st (map (\<lambda>k. 64 * k) ks)) =
      foldl (\<lambda>st k. compress_spec st (take 64 (drop (64 * k) ?p))) (abs_state st) ks"
    if "\<And>k. k \<in> set ks \<Longrightarrow> 64 * k + 64 \<le> length ?p" for st ks
    using that by (induction ks arbitrary: st) (simp_all add: compress_refines)
  have "64 * k + 64 \<le> length ?p" if "k < length ?p div 64" for k
    using mult_le_mono2 [of "Suc k" "length ?p div 64" 64] that
      div_times_less_eq_dividend [of "length ?p" 64] by linarith
  moreover have "abs_state initial_state = initial_spec"
    by (simp add: abs_state_def initial_state_def initial_spec_def)
  ultimately show ?thesis
    using main [of "[0..<length ?p div 64]" initial_state] padded_refines [OF assms]
    by (simp add: hash_bytes_def hash_spec_def Let_def)
qed

lemma hex_digits_zero: "hex_digits m 0 = replicate m (CHR ''0'')"
  by (induction m) (simp_all add: digit_zero replicate_append_same)

lemma pad_show_hex:
  "n < 16 ^ Suc m \<Longrightarrow> pad_start (Suc m) (CHR ''0'') (show_hex n) = hex_digits (Suc m) n"
proof (induction m arbitrary: n)
  case 0
  then show ?case by (simp add: show_hex.simps pad_start_def)
next
  case (Suc m)
  show ?case
  proof (cases "n < 16")
    case True
    then show ?thesis
      by (simp add: show_hex.simps pad_start_def hex_digits_zero digit_zero replicate_append_same
          flip: replicate_Suc)
  next
    case False
    moreover have "n div 16 < 16 ^ Suc m" using Suc.prems by simp
    note Suc.IH [OF this]
    ultimately show ?thesis
      by (simp add: show_hex.simps [of n] pad_start_def)
  qed
qed

lemma hex_word_eq:
  assumes "0 \<le> v" "v < 4294967296"
  shows "hex_word v = hex_digits 8 (unat (W v))"
proof -
  have "unat (W v) = nat v"
    using assms by (simp add: unat_eq_nat_uint uint_of_int_uint32 to_uint32_id)
  moreover have "nat v < 16 ^ Suc 7" using assms by simp
  note pad_show_hex [OF this]
  ultimately show ?thesis by (simp add: hex_word_def)
qed

lemma digest_eq:
  assumes "state_range st"
  shows "concat (map hex_word (state_list st)) =
    concat (map (\<lambda>w. hex_digits 8 (unat w)) (word_list (abs_state st)))"
  using assms
  by (cases st rule: state_cases) (simp add: state_range_def state_list_def word_list_def abs_state_def hex_word_eq)

lemma is_hex_hex_digits: "list_all is_hex (hex_digits m n)"
  by (induction m arbitrary: n) simp_all

lemma length_hex_digits [simp]: "length (hex_digits m n) = m"
  by (induction m arbitrary: n) simp_all

lemma sha256Hex_format: "length (sha256Hex s) = 64" "list_all is_hex (sha256Hex s)"
proof -
  obtain ws where "sha256Hex s = concat (map (\<lambda>w. hex_digits 8 (unat w)) (word_list ws))"
    using digest_eq [OF state_range_hash] by (auto simp: sha256Hex_def)
  then show "length (sha256Hex s) = 64" "list_all is_hex (sha256Hex s)"
    by (cases ws rule: prod_cases7; simp add: word_list_def is_hex_hex_digits split: prod.splits)+
qed

text \<open>Two digests that agree come from one text or exhibit a collision of the hash function.\<close>

definition sha_collision :: "string \<Rightarrow> string \<Rightarrow> bool" where
  "sha_collision a b = (a \<noteq> b \<and> sha256Hex a = sha256Hex b)"

lemma sha256Tagged_eq: "sha256Tagged a = sha256Tagged b \<longleftrightarrow> a = b \<or> sha_collision a b"
  by (auto simp: sha256Tagged_def sha_collision_def)

subsection \<open>Where the constants come from\<close>

text \<open>
  FIPS 180-4 takes the first 32 bits of the fractional parts of the cube roots of the first 64
  primes, and of the square roots of the first 8. The root itself is \<open>a + k / 2 ^ 32\<close>.
\<close>

definition cube_root_bits :: "int \<Rightarrow> int \<Rightarrow> bool" where
  "cube_root_bits p k =
     list_ex (\<lambda>a. let r = a * 2 ^ 32 + k in r ^ 3 \<le> p * 2 ^ 96 \<and> p * 2 ^ 96 < (r + 1) ^ 3) [1..6]"

definition square_root_bits :: "int \<Rightarrow> int \<Rightarrow> bool" where
  "square_root_bits p k =
     list_ex (\<lambda>a. let r = a * 2 ^ 32 + k in r ^ 2 \<le> p * 2 ^ 64 \<and> p * 2 ^ 64 < (r + 1) ^ 2) [1..4]"

definition first_primes :: "int list" where
  "first_primes = filter (\<lambda>n. list_all (\<lambda>d. n mod d \<noteq> 0) (takeWhile (\<lambda>d. d * d \<le> n) [2..17])) [2..311]"

lemma first_primes_eq:
  "first_primes = [2,3,5,7,11,13,17,19,23,29,31,37,41,43,47,53,59,61,67,71,73,79,83,89,97,101,
    103,107,109,113,127,131,137,139,149,151,157,163,167,173,179,181,191,193,197,199,211,223,227,
    229,233,239,241,251,257,263,269,271,277,281,283,293,307,311]"
  by code_simp

subsection \<open>Properties\<close>

text \<open>C25: On every string whose UTF-8 encoding is shorter than 2147483576 bytes, the code computes
  the SHA-256 digest of FIPS 180-4, printed as 64 hexadecimal digits.\<close>

theorem sha256Hex_refines_FIPS:
  assumes "length (toUtf8Bytes s) < 2147483576"
  shows "sha256Hex s = sha256_spec (toUtf8Bytes s)"
  using hash_refines [OF assms] digest_eq [OF state_range_hash]
  by (simp add: sha256Hex_def sha256_spec_def)

theorem sha256Hex_refines_FIPS_witness:
  "sha256Hex ''abc'' = sha256_spec (toUtf8Bytes ''abc'')"
  by (rule sha256Hex_refines_FIPS) (simp add: toUtf8Bytes_def utf8_char_def)

text \<open>The table \<open>K\<close> and the initial values are the constants of FIPS 180-4: the fractional bits
  of the cube roots of the first 64 primes and of the square roots of the first 8.\<close>

theorem sha256_constants_are_roots:
  "list_all2 cube_root_bits first_primes K \<and>
   list_all2 square_root_bits (take 8 first_primes) (state_list initial_state)"
  unfolding first_primes_eq by code_simp

text \<open>C26: A tagged digest is the prefix \<open>sha256:\<close> and 64 lowercase hexadecimal digits, for every
  string.\<close>

theorem sha256Tagged_format:
  "take 7 (sha256Tagged s) = ''sha256:'' \<and> length (sha256Tagged s) = 71 \<and>
   list_all is_hex (drop 7 (sha256Tagged s))"
  by (simp add: sha256Tagged_def sha256Hex_format)

end
