(* ===== verification/Definition_Hash.thy ===== *)
theory Definition_Hash
  imports JSON_Text SHA256_FIPS
begin

text \<open>
  The data types of \<open>capability-registry/src/types.ts\<close> that the registry keeps and returns, the
  canonical digest of \<open>canonical-json.ts\<close>, and \<open>computeCapabilityDefinitionHash\<close> of
  \<open>definition-hash.ts\<close>. A capability definition is identified by the fields that enter the hash;
  the lemmas show that the digest depends on exactly this identity, up to collisions of SHA-256.
\<close>

subsection \<open>Data types\<close>

record adapter_binding =
  adapter_key :: string
  adapter_route :: string

record capability_definition =
  capability :: string
  version :: string
  adapter :: adapter_binding
  input_schema :: json
  description :: "string option"
  tags :: "string list option"

text \<open>
  An error item may have no \<open>path\<close>, or the property \<open>path\<close> with the value \<open>undefined\<close>: both read
  the same, but they are not stringified alike.
\<close>

datatype item_path = NoPath | UndefPath | Path string

record validation_error =
  item_path :: item_path
  message :: string

definition msg :: "string \<Rightarrow> validation_error" where
  "msg m = \<lparr>item_path = NoPath, message = m\<rparr>"

lemma msg_sel [simp]: "message (msg m) = m" "item_path (msg m) = NoPath"
  by (simp_all add: msg_def)

type_synonym validation_result = "validation_error list option"

definition error_json :: "validation_error \<Rightarrow> json" where
  "error_json e =
     JObj ((case item_path e of NoPath \<Rightarrow> [] | UndefPath \<Rightarrow> [(''path'', JUndef)]
            | Path p \<Rightarrow> [(''path'', JStr p)]) @ [(''message'', JStr (message e))])"

subsection \<open>The canonical digest\<close>

definition sha256TaggedCanonical :: "json \<Rightarrow> string result" where
  "sha256TaggedCanonical v = bind_result (stable_stringify v) (\<lambda>s. Inr (sha256Tagged s))"

definition canonical_digest :: "json \<Rightarrow> string" where
  "canonical_digest v = sha256Tagged (stable_print v)"

lemma sha256TaggedCanonical_ok:
  "\<not> has_bigint v \<Longrightarrow> sha256TaggedCanonical v = Inr (canonical_digest v)"
  by (simp add: sha256TaggedCanonical_def stable_stringify_def canonical_digest_def)

lemma canonical_digest_canon: "canon a = canon b \<Longrightarrow> canonical_digest a = canonical_digest b"
  by (simp add: canonical_digest_def same_canon_same_stable_print [of a b])

lemma canonical_digest_inj:
  assumes "json_plain a" "json_plain b" "canonical_digest a = canonical_digest b"
  shows "canon a = canon b \<or> sha_collision (stable_print a) (stable_print b)"
  using assms stable_print_inj [of a b]
  by (auto simp: canonical_digest_def sha256Tagged_eq)

subsection \<open>The definition hash\<close>

definition definition_payload :: "capability_definition \<Rightarrow> json" where
  "definition_payload d =
     JObj ([(''v'', JNum (NumDec 1 0)),
            (''capability'', JStr (capability d)),
            (''version'', JStr (version d)),
            (''adapter'', JObj [(''key'', JStr (adapter_key (adapter d))),
                                (''route'', JStr (adapter_route (adapter d)))]),
            (''input_schema'', input_schema d)]
       @ (case description d of None \<Rightarrow> [] | Some s \<Rightarrow> [(''description'', JStr s)])
       @ (case tags d of None \<Rightarrow> []
          | Some ts \<Rightarrow> if length ts > 0 then [(''tags'', JArr (map JStr (sort ts)))] else []))"

definition computeCapabilityDefinitionHash :: "capability_definition \<Rightarrow> string result" where
  "computeCapabilityDefinitionHash d =
     bind_result (stable_stringify (definition_payload d)) (\<lambda>canon.
       Inr (''sha256:'' @ sha256Hex canon))"

lemma definition_hash_eq:
  "computeCapabilityDefinitionHash d = sha256TaggedCanonical (definition_payload d)"
  by (simp add: computeCapabilityDefinitionHash_def sha256TaggedCanonical_def sha256Tagged_def)

lemma has_bigint_payload [simp]: "has_bigint (definition_payload d) = has_bigint (input_schema d)"
  by (auto simp: definition_payload_def members_bigint_ex elems_bigint_ex split: option.splits)

lemma plain_payload [simp]: "json_plain (definition_payload d) = json_plain (input_schema d)"
  by (auto simp: definition_payload_def plain_members_all plain_elems_all dec_normal_def
      split: option.splits)

text \<open>What the hash identifies: the order of the tags and of the schema's keys does not count.\<close>

definition definition_identity ::
  "capability_definition \<Rightarrow> string \<times> string \<times> adapter_binding \<times> json \<times> string option \<times> string list" where
  "definition_identity d =
     (capability d, version d, adapter d, canon (input_schema d), description d,
      (case tags d of None \<Rightarrow> [] | Some ts \<Rightarrow> sort ts))"

lemma map_JStr_inj [simp]: "map JStr xs = map JStr ys \<longleftrightarrow> xs = ys"
  by (intro inj_map_eq_map injI) simp

lemma sort_Nil_iff [simp]: "sort xs = [] \<longleftrightarrow> xs = []" "[] = sort xs \<longleftrightarrow> xs = []"
  by (metis length_0_conv length_sort)+

lemma payload_fields:
  "fld (definition_payload d) ''capability'' = JStr (capability d)"
  "fld (definition_payload d) ''version'' = JStr (version d)"
  "fld (definition_payload d) ''input_schema'' = input_schema d"
  "fld (fld (definition_payload d) ''adapter'') ''key'' = JStr (adapter_key (adapter d))"
  "fld (fld (definition_payload d) ''adapter'') ''route'' = JStr (adapter_route (adapter d))"
  "fld (definition_payload d) ''description'' =
     (case description d of None \<Rightarrow> JUndef | Some s \<Rightarrow> JStr s)"
  "fld (definition_payload d) ''tags'' =
     (case tags d of None \<Rightarrow> JUndef
      | Some ts \<Rightarrow> if ts = [] then JUndef else JArr (map JStr (sort ts)))"
  by (auto simp: definition_payload_def fld_append split: option.splits)

lemma plain_adapter:
  "json_plain (fld (definition_payload d) ''adapter'')"
  by (simp add: definition_payload_def)

lemma canon_payload_identity:
  assumes eq: "canon (definition_payload a) = canon (definition_payload b)"
    and plain: "json_plain (input_schema a)" "json_plain (input_schema b)"
  shows "definition_identity a = definition_identity b"
proof -
  have fields: "canon (fld (definition_payload a) k) = canon (fld (definition_payload b) k)" for k
    using eq plain by (intro canon_eq_fld) simp_all
  have adapter: "canon (fld (fld (definition_payload a) ''adapter'') k) =
      canon (fld (fld (definition_payload b) ''adapter'') k)" for k
    by (rule canon_eq_fld [OF fields plain_adapter plain_adapter])
  have "adapter a = adapter b"
    using adapter [of "''key''"] adapter [of "''route''"]
    by (cases "adapter a"; cases "adapter b") (simp add: payload_fields)
  then show ?thesis
    using fields [of "''capability''"] fields [of "''version''"] fields [of "''input_schema''"]
      fields [of "''description''"] fields [of "''tags''"]
    by (auto simp: payload_fields definition_identity_def split: option.splits if_splits)
qed

lemma identity_canon_payload:
  assumes "definition_identity a = definition_identity b"
  shows "canon (definition_payload a) = canon (definition_payload b)"
  using assms
  by (auto simp: definition_identity_def definition_payload_def split: option.splits)

lemma identity_same_hash:
  assumes "definition_identity a = definition_identity b"
  shows "computeCapabilityDefinitionHash a = computeCapabilityDefinitionHash b"
proof -
  have "has_bigint (input_schema a) = has_bigint (input_schema b)"
    using assms has_bigint_canon [of "input_schema a"] has_bigint_canon [of "input_schema b"]
    by (simp add: definition_identity_def del: has_bigint_canon)
  then show ?thesis
    using same_canon_same_stable_print [OF identity_canon_payload [OF assms]]
    by (simp add: computeCapabilityDefinitionHash_def stable_stringify_def)
qed

subsection \<open>Properties\<close>

text \<open>The definition hash does not depend on the order of the tags, on the order of the keys at any
  depth of the input schema, or on whether an empty tag list is present: definitions with one identity
  have one hash (or both raise on a \<open>BigInt\<close>).\<close>

theorem definition_hash_depends_on_identity:
  assumes "definition_identity a = definition_identity b"
  shows "computeCapabilityDefinitionHash a = computeCapabilityDefinitionHash b"
  using assms by (rule identity_same_hash)

lemma swapped_keys:
  assumes "k \<noteq> l"
  shows "canon (JObj [(k, v), (l, w)]) = canon (JObj [(l, w), (k, v)])"
  using assms by (intro canon_members_perm) auto

lemma type_key_fresh: "''type'' \<noteq> ''additionalProperties''"
  by simp

lemma swapped_tags: "sort [s, t] = sort [t, s]" for s t :: string
  by (rule sort_key_inj_key_eq) auto

definition schema_example :: "json \<Rightarrow> string list \<Rightarrow> capability_definition" where
  "schema_example sch ts =
     \<lparr>capability = ''a.b'', version = ''1.0.0'', adapter = \<lparr>adapter_key = ''k'', adapter_route = ''r''\<rparr>,
      input_schema = sch, description = None, tags = Some ts\<rparr>"

lemma schema_example_identity:
  "canon s = canon s' \<Longrightarrow> sort ts = sort ts' \<Longrightarrow>
    definition_identity (schema_example s ts) = definition_identity (schema_example s' ts')"
  by (simp add: definition_identity_def schema_example_def)

theorem definition_hash_depends_on_identity_witness:
  "computeCapabilityDefinitionHash (schema_example
     (JObj [(''type'', JStr ''object''), (''additionalProperties'', JBool False)]) [''y'', ''x'']) =
   computeCapabilityDefinitionHash (schema_example
     (JObj [(''additionalProperties'', JBool False), (''type'', JStr ''object'')]) [''x'', ''y''])"
proof (rule definition_hash_depends_on_identity, rule schema_example_identity)
  show "canon (JObj [(''type'', JStr ''object''), (''additionalProperties'', JBool False)]) =
      canon (JObj [(''additionalProperties'', JBool False), (''type'', JStr ''object'')])"
    by (rule swapped_keys) (rule type_key_fresh)
  show "sort [''y'', ''x''] = sort [''x'', ''y'']" by (rule swapped_tags)
qed

text \<open>C27: The definition hash pins the definition: two definitions with plain JSON schemas and equal
  hashes agree on every field of their identity, or their two canonical texts are a collision of
  SHA-256.\<close>

theorem definition_hash_pins_identity:
  assumes "json_plain (input_schema a)" and "json_plain (input_schema b)"
    and "computeCapabilityDefinitionHash a = computeCapabilityDefinitionHash b"
  shows "definition_identity a = definition_identity b \<or>
    sha_collision (stable_print (definition_payload a)) (stable_print (definition_payload b))"
proof -
  have "canonical_digest (definition_payload a) = canonical_digest (definition_payload b)"
    using assms by (simp add: definition_hash_eq sha256TaggedCanonical_ok)
  then have "canon (definition_payload a) = canon (definition_payload b) \<or>
      sha_collision (stable_print (definition_payload a)) (stable_print (definition_payload b))"
    using assms(1,2) by (intro canonical_digest_inj) simp_all
  then show ?thesis
    using canon_payload_identity [OF _ assms(1,2)] by blast
qed

lemma empty_tags_payload:
  "definition_payload (schema_example s [] \<lparr>tags := None\<rparr>) = definition_payload (schema_example s [])"
  by (simp add: definition_payload_def schema_example_def)

theorem definition_hash_pins_identity_witness:
  "let d = schema_example (JObj [(''type'', JStr ''object'')]) []; d' = d\<lparr>tags := None\<rparr>
   in definition_identity d = definition_identity d' \<or>
      sha_collision (stable_print (definition_payload d)) (stable_print (definition_payload d'))"
  unfolding Let_def
proof (rule definition_hash_pins_identity)
  let ?d = "schema_example (JObj [(''type'', JStr ''object'')]) []"
  show "json_plain (input_schema ?d)" "json_plain (input_schema (?d \<lparr>tags := None\<rparr>))"
    by (simp_all add: schema_example_def)
  show "computeCapabilityDefinitionHash ?d = computeCapabilityDefinitionHash (?d \<lparr>tags := None\<rparr>)"
    by (simp only: computeCapabilityDefinitionHash_def empty_tags_payload)
qed

end
