(* ===== verification/Capability_Meta.thy ===== *)
theory Capability_Meta
  imports Definition_Hash
begin

text \<open>
  Governance metadata of a compiled capability: \<open>capability-registry/src/capability-meta.ts\<close>.
  The optional fields are JavaScript values, with \<open>JUndef\<close> for a field that is not set, because
  \<open>collectExecutionClassPolicyViolations\<close> is run again at admission on metadata that was
  registered in memory and may not be what the type promises.
\<close>

record compiled_meta =
  authority_requirements :: string
  execution_class :: string
  output_schema :: json
  async_model :: json
  job_id_field :: json
  partial_receipt :: json
  side_effect_tier :: json
  idempotency :: json
  replay_behavior :: json

definition CLASS_B_SIDE_EFFECT_TIERS :: "string list" where
  "CLASS_B_SIDE_EFFECT_TIERS = [''low'', ''medium'', ''irreversible'']"

definition CLASS_B_IDEMPOTENCY :: "string list" where
  "CLASS_B_IDEMPOTENCY = [''none'', ''keyed'', ''inherent'']"

definition CLASS_B_REPLAY_BEHAVIOR :: "string list" where
  "CLASS_B_REPLAY_BEHAVIOR = [''blocked'', ''allowed_same_key'', ''allowed_read_only_subset'']"

definition one_of :: "string list \<Rightarrow> json \<Rightarrow> bool" where
  "one_of names s = (case s of JStr n \<Rightarrow> n \<in> set names | _ \<Rightarrow> False)"

definition isSideEffectTier :: "json \<Rightarrow> bool" where
  "isSideEffectTier s = one_of CLASS_B_SIDE_EFFECT_TIERS s"

definition isIdempotency :: "json \<Rightarrow> bool" where
  "isIdempotency s = one_of CLASS_B_IDEMPOTENCY s"

definition isReplayBehavior :: "json \<Rightarrow> bool" where
  "isReplayBehavior s = one_of CLASS_B_REPLAY_BEHAVIOR s"

definition nonempty_str :: "json \<Rightarrow> bool" where
  "nonempty_str s = (case s of JStr n \<Rightarrow> n \<noteq> [] | _ \<Rightarrow> False)"

definition is_bool :: "json \<Rightarrow> bool" where
  "is_bool b = (case b of JBool _ \<Rightarrow> True | _ \<Rightarrow> False)"

text \<open>An \<open>errors.push\<close> guarded by a condition.\<close>

definition push_if :: "bool \<Rightarrow> string \<Rightarrow> validation_error list" where
  "push_if b m = (if b then [msg m] else [])"

lemma push_if_Nil [simp]: "push_if b m = [] \<longleftrightarrow> \<not> b"
  by (simp add: push_if_def)

definition output_schema_violations :: "json \<Rightarrow> validation_error list" where
  "output_schema_violations os =
     (if \<not> is_record os then [msg ''output_schema must be an object'']
      else push_if (\<not> nonempty_str (fld os ''type''))
        ''output_schema must include a non-empty string type (JSON Schema; required for output validation)'')"

definition collectExecutionClassPolicyViolations :: "compiled_meta \<Rightarrow> validation_error list" where
  "collectExecutionClassPolicyViolations m =
     output_schema_violations (output_schema m)
     @ (if execution_class m = ''C'' then
          push_if (\<not> nonempty_str (async_model m))
            ''execution_class C requires async_model in capability meta''
          @ push_if (\<not> nonempty_str (job_id_field m))
            ''execution_class C requires job_id_field in capability meta''
          @ push_if (\<not> is_bool (partial_receipt m))
            ''execution_class C requires partial_receipt boolean in capability meta''
        else [])
     @ (if execution_class m = ''B'' then
          push_if (\<not> isSideEffectTier (side_effect_tier m))
            ''execution_class B requires side_effect_tier: low|medium|irreversible''
          @ push_if (\<not> isIdempotency (idempotency m))
            ''execution_class B requires idempotency: none|keyed|inherent''
          @ push_if (\<not> isReplayBehavior (replay_behavior m))
            ''execution_class B requires replay_behavior: blocked|allowed_same_key|allowed_read_only_subset''
        else [])
     @ (if execution_class m = ''A'' \<or> execution_class m = ''C'' then
          push_if (side_effect_tier m \<noteq> JUndef) ''execution_class A/C must not set side_effect_tier''
          @ push_if (idempotency m \<noteq> JUndef) ''execution_class A/C must not set idempotency''
          @ push_if (replay_behavior m \<noteq> JUndef) ''execution_class A/C must not set replay_behavior''
        else [])"

definition to_str_if_set :: "json \<Rightarrow> json" where
  "to_str_if_set v = (if v = JUndef then JUndef else JStr (js_string v))"

definition to_bool_if_set :: "json \<Rightarrow> json" where
  "to_bool_if_set v = (if v = JUndef then JUndef else JBool (truthy v))"

text \<open>
  \<open>parseCapabilityCompiledMeta\<close>: the fields of \<open>meta.json\<close> in the order of the code, each check an
  early exit with its message, then the violations of the object built so far.
\<close>

definition checked_meta :: "compiled_meta \<Rightarrow> compiled_meta result" where
  "checked_meta m =
     (case collectExecutionClassPolicyViolations m of
        [] \<Rightarrow> Inr m
      | e # es \<Rightarrow> Inl (message e))"

definition parseCapabilityCompiledMeta :: "json \<Rightarrow> compiled_meta result" where
  "parseCapabilityCompiledMeta j =
    (if \<not> is_record j then Inl ''meta.json must be an object''
     else if \<not> one_of [''none'', ''standard'', ''elevated'', ''continuous_resonance_required'']
                (fld j ''authority_requirements'')
     then Inl ''meta.json: invalid authority_requirements''
     else if \<not> one_of [''A'', ''B'', ''C''] (fld j ''execution_class'')
     then Inl ''meta.json: execution_class must be A, B, or C''
     else if \<not> is_record (fld j ''output_schema'')
     then Inl ''meta.json: output_schema must be an object''
     else
       let meta = \<lparr>authority_requirements = js_string (fld j ''authority_requirements''),
                   execution_class = js_string (fld j ''execution_class''),
                   output_schema = fld j ''output_schema'',
                   async_model = to_str_if_set (fld j ''async_model''),
                   job_id_field = to_str_if_set (fld j ''job_id_field''),
                   partial_receipt = to_bool_if_set (fld j ''partial_receipt''),
                   side_effect_tier = JUndef, idempotency = JUndef, replay_behavior = JUndef\<rparr>;
           st = fld j ''side_effect_tier''; id = fld j ''idempotency''; rb = fld j ''replay_behavior''
       in if fld j ''execution_class'' = JStr ''B'' then
            (if \<not> isSideEffectTier st
             then Inl ''meta.json: Class B requires side_effect_tier: low|medium|irreversible''
             else if \<not> isIdempotency id
             then Inl ''meta.json: Class B requires idempotency: none|keyed|inherent''
             else if \<not> isReplayBehavior rb
             then Inl ''meta.json: Class B requires replay_behavior: blocked|allowed_same_key|allowed_read_only_subset''
             else checked_meta (meta\<lparr>side_effect_tier := st, idempotency := id, replay_behavior := rb\<rparr>))
          else if st \<noteq> JUndef
          then Inl ''meta.json: side_effect_tier is only valid for execution_class B''
          else if id \<noteq> JUndef
          then Inl ''meta.json: idempotency is only valid for execution_class B''
          else if rb \<noteq> JUndef
          then Inl ''meta.json: replay_behavior is only valid for execution_class B''
          else checked_meta meta)"

subsection \<open>The contract of a metadata document\<close>

definition authority_names :: "string list" where
  "authority_names = [''none'', ''standard'', ''elevated'', ''continuous_resonance_required'']"

definition meta_well_formed :: "compiled_meta \<Rightarrow> bool" where
  "meta_well_formed m =
     (authority_requirements m \<in> set authority_names \<and>
      execution_class m \<in> {''A'', ''B'', ''C''} \<and>
      is_record (output_schema m) \<and> nonempty_str (fld (output_schema m) ''type'') \<and>
      (execution_class m = ''C'' \<longrightarrow>
         nonempty_str (async_model m) \<and> nonempty_str (job_id_field m) \<and> is_bool (partial_receipt m)) \<and>
      (if execution_class m = ''B''
       then isSideEffectTier (side_effect_tier m) \<and> isIdempotency (idempotency m) \<and>
         isReplayBehavior (replay_behavior m)
       else side_effect_tier m = JUndef \<and> idempotency m = JUndef \<and> replay_behavior m = JUndef))"

definition meta_document_ok :: "json \<Rightarrow> bool" where
  "meta_document_ok j =
     (is_record j \<and> one_of authority_names (fld j ''authority_requirements'') \<and>
      one_of [''A'', ''B'', ''C''] (fld j ''execution_class'') \<and>
      is_record (fld j ''output_schema'') \<and>
      nonempty_str (fld (fld j ''output_schema'') ''type'') \<and>
      (fld j ''execution_class'' = JStr ''C'' \<longrightarrow>
         fld j ''async_model'' \<noteq> JUndef \<and> js_string (fld j ''async_model'') \<noteq> [] \<and>
         fld j ''job_id_field'' \<noteq> JUndef \<and> js_string (fld j ''job_id_field'') \<noteq> [] \<and>
         fld j ''partial_receipt'' \<noteq> JUndef) \<and>
      (if fld j ''execution_class'' = JStr ''B''
       then isSideEffectTier (fld j ''side_effect_tier'') \<and> isIdempotency (fld j ''idempotency'') \<and>
         isReplayBehavior (fld j ''replay_behavior'')
       else fld j ''side_effect_tier'' = JUndef \<and> fld j ''idempotency'' = JUndef \<and>
         fld j ''replay_behavior'' = JUndef))"

lemma output_schema_violations_Nil:
  "output_schema_violations os = [] \<longleftrightarrow> is_record os \<and> nonempty_str (fld os ''type'')"
  by (simp add: output_schema_violations_def)

lemma no_violations_iff:
  assumes "execution_class m \<in> {''A'', ''B'', ''C''}"
  shows "collectExecutionClassPolicyViolations m = [] \<longleftrightarrow>
    is_record (output_schema m) \<and> nonempty_str (fld (output_schema m) ''type'') \<and>
    (execution_class m = ''C'' \<longrightarrow>
       nonempty_str (async_model m) \<and> nonempty_str (job_id_field m) \<and> is_bool (partial_receipt m)) \<and>
    (if execution_class m = ''B''
     then isSideEffectTier (side_effect_tier m) \<and> isIdempotency (idempotency m) \<and>
       isReplayBehavior (replay_behavior m)
     else side_effect_tier m = JUndef \<and> idempotency m = JUndef \<and> replay_behavior m = JUndef)"
  using assms
  by (auto simp: collectExecutionClassPolicyViolations_def output_schema_violations_Nil)

lemma one_ofE:
  assumes "one_of ns v"
  obtains n where "v = JStr n" "n \<in> set ns"
  using assms by (auto simp: one_of_def split: json.splits)

lemma to_if_set_simps [simp]:
  "nonempty_str (to_str_if_set v) \<longleftrightarrow> v \<noteq> JUndef \<and> js_string v \<noteq> []"
  "is_bool (to_bool_if_set v) \<longleftrightarrow> v \<noteq> JUndef"
  by (simp_all add: to_str_if_set_def to_bool_if_set_def nonempty_str_def is_bool_def)

lemma checked_meta_Inr [simp]:
  "checked_meta m = Inr m' \<longleftrightarrow> m' = m \<and> collectExecutionClassPolicyViolations m = []"
  by (auto simp: checked_meta_def split: list.splits)

lemma throws_checked_meta [simp]:
  "throws (checked_meta m) \<longleftrightarrow> collectExecutionClassPolicyViolations m \<noteq> []"
  by (simp add: checked_meta_def split: list.splits)

lemma parse_meta_well_formed:
  assumes "parseCapabilityCompiledMeta j = Inr m"
  shows "meta_well_formed m"
proof -
  have "one_of authority_names (fld j ''authority_requirements'')"
    "one_of [''A'', ''B'', ''C''] (fld j ''execution_class'')"
    using assms by (simp_all add: parseCapabilityCompiledMeta_def authority_names_def split: if_splits)
  then obtain a c where a: "fld j ''authority_requirements'' = JStr a" "a \<in> set authority_names"
    and c: "fld j ''execution_class'' = JStr c" "c \<in> {''A'', ''B'', ''C''}"
    by (auto elim!: one_ofE)
  have fields: "authority_requirements m = a" "execution_class m = c"
      "collectExecutionClassPolicyViolations m = []"
    using assms a(1) c(1)
    by (auto simp: parseCapabilityCompiledMeta_def Let_def split: if_splits)
  have "execution_class m \<in> {''A'', ''B'', ''C''}" using c(2) fields(2) by simp
  from no_violations_iff [OF this] show ?thesis
    using fields a(2) c(2) unfolding meta_well_formed_def by simp
qed

subsection \<open>Properties\<close>

text \<open>C29: Parsing \<open>meta.json\<close> succeeds exactly on the documents that satisfy the published contract: a
  known authority requirement, a class A, B or C, an output schema with a non-empty string type, the
  three class-B fields for class B and only there, the three class-C fields for class C.\<close>

theorem parse_meta_accepts_exactly_the_contract:
  "throws (parseCapabilityCompiledMeta j) = (\<not> meta_document_ok j)"
proof (cases "is_record j \<and> one_of authority_names (fld j ''authority_requirements'') \<and>
    one_of [''A'', ''B'', ''C''] (fld j ''execution_class'') \<and> is_record (fld j ''output_schema'')")
  case False
  then show ?thesis
    by (auto simp: parseCapabilityCompiledMeta_def meta_document_ok_def authority_names_def)
next
  case True
  then obtain c where c: "fld j ''execution_class'' = JStr c" "c \<in> {''A'', ''B'', ''C''}"
    by (auto elim!: one_ofE)
  from c(2) show ?thesis
    using True
    by (elim insertE emptyE)
      (simp_all add: parseCapabilityCompiledMeta_def meta_document_ok_def authority_names_def Let_def
        no_violations_iff c(1) one_of_def)
qed

text \<open>Metadata that \<open>parseCapabilityCompiledMeta\<close> returns is well formed and has no violation left
  for the check that is repeated at admission.\<close>

theorem parsed_meta_has_no_violations:
  assumes "parseCapabilityCompiledMeta j = Inr m"
  shows "meta_well_formed m \<and> collectExecutionClassPolicyViolations m = []"
proof -
  have wf: "meta_well_formed m" by (rule parse_meta_well_formed [OF assms])
  then have "execution_class m \<in> {''A'', ''B'', ''C''}" by (simp add: meta_well_formed_def)
  from no_violations_iff [OF this] wf show ?thesis
    by (auto simp: meta_well_formed_def)
qed

definition meta_example :: json where
  "meta_example = JObj
     [(''authority_requirements'', JStr ''standard''), (''execution_class'', JStr ''B''),
      (''output_schema'', JObj [(''type'', JStr ''object'')]),
      (''side_effect_tier'', JStr ''low''), (''idempotency'', JStr ''keyed''),
      (''replay_behavior'', JStr ''blocked'')]"

definition meta_of_example :: compiled_meta where
  "meta_of_example =
     \<lparr>authority_requirements = ''standard'', execution_class = ''B'',
      output_schema = JObj [(''type'', JStr ''object'')],
      async_model = JUndef, job_id_field = JUndef, partial_receipt = JUndef,
      side_effect_tier = JStr ''low'', idempotency = JStr ''keyed'', replay_behavior = JStr ''blocked''\<rparr>"

lemma parse_meta_example: "parseCapabilityCompiledMeta meta_example = Inr meta_of_example"
  by (simp add: parseCapabilityCompiledMeta_def meta_example_def meta_of_example_def is_record_def
      one_of_def Let_def isSideEffectTier_def isIdempotency_def isReplayBehavior_def
      CLASS_B_SIDE_EFFECT_TIERS_def CLASS_B_IDEMPOTENCY_def CLASS_B_REPLAY_BEHAVIOR_def
      to_str_if_set_def to_bool_if_set_def collectExecutionClassPolicyViolations_def
      output_schema_violations_def nonempty_str_def)

theorem parsed_meta_has_no_violations_witness:
  "meta_well_formed meta_of_example \<and> collectExecutionClassPolicyViolations meta_of_example = []"
  by (rule parsed_meta_has_no_violations [OF parse_meta_example])

end
