(* ===== verification/Version_Sort.thy ===== *)
theory Version_Sort
  imports Prelude
begin

text \<open>
  \<open>capability-registry/src/version-sort.ts\<close>. The comparison uses the package \<open>semver\<close> and the
  locale-aware comparison of the runtime; both are parameters, collected in a record, and
  \<open>version_laws\<close> states what the code relies on: \<open>rcompare\<close> and \<open>localeCompare\<close> are total preorders.
\<close>

record 'v version_ops =
  coerce :: "string \<Rightarrow> 'v option"
  rcompare :: "'v \<Rightarrow> 'v \<Rightarrow> int"
  localeCompare :: "string \<Rightarrow> string \<Rightarrow> int"

text \<open>A comparison function is consistent when it is the sign of a total preorder.\<close>

definition consistent :: "('a \<Rightarrow> 'a \<Rightarrow> int) \<Rightarrow> bool" where
  "consistent cmp =
     ((\<forall>a b. cmp a b < 0 \<longleftrightarrow> 0 < cmp b a) \<and>
      (\<forall>a b c. cmp a b \<le> 0 \<longrightarrow> cmp b c \<le> 0 \<longrightarrow> cmp a c \<le> 0))"

lemma consistent_swap: "consistent cmp \<Longrightarrow> cmp a b < 0 \<longleftrightarrow> 0 < cmp b a"
  by (simp add: consistent_def)

lemma consistent_trans: "consistent cmp \<Longrightarrow> cmp a b \<le> 0 \<Longrightarrow> cmp b c \<le> 0 \<Longrightarrow> cmp a c \<le> 0"
  unfolding consistent_def by blast

lemma consistent_total: "consistent cmp \<Longrightarrow> 0 < cmp a b \<Longrightarrow> cmp b a \<le> 0"
  by (simp add: consistent_def less_imp_le)

lemma consistent_refl: "consistent cmp \<Longrightarrow> cmp a a = 0"
  by (metis consistent_swap less_irrefl linorder_neqE_linordered_idom order.asym)

definition version_laws :: "'v version_ops \<Rightarrow> bool" where
  "version_laws ops = (consistent (rcompare ops) \<and> consistent (localeCompare ops))"

subsection \<open>\<open>Array.prototype.sort\<close> with a comparison function: a stable sort\<close>

fun insert_by :: "('a \<Rightarrow> 'a \<Rightarrow> int) \<Rightarrow> 'a \<Rightarrow> 'a list \<Rightarrow> 'a list" where
  "insert_by cmp x [] = [x]"
| "insert_by cmp x (y # ys) = (if cmp x y \<le> 0 then x # y # ys else y # insert_by cmp x ys)"

definition sort_by :: "('a \<Rightarrow> 'a \<Rightarrow> int) \<Rightarrow> 'a list \<Rightarrow> 'a list" where
  "sort_by cmp xs = foldr (insert_by cmp) xs []"

lemma sort_by_simps [simp]:
  "sort_by cmp [] = []"
  "sort_by cmp (x # xs) = insert_by cmp x (sort_by cmp xs)"
  by (simp_all add: sort_by_def)

lemma set_insert_by [simp]: "set (insert_by cmp x ys) = insert x (set ys)"
  by (induction ys) auto

lemma set_sort_by [simp]: "set (sort_by cmp xs) = set xs"
  by (induction xs) auto

lemma sorted_insert_by:
  assumes "consistent cmp"
  shows "sorted_wrt (\<lambda>a b. cmp a b \<le> 0) ys \<Longrightarrow>
    sorted_wrt (\<lambda>a b. cmp a b \<le> 0) (insert_by cmp x ys)"
proof (induction ys)
  case Nil
  then show ?case by simp
next
  case (Cons y ys)
  then show ?case
    using consistent_trans [OF assms, of x y] consistent_total [OF assms, of x y] by auto
qed

lemma sorted_sort_by:
  "consistent cmp \<Longrightarrow> sorted_wrt (\<lambda>a b. cmp a b \<le> 0) (sort_by cmp xs)"
  by (induction xs) (simp_all add: sorted_insert_by)

subsection \<open>The latest version\<close>

definition compareVersionDesc :: "'v version_ops \<Rightarrow> string \<Rightarrow> string \<Rightarrow> int" where
  "compareVersionDesc ops a b =
     (case (coerce ops a, coerce ops b) of
        (Some av, Some bv) \<Rightarrow> rcompare ops av bv
      | (Some av, None) \<Rightarrow> - 1
      | (None, Some bv) \<Rightarrow> 1
      | (None, None) \<Rightarrow> localeCompare ops b a)"

definition pickLatestVersion :: "'v version_ops \<Rightarrow> string list \<Rightarrow> string option" where
  "pickLatestVersion ops versions =
     (if length versions = 0 then None else Some (sort_by (compareVersionDesc ops) versions ! 0))"

lemma consistent_compareVersionDesc:
  assumes "version_laws ops"
  shows "consistent (compareVersionDesc ops)"
proof -
  have r: "consistent (rcompare ops)" and l: "consistent (localeCompare ops)"
    using assms by (simp_all add: version_laws_def)
  show ?thesis
    unfolding consistent_def
  proof (intro conjI allI impI)
    fix a b
    show "compareVersionDesc ops a b < 0 \<longleftrightarrow> 0 < compareVersionDesc ops b a"
      using consistent_swap [OF r] consistent_swap [OF l]
      by (simp add: compareVersionDesc_def split: option.split)
  next
    fix a b c
    assume "compareVersionDesc ops a b \<le> 0" "compareVersionDesc ops b c \<le> 0"
    then show "compareVersionDesc ops a c \<le> 0"
      using consistent_trans [OF r] consistent_trans [OF l, of c b a]
      by (auto simp: compareVersionDesc_def split: option.splits)
  qed
qed

lemma sort_by_hd:
  assumes "consistent cmp" and "xs \<noteq> []"
  shows "sort_by cmp xs ! 0 \<in> set xs \<and> (\<forall>y \<in> set xs. cmp (sort_by cmp xs ! 0) y \<le> 0)"
proof -
  obtain h t where ht: "sort_by cmp xs = h # t"
    using assms(2) by (metis list.exhaust set_empty set_sort_by)
  then have "set xs = insert h (set t)" by (metis list.simps(15) set_sort_by)
  moreover have "\<forall>y \<in> set t. cmp h y \<le> 0"
    using sorted_sort_by [OF assms(1), of xs] ht by simp
  moreover have "cmp h h \<le> 0" using consistent_refl [OF assms(1)] by simp
  ultimately show ?thesis using ht by simp
qed

lemma pickLatestVersion_None [simp]: "pickLatestVersion ops vs = None \<longleftrightarrow> vs = []"
  by (simp add: pickLatestVersion_def)

lemma pickLatestVersion_Nil [simp]: "pickLatestVersion ops [] = None"
  by (simp add: pickLatestVersion_def)

lemma pickLatestVersion_mem: "pickLatestVersion ops vs = Some v \<Longrightarrow> v \<in> set vs"
  by (metis length_0_conv list.set_sel(1) hd_conv_nth option.inject option.simps(3)
      pickLatestVersion_def set_sort_by set_empty)

lemma pickLatestVersion_latest:
  assumes "version_laws ops" and "pickLatestVersion ops vs = Some v" and "u \<in> set vs"
  shows "compareVersionDesc ops v u \<le> 0"
  using sort_by_hd [OF consistent_compareVersionDesc [OF assms(1)], of vs] assms(2,3)
  by (auto simp: pickLatestVersion_def split: if_splits)

text \<open>An instance of the parameters: version numbers without dots, other labels by length.\<close>

definition number_versions :: "nat version_ops" where
  "number_versions =
     \<lparr>coerce = \<lambda>s. if s \<noteq> [] \<and> list_all is_digit s then Some (nat_of_digits s) else None,
      rcompare = \<lambda>a b. int b - int a,
      localeCompare = \<lambda>a b. int (length a) - int (length b)\<rparr>"

lemma number_versions_laws: "version_laws number_versions"
  by (simp add: version_laws_def number_versions_def consistent_def)

subsection \<open>Properties\<close>

text \<open>The latest version is one of the registered labels, and no label comes before it: a label that
  \<open>semver\<close> can read is picked over one it cannot, among readable ones the highest, and among the others
  the last in the locale's order.\<close>

theorem pickLatestVersion_is_maximal:
  assumes "version_laws ops" and "pickLatestVersion ops vs = Some v" and "u \<in> set vs"
  shows "v \<in> set vs \<and>
    (case (coerce ops v, coerce ops u) of
       (Some a, Some b) \<Rightarrow> rcompare ops a b \<le> 0
     | (None, None) \<Rightarrow> localeCompare ops u v \<le> 0
     | (None, Some b) \<Rightarrow> False
     | (Some a, None) \<Rightarrow> True)"
  using pickLatestVersion_latest [OF assms] pickLatestVersion_mem [OF assms(2)]
  by (auto simp: compareVersionDesc_def split: option.splits)

theorem pickLatestVersion_is_maximal_witness:
  "''12'' \<in> set [''x'', ''9'', ''12''] \<and>
    (case (coerce number_versions ''12'', coerce number_versions ''9'') of
       (Some a, Some b) \<Rightarrow> rcompare number_versions a b \<le> 0
     | (None, None) \<Rightarrow> localeCompare number_versions ''9'' ''12'' \<le> 0
     | (None, Some b) \<Rightarrow> False
     | (Some a, None) \<Rightarrow> True)"
  by (rule pickLatestVersion_is_maximal [OF number_versions_laws])
    (simp_all add: pickLatestVersion_def compareVersionDesc_def number_versions_def is_digit_def
      nat_of_digits_def digit_val_def)

end
