(* ===== verification/Registry.thy ===== *)
theory Registry
  imports Capability_Meta Version_Sort
begin

text \<open>
  The capability registry: \<open>validate.ts\<close> (the cache of compiled schemas), \<open>registry.ts\<close> and \<open>ui.ts\<close> of
  \<open>capability-registry/src\<close>. The schema compiler Ajv is a parameter, a function from a schema to a
  validator or an exception. The cache \<open>compiled\<close> is a module variable, shared by every registry of
  the process, so the operations that touch it take it and return it beside the registry.
\<close>

subsection \<open>The schema cache\<close>

record ajv_error =
  instancePath :: string
  schemaPath :: string
  ajv_message :: string

text \<open>A compiled validator returns a boolean and leaves its errors in a property, possibly \<open>null\<close>.\<close>

type_synonym validator = "json \<Rightarrow> bool \<times> ajv_error list option"
type_synonym schema_compiler = "json \<Rightarrow> validator result"
type_synonym schema_cache = "(string \<times> validator) list"

definition schemaKey :: "string \<Rightarrow> string \<Rightarrow> string" where
  "schemaKey cap ver = cap @ ''@'' @ ver"

definition compileSchema ::
  "schema_compiler \<Rightarrow> string \<Rightarrow> string \<Rightarrow> json \<Rightarrow> schema_cache \<Rightarrow> schema_cache result" where
  "compileSchema ajv cap ver schema cache =
     bind_result (ajv schema) (\<lambda>v. Inr (AList.update (schemaKey cap ver) v cache))"

definition dropCompiled :: "string \<Rightarrow> string \<Rightarrow> schema_cache \<Rightarrow> schema_cache" where
  "dropCompiled cap ver cache = AList.delete (schemaKey cap ver) cache"

definition validateAgainstSchema ::
  "schema_cache \<Rightarrow> string \<Rightarrow> string \<Rightarrow> json \<Rightarrow> bool \<times> ajv_error list option" where
  "validateAgainstSchema cache cap ver input =
     (case map_of cache (schemaKey cap ver) of
        None \<Rightarrow> (False, None)
      | Some validate \<Rightarrow>
          (let r = validate input in (fst r, if fst r then None else snd r)))"

definition ajv_item :: "ajv_error \<Rightarrow> validation_error" where
  "ajv_item e =
     \<lparr>item_path = (if instancePath e \<noteq> [] then Path (instancePath e)
                   else if schemaPath e \<noteq> [] then Path (schemaPath e) else UndefPath),
      message = (if ajv_message e \<noteq> [] then ajv_message e else ''validation error'')\<rparr>"

definition ajvErrorsToItems :: "ajv_error list option \<Rightarrow> validation_error list" where
  "ajvErrorsToItems errors =
     (case errors of None \<Rightarrow> [] | Some es \<Rightarrow> if length es = 0 then [] else map ajv_item es)"

subsection \<open>The registry\<close>

record semantic_result =
  sem_valid :: bool
  sem_errors :: "string list option"

type_synonym semantic_validator = "json \<Rightarrow> semantic_result"

record registry =
  byKey :: "(string \<times> capability_definition) list"
  versionsByCapability :: "(string \<times> string list) list"
  semanticByKey :: "(string \<times> semantic_validator) list"
  metaByKey :: "(string \<times> compiled_meta) list"

definition new_registry :: registry where
  "new_registry = \<lparr>byKey = [], versionsByCapability = [], semanticByKey = [], metaByKey = []\<rparr>"

definition reg_key :: "string \<Rightarrow> string \<Rightarrow> string" where
  "reg_key cap ver = cap @ ''@'' @ ver"

text \<open>\<open>Set.prototype.add\<close> on a set kept in insertion order.\<close>

definition set_add :: "'a \<Rightarrow> 'a list \<Rightarrow> 'a list" where
  "set_add x xs = (if x \<in> set xs then xs else xs @ [x])"

text \<open>
  \<open>registerCapability\<close>. The schema is compiled last: when Ajv throws, the definition and its version
  are registered already and only the validator is missing.
\<close>

definition registerCapability ::
  "schema_compiler \<Rightarrow> capability_definition \<Rightarrow> registry \<Rightarrow> schema_cache
   \<Rightarrow> unit result \<times> registry \<times> schema_cache" where
  "registerCapability ajv d r cache =
     (let key = reg_key (capability d) (version d);
          cache1 = (if map_of (byKey r) key \<noteq> None
                    then dropCompiled (capability d) (version d) cache else cache);
          vs = (case map_of (versionsByCapability r) (capability d) of None \<Rightarrow> [] | Some vs \<Rightarrow> vs);
          r1 = r\<lparr>byKey := AList.update key d (byKey r),
                 versionsByCapability :=
                   AList.update (capability d) (set_add (version d) vs) (versionsByCapability r)\<rparr>
      in case compileSchema ajv (capability d) (version d) (input_schema d) cache1 of
           Inl e \<Rightarrow> (Inl e, r1, cache1)
         | Inr cache2 \<Rightarrow> (Inr (), r1, cache2))"

definition registerCapabilityMeta ::
  "string \<Rightarrow> string \<Rightarrow> compiled_meta \<Rightarrow> registry \<Rightarrow> registry" where
  "registerCapabilityMeta cap ver m r =
     r\<lparr>metaByKey := AList.update (reg_key cap ver) m (metaByKey r)\<rparr>"

definition getCapabilityMeta :: "registry \<Rightarrow> string \<Rightarrow> string \<Rightarrow> compiled_meta option" where
  "getCapabilityMeta r cap ver = map_of (metaByKey r) (reg_key cap ver)"

definition registerSemanticValidator ::
  "string \<Rightarrow> string \<Rightarrow> semantic_validator \<Rightarrow> registry \<Rightarrow> registry" where
  "registerSemanticValidator cap ver f r =
     r\<lparr>semanticByKey := AList.update (reg_key cap ver) f (semanticByKey r)\<rparr>"

definition getCapability ::
  "'v version_ops \<Rightarrow> registry \<Rightarrow> string \<Rightarrow> string option \<Rightarrow> capability_definition option" where
  "getCapability ops r cap ver =
     (if ver \<noteq> None \<and> ver \<noteq> Some [] then map_of (byKey r) (reg_key cap (the ver))
      else
        let versions = map_of (versionsByCapability r) cap;
            latest = pickLatestVersion ops (case versions of None \<Rightarrow> [] | Some vs \<Rightarrow> vs)
        in case latest of
             None \<Rightarrow> None
           | Some v \<Rightarrow> if v = [] then None else map_of (byKey r) (reg_key cap v))"

definition getCapabilityExact :: "registry \<Rightarrow> string \<Rightarrow> string \<Rightarrow> capability_definition option" where
  "getCapabilityExact r cap ver =
     (if ver = [] then None else map_of (byKey r) (reg_key cap ver))"

definition listCapabilities :: "registry \<Rightarrow> capability_definition list" where
  "listCapabilities r = map snd (byKey r)"

definition resolveDefinitionForExecution ::
  "'v version_ops \<Rightarrow> registry \<Rightarrow> string \<Rightarrow> string option
   \<Rightarrow> (capability_definition \<times> string) option" where
  "resolveDefinitionForExecution ops r cap hint =
     (case getCapability ops r cap hint of None \<Rightarrow> None | Some d \<Rightarrow> Some (d, version d))"

definition lookupAdapterBinding ::
  "'v version_ops \<Rightarrow> registry \<Rightarrow> string \<Rightarrow> string option \<Rightarrow> adapter_binding option" where
  "lookupAdapterBinding ops r cap hint =
     map_option (\<lambda>(d, v). adapter d) (resolveDefinitionForExecution ops r cap hint)"

definition resolveVersion :: "'v version_ops \<Rightarrow> registry \<Rightarrow> string \<Rightarrow> string option \<Rightarrow> string option" where
  "resolveVersion ops r cap ver = map_option snd (resolveDefinitionForExecution ops r cap ver)"

definition version_suffix :: "string option \<Rightarrow> string" where
  "version_suffix ver = (case ver of None \<Rightarrow> [] | Some v \<Rightarrow> if v = [] then [] else ''@'' @ v)"

definition unknown_capability :: "string \<Rightarrow> string option \<Rightarrow> validation_error" where
  "unknown_capability cap ver =
     msg (''unknown capability or version: '' @ cap @ version_suffix ver)"

text \<open>The result \<open>None\<close> is \<open>{ valid: true }\<close>, \<open>Some errors\<close> is \<open>{ valid: false, errors }\<close>.\<close>

definition validateInput ::
  "'v version_ops \<Rightarrow> schema_cache \<Rightarrow> registry \<Rightarrow> string \<Rightarrow> json \<Rightarrow> string option
   \<Rightarrow> validation_result" where
  "validateInput ops cache r cap input ver =
     (case getCapability ops r cap ver of
        None \<Rightarrow> Some [unknown_capability cap ver]
      | Some d \<Rightarrow>
          (let (valid, errors) = validateAgainstSchema cache cap (version d) input
           in if \<not> valid \<and> errors = None
              then Some [msg ''schema compiler missing (internal error)'']
              else if \<not> valid then Some (ajvErrorsToItems errors)
              else case map_of (semanticByKey r) (reg_key cap (version d)) of
                     None \<Rightarrow> None
                   | Some sem \<Rightarrow>
                       (let sr = sem input
                        in if \<not> sem_valid sr then
                             Some (map msg (case sem_errors sr of
                                              None \<Rightarrow> [''semantic validation failed''] | Some es \<Rightarrow> es))
                           else None)))"

text \<open>\<open>ui.ts\<close>\<close>

definition definitionsForFormShaping :: "registry \<Rightarrow> capability_definition list" where
  "definitionsForFormShaping r = listCapabilities r"

definition getDefinitionForUi ::
  "'v version_ops \<Rightarrow> registry \<Rightarrow> string \<Rightarrow> string option \<Rightarrow> capability_definition option" where
  "getDefinitionForUi ops r cap ver = getCapability ops r cap ver"

subsection \<open>Invariants\<close>

text \<open>
  Every entry is stored under the key of its own definition and its version is listed; every listed
  version has an entry.
\<close>

definition entries_listed :: "registry \<Rightarrow> bool" where
  "entries_listed r =
     (\<forall>k d. map_of (byKey r) k = Some d \<longrightarrow>
         k = reg_key (capability d) (version d) \<and>
         (\<exists>vs. map_of (versionsByCapability r) (capability d) = Some vs \<and> version d \<in> set vs))"

definition versions_stored :: "registry \<Rightarrow> bool" where
  "versions_stored r =
     (\<forall>cap vs. map_of (versionsByCapability r) cap = Some vs \<longrightarrow>
         vs \<noteq> [] \<and> distinct vs \<and> (\<forall>v \<in> set vs. map_of (byKey r) (reg_key cap v) \<noteq> None))"

definition registry_ok :: "registry \<Rightarrow> bool" where
  "registry_ok r = (entries_listed r \<and> versions_stored r)"

text \<open>The cache holds the validators of the definitions that are registered now, where they compile.\<close>

definition compiled_validator :: "schema_compiler \<Rightarrow> capability_definition option \<Rightarrow> validator option" where
  "compiled_validator ajv d =
     (case d of None \<Rightarrow> None
      | Some d' \<Rightarrow> (case ajv (input_schema d') of Inl e \<Rightarrow> None | Inr v \<Rightarrow> Some v))"

definition cache_ok :: "schema_compiler \<Rightarrow> registry \<Rightarrow> schema_cache \<Rightarrow> bool" where
  "cache_ok ajv r cache =
     (\<forall>k. map_of cache k = compiled_validator ajv (map_of (byKey r) k))"

text \<open>The states of one registry that owns the cache.\<close>

inductive registry_reach :: "schema_compiler \<Rightarrow> registry \<Rightarrow> schema_cache \<Rightarrow> bool" for ajv where
  init: "registry_reach ajv new_registry []"
| capability_step:
    "registry_reach ajv r c \<Longrightarrow> registerCapability ajv d r c = (res, r', c') \<Longrightarrow>
       registry_reach ajv r' c'"
| meta_step: "registry_reach ajv r c \<Longrightarrow> registry_reach ajv (registerCapabilityMeta cap ver m r) c"
| semantic_step:
    "registry_reach ajv r c \<Longrightarrow> registry_reach ajv (registerSemanticValidator cap ver f r) c"

lemma key_eq [simp]: "schemaKey = reg_key"
  by (simp add: fun_eq_iff schemaKey_def reg_key_def)

lemma set_add_simps [simp]:
  "set (set_add x xs) = insert x (set xs)" "set_add x xs \<noteq> []"
  "distinct (set_add x xs) \<longleftrightarrow> distinct xs"
  by (auto simp: set_add_def)

lemma map_of_delete [simp]: "map_of (AList.delete k al) = (map_of al)(k := None)"
  by (rule delete_conv')

text \<open>What \<open>registerCapability\<close> leaves behind, on both exits.\<close>

lemma registerCapability_maps:
  assumes "registerCapability ajv d r c = (res, r', c')"
  shows "map_of (byKey r') = (map_of (byKey r))(reg_key (capability d) (version d) \<mapsto> d)"
    and "map_of (versionsByCapability r') = (map_of (versionsByCapability r))(capability d \<mapsto>
      set_add (version d) (case map_of (versionsByCapability r) (capability d) of None \<Rightarrow> [] | Some vs \<Rightarrow> vs))"
    and "semanticByKey r' = semanticByKey r" and "metaByKey r' = metaByKey r"
  using assms
  by (auto simp: registerCapability_def Let_def split: sum.splits)

lemma registerCapability_cache:
  assumes "registerCapability ajv d r c = (res, r', c')"
  shows "map_of c' = (case ajv (input_schema d) of
      Inr v \<Rightarrow> (map_of c)(reg_key (capability d) (version d) \<mapsto> v)
    | Inl e \<Rightarrow> (if map_of (byKey r) (reg_key (capability d) (version d)) \<noteq> None
                then (map_of c)(reg_key (capability d) (version d) := None) else map_of c))"
  using assms
  by (auto simp: registerCapability_def compileSchema_def dropCompiled_def Let_def bind_result_def
      split: sum.splits if_splits)

lemma registerCapability_throws:
  "registerCapability ajv d r c = (res, r', c') \<Longrightarrow> throws res \<longleftrightarrow> throws (ajv (input_schema d))"
  by (auto simp: registerCapability_def compileSchema_def Let_def bind_result_def split: sum.splits)

lemma entries_listed_register:
  assumes ok: "entries_listed r" and step: "registerCapability ajv d r c = (res, r', c')"
  shows "entries_listed r'"
  unfolding entries_listed_def
proof (intro allI impI)
  fix k e
  assume e: "map_of (byKey r') k = Some e"
  note maps = registerCapability_maps [OF step]
  show "k = reg_key (capability e) (version e) \<and>
    (\<exists>vs. map_of (versionsByCapability r') (capability e) = Some vs \<and> version e \<in> set vs)"
  proof (cases "k = reg_key (capability d) (version d)")
    case True
    then show ?thesis using e by (simp add: maps)
  next
    case False
    then have "map_of (byKey r) k = Some e" using e by (simp add: maps)
    then obtain vs where "k = reg_key (capability e) (version e)"
      "map_of (versionsByCapability r) (capability e) = Some vs" "version e \<in> set vs"
      using ok unfolding entries_listed_def by blast
    then show ?thesis by (auto simp: maps split: option.split)
  qed
qed

lemma versions_stored_register:
  assumes ok: "versions_stored r" and step: "registerCapability ajv d r c = (res, r', c')"
  shows "versions_stored r'"
  unfolding versions_stored_def
proof (intro allI impI)
  fix cap vs
  assume vs: "map_of (versionsByCapability r') cap = Some vs"
  note maps = registerCapability_maps [OF step]
  have keeps: "map_of (byKey r') k \<noteq> None" if "map_of (byKey r) k \<noteq> None" for k
    using that by (simp add: maps)
  have here: "map_of (byKey r') (reg_key (capability d) (version d)) \<noteq> None" by (simp add: maps)
  have old: "us \<noteq> []" "distinct us" "\<And>v. v \<in> set us \<Longrightarrow> map_of (byKey r') (reg_key cap v) \<noteq> None"
    if "map_of (versionsByCapability r) cap = Some us" for us
    using ok that keeps unfolding versions_stored_def by blast+
  show "vs \<noteq> [] \<and> distinct vs \<and> (\<forall>v \<in> set vs. map_of (byKey r') (reg_key cap v) \<noteq> None)"
  proof (cases "cap = capability d")
    case False
    then have "map_of (versionsByCapability r) cap = Some vs" using vs by (simp add: maps)
    then show ?thesis using old by blast
  next
    case True
    define us where "us = (case map_of (versionsByCapability r) cap of None \<Rightarrow> [] | Some us \<Rightarrow> us)"
    have "vs = set_add (version d) us" using vs True by (simp add: maps us_def)
    moreover have "distinct us" using old by (cases "map_of (versionsByCapability r) cap") (auto simp: us_def)
    moreover have "map_of (byKey r') (reg_key cap v) \<noteq> None" if "v \<in> set us" for v
      using old that by (cases "map_of (versionsByCapability r) cap") (auto simp: us_def)
    ultimately show ?thesis using here True by auto
  qed
qed

lemma registry_ok_register:
  assumes "registry_ok r" "registerCapability ajv d r c = (res, r', c')"
  shows "registry_ok r'"
  using assms entries_listed_register versions_stored_register
  unfolding registry_ok_def by blast

lemma cache_ok_register:
  assumes ok: "cache_ok ajv r c" and step: "registerCapability ajv d r c = (res, r', c')"
  shows "cache_ok ajv r' c'"
  unfolding cache_ok_def
proof
  fix k
  have old: "map_of c k = compiled_validator ajv (map_of (byKey r) k)"
    using ok by (simp add: cache_ok_def)
  show "map_of c' k = compiled_validator ajv (map_of (byKey r') k)"
    unfolding registerCapability_maps(1) [OF step] registerCapability_cache [OF step]
    using old
    by (cases "k = reg_key (capability d) (version d)"; cases "ajv (input_schema d)")
      (auto simp: compiled_validator_def)
qed

lemma registry_ok_cong:
  "byKey r' = byKey r \<Longrightarrow> versionsByCapability r' = versionsByCapability r \<Longrightarrow>
    registry_ok r' = registry_ok r"
  by (simp add: registry_ok_def entries_listed_def versions_stored_def)

lemma registry_reach_ok:
  assumes "registry_reach ajv r c"
  shows "registry_ok r \<and> cache_ok ajv r c"
  using assms
proof induction
  case init
  then show ?case
    by (simp add: registry_ok_def entries_listed_def versions_stored_def cache_ok_def compiled_validator_def new_registry_def)
next
  case (capability_step r c d res r' c')
  then show ?case by (meson registry_ok_register cache_ok_register)
next
  case (meta_step r c cap ver m)
  then show ?case
    using registry_ok_cong [of "registerCapabilityMeta cap ver m r" r]
    by (simp add: cache_ok_def registerCapabilityMeta_def)
next
  case (semantic_step r c cap ver f)
  then show ?case
    using registry_ok_cong [of "registerSemanticValidator cap ver f r" r]
    by (simp add: cache_ok_def registerSemanticValidator_def)
qed

subsection \<open>Keys\<close>

text \<open>A version without \<open>@\<close> can be read back from the key, so the key identifies the pair.\<close>

definition at_free :: "string \<Rightarrow> bool" where
  "at_free s = (CHR 0x40 \<notin> set s)"

lemma reg_key_split:
  "at_free v \<Longrightarrow> last_index_of (CHR 0x40) (reg_key c v) = Some (length c)"
  using last_index_of_append [of "CHR 0x40" v c] by (simp add: reg_key_def at_free_def)

lemma reg_key_inj:
  assumes "at_free v" "at_free v'" "reg_key c v = reg_key c' v'"
  shows "c = c' \<and> v = v'"
proof -
  have "length c = length c'"
    using reg_key_split [OF assms(1), of c] reg_key_split [OF assms(2), of c'] assms(3) by simp
  then show ?thesis using assms(3) by (simp add: reg_key_def)
qed

lemma getCapability_exact [simp]:
  "v \<noteq> [] \<Longrightarrow> getCapability ops r cap (Some v) = map_of (byKey r) (reg_key cap v)"
  by (simp add: getCapability_def)

lemma getCapability_latest:
  "ver = None \<or> ver = Some [] \<Longrightarrow> getCapability ops r cap ver =
     (case map_of (versionsByCapability r) cap of
        None \<Rightarrow> None
      | Some vs \<Rightarrow> (case pickLatestVersion ops vs of
          None \<Rightarrow> None
        | Some v \<Rightarrow> if v = [] then None else map_of (byKey r) (reg_key cap v)))"
  by (auto simp: getCapability_def Let_def split: option.split)

lemma getCapability_SomeE:
  assumes "getCapability ops r cap ver = Some d"
  obtains v where "map_of (byKey r) (reg_key cap v) = Some d" "v \<noteq> []"
    "ver = Some v \<or> (\<exists>vs. map_of (versionsByCapability r) cap = Some vs \<and> pickLatestVersion ops vs = Some v)"
proof (cases "ver = None \<or> ver = Some []")
  case True
  then show ?thesis
    using assms that by (auto simp: getCapability_latest dest: pickLatestVersion_mem split: option.splits if_splits)
next
  case False
  then obtain v where "ver = Some v" "v \<noteq> []" by (cases ver) auto
  then show ?thesis using assms that [of v] by simp
qed

text \<open>No label holds an \<open>@\<close> or is empty: then a key stands for one capability and version.\<close>

definition labels_at_free :: "registry \<Rightarrow> bool" where
  "labels_at_free r =
     (\<forall>cap vs. map_of (versionsByCapability r) cap = Some vs \<longrightarrow>
        (\<forall>v \<in> set vs. at_free v \<and> v \<noteq> []))"

definition hint_at_free :: "string option \<Rightarrow> bool" where
  "hint_at_free ver = (case ver of None \<Rightarrow> True | Some v \<Rightarrow> at_free v)"

lemma stored_definition:
  assumes ok: "registry_ok r" and free: "labels_at_free r"
    and v: "at_free v" and d: "map_of (byKey r) (reg_key cap v) = Some d"
  shows "capability d = cap \<and> version d = v"
proof -
  obtain vs where vs: "reg_key cap v = reg_key (capability d) (version d)"
    "map_of (versionsByCapability r) (capability d) = Some vs" "version d \<in> set vs"
    using ok d unfolding registry_ok_def entries_listed_def by blast
  then have "at_free (version d)" using free unfolding labels_at_free_def by blast
  from reg_key_inj [OF v this vs(1)] show ?thesis by simp
qed

lemma getCapability_own:
  assumes "registry_ok r" "labels_at_free r" "hint_at_free ver" "getCapability ops r cap ver = Some d"
  shows "capability d = cap \<and> map_of (byKey r) (reg_key cap (version d)) = Some d \<and>
    (ver = None \<or> ver = Some [] \<or> ver = Some (version d))"
  using assms(4)
proof (rule getCapability_SomeE)
  fix v
  assume v: "map_of (byKey r) (reg_key cap v) = Some d" "v \<noteq> []"
    "ver = Some v \<or> (\<exists>vs. map_of (versionsByCapability r) cap = Some vs \<and> pickLatestVersion ops vs = Some v)"
  then have "at_free v"
    using assms(2,3) pickLatestVersion_mem unfolding labels_at_free_def hint_at_free_def by fastforce
  from stored_definition [OF assms(1,2) this v(1)] have "capability d = cap" "version d = v" by simp_all
  moreover have "ver = None \<or> ver = Some [] \<or> ver = Some v"
  proof (cases "ver = None \<or> ver = Some []")
    case False
    then obtain u where u: "ver = Some u" "u \<noteq> []" by (cases ver) auto
    then have "map_of (byKey r) (reg_key cap u) = Some d" "at_free u"
      using assms(3,4) by (simp_all add: hint_at_free_def)
    from stored_definition [OF assms(1,2) this(2,1)] \<open>version d = v\<close> show ?thesis using u by simp
  qed auto
  ultimately show ?thesis using v(1) by simp
qed

lemma validateInput_known:
  assumes "registry_ok r" "labels_at_free r" "hint_at_free ver" "cache_ok ajv r c"
    and "getCapability ops r cap ver = Some d"
  shows "validateInput ops c r cap input ver = None \<longleftrightarrow>
    (\<exists>validate. ajv (input_schema d) = Inr validate \<and> fst (validate input)) \<and>
    (case map_of (semanticByKey r) (reg_key cap (version d)) of
       None \<Rightarrow> True | Some sem \<Rightarrow> sem_valid (sem input))"
proof -
  have "map_of c (reg_key cap (version d)) = compiled_validator ajv (Some d)"
    using assms(4) getCapability_own [OF assms(1,2,3,5)] by (simp add: cache_ok_def)
  then show ?thesis
    by (auto simp: validateInput_def validateAgainstSchema_def assms(5) Let_def compiled_validator_def
        split: sum.splits option.splits prod.splits if_splits)
qed

subsection \<open>Properties\<close>

text \<open>Registering a definition makes exactly this definition available under its capability and version,
  whether or not its schema compiles, and no lookup under another key changes.\<close>

theorem registered_definition_is_returned:
  assumes "registerCapability ajv d r c = (res, r', c')" and "version d \<noteq> []"
  shows "getCapabilityExact r' (capability d) (version d) = Some d \<and>
    (\<forall>cap ver. reg_key cap ver \<noteq> reg_key (capability d) (version d) \<longrightarrow>
       getCapabilityExact r' cap ver = getCapabilityExact r cap ver)"
  using registerCapability_maps(1) [OF assms(1)] assms(2) by (simp add: getCapabilityExact_def)

definition toy_ajv :: schema_compiler where
  "toy_ajv schema =
     (if is_record schema then Inr (\<lambda>input. (is_record input, None))
      else Inl ''schema must be object'')"

definition toy_definition :: "string \<Rightarrow> string \<Rightarrow> json \<Rightarrow> capability_definition" where
  "toy_definition cap ver schema =
     \<lparr>capability = cap, version = ver, adapter = \<lparr>adapter_key = ''k'', adapter_route = ''r''\<rparr>,
      input_schema = schema, description = None, tags = None\<rparr>"

definition toy_register :: "capability_definition \<Rightarrow> unit result \<times> registry \<times> schema_cache" where
  "toy_register d = registerCapability toy_ajv d new_registry []"

lemma toy_register_eq:
  "toy_register (toy_definition ''a'' ''1'' (JObj [])) =
     (Inr (), \<lparr>byKey = [(''a@1'', toy_definition ''a'' ''1'' (JObj []))],
               versionsByCapability = [(''a'', [''1''])], semanticByKey = [], metaByKey = []\<rparr>,
      [(''a@1'', \<lambda>input. (is_record input, None))])"
  by (simp add: toy_register_def registerCapability_def new_registry_def toy_definition_def
      compileSchema_def toy_ajv_def is_record_def reg_key_def set_add_def)

abbreviation toy_state :: registry where
  "toy_state \<equiv> fst (snd (toy_register (toy_definition ''a'' ''1'' (JObj []))))"

abbreviation toy_cache :: schema_cache where
  "toy_cache \<equiv> snd (snd (toy_register (toy_definition ''a'' ''1'' (JObj []))))"

lemma toy_step:
  "registerCapability toy_ajv (toy_definition ''a'' ''1'' (JObj [])) new_registry [] =
     (Inr (), toy_state, toy_cache)"
  by (simp add: toy_register_eq flip: toy_register_def)

lemma toy_state_facts:
  "registry_reach toy_ajv toy_state toy_cache" "labels_at_free toy_state"
  "map_of (versionsByCapability toy_state) ''a'' = Some [''1'']"
  "getCapability number_versions toy_state ''a'' (Some ''1'') = Some (toy_definition ''a'' ''1'' (JObj []))"
  by (rule capability_step [OF init toy_step])
    (simp_all add: toy_register_eq labels_at_free_def at_free_def reg_key_def)

theorem registered_definition_is_returned_witness:
  "let d = toy_definition ''a'' ''1'' (JObj [])
   in getCapabilityExact toy_state (capability d) (version d) = Some d \<and>
    (\<forall>cap ver. reg_key cap ver \<noteq> reg_key (capability d) (version d) \<longrightarrow>
       getCapabilityExact toy_state cap ver = getCapabilityExact new_registry cap ver)"
  unfolding Let_def
  by (rule registered_definition_is_returned [OF toy_step]) (simp add: toy_definition_def)

text \<open>Without a version, the registry returns a registered definition of that capability with the latest
  of its versions, in every reachable state where labels are non-empty and hold no \<open>@\<close>.\<close>

theorem latest_definition_is_returned:
  assumes "registry_reach ajv r c" and "labels_at_free r" and "version_laws ops"
    and "map_of (versionsByCapability r) cap = Some vs"
  shows "\<exists>d. getCapability ops r cap None = Some d \<and> capability d = cap \<and> version d \<in> set vs \<and>
    (\<forall>u \<in> set vs. compareVersionDesc ops (version d) u \<le> 0)"
proof -
  have ok: "registry_ok r" using registry_reach_ok [OF assms(1)] by simp
  have vs: "vs \<noteq> []" "\<forall>v \<in> set vs. map_of (byKey r) (reg_key cap v) \<noteq> None"
    using ok assms(4) unfolding registry_ok_def versions_stored_def by blast+
  obtain v where v: "pickLatestVersion ops vs = Some v"
    using vs(1) by (meson not_None_eq pickLatestVersion_None)
  then have "v \<in> set vs" by (rule pickLatestVersion_mem)
  moreover have "at_free v" "v \<noteq> []"
    using assms(2,4) \<open>v \<in> set vs\<close> unfolding labels_at_free_def by blast+
  moreover obtain d where d: "map_of (byKey r) (reg_key cap v) = Some d"
    using vs(2) \<open>v \<in> set vs\<close> by blast
  ultimately show ?thesis
    using stored_definition [OF ok assms(2) \<open>at_free v\<close> d] pickLatestVersion_latest [OF assms(3) v]
    by (simp add: getCapability_latest assms(4) v)
qed

theorem latest_definition_is_returned_witness:
  "\<exists>d. getCapability number_versions toy_state ''a'' None = Some d \<and> capability d = ''a'' \<and>
    version d \<in> set [''1''] \<and>
    (\<forall>u \<in> set [''1'']. compareVersionDesc number_versions (version d) u \<le> 0)"
  by (rule latest_definition_is_returned
      [OF toy_state_facts(1,2) number_versions_laws toy_state_facts(3)])

text \<open>C28: In every reachable state of a registry that owns the schema cache, an input is valid exactly when the
  schema of the resolved definition compiles and accepts it and the semantic validator registered for the
  resolved version, if any, accepts it too. No version label, nor the version that is asked for,
  contains an \<open>@\<close>, at which the keys of the registry are ambiguous.\<close>

theorem validateInput_correct:
  assumes "registry_reach ajv r c" and "labels_at_free r" and "hint_at_free ver"
  shows "validateInput ops c r cap input ver = None \<longleftrightarrow>
    (\<exists>d validate. getCapability ops r cap ver = Some d \<and> ajv (input_schema d) = Inr validate \<and>
       fst (validate input) \<and>
       (case map_of (semanticByKey r) (reg_key cap (version d)) of
          None \<Rightarrow> True | Some sem \<Rightarrow> sem_valid (sem input)))"
proof (cases "getCapability ops r cap ver")
  case None
  then show ?thesis by (simp add: validateInput_def)
next
  case (Some d)
  have "registry_ok r" "cache_ok ajv r c" using registry_reach_ok [OF assms(1)] by simp_all
  from validateInput_known [OF this(1) assms(2,3) this(2) Some] show ?thesis
    by (auto simp: Some)
qed

theorem validateInput_correct_witness:
  "validateInput number_versions toy_cache toy_state ''a'' (JObj []) (Some ''1'') = None \<longleftrightarrow>
    (\<exists>d validate. getCapability number_versions toy_state ''a'' (Some ''1'') = Some d \<and>
       toy_ajv (input_schema d) = Inr validate \<and> fst (validate (JObj [])) \<and>
       (case map_of (semanticByKey toy_state) (reg_key ''a'' (version d)) of
          None \<Rightarrow> True | Some sem \<Rightarrow> sem_valid (sem (JObj []))))"
  by (rule validateInput_correct [OF toy_state_facts(1,2)])
    (simp add: hint_at_free_def at_free_def)

text \<open>A definition whose schema does not compile stays registered, but the registry fails closed: every
  input for its version is rejected with the internal error.\<close>

theorem uncompilable_schema_rejects_all_input:
  assumes "registry_reach ajv r c" and "registerCapability ajv d r c = (res, r', c')"
    and "throws res" and "version d \<noteq> []"
  shows "getCapability ops r' (capability d) (Some (version d)) = Some d \<and>
    validateInput ops c' r' (capability d) input (Some (version d)) =
      Some [msg ''schema compiler missing (internal error)'']"
proof -
  have "cache_ok ajv r' c'"
    using registry_reach_ok [OF assms(1)] cache_ok_register [OF _ assms(2)] by blast
  moreover have d: "map_of (byKey r') (reg_key (capability d) (version d)) = Some d"
    using registerCapability_maps(1) [OF assms(2)] by simp
  moreover have "throws (ajv (input_schema d))"
    using registerCapability_throws [OF assms(2)] assms(3) by simp
  ultimately have "map_of c' (reg_key (capability d) (version d)) = None"
    by (simp add: cache_ok_def compiled_validator_def throws_def split: sum.splits)
  then show ?thesis
    using d assms(4) by (simp add: validateInput_def validateAgainstSchema_def)
qed

theorem uncompilable_schema_rejects_all_input_witness:
  "let d = toy_definition ''a'' ''1'' JNull; (res, r', c') = registerCapability toy_ajv d toy_state toy_cache
   in getCapability number_versions r' (capability d) (Some (version d)) = Some d \<and>
    validateInput number_versions c' r' (capability d) JNull (Some (version d)) =
      Some [msg ''schema compiler missing (internal error)'']"
proof -
  let ?d = "toy_definition ''a'' ''1'' JNull"
  obtain res r' c' where step: "registerCapability toy_ajv ?d toy_state toy_cache = (res, r', c')"
    using prod_cases3 by blast
  have "throws res"
    using registerCapability_throws [OF step] by (simp add: toy_ajv_def toy_definition_def is_record_def)
  moreover have "version ?d \<noteq> []" by (simp add: toy_definition_def)
  ultimately show ?thesis
    unfolding Let_def step prod.case
    by (rule uncompilable_schema_rejects_all_input [OF toy_state_facts(1) step])
qed

text \<open>
  The key \<open>capability@version\<close> is ambiguous when a label holds an \<open>@\<close>: a lookup then returns the
  definition of another capability.
\<close>

lemma ambiguous_key_returns_other_capability:
  "getCapability number_versions
     (fst (snd (toy_register (toy_definition ''a@b'' ''c'' (JObj []))))) ''a'' (Some ''b@c'')
   = Some (toy_definition ''a@b'' ''c'' (JObj []))"
  by (simp add: toy_register_def registerCapability_def new_registry_def toy_definition_def
      compileSchema_def toy_ajv_def is_record_def reg_key_def set_add_def)

end
