(* ===== verification/Governance_Runtime.thy ===== *)
theory Governance_Runtime
  imports Definition_Hash Version_Sort
begin

text \<open>
  The durable governance state: \<open>capability-registry/src/governance-runtime.ts\<close>. A runtime keeps the
  execution receipts, linked into one hash chain per chain key, a second chain of anchors over all of
  them, and two projections of the successful receipts that answer the replay questions. Everything is
  appended to two journal files and rebuilt from them by the constructor.

  Receipts and anchors are JavaScript values, since the constructor takes whatever the journals hold.
  The model of the file system is the kind of the root directory and the text of the two journals; an
  append either writes its whole line or throws, as chosen by an argument of the operation. The clock
  is a stream of readings with a counter.
\<close>

subsection \<open>Data\<close>

record authority_context =
  resolved_authority_level :: string
  auth_source :: string
  evaluated_at :: string
  session_id :: "string option"
  subject_id :: "string option"
  authority_context_id :: "string option"

text \<open>A property that an object literal spreads in only when there is a value for it.\<close>

definition opt_part :: "string \<Rightarrow> json option \<Rightarrow> (string \<times> json) list" where
  "opt_part k v = (case v of None \<Rightarrow> [] | Some x \<Rightarrow> [(k, x)])"

definition nonempty_opt :: "string option \<Rightarrow> json option" where
  "nonempty_opt v = (case v of None \<Rightarrow> None | Some s \<Rightarrow> if s = [] then None else Some (JStr s))"

definition authority_json :: "authority_context \<Rightarrow> json" where
  "authority_json a =
     JObj ([(''resolved_authority_level'', JStr (resolved_authority_level a)),
            (''source'', JStr (auth_source a)),
            (''evaluated_at'', JStr (evaluated_at a))]
       @ opt_part ''session_id'' (map_option JStr (session_id a))
       @ opt_part ''subject_id'' (map_option JStr (subject_id a))
       @ opt_part ''authority_context_id'' (map_option JStr (authority_context_id a)))"

record receipt_draft =
  d_capability :: string
  d_version :: "string option"
  d_definition_hash :: "string option"
  d_authority :: authority_context
  d_execution_class :: "string option"
  d_stage :: string
  d_success :: bool
  d_output_validation_passed :: "bool option"
  d_errors :: "validation_error list option"
  d_replay_key :: "string option"
  d_idempotency_key :: "string option"
  d_timestamp :: "string option"

text \<open>
  A ledger entry keeps the position of its receipt. The code has no such field; the position stands for
  the identity of the values that an entry shares with its receipt, which \<open>!==\<close> compares when a
  journal holds an object where a hash should be.
\<close>

record replay_entry =
  replay_key :: string
  re_capability :: string
  re_version :: string
  normalized_input :: string
  recorded_at :: json
  re_receipt_hash :: json
  re_idempotency_key :: json
  receipt_position :: nat

record verification =
  ver_ok :: bool
  checked :: nat
  ver_errors :: "string list"

record chain_verification = verification +
  chain_heads :: nat

datatype invariant_target = receipt_store | replay_ledger | receipt_chain | meta_target | output_schema_target

record governance_invariant =
  inv_ok :: bool
  target :: invariant_target
  inv_message :: string

datatype root_kind = RootMissing | RootDirectory | RootOther

record file_system =
  root :: root_kind
  receipts_file :: "string option"
  anchors_file :: "string option"

record runtime_options =
  rootDir :: string
  environmentId :: string
  runtimeId :: string

record runtime =
  options :: runtime_options
  fs :: file_system
  clock :: "nat \<Rightarrow> string"
  ticks :: nat
  receiptHeads :: "(json \<times> json) list"
  blockedReplay :: "(string \<times> replay_entry) list"
  idempotencyIndex :: "(string \<times> replay_entry) list"
  receipts :: "json list"
  anchors :: "json list"

text \<open>A \<open>Map\<close> whose keys are arbitrary values, compared by \<open>SameValueZero\<close>.\<close>

fun jmap_get :: "(json \<times> 'v) list \<Rightarrow> json \<Rightarrow> 'v option" where
  "jmap_get [] k = None"
| "jmap_get ((k', v) # m) k = (if same_value_zero k' k then Some v else jmap_get m k)"

fun jmap_set :: "json \<Rightarrow> 'v \<Rightarrow> (json \<times> 'v) list \<Rightarrow> (json \<times> 'v) list" where
  "jmap_set k v [] = [(k, v)]"
| "jmap_set k v ((k', w) # m) = (if same_value_zero k' k then (k', v) # m else (k', w) # jmap_set k v m)"

subsection \<open>Journals\<close>

text \<open>
  \<open>parseJsonLines\<close>. The text of the parser's own error, which the message ends with, is the runtime's
  and is left out.
\<close>

definition numbered_lines :: "string \<Rightarrow> (nat \<times> string) list" where
  "numbered_lines raw =
     filter (\<lambda>(i, line). line \<noteq> [])
       (map (\<lambda>(i, line). (i, trim line)) (enumerate 0 (split_on (CHR 0x0A) raw)))"

definition parse_line :: "string \<Rightarrow> nat \<times> string \<Rightarrow> json result" where
  "parse_line path l =
     (case json_parse (snd l) of
        None \<Rightarrow> Inl (path @ '': invalid JSON on line '' @ show_nat (fst l + 1) @ '': '')
      | Some v \<Rightarrow> Inr v)"

definition parseJsonLines :: "string \<Rightarrow> string option \<Rightarrow> json list result" where
  "parseJsonLines path content =
     (case content of
        None \<Rightarrow> Inr []
      | Some raw \<Rightarrow>
          if length (trim raw) = 0 then Inr []
          else map_result (parse_line path) (numbered_lines raw))"

subsection \<open>Replay entries and hash payloads\<close>

definition toReplayEntry :: "nat \<Rightarrow> json \<Rightarrow> replay_entry option" where
  "toReplayEntry i r =
     (if \<not> truthy (fld r ''success'') \<or> fld r ''stage'' \<noteq> JStr ''executed'' then None
      else case fld r ''replay_key'' of
        JStr rk \<Rightarrow>
          (let parts = take 2 (split_on (CHR '':'') rk);
               capVersion = parts ! 0
           in case last_index_of (CHR 0x40) capVersion of
                None \<Rightarrow> None
              | Some at \<Rightarrow>
                  if at = 0 \<or> length parts < 2 then None
                  else Some \<lparr>replay_key = rk,
                             re_capability = take at capVersion,
                             re_version = drop (at + 1) capVersion,
                             normalized_input = parts ! 1,
                             recorded_at = fld r ''timestamp'',
                             re_receipt_hash = fld r ''receipt_hash'',
                             re_idempotency_key =
                               (if truthy (fld r ''idempotency_key'') then fld r ''idempotency_key''
                                else JUndef),
                             receipt_position = i\<rparr>)
      | _ \<Rightarrow> None)"

definition toIdempotencyIndexKey :: "string \<Rightarrow> string \<Rightarrow> string \<Rightarrow> string" where
  "toIdempotencyIndexKey cap ver key = cap @ ''@'' @ ver @ ''#'' @ key"

text \<open>The bookkeeping that \<open>persistReceipt\<close>, \<open>loadState\<close> and the consistency check repeat.\<close>

type_synonym ledger = "(string \<times> replay_entry) list \<times> (string \<times> replay_entry) list"

definition index_entry :: "replay_entry \<Rightarrow> ledger \<Rightarrow> ledger" where
  "index_entry e l =
     (AList.update (replay_key e) e (fst l),
      if truthy (re_idempotency_key e)
      then AList.update
             (toIdempotencyIndexKey (re_capability e) (re_version e) (js_string (re_idempotency_key e)))
             e (snd l)
      else snd l)"

definition index_receipt :: "ledger \<Rightarrow> nat \<times> json \<Rightarrow> ledger" where
  "index_receipt l ir =
     (case toReplayEntry (fst ir) (snd ir) of None \<Rightarrow> l | Some e \<Rightarrow> index_entry e l)"

definition ledger_of :: "json list \<Rightarrow> ledger" where
  "ledger_of rs = foldl index_receipt ([], []) (enumerate 0 rs)"

definition or_dash :: "string option \<Rightarrow> string" where
  "or_dash v = (case v of None \<Rightarrow> ''-'' | Some s \<Rightarrow> s)"

definition chainKeyFor :: "runtime_options \<Rightarrow> authority_context \<Rightarrow> string" where
  "chainKeyFor opts a = join ''|''
     [''env:'' @ environmentId opts, ''runtime:'' @ runtimeId opts,
      ''session:'' @ or_dash (session_id a), ''subject:'' @ or_dash (subject_id a),
      ''authctx:'' @ or_dash (authority_context_id a)]"

definition receiptHashPayload :: "json \<Rightarrow> json" where
  "receiptHashPayload r =
     JObj [(''capability'', fld r ''capability''),
           (''version'', fld r ''version''),
           (''capability_definition_hash'', fld r ''capability_definition_hash''),
           (''authority_level_used'', fld r ''authority_level_used''),
           (''authority'', fld r ''authority''),
           (''execution_class'', fld r ''execution_class''),
           (''timestamp'', fld r ''timestamp''),
           (''stage'', fld r ''stage''),
           (''success'', fld r ''success''),
           (''output_validation_passed'', nullish_else (fld r ''output_validation_passed'') JNull),
           (''errors'', nullish_else (fld r ''errors'') JNull),
           (''prev_receipt_hash'', fld r ''prev_receipt_hash''),
           (''environment_id'', fld r ''environment_id''),
           (''runtime_id'', fld r ''runtime_id''),
           (''chain_key'', fld r ''chain_key''),
           (''replay_key'', nullish_else (fld r ''replay_key'') JNull),
           (''idempotency_key'', nullish_else (fld r ''idempotency_key'') JNull)]"

definition anchorPayload :: "json \<Rightarrow> json" where
  "anchorPayload a =
     JObj [(''chain_key'', fld a ''chain_key''),
           (''anchored_receipt_hash'', fld a ''anchored_receipt_hash''),
           (''prev_anchor_hash'', fld a ''prev_anchor_hash''),
           (''anchored_at'', fld a ''anchored_at'')]"

subsection \<open>Writing\<close>

definition opt_null :: "string option \<Rightarrow> json" where
  "opt_null v = (case v of None \<Rightarrow> JNull | Some s \<Rightarrow> JStr s)"

definition errors_opt :: "validation_error list option \<Rightarrow> json option" where
  "errors_opt v =
     (case v of None \<Rightarrow> None
      | Some es \<Rightarrow> if length es > 0 then Some (JArr (map error_json es)) else None)"

definition receipt_base ::
  "runtime_options \<Rightarrow> receipt_draft \<Rightarrow> string \<Rightarrow> json \<Rightarrow> (string \<times> json) list" where
  "receipt_base opts d timestamp prev =
     [(''capability'', JStr (d_capability d)),
      (''version'', opt_null (d_version d)),
      (''capability_definition_hash'', opt_null (d_definition_hash d)),
      (''authority_level_used'', JStr (resolved_authority_level (d_authority d))),
      (''authority'', authority_json (d_authority d)),
      (''execution_class'', opt_null (d_execution_class d)),
      (''timestamp'', JStr timestamp),
      (''stage'', JStr (d_stage d)),
      (''success'', JBool (d_success d))]
     @ opt_part ''output_validation_passed'' (map_option JBool (d_output_validation_passed d))
     @ opt_part ''errors'' (errors_opt (d_errors d))
     @ [(''prev_receipt_hash'', prev),
        (''environment_id'', JStr (environmentId opts)),
        (''runtime_id'', JStr (runtimeId opts)),
        (''chain_key'', JStr (chainKeyFor opts (d_authority d)))]
     @ opt_part ''replay_key'' (nonempty_opt (d_replay_key d))
     @ opt_part ''idempotency_key'' (nonempty_opt (d_idempotency_key d))"

definition now :: "runtime \<Rightarrow> string \<times> runtime" where
  "now rt = (clock rt (ticks rt), rt\<lparr>ticks := ticks rt + 1\<rparr>)"

definition append_text :: "string option \<Rightarrow> string \<Rightarrow> string option" where
  "append_text content line = Some (case content of None \<Rightarrow> line | Some t \<Rightarrow> t @ line)"

definition jsonl :: "json \<Rightarrow> string" where
  "jsonl v = json_print v @ [CHR 0x0A]"

definition null_error :: "string \<Rightarrow> message" where
  "null_error k = ''Cannot read properties of null (reading '' @ k @ '')''"

text \<open>
  The outcome of the two appends of one \<open>persistReceipt\<close>: \<open>None\<close> when the line is written, the
  message of the exception otherwise.
\<close>

record io_outcome =
  receipt_io :: "message option"
  anchor_io :: "message option"

definition anchor_of :: "json list \<Rightarrow> json \<Rightarrow> json" where
  "anchor_of as receipt =
     (let prev = (if as \<noteq> [] then fld (last as) ''anchor_hash'' else JNull);
          base = [(''chain_key'', fld receipt ''chain_key''),
                  (''anchored_receipt_hash'', fld receipt ''receipt_hash''),
                  (''prev_anchor_hash'', prev),
                  (''anchored_at'', fld receipt ''timestamp'')]
      in JObj (base @ [(''anchor_hash'', JStr (canonical_digest (anchorPayload (JObj base))))]))"

definition persistAnchor :: "io_outcome \<Rightarrow> json \<Rightarrow> runtime \<Rightarrow> unit result \<times> runtime" where
  "persistAnchor io receipt rt =
     (if anchors rt \<noteq> [] \<and> last (anchors rt) = JNull then (Inl (null_error ''anchor_hash''), rt)
      else
        let anchor = anchor_of (anchors rt) receipt
        in case anchor_io io of
             Some e \<Rightarrow> (Inl e, rt)
           | None \<Rightarrow>
               (Inr (), rt\<lparr>fs := (fs rt)\<lparr>anchors_file := append_text (anchors_file (fs rt)) (jsonl anchor)\<rparr>,
                           anchors := anchors rt @ [anchor]\<rparr>))"

definition new_receipt :: "runtime \<Rightarrow> receipt_draft \<Rightarrow> string \<Rightarrow> json" where
  "new_receipt rt d timestamp =
     (let prev = (case jmap_get (receiptHeads rt) (JStr (chainKeyFor (options rt) (d_authority d))) of
                    None \<Rightarrow> JNull
                  | Some h \<Rightarrow> nullish_else h JNull);
          base = receipt_base (options rt) d timestamp prev
      in JObj (base @ [(''receipt_hash'', JStr (canonical_digest (receiptHashPayload (JObj base))))]))"

definition record_receipt :: "json \<Rightarrow> runtime \<Rightarrow> runtime" where
  "record_receipt receipt rt =
     (let l = index_receipt (blockedReplay rt, idempotencyIndex rt) (length (receipts rt), receipt)
      in rt\<lparr>fs := (fs rt)\<lparr>receipts_file := append_text (receipts_file (fs rt)) (jsonl receipt)\<rparr>,
            receipts := receipts rt @ [receipt],
            receiptHeads := jmap_set (fld receipt ''chain_key'') (fld receipt ''receipt_hash'') (receiptHeads rt),
            blockedReplay := fst l, idempotencyIndex := snd l\<rparr>)"

definition persistReceipt :: "io_outcome \<Rightarrow> receipt_draft \<Rightarrow> runtime \<Rightarrow> json result \<times> runtime" where
  "persistReceipt io d rt0 =
     (let (timestamp, rt) = (case d_timestamp d of None \<Rightarrow> now rt0 | Some t \<Rightarrow> (t, rt0));
          receipt = new_receipt rt d timestamp
      in case receipt_io io of
           Some e \<Rightarrow> (Inl e, rt)
         | None \<Rightarrow>
             let rt1 = record_receipt receipt rt
             in case persistAnchor io receipt rt1 of
                  (Inl e, rt2) \<Rightarrow> (Inl e, rt2)
                | (Inr _, rt2) \<Rightarrow> (Inr receipt, rt2))"

subsection \<open>Queries\<close>

definition hasBlockedReplay :: "runtime \<Rightarrow> string \<Rightarrow> bool" where
  "hasBlockedReplay rt key = (map_of (blockedReplay rt) key \<noteq> None)"

text \<open>\<open>None\<close> is \<open>{ found: false }\<close>, \<open>Some k\<close> is \<open>{ found: true, replay_key: k }\<close>.\<close>

definition lookupIdempotencyKey :: "runtime \<Rightarrow> string \<Rightarrow> string option" where
  "lookupIdempotencyKey rt key = map_option replay_key (map_of (idempotencyIndex rt) key)"

text \<open>\<open>Array.prototype.slice\<close> with one and two integer arguments.\<close>

definition slice_pos :: "int \<Rightarrow> 'a list \<Rightarrow> nat" where
  "slice_pos i xs = (if i < 0 then nat (max (int (length xs) + i) 0) else min (nat i) (length xs))"

definition slice_from :: "int \<Rightarrow> 'a list \<Rightarrow> 'a list" where
  "slice_from i xs = drop (slice_pos i xs) xs"

definition slice_to :: "int \<Rightarrow> 'a list \<Rightarrow> 'a list" where
  "slice_to i xs = take (slice_pos i xs) xs"

text \<open>The \<open>localeCompare\<close> of the runtime is a parameter; \<open>recorded_at\<close> is a string in every entry.\<close>

definition listReplayEntries ::
  "(string \<Rightarrow> string \<Rightarrow> int) \<Rightarrow> runtime \<Rightarrow> int \<Rightarrow> replay_entry list" where
  "listReplayEntries locale_compare rt limit =
     slice_to limit
       (sort_by (\<lambda>a b. locale_compare (js_string (recorded_at b)) (js_string (recorded_at a)))
          (map snd (blockedReplay rt)))"

definition listRecentReceipts :: "runtime \<Rightarrow> int \<Rightarrow> json list" where
  "listRecentReceipts rt limit = rev (slice_from (- limit) (receipts rt))"

subsection \<open>Verification\<close>

definition group_receipt :: "(json \<times> json list) list \<Rightarrow> json \<Rightarrow> (json \<times> json list) list" where
  "group_receipt groups r =
     (let k = fld r ''chain_key''
      in case jmap_get groups k of
           None \<Rightarrow> jmap_set k [r] groups
         | Some arr \<Rightarrow> jmap_set k (arr @ [r]) groups)"

definition by_chain :: "json list \<Rightarrow> (json \<times> json list) list" where
  "by_chain rs = foldl group_receipt [] rs"

definition keep_if :: "bool \<Rightarrow> json \<Rightarrow> json option" where
  "keep_if b v = (if b then Some v else None)"

text \<open>The object from which \<open>verifyReceiptChain\<close> recomputes a hash.\<close>

definition receipt_view :: "json \<Rightarrow> json" where
  "receipt_view e =
     JObj ([(''capability'', fld e ''capability''),
            (''version'', fld e ''version''),
            (''capability_definition_hash'', fld e ''capability_definition_hash''),
            (''authority_level_used'', fld e ''authority_level_used''),
            (''authority'', fld e ''authority''),
            (''execution_class'', fld e ''execution_class''),
            (''timestamp'', fld e ''timestamp''),
            (''stage'', fld e ''stage''),
            (''success'', fld e ''success'')]
       @ opt_part ''output_validation_passed''
           (keep_if (fld e ''output_validation_passed'' \<noteq> JUndef) (fld e ''output_validation_passed''))
       @ opt_part ''errors'' (keep_if (truthy (fld e ''errors'')) (fld e ''errors''))
       @ [(''prev_receipt_hash'', fld e ''prev_receipt_hash''),
          (''environment_id'', fld e ''environment_id''),
          (''runtime_id'', fld e ''runtime_id''),
          (''chain_key'', fld e ''chain_key'')]
       @ opt_part ''replay_key'' (keep_if (truthy (fld e ''replay_key'')) (fld e ''replay_key''))
       @ opt_part ''idempotency_key''
           (keep_if (truthy (fld e ''idempotency_key'')) (fld e ''idempotency_key'')))"

definition expected_receipt_hash :: "json \<Rightarrow> string" where
  "expected_receipt_hash e = canonical_digest (receiptHashPayload (receipt_view e))"

definition expected_anchor_hash :: "json \<Rightarrow> string" where
  "expected_anchor_hash a = canonical_digest (anchorPayload (JObj
     [(''chain_key'', fld a ''chain_key''),
      (''anchored_receipt_hash'', fld a ''anchored_receipt_hash''),
      (''prev_anchor_hash'', fld a ''prev_anchor_hash''),
      (''anchored_at'', fld a ''anchored_at'')]))"

fun check_entries :: "json \<Rightarrow> json \<Rightarrow> json list \<Rightarrow> string list" where
  "check_entries ck prev [] = []"
| "check_entries ck prev (e # es) =
     (if \<not> strict_eq (fld e ''prev_receipt_hash'') prev then
        [js_string ck @ '': prev_receipt_hash mismatch at '' @ js_string (fld e ''receipt_hash'')
         @ '' (expected '' @ js_string prev @ '', got '' @ js_string (fld e ''prev_receipt_hash'') @ '')'']
      else [])
     @ (if fld e ''receipt_hash'' \<noteq> JStr (expected_receipt_hash e) then
          [js_string ck @ '': receipt hash mismatch at '' @ js_string (fld e ''receipt_hash'')
           @ '' (expected '' @ expected_receipt_hash e @ '')'']
        else [])
     @ check_entries ck (fld e ''receipt_hash'') es"

definition verifyReceiptChain :: "runtime \<Rightarrow> chain_verification" where
  "verifyReceiptChain rt =
     (let groups = by_chain (receipts rt);
          errors = concat (map (\<lambda>(k, entries). check_entries k JNull entries) groups)
      in \<lparr>ver_ok = (length errors = 0), checked = length (concat (map snd groups)),
          ver_errors = errors, chain_heads = length groups\<rparr>)"

definition set_has :: "json list \<Rightarrow> json \<Rightarrow> bool" where
  "set_has vs v = list_ex (\<lambda>w. same_value_zero w v) vs"

fun check_anchors :: "json list \<Rightarrow> json \<Rightarrow> json list \<Rightarrow> string list" where
  "check_anchors hashes prev [] = []"
| "check_anchors hashes prev (a # as) =
     (if \<not> set_has hashes (fld a ''anchored_receipt_hash'') then
        [''anchor '' @ js_string (fld a ''anchor_hash'') @ '' references missing receipt ''
         @ js_string (fld a ''anchored_receipt_hash'')]
      else [])
     @ (if \<not> strict_eq (fld a ''prev_anchor_hash'') prev then
          [''anchor '' @ js_string (fld a ''anchor_hash'') @ '' prev mismatch (expected '' @ js_string prev
           @ '', got '' @ js_string (fld a ''prev_anchor_hash'') @ '')'']
        else [])
     @ (if fld a ''anchor_hash'' \<noteq> JStr (expected_anchor_hash a) then
          [''anchor hash mismatch at '' @ js_string (fld a ''anchor_hash'') @ '' (expected ''
           @ expected_anchor_hash a @ '')'']
        else [])
     @ check_anchors hashes (fld a ''anchor_hash'') as"

text \<open>A journal line \<open>null\<close> gives an anchor that the loop cannot read.\<close>

definition verifyReceiptAnchors :: "runtime \<Rightarrow> verification result" where
  "verifyReceiptAnchors rt =
     (if JNull \<in> set (anchors rt) then Inl (null_error ''anchored_receipt_hash'')
      else
        let errors = check_anchors (map (\<lambda>r. fld r ''receipt_hash'') (receipts rt)) JNull (anchors rt)
        in Inr \<lparr>ver_ok = (length errors = 0), checked = length (anchors rt), ver_errors = errors\<rparr>)"

definition same_entry_hash :: "replay_entry \<Rightarrow> replay_entry \<Rightarrow> bool" where
  "same_entry_hash a b =
     (strict_eq (re_receipt_hash a) (re_receipt_hash b) \<or>
      receipt_position a = receipt_position b \<and> re_receipt_hash a = re_receipt_hash b)"

definition check_ledger ::
  "string \<Rightarrow> (string \<times> replay_entry) list \<Rightarrow> (string \<times> replay_entry) list \<Rightarrow> string list" where
  "check_ledger m recomputed entries =
     concat (map (\<lambda>(key, e).
       (case map_of recomputed key of
          None \<Rightarrow> [m @ key]
        | Some x \<Rightarrow> if same_entry_hash x e then [] else [m @ key])) entries)"

definition verifyReplayLedgerConsistency :: "runtime \<Rightarrow> verification" where
  "verifyReplayLedgerConsistency rt =
     (let l = ledger_of (receipts rt);
          errors = check_ledger ''blocked replay entry mismatch for '' (fst l) (blockedReplay rt)
                 @ check_ledger ''idempotency index mismatch for '' (snd l) (idempotencyIndex rt)
      in \<lparr>ver_ok = (length errors = 0),
          checked = length (blockedReplay rt) + length (idempotencyIndex rt), ver_errors = errors\<rparr>)"

subsection \<open>Start-up\<close>

definition root_invariant :: "runtime \<Rightarrow> governance_invariant" where
  "root_invariant rt =
     (case root (fs rt) of
        RootDirectory \<Rightarrow> \<lparr>inv_ok = True, target = receipt_store, inv_message = ''receipt store root is available''\<rparr>
      | RootOther \<Rightarrow> \<lparr>inv_ok = False, target = receipt_store, inv_message = ''receipt store root is not a directory''\<rparr>
      | RootMissing \<Rightarrow> \<lparr>inv_ok = False, target = receipt_store,
          inv_message = ''receipt store unavailable: ENOENT: no such file or directory, stat ''
                        @ rootDir (options rt)\<rparr>)"

definition journal_invariant :: "runtime \<Rightarrow> governance_invariant" where
  "journal_invariant rt =
     (let there = receipts_file (fs rt) \<noteq> None
      in \<lparr>inv_ok = there, target = receipt_store,
          inv_message = (if there then ''receipt journal is available'' else ''receipt journal missing'')\<rparr>)"

definition chain_invariant :: "chain_verification \<Rightarrow> governance_invariant" where
  "chain_invariant v =
     \<lparr>inv_ok = ver_ok v, target = receipt_chain,
      inv_message = (if ver_ok v
        then ''receipt chain verified ('' @ show_nat (checked v) @ '' receipts across ''
             @ show_nat (chain_heads v) @ '' chain heads)''
        else ''receipt chain invalid: '' @ ver_errors v ! 0)\<rparr>"

definition anchors_invariant :: "verification \<Rightarrow> governance_invariant" where
  "anchors_invariant v =
     \<lparr>inv_ok = ver_ok v, target = receipt_chain,
      inv_message = (if ver_ok v then ''receipt anchors verified ('' @ show_nat (checked v) @ '' anchors)''
        else ''receipt anchors invalid: '' @ ver_errors v ! 0)\<rparr>"

definition ledger_invariant :: "verification \<Rightarrow> governance_invariant" where
  "ledger_invariant v =
     \<lparr>inv_ok = ver_ok v, target = replay_ledger,
      inv_message = (if ver_ok v then ''replay ledger consistent ('' @ show_nat (checked v) @ '' entries)''
        else ''replay ledger inconsistent: '' @ ver_errors v ! 0)\<rparr>"

definition startupInvariants :: "runtime \<Rightarrow> governance_invariant list result" where
  "startupInvariants rt =
     bind_result (verifyReceiptAnchors rt) (\<lambda>anch.
       Inr [root_invariant rt, journal_invariant rt,
            \<lparr>inv_ok = True, target = replay_ledger,
             inv_message = ''replay ledger projection loaded from durable receipts''\<rparr>,
            chain_invariant (verifyReceiptChain rt), anchors_invariant anch,
            ledger_invariant (verifyReplayLedgerConsistency rt)])"

definition target_name :: "invariant_target \<Rightarrow> string" where
  "target_name t =
     (case t of receipt_store \<Rightarrow> ''receipt_store'' | replay_ledger \<Rightarrow> ''replay_ledger''
      | receipt_chain \<Rightarrow> ''receipt_chain'' | meta_target \<Rightarrow> ''meta''
      | output_schema_target \<Rightarrow> ''output_schema'')"

definition fail_on_first :: "governance_invariant list \<Rightarrow> unit result" where
  "fail_on_first invs =
     (case find (\<lambda>i. \<not> inv_ok i) invs of
        None \<Rightarrow> Inr ()
      | Some i \<Rightarrow> Inl (''governance startup invariant failed ('' @ target_name (target i) @ ''): ''
                       @ inv_message i))"

definition assertStartupInvariants :: "runtime \<Rightarrow> unit result" where
  "assertStartupInvariants rt = bind_result (startupInvariants rt) fail_on_first"

definition ensureFilesystem :: "file_system \<Rightarrow> file_system result" where
  "ensureFilesystem f =
     (case root f of
        RootOther \<Rightarrow> Inl ''EEXIST: file already exists, mkdir''
      | _ \<Rightarrow> Inr \<lparr>root = RootDirectory,
                  receipts_file = Some (case receipts_file f of None \<Rightarrow> [] | Some t \<Rightarrow> t),
                  anchors_file = Some (case anchors_file f of None \<Rightarrow> [] | Some t \<Rightarrow> t)\<rparr>)"

definition load_heads :: "json list \<Rightarrow> (json \<times> json) list" where
  "load_heads rs = foldl (\<lambda>h r. jmap_set (fld r ''chain_key'') (fld r ''receipt_hash'') h) [] rs"

definition loadState ::
  "runtime_options \<Rightarrow> (nat \<Rightarrow> string) \<Rightarrow> nat \<Rightarrow> file_system \<Rightarrow> runtime result" where
  "loadState opts clk t f =
     bind_result (parseJsonLines (rootDir opts @ ''/receipts.jsonl'') (receipts_file f)) (\<lambda>rs.
     bind_result (parseJsonLines (rootDir opts @ ''/anchors.jsonl'') (anchors_file f)) (\<lambda>as.
       if JNull \<in> set rs then Inl (null_error ''chain_key'')
       else Inr \<lparr>options = opts, fs = f, clock = clk, ticks = t, receiptHeads = load_heads rs,
                 blockedReplay = fst (ledger_of rs), idempotencyIndex = snd (ledger_of rs),
                 receipts = rs, anchors = as\<rparr>))"

text \<open>The constructor: its result, and the file system it leaves behind on either exit.\<close>

definition createFileGovernanceRuntime ::
  "runtime_options \<Rightarrow> (nat \<Rightarrow> string) \<Rightarrow> nat \<Rightarrow> file_system \<Rightarrow> runtime result \<times> file_system" where
  "createFileGovernanceRuntime opts clk t f =
     (case ensureFilesystem f of
        Inl e \<Rightarrow> (Inl e, f)
      | Inr f' \<Rightarrow> (loadState opts clk t f', f'))"

end
