(* ===== verification/Enforcement.thy ===== *)
theory Enforcement
  imports Registry Governance_Runtime
begin

text \<open>
  Admission: \<open>capability-registry/src/enforcement.ts\<close>. The host asserts an authority context, the
  compiled metadata states a requirement, and a capability of class B may block the repetition of an
  execution. The output validators are cached in a module variable, which is explicit here.
\<close>

subsection \<open>Drafts and authority\<close>

record bridge_draft =
  draft_capability :: string
  draft_input :: json
  draft_context :: json
  draft_version :: "string option"

definition policyKey :: "string \<Rightarrow> string \<Rightarrow> string" where
  "policyKey cap ver = cap @ ''@'' @ ver"

text \<open>A table lookup with a name that is not in the table gives \<open>undefined\<close>.\<close>

definition ADMISSION_RANK :: "string \<Rightarrow> nat option" where
  "ADMISSION_RANK = map_of [(''none'', 0), (''standard'', 1), (''elevated'', 2), (''continuous_resonance'', 3)]"

definition REQUIREMENT_RANK :: "string \<Rightarrow> nat option" where
  "REQUIREMENT_RANK =
     map_of [(''none'', 0), (''standard'', 1), (''elevated'', 2), (''continuous_resonance_required'', 3)]"

text \<open>The operator \<open><\<close>, which is false when an operand is \<open>undefined\<close>.\<close>

definition less_rank :: "nat option \<Rightarrow> nat option \<Rightarrow> bool" where
  "less_rank a b = (case (a, b) of (Some x, Some y) \<Rightarrow> x < y | _ \<Rightarrow> False)"

definition stableInputKeyForReplay :: "json \<Rightarrow> string" where
  "stableInputKeyForReplay input =
     (case json_stringify (sort_keys_deep input) of Inr s \<Rightarrow> s | Inl e \<Rightarrow> js_string input)"

definition replayBlockedLookupKey :: "string \<Rightarrow> string \<Rightarrow> json \<Rightarrow> string" where
  "replayBlockedLookupKey cap ver input = policyKey cap ver @ '':'' @ stableInputKeyForReplay input"

definition validateAuthorityContext :: "authority_context option \<Rightarrow> validation_error list" where
  "validateAuthorityContext authority =
     (case authority of
        None \<Rightarrow> [msg ''authorityContext is required: host must provide resolved_authority_level, source, and evaluated_at'']
      | Some a \<Rightarrow>
          push_if (resolved_authority_level a \<noteq> ''none'' \<and> resolved_authority_level a \<noteq> ''standard'' \<and>
                   resolved_authority_level a \<noteq> ''elevated'' \<and>
                   resolved_authority_level a \<noteq> ''continuous_resonance'')
            ''authorityContext.resolved_authority_level must be none|standard|elevated|continuous_resonance''
          @ push_if (length (trim (auth_source a)) = 0)
              ''authorityContext.source must be a non-empty string''
          @ push_if (length (trim (evaluated_at a)) = 0)
              ''authorityContext.evaluated_at must be a non-empty string''
          @ push_if (case authority_context_id a of None \<Rightarrow> False | Some i \<Rightarrow> length (trim i) = 0)
              ''authorityContext.authority_context_id must be a non-empty string when set'')"

text \<open>An optional string that an object literal spreads in only when it is truthy.\<close>

definition truthy_opt :: "string option \<Rightarrow> string option" where
  "truthy_opt v = (case v of None \<Rightarrow> None | Some s \<Rightarrow> if s = [] then None else Some s)"

definition truthy_trim :: "string option \<Rightarrow> string option" where
  "truthy_trim v = truthy_opt (map_option trim v)"

record authority_input =
  in_source :: "string option"
  in_evaluated_at :: "string option"
  in_session_id :: "string option"
  in_subject_id :: "string option"
  in_authority_context_id :: "string option"

definition or_else :: "'a option \<Rightarrow> 'a \<Rightarrow> 'a" where
  "or_else v d = (case v of None \<Rightarrow> d | Some x \<Rightarrow> x)"

text \<open>\<open>resolveAuthorityContext\<close>; \<open>date_now\<close> is the reading of the system clock.\<close>

definition resolveAuthorityContext ::
  "string \<Rightarrow> string \<Rightarrow> authority_input option \<Rightarrow> authority_context" where
  "resolveAuthorityContext date_now level inp =
     (let get = (\<lambda>f. case inp of None \<Rightarrow> None | Some i \<Rightarrow> f i)
      in \<lparr>resolved_authority_level = level,
          auth_source = or_else (get in_source) ''host'',
          evaluated_at = or_else (get in_evaluated_at) date_now,
          session_id = truthy_opt (get in_session_id),
          subject_id = truthy_opt (get in_subject_id),
          authority_context_id = truthy_trim (get in_authority_context_id)\<rparr>)"

text \<open>A context field counts when it is a string that is not blank; it is trimmed.\<close>

definition context_string :: "json \<Rightarrow> string \<Rightarrow> string option" where
  "context_string ctx k =
     (case fld ctx k of JStr s \<Rightarrow> if length (trim s) > 0 then Some (trim s) else None | _ \<Rightarrow> None)"

definition resolveExecutionAuthorityContext ::
  "bridge_draft \<Rightarrow> runtime \<Rightarrow> authority_context option \<Rightarrow> authority_context \<times> runtime" where
  "resolveExecutionAuthorityContext d rt seed =
     (let ctx = draft_context d;
          sess = (case context_string ctx ''session_id'' of
                    Some s \<Rightarrow> Some s | None \<Rightarrow> (case seed of None \<Rightarrow> None | Some a \<Rightarrow> session_id a));
          subj = (case context_string ctx ''subject_id'' of
                    Some s \<Rightarrow> Some s | None \<Rightarrow> (case seed of None \<Rightarrow> None | Some a \<Rightarrow> subject_id a));
          actx = (case context_string ctx ''authority_context_id'' of
                    Some s \<Rightarrow> Some s
                  | None \<Rightarrow> (case seed of None \<Rightarrow> None | Some a \<Rightarrow> truthy_trim (authority_context_id a)));
          (t, rt') = now rt
      in (\<lparr>resolved_authority_level = (case seed of None \<Rightarrow> ''none'' | Some a \<Rightarrow> resolved_authority_level a),
           auth_source = ''resolved:'' @ (case seed of None \<Rightarrow> ''host'' | Some a \<Rightarrow> auth_source a),
           evaluated_at = t,
           session_id = truthy_opt sess,
           subject_id = truthy_opt subj,
           authority_context_id = truthy_opt actx\<rparr>, rt'))"

subsection \<open>The replay gate\<close>

definition idempotencyKeyFromInput :: "json \<Rightarrow> string option" where
  "idempotencyKeyFromInput input =
     (if \<not> is_record input then None
      else case fld input ''idempotency_key'' of
             JStr raw \<Rightarrow> (let key = trim raw in if length key > 0 then Some key else None)
           | _ \<Rightarrow> None)"

definition replay_gated :: "compiled_meta \<Rightarrow> bool" where
  "replay_gated m =
     (execution_class m = ''B'' \<and>
      (replay_behavior m = JStr ''blocked'' \<or> replay_behavior m = JStr ''allowed_same_key''))"

definition assertReplayAllowed ::
  "compiled_meta \<Rightarrow> string \<Rightarrow> string \<Rightarrow> json \<Rightarrow> runtime option \<Rightarrow> validation_error option" where
  "assertReplayAllowed m cap ver input runtime =
     (if \<not> replay_gated m then None
      else case runtime of
        None \<Rightarrow> Some (msg (''durable replay ledger required for '' @ policyKey cap ver
                          @ '' but governanceRuntime was not provided''))
      | Some rt \<Rightarrow>
          (let idem = idempotencyKeyFromInput input;
               k = replayBlockedLookupKey cap ver input
           in if idempotency m = JStr ''keyed'' \<and> idem = None
              then Some (msg (''idempotency_key required by meta.idempotency for '' @ policyKey cap ver))
              else if replay_behavior m = JStr ''allowed_same_key'' then
                (if idempotency m \<noteq> JStr ''keyed''
                 then Some (msg (''replay_behavior allowed_same_key requires idempotency keyed for ''
                                 @ policyKey cap ver))
                 else case idem of
                   None \<Rightarrow> Some (msg (''allowed_same_key requires input.idempotency_key for ''
                                     @ policyKey cap ver))
                 | Some key \<Rightarrow>
                     (case lookupIdempotencyKey rt (toIdempotencyIndexKey cap ver key) of
                        None \<Rightarrow> None
                      | Some existing \<Rightarrow>
                          if existing \<noteq> k
                          then Some (msg (''idempotency_key reuse with different input is blocked for ''
                                          @ policyKey cap ver))
                          else None))
              else if hasBlockedReplay rt k
              then Some (msg (''replay blocked by meta.replay_behavior: duplicate execution for ''
                              @ policyKey cap ver))
              else None))"

subsection \<open>Admission\<close>

definition defaultClassPolicyHook :: "compiled_meta \<Rightarrow> validation_error list" where
  "defaultClassPolicyHook m = collectExecutionClassPolicyViolations m"

definition checkAdmissionPolicy ::
  "compiled_meta \<Rightarrow> authority_context \<Rightarrow> (compiled_meta \<Rightarrow> validation_error list) option
   \<Rightarrow> validation_error list" where
  "checkAdmissionPolicy m authority class_policy =
     (let errors = or_else class_policy defaultClassPolicyHook m @ validateAuthorityContext (Some authority)
      in if length errors > 0 then errors
         else push_if (less_rank (ADMISSION_RANK (resolved_authority_level authority))
                         (REQUIREMENT_RANK (authority_requirements m)))
                (''admission_authority insufficient: capability requires '' @ authority_requirements m
                 @ '', host asserted '' @ resolved_authority_level authority))"

subsection \<open>Adapter output\<close>

text \<open>
  \<open>validateAdapterOutput\<close>, with the cache of output validators of the module. The result \<open>None\<close> is
  \<open>{ valid: true }\<close>.
\<close>

definition validateAdapterOutput ::
  "schema_compiler \<Rightarrow> string \<Rightarrow> string \<Rightarrow> compiled_meta \<Rightarrow> json \<Rightarrow> schema_cache
   \<Rightarrow> validation_result \<times> schema_cache" where
  "validateAdapterOutput ajvOut cap ver m output cache =
     (let key = policyKey cap ver;
          run = (\<lambda>validate. case validate output of (ok, errors) \<Rightarrow>
                   if \<not> ok then Some (ajvErrorsToItems errors) else None)
      in case map_of cache key of
           Some validate \<Rightarrow> (run validate, cache)
         | None \<Rightarrow>
             (case ajvOut (output_schema m) of
                Inl e \<Rightarrow> (Some [msg (''output_schema not compilable: '' @ e)], cache)
              | Inr validate \<Rightarrow> (run validate, AList.update key validate cache)))"

subsection \<open>Facts about replay keys\<close>

lemma policyKey_eq [simp]: "policyKey = reg_key"
  by (simp add: fun_eq_iff policyKey_def reg_key_def)

lemma no_proto_plain_stringify:
  assumes "json_plain input" "no_proto input"
  shows "stableInputKeyForReplay input = json_print (reorder (canon input))"
proof -
  have eq: "sort_keys_deep input = reorder (canon input)"
    by (rule sort_keys_deep_reorder [OF assms(2)])
  have "canon (sort_keys_deep input) = canon input" by (rule canon_sort_keys_deep [OF assms(2)])
  then have "has_bigint (sort_keys_deep input) = has_bigint input" by (metis has_bigint_canon)
  then have "\<not> has_bigint (sort_keys_deep input)" using assms(1) by simp
  then show ?thesis by (simp add: stableInputKeyForReplay_def json_stringify_def eq)
qed

lemma plain_set_all: "json_plain (JObj kvs) \<Longrightarrow> json_plain (JObj (set_all kvs))"
  using mset_set_all [of kvs] by (auto simp: plain_members_all) (metis distinct_map mset_eq_imp_distinct_iff mset_map)

lemma plain_reorder: "json_plain v \<Longrightarrow> json_plain (reorder v)"
proof (induction v rule: json_members_induct)
  case (Arr xs)
  then show ?case by (simp add: plain_elems_all reorder_elems_map)
next
  case (Obj kvs)
  then have "json_plain (JObj (map_vals reorder kvs))"
    by (auto simp: plain_members_all set_map_vals)
  then show ?case by (simp add: reorder_members_map plain_set_all del: json_plain.simps)
qed simp_all

lemma replay_input_key_inj:
  assumes "json_plain a" "no_proto a" "json_plain b" "no_proto b"
  shows "stableInputKeyForReplay a = stableInputKeyForReplay b \<longleftrightarrow> canon a = canon b"
proof
  assume "stableInputKeyForReplay a = stableInputKeyForReplay b"
  then have "json_print (reorder (canon a)) = json_print (reorder (canon b))"
    by (simp only: no_proto_plain_stringify assms)
  then have "canon (reorder (canon a)) = canon (reorder (canon b))"
    by (intro json_print_inj) (simp_all add: plain_reorder assms)
  then show "canon a = canon b" by (simp only: canon_reorder plain_canon canon_idem assms simp_thms)
next
  assume "canon a = canon b"
  then show "stableInputKeyForReplay a = stableInputKeyForReplay b"
    by (simp only: no_proto_plain_stringify assms)
qed

end
