(* ===== verification/Bridge.thy ===== *)
theory Bridge
  imports Enforcement
begin

text \<open>
  The preparation of an execution: \<open>capability-registry/src/bridge.ts\<close>. The version is resolved once,
  the input validated, the admission policy and the replay gate applied, and the definition hash
  computed from the definition that was resolved. \<open>host\<close> collects the external functions: the version
  comparison and the two schema compilers.
\<close>

record 'v host =
  versions :: "'v version_ops"
  ajv_in :: schema_compiler
  ajv_out :: schema_compiler

record bridge_request =
  req_capability :: string
  req_input :: json
  req_context :: json
  req_version :: string
  req_definition_hash :: "string option"

datatype prepare_result =
    Prepared bridge_request adapter_binding
  | Refused string "validation_error list"

record prepare_options =
  opt_authority :: "authority_context option"
  opt_runtime :: "runtime option"
  opt_class_policy :: "(compiled_meta \<Rightarrow> validation_error list) option"

text \<open>
  The checks after the authority is resolved. The result is an exception when the schema of the
  definition cannot be stringified.
\<close>

definition prepare_resolved ::
  "'v host \<Rightarrow> schema_cache \<Rightarrow> registry \<Rightarrow> bridge_draft \<Rightarrow> authority_context
   \<Rightarrow> (compiled_meta \<Rightarrow> validation_error list) option \<Rightarrow> runtime \<Rightarrow> prepare_result result" where
  "prepare_resolved h cache r d authority class_policy rt =
     (case resolveDefinitionForExecution (versions h) r (draft_capability d) (draft_version d) of
        None \<Rightarrow> Inr (Refused ''definition'' [unknown_capability (draft_capability d) (draft_version d)])
      | Some (def, ver) \<Rightarrow>
          (case validateInput (versions h) cache r (draft_capability d) (draft_input d) (Some ver) of
             Some errors \<Rightarrow> Inr (Refused ''input_validation'' errors)
           | None \<Rightarrow>
               (case getCapabilityMeta r (draft_capability d) ver of
                  None \<Rightarrow> Inr (Refused ''governance_meta''
                    [msg (''governance metadata missing for '' @ reg_key (draft_capability d) ver
                          @ '' (expected meta.json from compiled capabilities)'')])
                | Some m \<Rightarrow>
                    (let policy_errors = checkAdmissionPolicy m authority class_policy
                     in if length policy_errors > 0 then Inr (Refused ''admission'' policy_errors)
                        else case assertReplayAllowed m (draft_capability d) ver (draft_input d) (Some rt) of
                          Some e \<Rightarrow> Inr (Refused ''admission'' [e])
                        | None \<Rightarrow>
                            bind_result (computeCapabilityDefinitionHash def) (\<lambda>hash.
                              Inr (Prepared
                                \<lparr>req_capability = draft_capability d, req_input = draft_input d,
                                 req_context = draft_context d, req_version = ver,
                                 req_definition_hash = Some hash\<rparr> (adapter def)))))))"

definition prepareExecutionRequest ::
  "'v host \<Rightarrow> schema_cache \<Rightarrow> registry \<Rightarrow> bridge_draft \<Rightarrow> prepare_options
   \<Rightarrow> prepare_result result \<times> runtime option" where
  "prepareExecutionRequest h cache r d opts =
     (case opt_authority opts of
        None \<Rightarrow> (Inr (Refused ''admission''
          [msg ''authorityContext is required: host must explicitly resolve none|standard|elevated|continuous_resonance with provenance'']),
          opt_runtime opts)
      | Some seed \<Rightarrow>
          (case opt_runtime opts of
             None \<Rightarrow> (Inr (Refused ''admission''
               [msg ''governanceRuntime is required: governed admission must have durable governance state'']), None)
           | Some rt \<Rightarrow>
               (let (authority, rt') = resolveExecutionAuthorityContext d rt (Some seed)
                in (prepare_resolved h cache r d authority (opt_class_policy opts) rt', Some rt'))))"

definition validateAdapterOutputForCapability ::
  "'v host \<Rightarrow> registry \<Rightarrow> string \<Rightarrow> string \<Rightarrow> json \<Rightarrow> schema_cache \<Rightarrow> validation_result \<times> schema_cache" where
  "validateAdapterOutputForCapability h r cap ver output cache =
     (case getCapabilityMeta r cap ver of
        None \<Rightarrow> (Some [msg (''governance metadata missing for '' @ reg_key cap ver)], cache)
      | Some m \<Rightarrow> validateAdapterOutput (ajv_out h) cap ver m output cache)"

subsection \<open>What a prepared request has passed\<close>

text \<open>\<open>admissible\<close> states every gate of the preparation on one definition and version.\<close>

definition admissible ::
  "'v host \<Rightarrow> schema_cache \<Rightarrow> registry \<Rightarrow> bridge_draft \<Rightarrow> authority_context
   \<Rightarrow> (compiled_meta \<Rightarrow> validation_error list) option \<Rightarrow> runtime \<Rightarrow> capability_definition \<Rightarrow> compiled_meta
   \<Rightarrow> bool" where
  "admissible h cache r d authority class_policy rt def m =
     (getCapability (versions h) r (draft_capability d) (draft_version d) = Some def \<and>
      validateInput (versions h) cache r (draft_capability d) (draft_input d) (Some (version def)) = None \<and>
      getCapabilityMeta r (draft_capability d) (version def) = Some m \<and>
      checkAdmissionPolicy m authority class_policy = [] \<and>
      assertReplayAllowed m (draft_capability d) (version def) (draft_input d) (Some rt) = None)"

lemma prepare_resolved_Prepared:
  "prepare_resolved h cache r d authority class_policy rt = Inr (Prepared req ad) \<longleftrightarrow>
    (\<exists>def m hash. admissible h cache r d authority class_policy rt def m \<and>
       computeCapabilityDefinitionHash def = Inr hash \<and> ad = adapter def \<and>
       req = \<lparr>req_capability = draft_capability d, req_input = draft_input d, req_context = draft_context d,
              req_version = version def, req_definition_hash = Some hash\<rparr>)"
  by (auto simp: prepare_resolved_def admissible_def resolveDefinitionForExecution_def Let_def
      split: option.splits if_splits)

lemma resolveExecution_ticks:
  "snd (resolveExecutionAuthorityContext d rt seed) = rt\<lparr>ticks := ticks rt + 1\<rparr>"
  by (simp add: resolveExecutionAuthorityContext_def Let_def now_def)

lemma queries_ignore_ticks [simp]:
  "hasBlockedReplay (rt\<lparr>ticks := n\<rparr>) k = hasBlockedReplay rt k"
  "lookupIdempotencyKey (rt\<lparr>ticks := n\<rparr>) k = lookupIdempotencyKey rt k"
  by (simp_all add: hasBlockedReplay_def lookupIdempotencyKey_def)

lemma replay_ignores_ticks [simp]:
  "assertReplayAllowed m cap ver input (Some (rt\<lparr>ticks := n\<rparr>)) = assertReplayAllowed m cap ver input (Some rt)"
  unfolding assertReplayAllowed_def option.case queries_ignore_ticks by (rule refl)

lemma admissible_ticks [simp]:
  "admissible h cache r d a cp (rt\<lparr>ticks := n\<rparr>) def m = admissible h cache r d a cp rt def m"
  by (simp add: admissible_def)

end
