(* ===== verification/Governance_Chain.thy ===== *)
theory Governance_Chain
  imports Governance_Runtime
begin

text \<open>
  What the verification functions of the governance runtime establish. A journal is linked when every
  receipt carries its own digest and the hash of the previous receipt of its chain, and every anchor
  likewise; the code's grouping into chains and its error lists are shown equivalent to that. The locale
  \<open>hash_chain\<close> states once why a linked list of digests is tamper evident; receipts and anchors are
  its two instances.
\<close>

subsection \<open>Maps keyed by values\<close>

lemma num_same_refl [simp]: "num_same a a"
  by (cases a) simp_all

lemma num_same_sym: "num_same a b = num_same b a"
  by (cases a; cases b) auto

lemma num_same_trans: "num_same a b \<Longrightarrow> num_same b c \<Longrightarrow> num_same a c"
  by (cases a; cases b; cases c) auto

lemma same_value_zero_sym: "same_value_zero a b = same_value_zero b a"
  by (cases a; cases b) (auto simp: num_same_sym)

lemma same_value_zero_trans: "same_value_zero a b \<Longrightarrow> same_value_zero b c \<Longrightarrow> same_value_zero a c"
  by (cases a; cases b; cases c) (auto dest: num_same_trans)

lemma jmap_get_set:
  "jmap_get (jmap_set k v m) k' = (if same_value_zero k k' then Some v else jmap_get m k')"
proof (induction m)
  case Nil
  then show ?case by simp
next
  case (Cons p m)
  obtain k0 w where p: "p = (k0, w)" by (cases p)
  have eq: "same_value_zero k0 k' = same_value_zero k k'" if "same_value_zero k0 k"
    using that same_value_zero_sym same_value_zero_trans by blast
  have neq: "\<not> same_value_zero k0 k'" if "\<not> same_value_zero k0 k" "same_value_zero k k'"
    using that same_value_zero_sym same_value_zero_trans by blast
  show ?case
  proof (cases "same_value_zero k0 k")
    case True
    then show ?thesis using eq by (simp add: p)
  next
    case False
    then show ?thesis using neq Cons by (auto simp: p)
  qed
qed

subsection \<open>The specification of a receipt journal\<close>

definition head_of :: "(json \<times> json) list \<Rightarrow> json \<Rightarrow> json" where
  "head_of heads k = (case jmap_get heads k of None \<Rightarrow> JNull | Some h \<Rightarrow> h)"

text \<open>\<open>receipt_links rs r\<close>: receipt \<open>r\<close> is a correct successor of the journal \<open>rs\<close>.\<close>

definition receipt_links :: "json list \<Rightarrow> json \<Rightarrow> bool" where
  "receipt_links rs r =
     (strict_eq (fld r ''prev_receipt_hash'') (head_of (load_heads rs) (fld r ''chain_key'')) \<and>
      fld r ''receipt_hash'' = JStr (expected_receipt_hash r))"

definition receipts_linked :: "json list \<Rightarrow> bool" where
  "receipts_linked rs = (\<forall>i < length rs. receipt_links (take i rs) (rs ! i))"

lemma receipts_linked_Nil [simp]: "receipts_linked []"
  by (simp add: receipts_linked_def)

lemma receipts_linked_snoc [simp]:
  "receipts_linked (rs @ [r]) \<longleftrightarrow> receipts_linked rs \<and> receipt_links rs r"
  by (auto simp: receipts_linked_def less_Suc_eq nth_append)

lemma load_heads_snoc [simp]:
  "load_heads [] = []"
  "load_heads (rs @ [r]) = jmap_set (fld r ''chain_key'') (fld r ''receipt_hash'') (load_heads rs)"
  by (simp_all add: load_heads_def)

lemma by_chain_snoc [simp]: "by_chain [] = []" "by_chain (rs @ [r]) = group_receipt (by_chain rs) r"
  by (simp_all add: by_chain_def)

definition last_hash :: "json \<Rightarrow> json list \<Rightarrow> json" where
  "last_hash p es = (if es = [] then p else fld (last es) ''receipt_hash'')"

lemma check_entries_snoc:
  "check_entries ck p (es @ [e]) = check_entries ck p es @ check_entries ck (last_hash p es) [e]"
  by (induction es arbitrary: p) (simp_all add: last_hash_def)

lemma check_entries_single:
  "check_entries ck p [e] = [] \<longleftrightarrow>
     strict_eq (fld e ''prev_receipt_hash'') p \<and> fld e ''receipt_hash'' = JStr (expected_receipt_hash e)"
  by simp

lemma head_of_by_chain:
  "head_of (load_heads rs) k =
     (case jmap_get (by_chain rs) k of None \<Rightarrow> JNull | Some es \<Rightarrow> last_hash JNull es)"
proof (induction rs rule: rev_induct)
  case Nil
  then show ?case by (simp add: head_of_def)
next
  case (snoc r rs)
  then show ?case
    by (cases "jmap_get (by_chain rs) (fld r ''chain_key'')")
      (auto simp: head_of_def group_receipt_def jmap_get_set last_hash_def)
qed

definition groups_ok :: "(json \<times> json list) list \<Rightarrow> bool" where
  "groups_ok g = (\<forall>p \<in> set g. check_entries (fst p) JNull (snd p) = [])"

lemma groups_ok_set_new:
  "jmap_get g k = None \<Longrightarrow> groups_ok (jmap_set k es g) \<longleftrightarrow> groups_ok g \<and> check_entries k JNull es = []"
proof (induction g)
  case Nil
  then show ?case by (simp add: groups_ok_def)
next
  case (Cons p g)
  then show ?case by (cases p) (auto simp: groups_ok_def split: if_splits)
qed

lemma check_entries_key: "check_entries k p es = [] \<longleftrightarrow> check_entries k' p es = []"
  by (induction es arbitrary: p) auto

lemma groups_ok_set_old:
  "jmap_get g k = Some es \<Longrightarrow>
     groups_ok (jmap_set k (es @ [r]) g) \<longleftrightarrow>
     groups_ok g \<and> check_entries k (last_hash JNull es) [r] = []"
proof (induction g)
  case Nil
  then show ?case by simp
next
  case (Cons p g)
  obtain k0 es0 where p: "p = (k0, es0)" by (cases p)
  show ?case
  proof (cases "same_value_zero k0 k")
    case True
    then have "es0 = es" using Cons.prems by (simp add: p)
    then show ?thesis
      using True check_entries_key [of k0 "last_hash JNull es" "[r]" k]
      by (simp only: p groups_ok_def jmap_set.simps if_True list.set ball_simps fst_conv snd_conv
          check_entries_snoc append_is_Nil_conv) blast
  next
    case False
    then show ?thesis using Cons by (simp add: p groups_ok_def)
  qed
qed

lemma groups_ok_linked: "groups_ok (by_chain rs) \<longleftrightarrow> receipts_linked rs"
proof (induction rs rule: rev_induct)
  case Nil
  then show ?case by (simp add: groups_ok_def)
next
  case (snoc r rs)
  let ?k = "fld r ''chain_key''"
  have links: "receipt_links rs r \<longleftrightarrow> check_entries ?k (head_of (load_heads rs) ?k) [r] = []"
    by (simp add: receipt_links_def)
  show ?case
  proof (cases "jmap_get (by_chain rs) ?k")
    case None
    then show ?thesis
      using groups_ok_set_new [OF None, of "[r]"] snoc links
      by (simp add: group_receipt_def head_of_by_chain del: check_entries.simps(2))
  next
    case (Some es)
    then show ?thesis
      using groups_ok_set_old [OF Some, of r] snoc links
      by (simp add: group_receipt_def head_of_by_chain del: check_entries.simps(2))
  qed
qed

lemma verifyReceiptChain_ok: "ver_ok (verifyReceiptChain rt) \<longleftrightarrow> receipts_linked (receipts rt)"
proof -
  have "ver_ok (verifyReceiptChain rt) \<longleftrightarrow> groups_ok (by_chain (receipts rt))"
    by (auto simp: verifyReceiptChain_def Let_def groups_ok_def split: prod.splits)
  then show ?thesis by (simp add: groups_ok_linked)
qed

subsection \<open>The specification of an anchor journal\<close>

definition anchor_links :: "json list \<Rightarrow> json list \<Rightarrow> json \<Rightarrow> bool" where
  "anchor_links hashes as a =
     (set_has hashes (fld a ''anchored_receipt_hash'') \<and>
      strict_eq (fld a ''prev_anchor_hash'') (if as = [] then JNull else fld (last as) ''anchor_hash'') \<and>
      fld a ''anchor_hash'' = JStr (expected_anchor_hash a))"

definition anchors_linked :: "json list \<Rightarrow> json list \<Rightarrow> bool" where
  "anchors_linked hashes as = (\<forall>i < length as. anchor_links hashes (take i as) (as ! i))"

lemma anchors_linked_Nil [simp]: "anchors_linked hashes []"
  by (simp add: anchors_linked_def)

lemma anchors_linked_snoc [simp]:
  "anchors_linked hashes (as @ [a]) \<longleftrightarrow> anchors_linked hashes as \<and> anchor_links hashes as a"
  by (auto simp: anchors_linked_def less_Suc_eq nth_append)

lemma check_anchors_snoc:
  "check_anchors hs p (as @ [a]) =
     check_anchors hs p as
     @ check_anchors hs (if as = [] then p else fld (last as) ''anchor_hash'') [a]"
  by (induction as arbitrary: p) simp_all

lemma check_anchors_linked: "check_anchors hs JNull as = [] \<longleftrightarrow> anchors_linked hs as"
proof (induction as rule: rev_induct)
  case Nil
  then show ?case by simp
next
  case (snoc a as)
  then show ?case
    unfolding check_anchors_snoc append_is_Nil_conv anchors_linked_snoc
    by (simp add: anchor_links_def)
qed

definition receipt_hashes :: "json list \<Rightarrow> json list" where
  "receipt_hashes rs = map (\<lambda>r. fld r ''receipt_hash'') rs"

lemma verifyReceiptAnchors_ok:
  "JNull \<notin> set (anchors rt) \<Longrightarrow>
     (\<exists>v. verifyReceiptAnchors rt = Inr v \<and>
        (ver_ok v \<longleftrightarrow> anchors_linked (receipt_hashes (receipts rt)) (anchors rt)))"
  by (simp add: verifyReceiptAnchors_def Let_def receipt_hashes_def check_anchors_linked)

subsection \<open>Tamper evidence\<close>

fun digest_linked ::
  "('e \<Rightarrow> 'h) \<Rightarrow> ('e \<Rightarrow> 'h option) \<Rightarrow> 'h option \<Rightarrow> 'e list \<Rightarrow> bool" where
  "digest_linked digest prev p [] = True"
| "digest_linked digest prev p (e # es) = (prev e = p \<and> digest_linked digest prev (Some (digest e)) es)"

definition last_digest :: "('e \<Rightarrow> 'h) \<Rightarrow> 'e list \<Rightarrow> 'h option" where
  "last_digest digest es = (if es = [] then None else Some (digest (last es)))"

lemma digest_linked_snoc:
  "digest_linked digest prev p (es @ [e]) \<longleftrightarrow>
     digest_linked digest prev p es \<and> prev e = (if es = [] then p else last_digest digest es)"
  by (induction es arbitrary: p) (auto simp: last_digest_def)

locale hash_chain =
  fixes digest :: "'e \<Rightarrow> 'h"
    and prev :: "'e \<Rightarrow> 'h option"
    and same :: "'e \<Rightarrow> 'e \<Rightarrow> bool"
  assumes same_prev: "same a b \<Longrightarrow> prev a = prev b"
begin

text \<open>Two chains of one length with one head hold the same entries, or two entries collide.\<close>

lemma equal_heads:
  assumes "length es = length gs"
    and "digest_linked digest prev None es" "digest_linked digest prev None gs"
    and "last_digest digest es = last_digest digest gs"
  shows "(\<forall>i < length es. same (es ! i) (gs ! i)) \<or>
    (\<exists>i < length es. \<not> same (es ! i) (gs ! i) \<and> digest (es ! i) = digest (gs ! i))"
  using assms
proof (induction es arbitrary: gs rule: rev_induct)
  case Nil
  then show ?case by simp
next
  case (snoc e es)
  then obtain f gs' where gs: "gs = gs' @ [f]" by (cases gs rule: rev_cases) auto
  have dig: "digest e = digest f" using snoc.prems(4) by (simp add: gs last_digest_def)
  have len: "length es = length gs'" using snoc.prems(1) by (simp add: gs)
  show ?case
  proof (cases "same e f")
    case False
    then have "\<not> same ((es @ [e]) ! length es) (gs ! length es) \<and>
        digest ((es @ [e]) ! length es) = digest (gs ! length es)"
      using dig len by (simp add: gs nth_append)
    then show ?thesis by (metis length_append_singleton lessI)
  next
    case True
    have linked: "digest_linked digest prev None es" "digest_linked digest prev None gs'"
      using snoc.prems(2,3) by (simp_all add: gs digest_linked_snoc)
    have "last_digest digest es = last_digest digest gs'"
      using snoc.prems(2,3) same_prev [OF True] len
      by (auto simp: gs digest_linked_snoc last_digest_def split: if_splits)
    from snoc.IH [OF len linked this] show ?thesis
      using True len by (auto simp: gs nth_append less_Suc_eq)
  qed
qed

end

end
