(* ===== verification/Governance_Journal.thy ===== *)
theory Governance_Journal
  imports Governance_Runtime
begin

text \<open>
  The journal format of the governance runtime: one JSON text per line. The main fact is the round
  trip: the lines that \<open>appendFileSync\<close> wrote are read back by \<open>parseJsonLines\<close> as the same values.
  It holds for tidy values, plain JSON data whose objects enumerate their keys in insertion order.
\<close>

subsection \<open>Tidy values\<close>

definition tidy :: "json \<Rightarrow> bool" where
  "tidy v = (json_plain v \<and> reorder v = v)"

lemma tidy_atoms [simp]:
  "tidy JNull" "tidy (JBool b)" "tidy (JStr s)" "tidy (JNum (NumDec m e)) = dec_normal m e"
  "\<not> tidy JUndef" "\<not> tidy (JBig i)"
  by (auto simp: tidy_def)

lemma array_index_digit: "array_index k \<Longrightarrow> c \<in> set k \<Longrightarrow> is_digit c"
  unfolding array_index_def by (metis show_nat_digits)

definition name_key :: "string \<Rightarrow> bool" where
  "name_key k = (k \<noteq> [] \<and> \<not> is_digit (hd k))"

lemma name_key_not_index [simp]: "name_key k \<Longrightarrow> \<not> array_index k"
  unfolding name_key_def using array_index_digit hd_in_set by blast

lemma set_all_names:
  assumes "distinct (map fst kvs)" and "\<And>k. k \<in> fst ` set kvs \<Longrightarrow> name_key k"
  shows "set_all kvs = kvs"
proof -
  have "foldl (\<lambda>out (k, v). obj_set k v out) out kvs = out @ kvs"
    if "distinct (map fst (out @ kvs))" "\<And>k. k \<in> fst ` set kvs \<Longrightarrow> name_key k" for out
    using that
  proof (induction kvs arbitrary: out)
    case Nil
    then show ?case by simp
  next
    case (Cons p kvs)
    obtain k v where p: "p = (k, v)" by (cases p)
    have "k \<notin> fst ` set out" "\<not> array_index k"
      using Cons.prems by (auto simp: p)
    then have "obj_set k v out = out @ [(k, v)]" by (simp add: obj_set_def)
    then show ?case using Cons.IH [of "out @ [(k, v)]"] Cons.prems by (simp add: p)
  qed
  from this [of "[]"] show ?thesis using assms by (simp add: set_all_def)
qed

lemma tidy_obj:
  assumes "distinct (map fst kvs)" and "\<And>p. p \<in> set kvs \<Longrightarrow> name_key (fst p) \<and> tidy (snd p)"
  shows "tidy (JObj kvs)"
proof -
  have "reorder_members kvs = kvs"
    using assms(2) unfolding reorder_members_map map_vals_def by (intro map_idI) (simp add: tidy_def)
  moreover have "set_all kvs = kvs" using assms by (intro set_all_names) auto
  moreover have "plain_members kvs" using assms(2) by (auto simp: plain_members_all tidy_def)
  ultimately show ?thesis using assms(1) by (simp add: tidy_def)
qed

lemma tidy_arr:
  assumes "\<And>x. x \<in> set xs \<Longrightarrow> tidy x"
  shows "tidy (JArr xs)"
proof -
  have "reorder_elems xs = xs" using assms by (induction xs) (auto simp: tidy_def)
  then show ?thesis using assms by (auto simp: tidy_def plain_elems_all)
qed

lemma json_parse_print_tidy: "tidy v \<Longrightarrow> json_parse (json_print v) = Some v"
  using json_parse_print [of v] by (simp add: tidy_def)

subsection \<open>Reading a journal back\<close>

lemma trim_Nil_iff: "trim s = [] \<longleftrightarrow> (\<forall>c \<in> set s. is_ws c)"
  by (auto simp: trim_def dest: set_dropWhileD) (metis dropWhile_eq_Nil_conv hd_dropWhile hd_in_set
      list.set_sel(1) set_rev)

lemma record_print:
  assumes "is_record v"
  shows "trim (json_print v) = json_print v" "json_print v \<noteq> []" "\<not> is_ws (hd (json_print v))"
proof -
  obtain kvs where v: "v = JObj kvs" using assms by (auto simp: is_record_def split: json.splits)
  show "json_print v \<noteq> []" "\<not> is_ws (hd (json_print v))" by (simp_all add: v is_ws_def)
  moreover have "\<not> is_ws (last (json_print v))" by (simp add: v is_ws_def)
  ultimately show "trim (json_print v) = json_print v" by (intro trim_id)
qed

lemma split_jsonl:
  "split_on (CHR 0x0A) (concat (map jsonl vs)) = map json_print vs @ [[]]"
  by (induction vs) (simp_all add: jsonl_def split_on_append json_print_no_newline)

lemma numbered_jsonl:
  assumes "\<And>v. v \<in> set vs \<Longrightarrow> is_record v"
  shows "numbered_lines (concat (map jsonl vs)) = enumerate 0 (map json_print vs)"
proof -
  have main: "filter (\<lambda>(i, line). line \<noteq> [])
       (map (\<lambda>(i, line). (i, trim line)) (enumerate n (map json_print vs @ [[]])))
     = enumerate n (map json_print vs)" for n
    using assms by (induction vs arbitrary: n) (simp_all add: record_print)
  show ?thesis unfolding numbered_lines_def split_jsonl by (rule main)
qed

lemma parseJsonLines_jsonl:
  assumes "\<And>v. v \<in> set vs \<Longrightarrow> tidy v \<and> is_record v"
  shows "parseJsonLines path (Some (concat (map jsonl vs))) = Inr vs"
proof (cases vs)
  case Nil
  then show ?thesis by (simp add: parseJsonLines_def)
next
  case (Cons v us)
  have "hd (json_print v) \<in> set (concat (map jsonl vs))" "\<not> is_ws (hd (json_print v))"
    using assms record_print [of v] by (simp_all add: Cons jsonl_def)
  then have "trim (concat (map jsonl vs)) \<noteq> []" by (metis trim_Nil_iff)
  moreover have "map_result (parse_line path) (enumerate n (map json_print vs)) = Inr vs" for n
    using assms by (induction vs arbitrary: n) (simp_all add: parse_line_def json_parse_print_tidy)
  ultimately show ?thesis
    using assms by (simp add: parseJsonLines_def numbered_jsonl)
qed

subsection \<open>The values that are written\<close>

lemma fld_snoc_other [simp]: "k \<noteq> k' \<Longrightarrow> fld (JObj (kvs @ [(k', v)])) k = fld (JObj kvs) k"
  by (simp add: fld_def map_add_def split: option.split)

lemma fld_opt_part [simp]:
  "fld (JObj (opt_part k v @ kvs)) x =
     (if x = k \<and> v \<noteq> None then the v else fld (JObj kvs) x)"
  "fld (JObj (opt_part k v)) x = (if x = k \<and> v \<noteq> None then the v else JUndef)"
  by (auto simp: opt_part_def split: option.split)

lemma opt_part_keys [simp]:
  "x \<in> fst ` set (opt_part k v) \<longleftrightarrow> x = k \<and> v \<noteq> None"
  "fst ` set (opt_part k v) \<inter> B = {} \<longleftrightarrow> v = None \<or> k \<notin> B"
  "distinct (map fst (opt_part k v))"
  by (auto simp: opt_part_def split: option.split)

lemma list_all_opt_part [simp]:
  "list_all P (opt_part k v) = (case v of None \<Rightarrow> True | Some x \<Rightarrow> P (k, x))"
  by (simp add: opt_part_def split: option.split)

definition tidy_member :: "string \<times> json \<Rightarrow> bool" where
  "tidy_member p = (name_key (fst p) \<and> tidy (snd p))"

lemma tidy_member_pair [simp]: "tidy_member (c # k, v) = (\<not> is_digit c \<and> tidy v)"
  by (simp add: tidy_member_def name_key_def)

lemma tidy_members: "distinct (map fst kvs) \<Longrightarrow> list_all tidy_member kvs \<Longrightarrow> tidy (JObj kvs)"
  by (rule tidy_obj) (auto simp: list_all_iff tidy_member_def)

lemma tidy_authority: "tidy (authority_json a)"
  unfolding authority_json_def
  by (rule tidy_members) (simp_all add: is_digit_def split: option.split)

lemma tidy_error: "item_path e \<noteq> UndefPath \<Longrightarrow> tidy (error_json e)"
  unfolding error_json_def
  by (rule tidy_members) (auto simp: is_digit_def split: item_path.splits)

text \<open>An error item with \<open>path: undefined\<close> would not be read back as it was hashed.\<close>

definition draft_ok :: "receipt_draft \<Rightarrow> bool" where
  "draft_ok d =
     (case d_errors d of None \<Rightarrow> True | Some es \<Rightarrow> (\<forall>e \<in> set es. item_path e \<noteq> UndefPath))"

lemma tidy_parts:
  "tidy (opt_null v)"
  "nonempty_opt v = Some x \<Longrightarrow> tidy x"
  "draft_ok d \<Longrightarrow> errors_opt (d_errors d) = Some x \<Longrightarrow> tidy x"
  by (auto simp: opt_null_def nonempty_opt_def errors_opt_def draft_ok_def tidy_error
      intro!: tidy_arr split: option.splits if_splits)

definition tidy_option :: "json option \<Rightarrow> bool" where
  "tidy_option v = (case v of None \<Rightarrow> True | Some x \<Rightarrow> tidy x)"

lemma tidy_option_parts:
  "tidy_option (nonempty_opt v)" "draft_ok d \<Longrightarrow> tidy_option (errors_opt (d_errors d))"
  "tidy_option (map_option JBool b)"
  using tidy_parts by (auto simp: tidy_option_def split: option.split)

lemma list_all_opt_tidy:
  "\<not> is_digit c \<Longrightarrow> list_all tidy_member (opt_part (c # k) v) = tidy_option v"
  by (simp add: tidy_option_def split: option.split)

lemma tidy_receipt:
  assumes "draft_ok d" and "prev = JNull \<or> (\<exists>s. prev = JStr s)"
  shows "tidy (JObj (receipt_base opts d t prev @ [(''receipt_hash'', JStr h)]))"
proof (rule tidy_members)
  show "distinct (map fst (receipt_base opts d t prev @ [(''receipt_hash'', JStr h)]))"
    by (simp add: receipt_base_def)
  have "tidy prev" using assms(2) by auto
  then show "list_all tidy_member (receipt_base opts d t prev @ [(''receipt_hash'', JStr h)])"
    using tidy_option_parts(2) [OF assms(1)]
    by (simp add: receipt_base_def is_digit_def list_all_opt_tidy tidy_option_parts tidy_parts(1)
        tidy_authority del: list_all_opt_part)
qed

lemma receipt_fields:
  "fld (JObj (receipt_base opts d t prev)) ''chain_key'' = JStr (chainKeyFor opts (d_authority d))"
  "fld (JObj (receipt_base opts d t prev)) ''prev_receipt_hash'' = prev"
  "fld (JObj (receipt_base opts d t prev)) ''success'' = JBool (d_success d)"
  "fld (JObj (receipt_base opts d t prev)) ''stage'' = JStr (d_stage d)"
  "fld (JObj (receipt_base opts d t prev)) ''timestamp'' = JStr t"
  "fld (JObj (receipt_base opts d t prev)) ''replay_key'' =
     (case nonempty_opt (d_replay_key d) of None \<Rightarrow> JUndef | Some s \<Rightarrow> s)"
  "fld (JObj (receipt_base opts d t prev)) ''idempotency_key'' =
     (case nonempty_opt (d_idempotency_key d) of None \<Rightarrow> JUndef | Some s \<Rightarrow> s)"
  "fld (JObj (receipt_base opts d t prev)) ''errors'' =
     (case errors_opt (d_errors d) of None \<Rightarrow> JUndef | Some es \<Rightarrow> es)"
  "fld (JObj (receipt_base opts d t prev)) ''receipt_hash'' = JUndef"
  by (simp_all add: receipt_base_def split: option.split)

lemma receipt_fixed_fields:
  "fld (JObj (receipt_base opts d t prev)) ''capability'' = JStr (d_capability d)"
  "fld (JObj (receipt_base opts d t prev)) ''version'' = opt_null (d_version d)"
  "fld (JObj (receipt_base opts d t prev)) ''capability_definition_hash'' = opt_null (d_definition_hash d)"
  "fld (JObj (receipt_base opts d t prev)) ''authority_level_used'' =
     JStr (resolved_authority_level (d_authority d))"
  "fld (JObj (receipt_base opts d t prev)) ''authority'' = authority_json (d_authority d)"
  "fld (JObj (receipt_base opts d t prev)) ''execution_class'' = opt_null (d_execution_class d)"
  "fld (JObj (receipt_base opts d t prev)) ''environment_id'' = JStr (environmentId opts)"
  "fld (JObj (receipt_base opts d t prev)) ''runtime_id'' = JStr (runtimeId opts)"
  by (simp_all add: receipt_base_def)

end
