(* ===== verification/Governance_State.thy ===== *)
theory Governance_State
  imports Governance_Chain Governance_Journal
begin

text \<open>
  The invariant of the governance runtime over its life: receipts are persisted with any outcome of the
  two appends, the clock is read, and the process restarts from the journals. In every reachable state
  the verification functions succeed, a restart rebuilds the same state, and recorded executions stay
  recorded.
\<close>

subsection \<open>What a new receipt looks like\<close>

lemma receiptHashPayload_snoc:
  "receiptHashPayload (JObj (kvs @ [(''receipt_hash'', h)])) = receiptHashPayload (JObj kvs)"
  by (simp add: receiptHashPayload_def)

lemma receipt_view_fields:
  "fld (receipt_view e) ''capability'' = fld e ''capability''"
  "fld (receipt_view e) ''version'' = fld e ''version''"
  "fld (receipt_view e) ''capability_definition_hash'' = fld e ''capability_definition_hash''"
  "fld (receipt_view e) ''authority_level_used'' = fld e ''authority_level_used''"
  "fld (receipt_view e) ''authority'' = fld e ''authority''"
  "fld (receipt_view e) ''execution_class'' = fld e ''execution_class''"
  "fld (receipt_view e) ''timestamp'' = fld e ''timestamp''"
  "fld (receipt_view e) ''stage'' = fld e ''stage''"
  "fld (receipt_view e) ''success'' = fld e ''success''"
  "fld (receipt_view e) ''output_validation_passed'' = fld e ''output_validation_passed''"
  "fld (receipt_view e) ''errors'' = (if truthy (fld e ''errors'') then fld e ''errors'' else JUndef)"
  "fld (receipt_view e) ''prev_receipt_hash'' = fld e ''prev_receipt_hash''"
  "fld (receipt_view e) ''environment_id'' = fld e ''environment_id''"
  "fld (receipt_view e) ''runtime_id'' = fld e ''runtime_id''"
  "fld (receipt_view e) ''chain_key'' = fld e ''chain_key''"
  "fld (receipt_view e) ''replay_key'' =
     (if truthy (fld e ''replay_key'') then fld e ''replay_key'' else JUndef)"
  "fld (receipt_view e) ''idempotency_key'' =
     (if truthy (fld e ''idempotency_key'') then fld e ''idempotency_key'' else JUndef)"
  by (simp_all add: receipt_view_def keep_if_def)

lemma receiptHashPayload_view:
  assumes "\<And>k. k \<in> {''errors'', ''replay_key'', ''idempotency_key''} \<Longrightarrow>
      truthy (fld e k) \<or> is_null_or_undef (fld e k)"
  shows "receiptHashPayload (receipt_view e) = receiptHashPayload e"
proof -
  have nul: "nullish_else (if truthy v then v else JUndef) JNull = nullish_else v JNull"
    if "truthy v \<or> is_null_or_undef v" for v
    using that by (auto simp: nullish_else_def is_null_or_undef_def)
  show ?thesis
    unfolding receiptHashPayload_def receipt_view_fields nul [OF assms [of "''errors''", simplified]]
      nul [OF assms [of "''replay_key''", simplified]] nul [OF assms [of "''idempotency_key''", simplified]]
    by (rule refl)
qed

lemma truthy_parts:
  "\<not> is_null_or_undef (case nonempty_opt v of None \<Rightarrow> JUndef | Some s \<Rightarrow> s) \<Longrightarrow>
     truthy (case nonempty_opt v of None \<Rightarrow> JUndef | Some s \<Rightarrow> s)"
  "\<not> is_null_or_undef (case errors_opt w of None \<Rightarrow> JUndef | Some s \<Rightarrow> s) \<Longrightarrow>
     truthy (case errors_opt w of None \<Rightarrow> JUndef | Some s \<Rightarrow> s)"
  by (auto simp: nonempty_opt_def errors_opt_def is_null_or_undef_def split: option.splits if_splits)

lemma new_receipt_hash:
  fixes opts d t prev h
  defines "r \<equiv> JObj (receipt_base opts d t prev @
      [(''receipt_hash'', JStr (canonical_digest (receiptHashPayload (JObj (receipt_base opts d t prev)))))])"
  shows "fld r ''receipt_hash'' = JStr (expected_receipt_hash r)"
    and "fld r ''prev_receipt_hash'' = prev"
    and "fld r ''chain_key'' = JStr (chainKeyFor opts (d_authority d))"
proof -
  have "truthy (fld r k) \<or> is_null_or_undef (fld r k)"
    if "k \<in> {''errors'', ''replay_key'', ''idempotency_key''}" for k
    using that unfolding r_def by (auto simp: receipt_fields intro!: truthy_parts)
  from receiptHashPayload_view [OF this]
  have "receiptHashPayload (receipt_view r) = receiptHashPayload (JObj (receipt_base opts d t prev))"
    unfolding r_def by (simp add: receiptHashPayload_snoc)
  then have "expected_receipt_hash r =
      canonical_digest (receiptHashPayload (JObj (receipt_base opts d t prev)))"
    by (simp add: expected_receipt_hash_def)
  moreover have "fld r ''receipt_hash'' =
      JStr (canonical_digest (receiptHashPayload (JObj (receipt_base opts d t prev))))"
    unfolding r_def fld_append by (simp add: receipt_base_def image_Un)
  ultimately show "fld r ''receipt_hash'' = JStr (expected_receipt_hash r)" by simp
  show "fld r ''prev_receipt_hash'' = prev" "fld r ''chain_key'' = JStr (chainKeyFor opts (d_authority d))"
    unfolding r_def by (simp_all add: receipt_fields)
qed

lemma linked_hash_string:
  assumes "receipts_linked rs" "r \<in> set rs"
  shows "\<exists>s. fld r ''receipt_hash'' = JStr s"
  using assms by (auto simp: receipts_linked_def receipt_links_def in_set_conv_nth)

lemma head_of_string:
  "receipts_linked rs \<Longrightarrow> head_of (load_heads rs) k = JNull \<or> (\<exists>s. head_of (load_heads rs) k = JStr s)"
proof (induction rs rule: rev_induct)
  case Nil
  then show ?case by (simp add: head_of_def)
next
  case (snoc r rs)
  then show ?case
    by (auto simp: head_of_def jmap_get_set receipt_links_def)
qed

lemma new_receipt_prev:
  "(case jmap_get heads k of None \<Rightarrow> JNull | Some h \<Rightarrow> nullish_else h JNull) =
     nullish_else (head_of heads k) JNull"
  by (auto simp: head_of_def nullish_else_def is_null_or_undef_def split: option.split)

lemma new_receipt_facts:
  assumes "receipts_linked (receipts rt)" "receiptHeads rt = load_heads (receipts rt)" "draft_ok d"
  shows "receipt_links (receipts rt) (new_receipt rt d t)"
    and "tidy (new_receipt rt d t)" and "is_record (new_receipt rt d t)"
proof -
  let ?k = "JStr (chainKeyFor (options rt) (d_authority d))"
  let ?prev = "head_of (receiptHeads rt) ?k"
  let ?base = "receipt_base (options rt) d t ?prev"
  have str: "?prev = JNull \<or> (\<exists>s. ?prev = JStr s)"
    using head_of_string [OF assms(1)] assms(2) by simp
  then have prev: "nullish_else ?prev JNull = ?prev"
    by (auto simp: nullish_else_def is_null_or_undef_def)
  have r: "new_receipt rt d t = JObj (?base @
      [(''receipt_hash'', JStr (canonical_digest (receiptHashPayload (JObj ?base))))])"
    unfolding new_receipt_def new_receipt_prev prev Let_def by (rule refl)
  have "strict_eq ?prev ?prev" using str by auto
  then show "receipt_links (receipts rt) (new_receipt rt d t)"
    unfolding r receipt_links_def new_receipt_hash(2,3) using new_receipt_hash(1) assms(2) by simp
  show "tidy (new_receipt rt d t)" unfolding r by (rule tidy_receipt [OF assms(3) str])
  show "is_record (new_receipt rt d t)" by (simp add: r is_record_def)
qed

lemma anchor_of_facts:
  assumes "anchors_linked hs as" and "fld r ''receipt_hash'' = JStr h" "JStr h \<in> set hs"
    and "fld r ''chain_key'' = JStr c" "fld r ''timestamp'' = JStr t"
  shows "anchor_links hs as (anchor_of as r)" and "tidy (anchor_of as r)" and "is_record (anchor_of as r)"
proof -
  have prev: "as = [] \<or> (\<exists>s. fld (last as) ''anchor_hash'' = JStr s)"
    using assms(1) by (cases as rule: rev_cases) (auto simp: anchor_links_def)
  show "anchor_links hs as (anchor_of as r)"
    using prev assms(2,3)
    by (auto simp: anchor_links_def anchor_of_def Let_def set_has_def list_ex_iff expected_anchor_hash_def
        anchorPayload_def intro!: bexI [of _ "JStr h"])
  have "tidy (if as = [] then JNull else fld (last as) ''anchor_hash'')" using prev by auto
  then show "tidy (anchor_of as r)"
    unfolding anchor_of_def Let_def
    by (intro tidy_members) (auto simp: is_digit_def assms)
  show "is_record (anchor_of as r)" by (simp add: anchor_of_def Let_def is_record_def)
qed

subsection \<open>The invariant\<close>

definition files_ok :: "runtime \<Rightarrow> bool" where
  "files_ok rt =
     (root (fs rt) = RootDirectory \<and>
      receipts_file (fs rt) = Some (concat (map jsonl (receipts rt))) \<and>
      anchors_file (fs rt) = Some (concat (map jsonl (anchors rt))) \<and>
      (\<forall>r \<in> set (receipts rt) \<union> set (anchors rt). tidy r \<and> is_record r))"

definition projections_ok :: "runtime \<Rightarrow> bool" where
  "projections_ok rt =
     (receiptHeads rt = load_heads (receipts rt) \<and>
      (blockedReplay rt, idempotencyIndex rt) = ledger_of (receipts rt))"

definition runtime_ok :: "runtime \<Rightarrow> bool" where
  "runtime_ok rt =
     (files_ok rt \<and> projections_ok rt \<and> receipts_linked (receipts rt) \<and>
      anchors_linked (receipt_hashes (receipts rt)) (anchors rt))"

lemma ledger_of_snoc: "ledger_of (rs @ [r]) = index_receipt (ledger_of rs) (length rs, r)"
  by (simp add: ledger_of_def enumerate_append_eq)

lemma anchors_linked_more:
  "anchors_linked hs as \<Longrightarrow> anchors_linked (hs @ hs') as"
  by (auto simp: anchors_linked_def anchor_links_def set_has_def)

lemma runtime_ok_tick: "runtime_ok (rt\<lparr>ticks := n\<rparr>) = runtime_ok rt"
  by (simp add: runtime_ok_def files_ok_def projections_ok_def)

lemma record_receipt_ok:
  assumes "runtime_ok rt" "draft_ok d"
  shows "runtime_ok (record_receipt (new_receipt rt d t) rt)"
proof -
  note parts = assms(1) [unfolded runtime_ok_def files_ok_def projections_ok_def]
  have new: "receipt_links (receipts rt) (new_receipt rt d t)"
    "tidy (new_receipt rt d t)" "is_record (new_receipt rt d t)"
    using parts assms(2) by (auto intro!: new_receipt_facts)
  have ledger: "index_receipt (blockedReplay rt, idempotencyIndex rt)
      (length (receipts rt), new_receipt rt d t) = ledger_of (receipts rt @ [new_receipt rt d t])"
    using parts by (simp add: ledger_of_snoc)
  show ?thesis
    using parts new ledger
    by (auto simp: runtime_ok_def files_ok_def projections_ok_def record_receipt_def Let_def
        append_text_def receipt_hashes_def intro!: anchors_linked_more)
qed

lemma persistAnchor_ok:
  assumes ok: "runtime_ok rt" and r: "r \<in> set (receipts rt)"
    and "fld r ''chain_key'' = JStr c" "fld r ''timestamp'' = JStr t"
    and step: "persistAnchor io r rt = (res, rt')"
  shows "runtime_ok rt'" and "receipts rt' = receipts rt" and "options rt' = options rt"
proof -
  note parts = ok [unfolded runtime_ok_def files_ok_def projections_ok_def]
  obtain h where h: "fld r ''receipt_hash'' = JStr h"
    using linked_hash_string [of "receipts rt" r] parts r by auto
  have mem: "JStr h \<in> set (receipt_hashes (receipts rt))"
    using r h by (force simp: receipt_hashes_def)
  have "anchors_linked (receipt_hashes (receipts rt)) (anchors rt)" using parts by blast
  note new = anchor_of_facts [OF this h mem assms(3,4)]
  have "anchors_linked (receipt_hashes (receipts rt)) (anchors rt @ [anchor_of (anchors rt) r])"
    using parts new(1) by simp
  then show "runtime_ok rt'"
    using step parts new(2,3)
    by (auto simp del: anchors_linked_snoc simp: persistAnchor_def Let_def runtime_ok_def files_ok_def projections_ok_def append_text_def
        split: if_splits option.splits)
  show "receipts rt' = receipts rt" "options rt' = options rt"
    using step by (auto simp: persistAnchor_def Let_def split: if_splits option.splits)
qed

lemma new_receipt_fields:
  "fld (new_receipt rt d t) ''chain_key'' = JStr (chainKeyFor (options rt) (d_authority d))"
  "fld (new_receipt rt d t) ''timestamp'' = JStr t"
  "fld (new_receipt rt d t) ''success'' = JBool (d_success d)"
  "fld (new_receipt rt d t) ''stage'' = JStr (d_stage d)"
  "fld (new_receipt rt d t) ''replay_key'' =
     (case nonempty_opt (d_replay_key d) of None \<Rightarrow> JUndef | Some s \<Rightarrow> s)"
  by (simp_all add: new_receipt_def Let_def receipt_fields)

lemma new_receipt_tick [simp]: "new_receipt (rt\<lparr>ticks := n\<rparr>) d t = new_receipt rt d t"
  by (simp add: new_receipt_def)

lemma record_receipt_sel [simp]:
  "receipts (record_receipt r rt) = receipts rt @ [r]"
  "options (record_receipt r rt) = options rt"
  by (simp_all add: record_receipt_def Let_def)

text \<open>The exits of \<open>persistReceipt\<close>: no receipt is recorded, or one is and the anchor may fail.\<close>

lemma persistReceipt_cases:
  assumes "persistReceipt io d rt = (res, rt')"
  obtains (failed) n e where "receipt_io io = Some e" "res = Inl e" "rt' = rt\<lparr>ticks := n\<rparr>"
  | (recorded) n t res' where "receipt_io io = None"
      "persistAnchor io (new_receipt rt d t) (record_receipt (new_receipt rt d t) (rt\<lparr>ticks := n\<rparr>)) = (res', rt')"
      "res = (case res' of Inl e \<Rightarrow> Inl e | Inr _ \<Rightarrow> Inr (new_receipt rt d t))"
proof -
  obtain t n where tn: "(case d_timestamp d of None \<Rightarrow> now rt | Some t \<Rightarrow> (t, rt)) = (t, rt\<lparr>ticks := n\<rparr>)"
  proof (cases "d_timestamp d")
    case None
    then show ?thesis using that by (simp add: now_def)
  next
    case (Some t)
    have "rt = rt\<lparr>ticks := ticks rt\<rparr>" by simp
    then show ?thesis using Some that by (metis option.simps(5))
  qed
  show ?thesis
  proof (cases "receipt_io io")
    case (Some e)
    then have "res = Inl e" "rt' = rt\<lparr>ticks := n\<rparr>" using assms tn by (simp_all add: persistReceipt_def)
    then show ?thesis by (rule failed [OF Some])
  next
    case None
    obtain res' rt2 where a: "persistAnchor io (new_receipt rt d t)
        (record_receipt (new_receipt rt d t) (rt\<lparr>ticks := n\<rparr>)) = (res', rt2)"
      by (cases "persistAnchor io (new_receipt rt d t)
        (record_receipt (new_receipt rt d t) (rt\<lparr>ticks := n\<rparr>))")
    have "rt' = rt2 \<and> res = (case res' of Inl e \<Rightarrow> Inl e | Inr _ \<Rightarrow> Inr (new_receipt rt d t))"
      using assms tn None a by (cases res') (simp_all add: persistReceipt_def)
    then show ?thesis using None a by (intro recorded) simp_all
  qed
qed

lemma persistReceipt_ok:
  assumes ok: "runtime_ok rt" "draft_ok d" and step: "persistReceipt io d rt = (res, rt')"
  shows "runtime_ok rt' \<and> options rt' = options rt \<and>
    (receipts rt' = receipts rt \<or> (\<exists>t. receipts rt' = receipts rt @ [new_receipt rt d t]))"
  using step
proof (cases rule: persistReceipt_cases)
  case (failed n e)
  then show ?thesis using ok(1) by (simp add: runtime_ok_tick)
next
  case (recorded n t res')
  let ?r = "new_receipt rt d t"
  have "runtime_ok (record_receipt ?r (rt\<lparr>ticks := n\<rparr>))"
    using record_receipt_ok [of "rt\<lparr>ticks := n\<rparr>" d t] ok by (simp add: runtime_ok_tick)
  from persistAnchor_ok [OF this _ new_receipt_fields(1,2) recorded(2)] show ?thesis by auto
qed

subsection \<open>Reachable states\<close>

definition empty_fs :: file_system where
  "empty_fs = \<lparr>root = RootMissing, receipts_file = None, anchors_file = None\<rparr>"

definition fresh_runtime :: "runtime_options \<Rightarrow> (nat \<Rightarrow> string) \<Rightarrow> nat \<Rightarrow> runtime" where
  "fresh_runtime opts clk t =
     \<lparr>options = opts, fs = \<lparr>root = RootDirectory, receipts_file = Some [], anchors_file = Some []\<rparr>,
      clock = clk, ticks = t, receiptHeads = [], blockedReplay = [], idempotencyIndex = [],
      receipts = [], anchors = []\<rparr>"

inductive gov_step :: "runtime \<Rightarrow> runtime \<Rightarrow> bool" where
  persist: "draft_ok d \<Longrightarrow> persistReceipt io d rt = (res, rt') \<Longrightarrow> gov_step rt rt'"
| tick: "now rt = (s, rt') \<Longrightarrow> gov_step rt rt'"
| restart: "createFileGovernanceRuntime (options rt) clk t (fs rt) = (Inr rt', f) \<Longrightarrow> gov_step rt rt'"

inductive gov_reach :: "runtime \<Rightarrow> bool" where
  start: "createFileGovernanceRuntime opts clk t empty_fs = (Inr rt, f) \<Longrightarrow> gov_reach rt"
| step: "gov_reach rt \<Longrightarrow> gov_step rt rt' \<Longrightarrow> gov_reach rt'"

inductive_cases gov_stepE: "gov_step rt rt'"

lemma create_fresh:
  "createFileGovernanceRuntime opts clk t empty_fs = (Inr (fresh_runtime opts clk t), fs (fresh_runtime opts clk t))"
  by (simp add: createFileGovernanceRuntime_def ensureFilesystem_def empty_fs_def loadState_def
      parseJsonLines_def fresh_runtime_def load_heads_def ledger_of_def)

lemma fresh_ok: "runtime_ok (fresh_runtime opts clk t)"
  by (simp add: runtime_ok_def files_ok_def projections_ok_def fresh_runtime_def ledger_of_def)

lemma not_record_null: "\<not> is_record JNull"
  by (simp add: is_record_def)

lemma restart_same:
  assumes "runtime_ok rt"
  shows "createFileGovernanceRuntime (options rt) clk t (fs rt) = (Inr (rt\<lparr>clock := clk, ticks := t\<rparr>), fs rt)"
proof -
  note parts = assms [unfolded runtime_ok_def files_ok_def projections_ok_def]
  have "ensureFilesystem (fs rt) = Inr (fs rt)"
    using parts by (simp add: ensureFilesystem_def)
  moreover have "parseJsonLines p (receipts_file (fs rt)) = Inr (receipts rt)" for p
    using parts parseJsonLines_jsonl [of "receipts rt" p] by simp
  moreover have "parseJsonLines p (anchors_file (fs rt)) = Inr (anchors rt)" for p
    using parts parseJsonLines_jsonl [of "anchors rt" p] by simp
  moreover have "JNull \<notin> set (receipts rt)"
    using parts not_record_null by blast
  moreover have "fst (ledger_of (receipts rt)) = blockedReplay rt" "snd (ledger_of (receipts rt)) = idempotencyIndex rt"
    using parts by (metis fst_conv, metis snd_conv)
  ultimately show ?thesis
    using parts by (simp add: createFileGovernanceRuntime_def loadState_def)
qed

lemma gov_step_ok:
  assumes "gov_step rt rt'" "runtime_ok rt"
  shows "runtime_ok rt' \<and> options rt' = options rt \<and> (\<exists>rest. receipts rt' = receipts rt @ rest)"
  using assms(1)
proof (cases rule: gov_step.cases)
  case (persist d io res)
  from persistReceipt_ok [OF assms(2) this] show ?thesis by auto
next
  case (tick s)
  then show ?thesis using assms(2) by (auto simp: now_def runtime_ok_tick)
next
  case (restart clk t f)
  then have "rt' = rt\<lparr>clock := clk, ticks := t\<rparr>" using restart_same [OF assms(2)] by simp
  then show ?thesis
    using assms(2) by (simp add: runtime_ok_def files_ok_def projections_ok_def)
qed

lemma gov_reach_ok: "gov_reach rt \<Longrightarrow> runtime_ok rt"
proof (induction rule: gov_reach.induct)
  case (start opts clk t rt f)
  then show ?case using create_fresh [of opts clk t] fresh_ok [of opts clk t] by auto
next
  case (step rt rt')
  then show ?case using gov_step_ok by blast
qed

lemma gov_steps_append:
  "gov_step\<^sup>*\<^sup>* rt rt' \<Longrightarrow> runtime_ok rt \<Longrightarrow> runtime_ok rt' \<and> (\<exists>rest. receipts rt' = receipts rt @ rest)"
proof (induction rule: rtranclp_induct)
  case base
  then show ?case by simp
next
  case (step rt1 rt2)
  then show ?case using gov_step_ok [OF step.hyps(2)] by fastforce
qed

subsection \<open>The ledger\<close>

lemma index_entry_keys:
  "map_of (fst l) k \<noteq> None \<Longrightarrow> map_of (fst (index_entry e l)) k \<noteq> None"
  "map_of (fst (index_entry e l)) (replay_key e) = Some e"
  by (simp_all add: index_entry_def)

lemma ledger_of_append:
  "map_of (fst (ledger_of rs)) k \<noteq> None \<Longrightarrow> map_of (fst (ledger_of (rs @ rest))) k \<noteq> None"
proof (induction rest rule: rev_induct)
  case Nil
  then show ?case by simp
next
  case (snoc r rest)
  then show ?case
    using index_entry_keys(1) unfolding append_assoc [symmetric] ledger_of_snoc index_receipt_def
    by (auto split: option.split simp del: not_None_eq)
qed

lemma hasBlockedReplay_ledger:
  "runtime_ok rt \<Longrightarrow> hasBlockedReplay rt k \<longleftrightarrow> map_of (fst (ledger_of (receipts rt))) k \<noteq> None"
  unfolding runtime_ok_def projections_ok_def hasBlockedReplay_def by (metis fst_conv)

text \<open>A replay key that can be read back: a capability and version without colon, and an input.\<close>

definition replay_key_ok :: "string \<Rightarrow> bool" where
  "replay_key_ok rk =
     (CHR '':'' \<in> set rk \<and>
      (case last_index_of (CHR 0x40) (hd (split_on (CHR '':'') rk)) of None \<Rightarrow> False | Some at \<Rightarrow> 0 < at))"

lemma split_on_two:
  assumes "c \<in> set s"
  obtains p q ps where "split_on c s = p # q # ps"
proof -
  obtain p r where s: "s = p @ c # r" "c \<notin> set p" using assms by (meson split_list_first)
  then have "split_on c s = p # split_on c r" by (simp add: split_on_append)
  then show ?thesis using that by (cases "split_on c r") auto
qed

lemma toReplayEntry_ok:
  assumes "fld r ''success'' = JBool True" "fld r ''stage'' = JStr ''executed''"
    and "fld r ''replay_key'' = JStr rk" "replay_key_ok rk"
  obtains e where "toReplayEntry i r = Some e" "replay_key e = rk"
proof -
  obtain p q ps where split: "split_on (CHR '':'') rk = p # q # ps"
    using assms(4) by (auto simp: replay_key_ok_def elim: split_on_two)
  then obtain at where "last_index_of (CHR 0x40) p = Some at" "0 < at"
    using assms(4) by (auto simp: replay_key_ok_def split: option.splits)
  then show ?thesis
    using that assms(1-3) split by (simp add: toReplayEntry_def Let_def numeral_eq_Suc)
qed

lemma recorded_execution_in_ledger:
  assumes "d_success d" "d_stage d = ''executed''" "d_replay_key d = Some rk" "replay_key_ok rk"
  shows "map_of (fst (ledger_of (rs @ [new_receipt rt d t]))) rk \<noteq> None"
proof -
  have "rk \<noteq> []" using assms(4) by (auto simp: replay_key_ok_def)
  then have "fld (new_receipt rt d t) ''replay_key'' = JStr rk"
    using assms(3) by (simp add: new_receipt_fields nonempty_opt_def)
  then obtain e where "toReplayEntry (length rs) (new_receipt rt d t) = Some e" "replay_key e = rk"
    using assms(1,2,4) toReplayEntry_ok [of "new_receipt rt d t" rk "length rs"]
    by (auto simp: new_receipt_fields)
  then show ?thesis
    using index_entry_keys(2) [of e "ledger_of rs"]
    by (simp add: ledger_of_snoc index_receipt_def)
qed

subsection \<open>Start-up\<close>

lemma check_ledger_same: "distinct (map fst m) \<Longrightarrow> check_ledger s m m = []"
  by (auto simp: check_ledger_def same_entry_hash_def split: option.splits)

lemma ledger_of_distinct:
  "distinct (map fst (fst (ledger_of rs)))" "distinct (map fst (snd (ledger_of rs)))"
proof -
  have step: "distinct (map fst (fst (index_receipt l ir))) \<and> distinct (map fst (snd (index_receipt l ir)))"
    if "distinct (map fst (fst l)) \<and> distinct (map fst (snd l))" for l ir
    using that by (auto simp: index_receipt_def index_entry_def distinct_update split: option.split)
  have "distinct (map fst (fst (ledger_of rs))) \<and> distinct (map fst (snd (ledger_of rs)))"
  proof (induction rs rule: rev_induct)
    case Nil
    then show ?case by (simp add: ledger_of_def)
  next
    case (snoc r rs)
    then show ?case unfolding ledger_of_snoc by (rule step)
  qed
  then show "distinct (map fst (fst (ledger_of rs)))" "distinct (map fst (snd (ledger_of rs)))" by simp_all
qed

lemma ledger_ok:
  assumes "projections_ok rt"
  shows "ver_ok (verifyReplayLedgerConsistency rt)"
proof -
  have "fst (ledger_of (receipts rt)) = blockedReplay rt" "snd (ledger_of (receipts rt)) = idempotencyIndex rt"
    using assms unfolding projections_ok_def by (metis fst_conv, metis snd_conv)
  then show ?thesis
    using check_ledger_same [OF ledger_of_distinct(1) [of "receipts rt"]]
      check_ledger_same [OF ledger_of_distinct(2) [of "receipts rt"]]
    by (simp add: verifyReplayLedgerConsistency_def Let_def)
qed

lemma assertStartupInvariants_ok:
  assumes "runtime_ok rt"
  shows "assertStartupInvariants rt = Inr ()"
proof -
  note parts = assms [unfolded runtime_ok_def files_ok_def]
  have "JNull \<notin> set (anchors rt)" using parts not_record_null by blast
  from verifyReceiptAnchors_ok [OF this] obtain v where
    v: "verifyReceiptAnchors rt = Inr v" "ver_ok v" using parts by auto
  have "ver_ok (verifyReceiptChain rt)" using parts by (simp add: verifyReceiptChain_ok)
  moreover have "ver_ok (verifyReplayLedgerConsistency rt)" using parts by (simp add: ledger_ok)
  ultimately show ?thesis
    using v parts
    by (simp add: assertStartupInvariants_def startupInvariants_def fail_on_first_def root_invariant_def
        journal_invariant_def chain_invariant_def anchors_invariant_def ledger_invariant_def)
qed

end
