(* ===== verification/Governed_Execution.thy ===== *)
theory Governed_Execution
  imports Bridge Governance_State
begin

text \<open>
  The governed pipeline: \<open>capability-registry/src/governed-execution.ts\<close>. The function awaits the
  adapter, and other executions may run in between; so it is split at the await into \<open>begin_execution\<close>
  and \<open>finish_execution\<close>, and \<open>executeGovernedCapability\<close> is their composition. \<open>proc\<close> holds what the
  executions of one process share: the registry, the two schema caches and the runtime.
\<close>

record proc =
  reg :: registry
  in_cache :: schema_cache
  out_cache :: schema_cache
  gov :: runtime

datatype execution_result =
    Success (res_output: json) (res_receipt: json) (res_request: bridge_request) (res_adapter: adapter_binding)
  | Failure (fail_stage: string) (fail_errors: "validation_error list") (fail_receipt: "json option")
      (fail_request: "bridge_request option") (fail_adapter: "adapter_binding option")

record execution_options =
  exec_authority :: authority_context
  exec_class_policy :: "(compiled_meta \<Rightarrow> validation_error list) option"

text \<open>An execution that waits for its adapter.\<close>

record pending =
  p_request :: bridge_request
  p_adapter :: adapter_binding
  p_meta :: compiled_meta
  p_authority :: authority_context

definition persistReceiptSafe :: "io_outcome \<Rightarrow> receipt_draft \<Rightarrow> runtime \<Rightarrow> json option \<times> runtime" where
  "persistReceiptSafe io d rt =
     (case persistReceipt io d rt of (Inl e, rt') \<Rightarrow> (None, rt') | (Inr r, rt') \<Rightarrow> (Some r, rt'))"

definition assertValidatedSuccessReceipt :: "json \<Rightarrow> unit result" where
  "assertValidatedSuccessReceipt r =
     (if fld r ''stage'' \<noteq> JStr ''executed'' \<or> fld r ''output_validation_passed'' \<noteq> JBool True
      then Inl ''governed execution success requires executed stage with output_validation_passed=true''
      else Inr ())"

definition failure_draft ::
  "string \<Rightarrow> string option \<Rightarrow> string option \<Rightarrow> authority_context \<Rightarrow> string option \<Rightarrow> string
   \<Rightarrow> bool option \<Rightarrow> validation_error list \<Rightarrow> receipt_draft" where
  "failure_draft cap ver hash a cls stage output_ok errors =
     \<lparr>d_capability = cap, d_version = ver, d_definition_hash = hash, d_authority = a,
      d_execution_class = cls, d_stage = stage, d_success = False,
      d_output_validation_passed = output_ok, d_errors = Some errors, d_replay_key = None,
      d_idempotency_key = None, d_timestamp = None\<rparr>"

text \<open>Persist the receipt of an outcome and return the outcome with it.\<close>

definition with_receipt ::
  "io_outcome \<Rightarrow> receipt_draft \<Rightarrow> (json option \<Rightarrow> 'r) \<Rightarrow> proc \<Rightarrow> 'r result \<times> proc" where
  "with_receipt io d k s =
     (let (receipt, rt) = persistReceiptSafe io d (gov s) in (Inr (k receipt), s\<lparr>gov := rt\<rparr>))"

text \<open>
  The part before the await: \<open>Inl\<close> a result, or \<open>Inr\<close> an execution whose adapter is to be run.
  \<open>after_prepare\<close> is the code that follows the call of \<open>prepareExecutionRequest\<close>.
\<close>

definition after_prepare ::
  "io_outcome \<Rightarrow> string \<Rightarrow> authority_context \<Rightarrow> string option \<Rightarrow> string option \<Rightarrow> prepare_result result
   \<Rightarrow> proc \<Rightarrow> (execution_result + pending) result \<times> proc" where
  "after_prepare io cap authority label cls prep s =
     (case prep of
        Inl e \<Rightarrow> (Inl e, s)
      | Inr (Refused stage errors) \<Rightarrow>
          with_receipt io (failure_draft cap label None authority cls stage None errors)
            (\<lambda>receipt. Inl (Failure stage errors receipt None None)) s
      | Inr (Prepared req ad) \<Rightarrow>
          (case getCapabilityMeta (reg s) (req_capability req) (req_version req) of
             None \<Rightarrow>
               (let errors = [msg (''governance metadata missing for ''
                                   @ reg_key (req_capability req) (req_version req))]
                in with_receipt io
                     (failure_draft (req_capability req) (Some (req_version req)) (req_definition_hash req)
                        authority None ''governance_meta'' None errors)
                     (\<lambda>receipt. Inl (Failure ''governance_meta'' errors receipt (Some req) (Some ad))) s)
           | Some m \<Rightarrow>
               (Inr (Inr \<lparr>p_request = req, p_adapter = ad, p_meta = m, p_authority = authority\<rparr>), s)))"

definition begin_execution ::
  "'v host \<Rightarrow> io_outcome \<Rightarrow> bridge_draft \<Rightarrow> execution_options \<Rightarrow> proc
   \<Rightarrow> (execution_result + pending) result \<times> proc" where
  "begin_execution h io d opts s =
     (case assertStartupInvariants (gov s) of
        Inl e \<Rightarrow> (Inl e, s)
      | Inr _ \<Rightarrow>
          (let (authority, rt1) = resolveExecutionAuthorityContext d (gov s) (Some (exec_authority opts));
               resolved = resolveDefinitionForExecution (versions h) (reg s) (draft_capability d) (draft_version d);
               resolved_meta = (case resolved of
                  None \<Rightarrow> None | Some (def, ver) \<Rightarrow> getCapabilityMeta (reg s) (capability def) ver);
               (prep, rt2) = prepareExecutionRequest h (in_cache s) (reg s) d
                  \<lparr>opt_authority = Some (exec_authority opts), opt_runtime = Some rt1,
                   opt_class_policy = exec_class_policy opts\<rparr>
           in after_prepare io (draft_capability d) authority
                (case resolved of Some (def, ver) \<Rightarrow> Some ver | None \<Rightarrow> draft_version d)
                (map_option execution_class resolved_meta) prep (s\<lparr>gov := or_else rt2 rt1\<rparr>)))"

definition execution_replay_key :: "compiled_meta \<Rightarrow> bridge_request \<Rightarrow> string option" where
  "execution_replay_key m req =
     (if replay_gated m
      then Some (replayBlockedLookupKey (req_capability req) (req_version req) (req_input req)) else None)"

definition success_draft :: "pending \<Rightarrow> receipt_draft" where
  "success_draft p =
     \<lparr>d_capability = req_capability (p_request p), d_version = Some (req_version (p_request p)),
      d_definition_hash = req_definition_hash (p_request p), d_authority = p_authority p,
      d_execution_class = Some (execution_class (p_meta p)), d_stage = ''executed'', d_success = True,
      d_output_validation_passed = Some True, d_errors = None,
      d_replay_key = truthy_opt (execution_replay_key (p_meta p) (p_request p)),
      d_idempotency_key = idempotencyKeyFromInput (req_input (p_request p)), d_timestamp = None\<rparr>"

text \<open>The part after the await. The adapter's outcome is its output or the message of its exception.\<close>

definition fail_execution ::
  "io_outcome \<Rightarrow> pending \<Rightarrow> string \<Rightarrow> bool option \<Rightarrow> validation_error list \<Rightarrow> proc
   \<Rightarrow> execution_result result \<times> proc" where
  "fail_execution io p stage output_ok errors s =
     (let req = p_request p
      in with_receipt io
           (failure_draft (req_capability req) (Some (req_version req)) (req_definition_hash req)
              (p_authority p) (Some (execution_class (p_meta p))) stage output_ok errors)
           (\<lambda>receipt. Failure stage errors receipt (Some req) (Some (p_adapter p))) s)"

definition complete_execution ::
  "io_outcome \<Rightarrow> pending \<Rightarrow> json \<Rightarrow> proc \<Rightarrow> execution_result result \<times> proc" where
  "complete_execution io p output s =
     (let (receipt, rt) = persistReceiptSafe io (success_draft p) (gov s);
          s' = s\<lparr>gov := rt\<rparr>
      in case receipt of
           None \<Rightarrow> (Inr (Failure ''receipt_persistence''
             [msg ''receipt persistence failed after adapter execution''] None
             (Some (p_request p)) (Some (p_adapter p))), s')
         | Some r \<Rightarrow>
             (case assertValidatedSuccessReceipt r of
                Inl e \<Rightarrow> (Inl e, s')
              | Inr _ \<Rightarrow> (Inr (Success output r (p_request p) (p_adapter p)), s')))"

definition finish_execution ::
  "'v host \<Rightarrow> io_outcome \<Rightarrow> json result \<Rightarrow> pending \<Rightarrow> proc \<Rightarrow> execution_result result \<times> proc" where
  "finish_execution h io outcome p s =
     (case outcome of
        Inl e \<Rightarrow> fail_execution io p ''adapter'' None [msg (''adapter invocation failed: '' @ e)] s
      | Inr output \<Rightarrow>
          (let (res, oc) = validateAdapterOutputForCapability h (reg s) (req_capability (p_request p))
                 (req_version (p_request p)) output (out_cache s);
               s' = s\<lparr>out_cache := oc\<rparr>
           in case res of
                Some errors \<Rightarrow> fail_execution io p ''output_validation'' (Some False) errors s'
              | None \<Rightarrow> complete_execution io p output s'))"

text \<open>
  One execution without interleaving. \<open>invokeAdapter\<close> is the adapter the host supplies; \<open>io\<close> gives the
  outcome of the appends of the one receipt that the execution writes.
\<close>

definition executeGovernedCapability ::
  "'v host \<Rightarrow> io_outcome \<Rightarrow> (bridge_request \<Rightarrow> adapter_binding \<Rightarrow> json result) \<Rightarrow> bridge_draft
   \<Rightarrow> execution_options \<Rightarrow> proc \<Rightarrow> execution_result result \<times> proc" where
  "executeGovernedCapability h io invokeAdapter d opts s =
     (case begin_execution h io d opts s of
        (Inl e, s1) \<Rightarrow> (Inl e, s1)
      | (Inr (Inl res), s1) \<Rightarrow> (Inr res, s1)
      | (Inr (Inr p), s1) \<Rightarrow>
          finish_execution h io (invokeAdapter (p_request p) (p_adapter p)) p s1)"

end
