(* ===== verification/Governance_Properties.thy ===== *)
theory Governance_Properties
  imports Governance_State
begin

text \<open>
  The properties of the governance runtime: start-up checks, restart, replay bookkeeping, the behaviour
  under failing appends, and tamper evidence of the two journals.
\<close>

subsection \<open>Chains as instances of the locale\<close>

definition str_opt :: "json \<Rightarrow> string option" where
  "str_opt v = (case v of JStr s \<Rightarrow> Some s | _ \<Rightarrow> None)"

definition receipt_prev :: "json \<Rightarrow> string option" where
  "receipt_prev r = str_opt (fld r ''prev_receipt_hash'')"

definition anchor_prev :: "json \<Rightarrow> string option" where
  "anchor_prev a = str_opt (fld a ''prev_anchor_hash'')"

definition receipt_content :: "json \<Rightarrow> json" where
  "receipt_content r = receiptHashPayload (receipt_view r)"

definition anchor_content :: "json \<Rightarrow> json" where
  "anchor_content a = anchorPayload (JObj
     [(''chain_key'', fld a ''chain_key''),
      (''anchored_receipt_hash'', fld a ''anchored_receipt_hash''),
      (''prev_anchor_hash'', fld a ''prev_anchor_hash''),
      (''anchored_at'', fld a ''anchored_at'')])"

text \<open>Two entries are the same document when their hashed contents agree up to the order of keys.\<close>

definition same_receipt :: "json \<Rightarrow> json \<Rightarrow> bool" where
  "same_receipt a b = (canon (receipt_content a) = canon (receipt_content b))"

definition same_anchor :: "json \<Rightarrow> json \<Rightarrow> bool" where
  "same_anchor a b = (canon (anchor_content a) = canon (anchor_content b))"

lemma canon_eq_fld_distinct:
  assumes "canon (JObj as) = canon (JObj bs)" "distinct (map fst as)" "distinct (map fst bs)"
  shows "canon (fld (JObj as) k) = canon (fld (JObj bs) k)"
proof -
  have "fld (canon (JObj kvs)) k = canon (fld (JObj kvs) k)" if "distinct (map fst kvs)" for kvs
    using map_of_sort_key_fst [of "map_vals canon kvs"] that
    by (simp add: canon_members_map fld_def split: option.split)
  then show ?thesis using assms by metis
qed

lemma str_opt_canon: "canon v = canon w \<Longrightarrow> str_opt v = str_opt w"
  by (cases v; cases w) (auto simp: str_opt_def)

lemma same_receipt_prev: "same_receipt a b \<Longrightarrow> receipt_prev a = receipt_prev b"
proof -
  assume "same_receipt a b"
  then have "canon (fld (receipt_content a) ''prev_receipt_hash'') =
      canon (fld (receipt_content b) ''prev_receipt_hash'')"
    unfolding same_receipt_def receipt_content_def receiptHashPayload_def
    by (rule canon_eq_fld_distinct) simp_all
  then show "receipt_prev a = receipt_prev b"
    unfolding receipt_prev_def
    by (intro str_opt_canon) (simp add: receipt_content_def receiptHashPayload_def receipt_view_fields)
qed

lemma same_anchor_prev: "same_anchor a b \<Longrightarrow> anchor_prev a = anchor_prev b"
proof -
  assume "same_anchor a b"
  then have "canon (fld (anchor_content a) ''prev_anchor_hash'') =
      canon (fld (anchor_content b) ''prev_anchor_hash'')"
    unfolding same_anchor_def anchor_content_def anchorPayload_def
    by (rule canon_eq_fld_distinct) simp_all
  then show "anchor_prev a = anchor_prev b"
    unfolding anchor_prev_def
    by (intro str_opt_canon) (simp add: anchor_content_def anchorPayload_def)
qed

interpretation receipt_log: hash_chain expected_receipt_hash receipt_prev same_receipt
  by unfold_locales (rule same_receipt_prev)

interpretation anchor_log: hash_chain expected_anchor_hash anchor_prev same_anchor
  by unfold_locales (rule same_anchor_prev)

definition chain_of :: "string \<Rightarrow> json list \<Rightarrow> json list" where
  "chain_of ck rs = filter (\<lambda>r. fld r ''chain_key'' = JStr ck) rs"

lemma chain_of_snoc [simp]:
  "chain_of ck [] = []"
  "chain_of ck (rs @ [r]) =
     (if fld r ''chain_key'' = JStr ck then chain_of ck rs @ [r] else chain_of ck rs)"
  by (simp_all add: chain_of_def)

lemma head_of_chain:
  "receipts_linked rs \<Longrightarrow> head_of (load_heads rs) (JStr ck) =
     (case last_digest expected_receipt_hash (chain_of ck rs) of None \<Rightarrow> JNull | Some h \<Rightarrow> JStr h)"
proof (induction rs rule: rev_induct)
  case Nil
  then show ?case by (simp add: head_of_def last_digest_def)
next
  case (snoc r rs)
  then show ?case
    by (auto simp: head_of_def jmap_get_set last_digest_def receipt_links_def)
qed

lemma str_opt_head:
  "strict_eq v (case h of None \<Rightarrow> JNull | Some s \<Rightarrow> JStr s) \<Longrightarrow> str_opt v = h"
  by (cases h) (auto simp: str_opt_def)

lemma chain_of_linked:
  "receipts_linked rs \<Longrightarrow> digest_linked expected_receipt_hash receipt_prev None (chain_of ck rs)"
proof (induction rs rule: rev_induct)
  case Nil
  then show ?case by simp
next
  case (snoc r rs)
  have "receipt_prev r = last_digest expected_receipt_hash (chain_of ck rs)"
    if "fld r ''chain_key'' = JStr ck"
    using snoc.prems that head_of_chain [of rs ck]
    unfolding receipt_prev_def receipts_linked_snoc receipt_links_def
    by (intro str_opt_head) simp
  then show ?case
    using snoc by (auto simp: digest_linked_snoc last_digest_def)
qed

lemma anchors_digest_linked:
  "anchors_linked hs as \<Longrightarrow> digest_linked expected_anchor_hash anchor_prev None as"
proof (induction as rule: rev_induct)
  case Nil
  then show ?case by simp
next
  case (snoc a as)
  have last: "as = [] \<or> fld (last as) ''anchor_hash'' = JStr (expected_anchor_hash (last as))"
  proof -
    have "anchors_linked hs as" using snoc.prems by simp
    then show ?thesis by (cases as rule: rev_cases) (auto simp: anchor_links_def)
  qed
  have "anchor_prev a = last_digest expected_anchor_hash as"
    unfolding anchor_prev_def
    by (rule str_opt_head) (use snoc.prems last in \<open>auto simp: anchor_links_def last_digest_def\<close>)
  then show ?case using snoc by (auto simp: digest_linked_snoc last_digest_def)
qed

lemma receipt_collision:
  assumes "json_plain (receipt_content a)" "json_plain (receipt_content b)"
    and "\<not> same_receipt a b" "expected_receipt_hash a = expected_receipt_hash b"
  shows "sha_collision (stable_print (receipt_content a)) (stable_print (receipt_content b))"
  using canonical_digest_inj [OF assms(1,2)] assms(3,4)
  by (simp add: same_receipt_def receipt_content_def expected_receipt_hash_def)

lemma anchor_collision:
  assumes "json_plain (anchor_content a)" "json_plain (anchor_content b)"
    and "\<not> same_anchor a b" "expected_anchor_hash a = expected_anchor_hash b"
  shows "sha_collision (stable_print (anchor_content a)) (stable_print (anchor_content b))"
  using canonical_digest_inj [OF assms(1,2)] assms(3,4)
  by (simp add: same_anchor_def anchor_content_def expected_anchor_hash_def)

subsection \<open>An example run\<close>

definition example_options :: runtime_options where
  "example_options = \<lparr>rootDir = ''gov'', environmentId = ''test'', runtimeId = ''r1''\<rparr>"

definition example_runtime :: runtime where
  "example_runtime = fresh_runtime example_options (\<lambda>n. show_nat n) 0"

definition example_authority :: authority_context where
  "example_authority =
     \<lparr>resolved_authority_level = ''standard'', auth_source = ''host'', evaluated_at = ''0'',
      session_id = Some ''s'', subject_id = None, authority_context_id = None\<rparr>"

definition example_draft :: receipt_draft where
  "example_draft =
     \<lparr>d_capability = ''a'', d_version = Some ''1'', d_definition_hash = None,
      d_authority = example_authority, d_execution_class = Some ''B'', d_stage = ''executed'',
      d_success = True, d_output_validation_passed = Some True, d_errors = None,
      d_replay_key = Some ''a@1:null'', d_idempotency_key = None, d_timestamp = None\<rparr>"

definition no_failure :: io_outcome where
  "no_failure = \<lparr>receipt_io = None, anchor_io = None\<rparr>"

definition recorded_runtime :: runtime where
  "recorded_runtime = snd (persistReceipt no_failure example_draft example_runtime)"

lemma example_draft_ok: "draft_ok example_draft"
  by (simp add: draft_ok_def example_draft_def)

lemma example_reach: "gov_reach example_runtime"
  unfolding example_runtime_def by (rule start [OF create_fresh])

lemma example_step:
  "persistReceipt no_failure example_draft example_runtime =
     (fst (persistReceipt no_failure example_draft example_runtime), recorded_runtime)"
  by (simp add: recorded_runtime_def)

lemma recorded_gov_step: "gov_step example_runtime recorded_runtime"
  by (rule gov_step.persist [OF example_draft_ok example_step])

lemma recorded_reach: "gov_reach recorded_runtime"
  by (rule gov_reach.step [OF example_reach recorded_gov_step])

lemma persist_blocks:
  assumes "gov_reach rt" and "draft_ok d" and "persistReceipt io d rt = (res, rt')"
    and "receipt_io io = None"
    and "d_success d" and "d_stage d = ''executed''" and "d_replay_key d = Some rk" and "replay_key_ok rk"
  shows "hasBlockedReplay rt' rk"
proof -
  have ok: "runtime_ok rt" by (rule gov_reach_ok [OF assms(1)])
  have "runtime_ok rt'" using persistReceipt_ok [OF ok assms(2,3)] by simp
  moreover obtain t where "receipts rt' = receipts rt @ [new_receipt rt d t]"
    using assms(3)
  proof (cases rule: persistReceipt_cases)
    case (failed n e)
    then show ?thesis using assms(4) by simp
  next
    case (recorded n t res')
    let ?r = "new_receipt rt d t"
    have "runtime_ok (record_receipt ?r (rt\<lparr>ticks := n\<rparr>))"
      using record_receipt_ok [of "rt\<lparr>ticks := n\<rparr>" d t] ok assms(2) by (simp add: runtime_ok_tick)
    from persistAnchor_ok(2) [OF this _ new_receipt_fields(1,2) recorded(2)] show ?thesis
      using that by simp
  qed
  ultimately show ?thesis
    using recorded_execution_in_ledger [OF assms(5-8)] by (simp add: hasBlockedReplay_ledger)
qed

lemma recorded_blocked: "hasBlockedReplay recorded_runtime ''a@1:null''"
  by (rule persist_blocks [OF example_reach example_draft_ok example_step])
    (simp_all add: no_failure_def example_draft_def replay_key_ok_def last_index_of_def)

definition restarted_runtime :: runtime where
  "restarted_runtime = recorded_runtime\<lparr>clock := (\<lambda>n. ''t''), ticks := 7\<rparr>"

lemma restarted_step: "gov_step recorded_runtime restarted_runtime"
  unfolding restarted_runtime_def
  by (rule gov_step.restart [OF restart_same [OF gov_reach_ok [OF recorded_reach]]])

subsection \<open>Properties\<close>

text \<open>C21: In every state that a runtime started on an empty directory can reach, by persisting receipts with
  any outcome of the two appends, reading the clock and restarting, all start-up invariants hold:
  \<open>assertStartupInvariants\<close> does not throw. No receipt has an error item whose path is explicitly undefined, which
  would not be read back as it was hashed.\<close>

theorem startup_invariants_always_hold:
  assumes "gov_reach rt"
  shows "assertStartupInvariants rt = Inr ()"
  using assertStartupInvariants_ok [OF gov_reach_ok [OF assms]] .

theorem startup_invariants_always_hold_witness:
  "assertStartupInvariants recorded_runtime = Inr ()"
  by (rule startup_invariants_always_hold [OF recorded_reach])

text \<open>C22: A restart loses nothing: in every reachable state, reading the two journals back rebuilds the same
  receipts, anchors, chain heads, replay ledger and idempotency index, and does not fail.\<close>

theorem restart_rebuilds_state:
  assumes "gov_reach rt"
  shows "createFileGovernanceRuntime (options rt) clk t (fs rt) =
    (Inr (rt\<lparr>clock := clk, ticks := t\<rparr>), fs rt)"
  by (rule restart_same [OF gov_reach_ok [OF assms]])

theorem restart_rebuilds_state_witness:
  "createFileGovernanceRuntime (options recorded_runtime) (\<lambda>n. ''t'') 7 (fs recorded_runtime) =
    (Inr (recorded_runtime\<lparr>clock := (\<lambda>n. ''t''), ticks := 7\<rparr>), fs recorded_runtime)"
  by (rule restart_rebuilds_state [OF recorded_reach])

text \<open>C23: The journal is append-only and the replay ledger never forgets: along every run from a reachable
  state, with failing appends and restarts, the receipts are extended at the end only and a key that was
  blocked stays blocked.\<close>

theorem replay_protection_is_permanent:
  assumes "gov_reach rt" and "gov_step\<^sup>*\<^sup>* rt rt'" and "hasBlockedReplay rt key"
  shows "hasBlockedReplay rt' key \<and> (\<exists>rest. receipts rt' = receipts rt @ rest)"
proof -
  have ok: "runtime_ok rt" by (rule gov_reach_ok [OF assms(1)])
  obtain rest where rest: "receipts rt' = receipts rt @ rest" and "runtime_ok rt'"
    using gov_steps_append [OF assms(2) ok] by blast
  then show ?thesis
    using ok ledger_of_append [of "receipts rt" key rest] assms(3) by (simp add: hasBlockedReplay_ledger)
qed

theorem replay_protection_is_permanent_witness:
  "hasBlockedReplay restarted_runtime ''a@1:null'' \<and>
    (\<exists>rest. receipts restarted_runtime = receipts recorded_runtime @ rest)"
  by (rule replay_protection_is_permanent [OF recorded_reach _ recorded_blocked])
    (rule r_into_rtranclp, rule restarted_step)

text \<open>Recording a successful execution with a well-formed replay key blocks this key from then on, even when
  the anchor that follows the receipt cannot be written.\<close>

theorem recorded_execution_blocks_replay:
  assumes "gov_reach rt" and "draft_ok d" and "persistReceipt io d rt = (res, rt')"
    and "receipt_io io = None"
    and "d_success d" and "d_stage d = ''executed''" and "d_replay_key d = Some rk" and "replay_key_ok rk"
  shows "hasBlockedReplay rt' rk"
  by (rule persist_blocks [OF assms])

theorem recorded_execution_blocks_replay_witness:
  "hasBlockedReplay recorded_runtime (''a@1'' @ '':null'')"
  by (rule recorded_execution_blocks_replay [OF example_reach example_draft_ok example_step])
    (simp_all add: no_failure_def example_draft_def replay_key_ok_def last_index_of_def)

text \<open>When the receipt cannot be appended, \<open>persistReceipt\<close> throws that error and changes nothing but the
  clock: no receipt, no chain head, no ledger entry and no text in either journal.\<close>

theorem failed_receipt_append_changes_nothing:
  assumes "persistReceipt io d rt = (res, rt')" and "receipt_io io = Some e"
  shows "res = Inl e \<and> (\<exists>n. rt' = rt\<lparr>ticks := n\<rparr>)"
  using assms(1)
proof (cases rule: persistReceipt_cases)
  case (failed n e')
  then show ?thesis using assms(2) by auto
next
  case (recorded n t res')
  then show ?thesis using assms(2) by simp
qed

definition receipt_failure :: io_outcome where
  "receipt_failure = \<lparr>receipt_io = Some ''ENOSPC'', anchor_io = None\<rparr>"

theorem failed_receipt_append_changes_nothing_witness:
  "fst (persistReceipt receipt_failure example_draft example_runtime) = Inl ''ENOSPC'' \<and>
    (\<exists>n. snd (persistReceipt receipt_failure example_draft example_runtime) = example_runtime\<lparr>ticks := n\<rparr>)"
  by (rule failed_receipt_append_changes_nothing [OF surjective_pairing])
    (simp add: receipt_failure_def)

lemma group_receipt_count:
  "length (concat (map snd (group_receipt g r))) = Suc (length (concat (map snd g)))"
proof -
  have new: "jmap_get g k = None \<Longrightarrow>
      length (concat (map snd (jmap_set k [r] g))) = Suc (length (concat (map snd g)))" for k
    by (induction g) (auto split: if_splits)
  have old: "jmap_get g k = Some es \<Longrightarrow>
      length (concat (map snd (jmap_set k (es @ [r]) g))) = Suc (length (concat (map snd g)))" for k es
    by (induction g) (auto split: if_splits)
  show ?thesis using new old by (simp add: group_receipt_def Let_def split: option.split)
qed

lemma by_chain_count: "length (concat (map snd (by_chain rs))) = length rs"
  by (induction rs rule: rev_induct) (simp_all add: group_receipt_count del: length_concat)

text \<open>\<open>verifyReceiptChain\<close> decides the specification of a receipt journal: it visits every receipt and
  reports success exactly when each receipt carries its own digest and the hash of its predecessor in
  its chain.\<close>

theorem verifyReceiptChain_decides_linked:
  "ver_ok (verifyReceiptChain rt) = receipts_linked (receipts rt) \<and>
   checked (verifyReceiptChain rt) = length (receipts rt) \<and>
   (ver_ok (verifyReceiptChain rt) \<longleftrightarrow> ver_errors (verifyReceiptChain rt) = [])"
proof -
  have "checked (verifyReceiptChain rt) = length (receipts rt)"
    using by_chain_count [of "receipts rt"] by (simp add: verifyReceiptChain_def Let_def)
  moreover have "ver_ok (verifyReceiptChain rt) \<longleftrightarrow> ver_errors (verifyReceiptChain rt) = []"
    by (simp add: verifyReceiptChain_def Let_def)
  ultimately show ?thesis using verifyReceiptChain_ok by blast
qed

lemma stored_receipt_plain:
  assumes "draft_ok d" "prev = JNull \<or> (\<exists>s. prev = JStr s)"
  shows "json_plain (receipt_content (JObj (receipt_base opts d t prev @ [(''receipt_hash'', JStr h)])))"
proof -
  have tr: "truthy v \<Longrightarrow> json_plain v \<or> v = JUndef \<Longrightarrow> json_plain v" for v by auto
  have plain: "json_plain (opt_null v)" for v by (simp add: opt_null_def split: option.split)
  have nul: "json_plain (nullish_else (if truthy x then x else JUndef) JNull)" if "json_plain x \<or> x = JUndef" for x
    using that by (auto simp: nullish_else_def is_null_or_undef_def)
  have part: "json_plain (case nonempty_opt v of None \<Rightarrow> JUndef | Some s \<Rightarrow> s) \<or>
      (case nonempty_opt v of None \<Rightarrow> JUndef | Some s \<Rightarrow> s) = JUndef" for v
    using tidy_parts(2) [of v] by (auto simp: tidy_def split: option.split)
  have errs: "json_plain (case errors_opt (d_errors d) of None \<Rightarrow> JUndef | Some s \<Rightarrow> s) \<or>
      (case errors_opt (d_errors d) of None \<Rightarrow> JUndef | Some s \<Rightarrow> s) = JUndef"
    using tidy_parts(3) [OF assms(1)] by (auto simp: tidy_def split: option.split)
  have out: "json_plain (nullish_else (fld (JObj (receipt_base opts d t prev)) ''output_validation_passed'') JNull)"
    by (auto simp: receipt_base_def nullish_else_def is_null_or_undef_def)
  have "json_plain prev" using assms(2) by auto
  moreover have "json_plain (authority_json a)" for a using tidy_authority by (simp add: tidy_def)
  ultimately show ?thesis
    using nul [OF part [of "d_replay_key d"]] nul [OF part [of "d_idempotency_key d"]] nul [OF errs] out
    by (simp add: receipt_content_def receiptHashPayload_def receipt_view_fields receipt_fields
        receipt_fixed_fields plain split del: if_split cong del: if_weak_cong)
qed

lemma new_receipt_plain:
  assumes "receipts_linked (receipts rt)" "receiptHeads rt = load_heads (receipts rt)" "draft_ok d"
  shows "json_plain (receipt_content (new_receipt rt d t))"
proof -
  let ?k = "JStr (chainKeyFor (options rt) (d_authority d))"
  have str: "nullish_else (head_of (receiptHeads rt) ?k) JNull = JNull \<or>
      (\<exists>s. nullish_else (head_of (receiptHeads rt) ?k) JNull = JStr s)"
    using head_of_string [OF assms(1), of ?k] assms(2) by (auto simp: nullish_else_def is_null_or_undef_def)
  show ?thesis
    unfolding new_receipt_def new_receipt_prev Let_def by (rule stored_receipt_plain [OF assms(3) str])
qed

lemma recorded_receipts:
  "\<forall>r \<in> set (receipts recorded_runtime). json_plain (receipt_content r)"
proof -
  have ok: "runtime_ok example_runtime" by (rule gov_reach_ok [OF example_reach])
  then have "receipts_linked (receipts example_runtime)"
    "receiptHeads example_runtime = load_heads (receipts example_runtime)"
    by (simp_all add: runtime_ok_def projections_ok_def)
  from new_receipt_plain [OF this example_draft_ok] persistReceipt_ok [OF ok example_draft_ok example_step]
  show ?thesis by (auto simp: example_runtime_def fresh_runtime_def)
qed

text \<open>C24: Receipts are tamper evident: if two runtimes both pass \<open>verifyReceiptChain\<close>, and a chain has the same
  number of receipts and the same head hash in both, then the hashed contents of that chain agree receipt
  by receipt, or two of the printed contents are a collision of SHA-256. The contents are plain data, without
  anything undefined or a big integer, as everything that is read from a journal is.\<close>

theorem receipt_chain_tamper_evident:
  assumes "ver_ok (verifyReceiptChain a)" and "ver_ok (verifyReceiptChain b)"
    and "\<forall>r \<in> set (receipts a) \<union> set (receipts b). json_plain (receipt_content r)"
    and "length (chain_of ck (receipts a)) = length (chain_of ck (receipts b))"
    and "head_of (load_heads (receipts a)) (JStr ck) = head_of (load_heads (receipts b)) (JStr ck)"
  shows "(\<forall>i < length (chain_of ck (receipts a)).
      same_receipt (chain_of ck (receipts a) ! i) (chain_of ck (receipts b) ! i)) \<or>
    (\<exists>r \<in> set (receipts a). \<exists>s \<in> set (receipts b).
      sha_collision (stable_print (receipt_content r)) (stable_print (receipt_content s)))"
proof -
  let ?as = "chain_of ck (receipts a)" and ?bs = "chain_of ck (receipts b)"
  have linked: "receipts_linked (receipts a)" "receipts_linked (receipts b)"
    using assms(1,2) by (simp_all add: verifyReceiptChain_ok)
  have "last_digest expected_receipt_hash ?as = last_digest expected_receipt_hash ?bs"
    using assms(5) head_of_chain [OF linked(1)] head_of_chain [OF linked(2)]
    by (simp split: option.splits)
  from receipt_log.equal_heads [OF assms(4) chain_of_linked [OF linked(1)] chain_of_linked [OF linked(2)] this]
  show ?thesis
  proof
    assume "\<exists>i < length ?as. \<not> same_receipt (?as ! i) (?bs ! i) \<and>
        expected_receipt_hash (?as ! i) = expected_receipt_hash (?bs ! i)"
    then obtain i where i: "i < length ?as" "\<not> same_receipt (?as ! i) (?bs ! i)"
      "expected_receipt_hash (?as ! i) = expected_receipt_hash (?bs ! i)" by blast
    have mem: "?as ! i \<in> set (receipts a)" "?bs ! i \<in> set (receipts b)"
      using i(1) assms(4) nth_mem [of i ?as] nth_mem [of i ?bs] by (simp_all add: chain_of_def)
    then have "sha_collision (stable_print (receipt_content (?as ! i))) (stable_print (receipt_content (?bs ! i)))"
      using assms(3) i(2,3) by (intro receipt_collision) auto
    then show ?thesis using mem by blast
  qed blast
qed

theorem receipt_chain_tamper_evident_witness:
  "let ck = chainKeyFor example_options example_authority; rs = receipts recorded_runtime
   in (\<forall>i < length (chain_of ck rs). same_receipt (chain_of ck rs ! i) (chain_of ck rs ! i)) \<or>
    (\<exists>r \<in> set rs. \<exists>s \<in> set rs.
      sha_collision (stable_print (receipt_content r)) (stable_print (receipt_content s)))"
  unfolding Let_def using gov_reach_ok [OF recorded_reach] recorded_receipts
  by (intro receipt_chain_tamper_evident) (simp_all add: verifyReceiptChain_ok runtime_ok_def)

lemma verifyReceiptAnchors_linked:
  assumes "verifyReceiptAnchors rt = Inr v" "ver_ok v"
  shows "anchors_linked (receipt_hashes (receipts rt)) (anchors rt)"
proof -
  have "JNull \<notin> set (anchors rt)" using assms(1) by (auto simp: verifyReceiptAnchors_def)
  from verifyReceiptAnchors_ok [OF this] assms show ?thesis by auto
qed

lemma fresh_anchor_plain:
  assumes "anchors_linked hs as" "fld r ''receipt_hash'' = JStr h" "fld r ''chain_key'' = JStr c"
    and "fld r ''timestamp'' = JStr t"
  shows "json_plain (anchor_content (anchor_of as r))"
proof -
  have "as = [] \<or> (\<exists>s. fld (last as) ''anchor_hash'' = JStr s)"
    using assms(1) by (cases as rule: rev_cases) (auto simp: anchor_links_def)
  then show ?thesis by (auto simp: anchor_content_def anchorPayload_def anchor_of_def Let_def assms)
qed

lemma persistAnchor_anchors:
  "persistAnchor io r rt = (res, rt') \<Longrightarrow>
     anchors rt' = anchors rt \<or> anchors rt' = anchors rt @ [anchor_of (anchors rt) r]"
  by (auto simp: persistAnchor_def Let_def split: if_splits option.splits)

lemma recorded_anchors: "\<forall>a \<in> set (anchors recorded_runtime). json_plain (anchor_content a)"
  using example_step
proof (cases rule: persistReceipt_cases)
  case (failed n e)
  then show ?thesis by (simp add: no_failure_def)
next
  case (recorded n t res')
  let ?r = "new_receipt example_runtime example_draft t"
  have ok: "runtime_ok example_runtime" by (rule gov_reach_ok [OF example_reach])
  have "receipt_links (receipts example_runtime) ?r"
    using ok example_draft_ok
    by (intro new_receipt_facts(1)) (simp_all add: runtime_ok_def projections_ok_def)
  then obtain h where "fld ?r ''receipt_hash'' = JStr h" by (simp add: receipt_links_def)
  then have "json_plain (anchor_content (anchor_of [] ?r))"
    by (intro fresh_anchor_plain [of "[]"]) (simp_all add: new_receipt_fields)
  moreover have "anchors (record_receipt ?r (example_runtime\<lparr>ticks := n\<rparr>)) = []"
    by (simp add: record_receipt_def Let_def example_runtime_def fresh_runtime_def)
  ultimately show ?thesis
    using persistAnchor_anchors [OF recorded(2)] by auto
qed

text \<open>Anchors are tamper evident: if two runtimes both pass \<open>verifyReceiptAnchors\<close> with the same number of
  anchors and the same digest of the last one, then their anchors agree one by one in everything that is
  hashed, or two printed anchors are a collision of SHA-256.\<close>

theorem anchor_journal_tamper_evident:
  assumes "verifyReceiptAnchors a = Inr va" "ver_ok va" and "verifyReceiptAnchors b = Inr vb" "ver_ok vb"
    and "\<forall>x \<in> set (anchors a) \<union> set (anchors b). json_plain (anchor_content x)"
    and "length (anchors a) = length (anchors b)"
    and "last_digest expected_anchor_hash (anchors a) = last_digest expected_anchor_hash (anchors b)"
  shows "(\<forall>i < length (anchors a). same_anchor (anchors a ! i) (anchors b ! i)) \<or>
    (\<exists>x \<in> set (anchors a). \<exists>y \<in> set (anchors b).
      sha_collision (stable_print (anchor_content x)) (stable_print (anchor_content y)))"
proof -
  note linked = verifyReceiptAnchors_linked [OF assms(1,2)] verifyReceiptAnchors_linked [OF assms(3,4)]
  from anchor_log.equal_heads [OF assms(6) anchors_digest_linked [OF linked(1)]
      anchors_digest_linked [OF linked(2)] assms(7)]
  show ?thesis
  proof
    assume "\<exists>i < length (anchors a). \<not> same_anchor (anchors a ! i) (anchors b ! i) \<and>
        expected_anchor_hash (anchors a ! i) = expected_anchor_hash (anchors b ! i)"
    then obtain i where i: "i < length (anchors a)" "\<not> same_anchor (anchors a ! i) (anchors b ! i)"
      "expected_anchor_hash (anchors a ! i) = expected_anchor_hash (anchors b ! i)" by blast
    have mem: "anchors a ! i \<in> set (anchors a)" "anchors b ! i \<in> set (anchors b)"
      using i(1) assms(6) by simp_all
    then have "sha_collision (stable_print (anchor_content (anchors a ! i)))
        (stable_print (anchor_content (anchors b ! i)))"
      using assms(5) i(2,3) by (intro anchor_collision) auto
    then show ?thesis using mem by blast
  qed blast
qed

lemma recorded_anchors_verified:
  obtains v where "verifyReceiptAnchors recorded_runtime = Inr v" "ver_ok v"
proof -
  have ok: "runtime_ok recorded_runtime" by (rule gov_reach_ok [OF recorded_reach])
  then have "JNull \<notin> set (anchors recorded_runtime)"
    using not_record_null unfolding runtime_ok_def files_ok_def by blast
  from verifyReceiptAnchors_ok [OF this] show ?thesis
    using that ok by (auto simp: runtime_ok_def)
qed

theorem anchor_journal_tamper_evident_witness:
  "let as = anchors recorded_runtime
   in (\<forall>i < length as. same_anchor (as ! i) (as ! i)) \<or>
    (\<exists>x \<in> set as. \<exists>y \<in> set as.
      sha_collision (stable_print (anchor_content x)) (stable_print (anchor_content y)))"
proof -
  obtain v where v: "verifyReceiptAnchors recorded_runtime = Inr v" "ver_ok v"
    by (rule recorded_anchors_verified)
  show ?thesis
    unfolding Let_def
    by (rule anchor_journal_tamper_evident [OF v v]) (simp_all add: recorded_anchors)
qed

subsection \<open>Corner cases of the code\<close>

text \<open>\<open>split(":", 2)\<close> drops what follows the second colon, so the normalised input of an entry is cut.\<close>

lemma normalized_input_is_truncated:
  "toReplayEntry 0 (JObj [(''success'', JBool True), (''stage'', JStr ''executed''),
      (''replay_key'', JStr ''a@1:[x:y]'')]) \<noteq> None \<and>
   (\<forall>e. toReplayEntry 0 (JObj [(''success'', JBool True), (''stage'', JStr ''executed''),
      (''replay_key'', JStr ''a@1:[x:y]'')]) = Some e \<longrightarrow> normalized_input e = ''[x'')"
  by (simp add: toReplayEntry_def last_index_of_def Let_def numeral_eq_Suc)

text \<open>A colon in the capability hides the version, so no ledger entry is made at all.\<close>

lemma colon_in_capability_disables_replay_entry:
  "toReplayEntry 0 (JObj [(''success'', JBool True), (''stage'', JStr ''executed''),
      (''replay_key'', JStr ''ns:a@1:null'')]) = None"
  by (simp add: toReplayEntry_def last_index_of_def Let_def numeral_eq_Suc)

text \<open>When only the anchor fails, the caller sees an exception although the execution is recorded.\<close>

lemma anchor_failure_reports_failure_but_records:
  assumes "runtime_ok rt" "receipt_io io = None" "anchor_io io = Some e"
    and "persistReceipt io d rt = (res, rt')" "draft_ok d"
  shows "res = Inl e \<and> (\<exists>t. receipts rt' = receipts rt @ [new_receipt rt d t])"
  using assms(4)
proof (cases rule: persistReceipt_cases)
  case (failed n e')
  then show ?thesis using assms(2) by simp
next
  case (recorded n t res')
  let ?rt1 = "record_receipt (new_receipt rt d t) (rt\<lparr>ticks := n\<rparr>)"
  have "anchors ?rt1 = anchors rt" by (simp add: record_receipt_def Let_def)
  moreover have "JNull \<notin> set (anchors rt)"
    using assms(1) not_record_null unfolding runtime_ok_def files_ok_def by blast
  ultimately have "\<not> (anchors ?rt1 \<noteq> [] \<and> last (anchors ?rt1) = JNull)"
    by (metis last_in_set)
  then have "res' = Inl e" "rt' = ?rt1" using recorded(2) assms(3) by (auto simp: persistAnchor_def Let_def)
  then show ?thesis using recorded(3) by auto
qed

text \<open>\<open>slice(-0)\<close> is the whole array: asking for no recent receipts returns all of them.\<close>

lemma listRecentReceipts_zero: "listRecentReceipts rt 0 = rev (receipts rt)"
  by (simp add: listRecentReceipts_def slice_from_def slice_pos_def)

end
