(* ===== verification/Enforcement_Properties.thy ===== *)
theory Enforcement_Properties
  imports Enforcement Governance_Properties
begin

text \<open>
  The properties of the admission layer: which authority is admitted, that a draft cannot raise it,
  when two inputs share a replay key, and what the replay gate decides.
\<close>

subsection \<open>Admission\<close>

text \<open>The order of authority that the host's levels and the requirements of the metadata share.\<close>

definition authority_rank :: "string \<Rightarrow> nat" where
  "authority_rank s =
     (if s = ''none'' then 0 else if s = ''standard'' then 1 else if s = ''elevated'' then 2 else 3)"

definition known_level :: "string \<Rightarrow> bool" where
  "known_level s = (s \<in> {''none'', ''standard'', ''elevated'', ''continuous_resonance''})"

definition authority_complete :: "authority_context \<Rightarrow> bool" where
  "authority_complete a =
     (known_level (resolved_authority_level a) \<and> trim (auth_source a) \<noteq> [] \<and> trim (evaluated_at a) \<noteq> [] \<and>
      (case authority_context_id a of None \<Rightarrow> True | Some i \<Rightarrow> trim i \<noteq> []))"

lemma validate_authority_Nil:
  "validateAuthorityContext (Some a) = [] \<longleftrightarrow> authority_complete a"
  by (auto simp: validateAuthorityContext_def authority_complete_def known_level_def split: option.split)

lemma less_rank_iff:
  assumes "known_level l" and "r \<in> set authority_names"
  shows "less_rank (ADMISSION_RANK l) (REQUIREMENT_RANK r) \<longleftrightarrow> authority_rank l < authority_rank r"
  using assms
  by (auto simp: known_level_def authority_names_def less_rank_def ADMISSION_RANK_def REQUIREMENT_RANK_def
      authority_rank_def)

lemma well_formed_no_violations:
  assumes "meta_well_formed m"
  shows "collectExecutionClassPolicyViolations m = []"
proof -
  have "execution_class m \<in> {''A'', ''B'', ''C''}" using assms by (simp add: meta_well_formed_def)
  from no_violations_iff [OF this] assms show ?thesis by (auto simp: meta_well_formed_def)
qed

text \<open>C30: For well-formed metadata the default admission policy admits exactly the complete authority contexts
  whose level is at least the required one; everything else gets at least one error.\<close>

theorem admission_decides_authority:
  assumes "meta_well_formed m"
  shows "checkAdmissionPolicy m a None = [] \<longleftrightarrow>
    authority_complete a \<and>
    authority_rank (authority_requirements m) \<le> authority_rank (resolved_authority_level a)"
proof -
  have "authority_requirements m \<in> set authority_names"
    using assms by (simp add: meta_well_formed_def)
  then show ?thesis
    using validate_authority_Nil [of a] well_formed_no_violations [OF assms]
      less_rank_iff [of "resolved_authority_level a" "authority_requirements m"]
    by (auto simp: checkAdmissionPolicy_def Let_def or_else_def defaultClassPolicyHook_def authority_complete_def)
qed

lemma meta_example_wf: "meta_well_formed meta_of_example"
  by (rule parse_meta_well_formed [OF parse_meta_example])

theorem admission_decides_authority_witness:
  "(checkAdmissionPolicy meta_of_example example_authority None = []) =
    (authority_complete example_authority \<and>
     authority_rank (authority_requirements meta_of_example)
       \<le> authority_rank (resolved_authority_level example_authority))"
  by (rule admission_decides_authority [OF meta_example_wf])

text \<open>
  A requirement outside the table compares as \<open>undefined\<close>, so metadata registered in memory with an
  unknown requirement admits every complete context, although the code announces to fail closed.
\<close>

lemma unknown_requirement_admits:
  assumes "collectExecutionClassPolicyViolations m = []" and "authority_complete a"
    and "authority_requirements m \<notin> set authority_names"
  shows "checkAdmissionPolicy m a None = []"
proof -
  have "REQUIREMENT_RANK (authority_requirements m) = None"
    using assms(3) by (simp add: REQUIREMENT_RANK_def authority_names_def)
  then show ?thesis
    using assms(1,2) validate_authority_Nil [of a]
    by (simp add: checkAdmissionPolicy_def Let_def or_else_def defaultClassPolicyHook_def less_rank_def
        split: option.split)
qed

subsection \<open>Authority resolution\<close>

lemma truthy_opt_Some: "truthy_opt v = Some s \<longleftrightarrow> v = Some s \<and> s \<noteq> []"
  by (auto simp: truthy_opt_def split: option.splits)

lemma context_string_trimmed: "context_string ctx k = Some s \<Longrightarrow> trim s = s \<and> s \<noteq> []"
  by (auto simp: context_string_def split: json.splits if_splits)

lemma truthy_trim_trimmed: "truthy_trim v = Some s \<Longrightarrow> trim s = s \<and> s \<noteq> []"
  by (auto simp: truthy_trim_def truthy_opt_Some)

lemma trim_prefix:
  assumes "p \<noteq> []" "\<not> is_ws (hd p)"
  shows "trim (p @ s) \<noteq> []"
  unfolding trim_def using assms by (cases p) (auto simp: dropWhile_eq_Nil_conv)

text \<open>The content of a draft never decides its authority: the resolved level is the one the host asserted, or
  \<open>none\<close>, whatever the draft's context holds. The resolved context is complete when the host's level is
  known and the runtime's clock reading is not blank.\<close>

theorem resolved_authority_comes_from_host:
  assumes "resolveExecutionAuthorityContext d rt seed = (a, rt')"
  shows "resolved_authority_level a =
      (case seed of None \<Rightarrow> ''none'' | Some h \<Rightarrow> resolved_authority_level h) \<and>
    rt' = rt\<lparr>ticks := ticks rt + 1\<rparr> \<and>
    authority_complete a =
      (known_level (resolved_authority_level a) \<and> trim (clock rt (ticks rt)) \<noteq> [])"
proof -
  have "trim (auth_source a) \<noteq> []"
  proof -
    have "\<exists>s. auth_source a = ''resolved:'' @ s"
      using assms by (auto simp: resolveExecutionAuthorityContext_def Let_def now_def)
    then show ?thesis using trim_prefix [of "''resolved:''"] by (auto simp: is_ws_def)
  qed
  moreover have "case authority_context_id a of None \<Rightarrow> True | Some i \<Rightarrow> trim i \<noteq> []"
    using assms truthy_trim_trimmed context_string_trimmed
    by (auto simp: resolveExecutionAuthorityContext_def Let_def now_def truthy_opt_Some
        split: option.splits)
  moreover have "evaluated_at a = clock rt (ticks rt)" "rt' = rt\<lparr>ticks := ticks rt + 1\<rparr>"
    "resolved_authority_level a = (case seed of None \<Rightarrow> ''none'' | Some h \<Rightarrow> resolved_authority_level h)"
    using assms by (auto simp: resolveExecutionAuthorityContext_def Let_def now_def)
  ultimately show ?thesis by (auto simp: authority_complete_def)
qed

definition pushy_draft :: bridge_draft where
  "pushy_draft = \<lparr>draft_capability = ''a'', draft_input = JNull,
     draft_context = JObj [(''resolved_authority_level'', JStr ''elevated''), (''session_id'', JStr ''s'')],
     draft_version = None\<rparr>"

theorem resolved_authority_comes_from_host_witness:
  "let (a, rt') = resolveExecutionAuthorityContext pushy_draft example_runtime (Some example_authority)
   in resolved_authority_level a =
      (case Some example_authority of None \<Rightarrow> ''none'' | Some h \<Rightarrow> resolved_authority_level h) \<and>
    rt' = example_runtime\<lparr>ticks := ticks example_runtime + 1\<rparr> \<and>
    authority_complete a =
      (known_level (resolved_authority_level a) \<and> trim (clock example_runtime (ticks example_runtime)) \<noteq> [])"
proof -
  obtain a rt' where step:
    "resolveExecutionAuthorityContext pushy_draft example_runtime (Some example_authority) = (a, rt')"
    by (cases "resolveExecutionAuthorityContext pushy_draft example_runtime (Some example_authority)")
  show ?thesis
    unfolding step Let_def prod.case by (rule resolved_authority_comes_from_host [OF step])
qed

subsection \<open>Replay keys\<close>

lemma replay_key_parts:
  assumes "CHR '':'' \<notin> set c" "CHR '':'' \<notin> set v" "CHR '':'' \<notin> set c'" "CHR '':'' \<notin> set v'"
    and "replayBlockedLookupKey c v a = replayBlockedLookupKey c' v' b"
  shows "reg_key c v = reg_key c' v' \<and> stableInputKeyForReplay a = stableInputKeyForReplay b"
proof -
  have free: "CHR '':'' \<notin> set (reg_key c v)" "CHR '':'' \<notin> set (reg_key c' v')"
    using assms(1-4) by (auto simp: reg_key_def)
  have idx: "index_of (CHR '':'') (reg_key c v @ CHR '':'' # s) = Some (length (reg_key c v))" for s
    using free(1) by (rule index_of_append)
  have idx': "index_of (CHR '':'') (reg_key c' v' @ CHR '':'' # s) = Some (length (reg_key c' v'))" for s
    using free(2) by (rule index_of_append)
  have eq: "reg_key c v @ CHR '':'' # stableInputKeyForReplay a =
      reg_key c' v' @ CHR '':'' # stableInputKeyForReplay b"
    using assms(5) by (simp add: replayBlockedLookupKey_def)
  then have "length (reg_key c v) = length (reg_key c' v')"
    using idx [of "stableInputKeyForReplay a"] idx' [of "stableInputKeyForReplay b"] by simp
  then show ?thesis using eq by simp
qed

text \<open>C31: Two executions share a replay key exactly when they run the same version of the same capability on the
  same JSON document, whatever the order of its keys. This holds for plain inputs without a property
  \<open>__proto__\<close> and for labels without colon and versions without \<open>@\<close>.\<close>

theorem replay_key_identifies_execution:
  assumes "json_plain a" "no_proto a" "json_plain b" "no_proto b"
    and "CHR '':'' \<notin> set c" "CHR '':'' \<notin> set v" "CHR '':'' \<notin> set c'" "CHR '':'' \<notin> set v'"
    and "at_free v" "at_free v'"
  shows "replayBlockedLookupKey c v a = replayBlockedLookupKey c' v' b \<longleftrightarrow>
    c = c' \<and> v = v' \<and> canon a = canon b"
proof
  assume "replayBlockedLookupKey c v a = replayBlockedLookupKey c' v' b"
  note parts = replay_key_parts [OF assms(5-8) this]
  then show "c = c' \<and> v = v' \<and> canon a = canon b"
    using reg_key_inj [OF assms(9,10)] replay_input_key_inj [OF assms(1-4)] by blast
next
  assume "c = c' \<and> v = v' \<and> canon a = canon b"
  then show "replayBlockedLookupKey c v a = replayBlockedLookupKey c' v' b"
    using replay_input_key_inj [OF assms(1-4)] by (simp add: replayBlockedLookupKey_def)
qed

theorem replay_key_identifies_execution_witness:
  "let a = JObj [(''n'', JNum (NumDec 1 0)), (''b'', JBool True)]; b = JObj [(''n'', JNum (NumDec 2 0))]
   in (replayBlockedLookupKey ''cap'' ''1.0'' a = replayBlockedLookupKey ''cap'' ''1.0'' b) =
    (''cap'' = ''cap'' \<and> ''1.0'' = ''1.0'' \<and> canon a = canon b)"
  unfolding Let_def
  by (rule replay_key_identifies_execution) (simp_all add: dec_normal_def proto_key_def at_free_def)

text \<open>A property \<open>__proto__\<close> is lost when the keys are sorted, so two different inputs share a key.\<close>

lemma proto_inputs_collide:
  "stableInputKeyForReplay (JObj [(''__proto__'', JNum (NumDec 1 0))]) =
   stableInputKeyForReplay (JObj [(''__proto__'', JNum (NumDec 2 0))])"
  by (simp add: stableInputKeyForReplay_def assign_all_def obj_assign_def proto_key_def json_stringify_def)

subsection \<open>The replay gate\<close>

text \<open>The replay gate rejects an execution exactly in these cases, for class B with replay behaviour
  \<open>blocked\<close> or \<open>allowed_same_key\<close> and a runtime: keyed idempotency without a key in the input; \<open>blocked\<close>
  with the replay key recorded before; \<open>allowed_same_key\<close> without keyed idempotency, or with an
  idempotency key that was recorded for another replay key. No other execution is rejected.\<close>

theorem replay_gate_decision:
  "assertReplayAllowed m cap ver input (Some rt) = None \<longleftrightarrow>
    (if replay_gated m then
       if replay_behavior m = JStr ''allowed_same_key''
       then idempotency m = JStr ''keyed'' \<and>
         (\<exists>key. idempotencyKeyFromInput input = Some key \<and>
            lookupIdempotencyKey rt (toIdempotencyIndexKey cap ver key)
              \<in> {None, Some (replayBlockedLookupKey cap ver input)})
       else (if idempotency m = JStr ''keyed'' \<and> idempotencyKeyFromInput input = None then False
             else \<not> hasBlockedReplay rt (replayBlockedLookupKey cap ver input))
     else True)"
proof (cases "replay_gated m")
  case False
  then show ?thesis by (simp add: assertReplayAllowed_def)
next
  case True
  show ?thesis
  proof (cases "idempotencyKeyFromInput input")
    case None
    then show ?thesis using True by (auto simp: assertReplayAllowed_def Let_def)
  next
    case (Some key)
    then show ?thesis
      using True
      by (cases "lookupIdempotencyKey rt (toIdempotencyIndexKey cap ver key)")
        (auto simp: assertReplayAllowed_def Let_def)
  qed
qed

subsection \<open>Adapter output\<close>

text \<open>The validators in the cache were compiled from the metadata that is registered for their key.\<close>

definition output_cache_ok :: "schema_compiler \<Rightarrow> registry \<Rightarrow> schema_cache \<Rightarrow> bool" where
  "output_cache_ok ajvOut r cache =
     (\<forall>k v. map_of cache k = Some v \<longrightarrow>
        (\<exists>m. map_of (metaByKey r) k = Some m \<and> ajvOut (output_schema m) = Inr v))"

text \<open>With a cache that fits the registered metadata, output is valid exactly when the output schema compiles
  and accepts it, and the cache still fits afterwards.\<close>

theorem adapter_output_validated:
  assumes "output_cache_ok ajvOut r cache" and "getCapabilityMeta r cap ver = Some m"
    and "validateAdapterOutput ajvOut cap ver m output cache = (res, cache')"
  shows "(res = None \<longleftrightarrow> (\<exists>validate. ajvOut (output_schema m) = Inr validate \<and> fst (validate output))) \<and>
    output_cache_ok ajvOut r cache'"
proof (cases "map_of cache (reg_key cap ver)")
  case (Some v)
  then have "ajvOut (output_schema m) = Inr v"
    using assms(1,2) unfolding output_cache_ok_def getCapabilityMeta_def by fastforce
  then show ?thesis
    using assms Some by (auto simp: validateAdapterOutput_def Let_def split: prod.splits if_splits)
next
  case None
  then show ?thesis
    using assms
    by (cases "ajvOut (output_schema m)")
      (auto simp: validateAdapterOutput_def Let_def output_cache_ok_def getCapabilityMeta_def
        split: prod.splits if_splits)
qed

definition meta_registry :: registry where
  "meta_registry = registerCapabilityMeta ''a'' ''1'' meta_of_example new_registry"

theorem adapter_output_validated_witness:
  "let (res, cache') = validateAdapterOutput toy_ajv ''a'' ''1'' meta_of_example JNull []
   in (res = None) =
      (\<exists>validate. toy_ajv (output_schema meta_of_example) = Inr validate \<and> fst (validate JNull)) \<and>
    output_cache_ok toy_ajv meta_registry cache'"
proof -
  obtain res cache' where step: "validateAdapterOutput toy_ajv ''a'' ''1'' meta_of_example JNull [] = (res, cache')"
    by (cases "validateAdapterOutput toy_ajv ''a'' ''1'' meta_of_example JNull []")
  have "output_cache_ok toy_ajv meta_registry []" by (simp add: output_cache_ok_def)
  moreover have "getCapabilityMeta meta_registry ''a'' ''1'' = Some meta_of_example"
    by (simp add: getCapabilityMeta_def meta_registry_def registerCapabilityMeta_def)
  ultimately show ?thesis
    unfolding step Let_def prod.case by (rule adapter_output_validated [OF _ _ step])
qed

text \<open>
  Registering new metadata does not touch the cache, so outputs of the same version are still judged by
  the schema that was compiled first.
\<close>

lemma stale_output_schema:
  assumes "map_of cache (reg_key cap ver) = Some v"
  shows "fst (validateAdapterOutput ajvOut cap ver m output cache) =
    fst (validateAdapterOutput ajvOut cap ver m' output cache)"
  using assms by (simp add: validateAdapterOutput_def Let_def)

end
