(* ===== verification/Execution_Facts.thy ===== *)
theory Execution_Facts
  imports Governed_Execution Enforcement_Properties
begin

text \<open>
  Lemmas on the governed pipeline: what a pending execution has passed, what a successful result
  implies, which receipt an execution leaves, and the invariant of a process whose executions
  interleave at the await.
\<close>

subsection \<open>Before the await\<close>

lemma resolveExecution_pair:
  "resolveExecutionAuthorityContext d rt seed =
     (fst (resolveExecutionAuthorityContext d rt seed), rt\<lparr>ticks := ticks rt + 1\<rparr>)"
  using resolveExecution_ticks [of d rt seed] by (metis prod.collapse)

definition admission_authority :: "bridge_draft \<Rightarrow> execution_options \<Rightarrow> runtime \<Rightarrow> authority_context" where
  "admission_authority d opts rt =
     fst (resolveExecutionAuthorityContext d (rt\<lparr>ticks := ticks rt + 1\<rparr>) (Some (exec_authority opts)))"

definition receipt_authority :: "bridge_draft \<Rightarrow> execution_options \<Rightarrow> runtime \<Rightarrow> authority_context" where
  "receipt_authority d opts rt =
     fst (resolveExecutionAuthorityContext d rt (Some (exec_authority opts)))"

definition ticked :: "proc \<Rightarrow> proc" where
  "ticked s = s\<lparr>gov := (gov s)\<lparr>ticks := ticks (gov s) + 2\<rparr>\<rparr>"

lemma ticked_sel [simp]:
  "reg (ticked s) = reg s" "in_cache (ticked s) = in_cache s" "out_cache (ticked s) = out_cache s"
  "gov (ticked s) = (gov s)\<lparr>ticks := ticks (gov s) + 2\<rparr>"
  by (simp_all add: ticked_def)

lemma prepare_in_begin:
  "prepareExecutionRequest h cache r d
      \<lparr>opt_authority = Some (exec_authority opts), opt_runtime = Some (rt\<lparr>ticks := ticks rt + 1\<rparr>),
       opt_class_policy = cp\<rparr> =
   (prepare_resolved h cache r d (admission_authority d opts rt) cp (rt\<lparr>ticks := ticks rt + 2\<rparr>),
    Some (rt\<lparr>ticks := ticks rt + 2\<rparr>))"
  using resolveExecution_pair [of d "rt\<lparr>ticks := ticks rt + 1\<rparr>" "Some (exec_authority opts)"]
  by (auto simp: prepareExecutionRequest_def admission_authority_def Let_def split: prod.split)

text \<open>The label and the class on the receipt of a refused execution.\<close>

definition refusal_of ::
  "'v host \<Rightarrow> bridge_draft \<Rightarrow> proc \<Rightarrow> string option \<times> string option" where
  "refusal_of h d s =
     (let resolved = resolveDefinitionForExecution (versions h) (reg s) (draft_capability d) (draft_version d)
      in (case resolved of Some (def, ver) \<Rightarrow> Some ver | None \<Rightarrow> draft_version d,
          map_option execution_class (case resolved of
            None \<Rightarrow> None | Some (def, ver) \<Rightarrow> getCapabilityMeta (reg s) (capability def) ver)))"

lemma begin_execution_eq:
  "begin_execution h io d opts s =
    (case assertStartupInvariants (gov s) of
       Inl e \<Rightarrow> (Inl e, s)
     | Inr _ \<Rightarrow>
         after_prepare io (draft_capability d) (receipt_authority d opts (gov s))
           (fst (refusal_of h d s)) (snd (refusal_of h d s))
           (prepare_resolved h (in_cache s) (reg s) d (admission_authority d opts (gov s))
              (exec_class_policy opts) (gov (ticked s)))
           (ticked s))"
proof (cases "assertStartupInvariants (gov s)")
  case (Inl e)
  then show ?thesis by (simp add: begin_execution_def)
next
  case (Inr u)
  have pair: "resolveExecutionAuthorityContext d (gov s) (Some (exec_authority opts)) =
      (receipt_authority d opts (gov s), (gov s)\<lparr>ticks := ticks (gov s) + 1\<rparr>)"
    unfolding receipt_authority_def by (rule resolveExecution_pair)
  show ?thesis
    unfolding begin_execution_def Inr sum.case pair prepare_in_begin prod.case Let_def or_else_def option.case
      refusal_of_def fst_conv snd_conv ticked_def
    by simp
qed

lemma after_prepare_simps:
  "after_prepare io cap a label cls (Inl e) s = (Inl e, s)"
  "after_prepare io cap a label cls (Inr (Refused stage errors)) s =
     with_receipt io (failure_draft cap label None a cls stage None errors)
       (\<lambda>receipt. Inl (Failure stage errors receipt None None)) s"
  "getCapabilityMeta (reg s) (req_capability req) (req_version req) = Some m \<Longrightarrow>
     after_prepare io cap a label cls (Inr (Prepared req ad)) s =
       (Inr (Inr \<lparr>p_request = req, p_adapter = ad, p_meta = m, p_authority = a\<rparr>), s)"
  by (simp_all add: after_prepare_def)

lemma with_receipt_eq:
  "with_receipt io d k s = (res, s') \<longleftrightarrow>
     res = Inr (k (fst (persistReceiptSafe io d (gov s)))) \<and>
     s' = s\<lparr>gov := snd (persistReceiptSafe io d (gov s))\<rparr>"
  by (auto simp: with_receipt_def Let_def split: prod.split)

lemma begin_cases:
  assumes "begin_execution h io d opts s = (res, s')"
  obtains (invariants) e where "res = Inl e" "s' = s"
  | (raised) e where "res = Inl e" "s' = ticked s"
  | (refused) stage errors where "assertStartupInvariants (gov s) = Inr ()"
      "prepare_resolved h (in_cache s) (reg s) d (admission_authority d opts (gov s))
         (exec_class_policy opts) (gov (ticked s)) = Inr (Refused stage errors)"
      "with_receipt io (failure_draft (draft_capability d) (fst (refusal_of h d s)) None
           (receipt_authority d opts (gov s)) (snd (refusal_of h d s)) stage None errors)
         (\<lambda>receipt. Inl (Failure stage errors receipt None None)) (ticked s) = (res, s')"
  | (pending) def m hash where "assertStartupInvariants (gov s) = Inr ()"
      "admissible h (in_cache s) (reg s) d (admission_authority d opts (gov s)) (exec_class_policy opts) (gov s) def m"
      "computeCapabilityDefinitionHash def = Inr hash"
      "res = Inr (Inr \<lparr>p_request = \<lparr>req_capability = draft_capability d, req_input = draft_input d,
             req_context = draft_context d, req_version = version def, req_definition_hash = Some hash\<rparr>,
          p_adapter = adapter def, p_meta = m, p_authority = receipt_authority d opts (gov s)\<rparr>)"
      "s' = ticked s"
proof (cases "assertStartupInvariants (gov s)")
  case (Inl e)
  then have "res = Inl e" "s' = s" using assms by (simp_all add: begin_execution_eq)
  then show ?thesis by (rule invariants)
next
  case (Inr u)
  then have inv: "assertStartupInvariants (gov s) = Inr ()" by simp
  let ?prep = "prepare_resolved h (in_cache s) (reg s) d (admission_authority d opts (gov s))
      (exec_class_policy opts) (gov (ticked s))"
  have after: "after_prepare io (draft_capability d) (receipt_authority d opts (gov s))
      (fst (refusal_of h d s)) (snd (refusal_of h d s)) ?prep (ticked s) = (res, s')"
    using assms inv by (simp add: begin_execution_eq)
  show ?thesis
  proof (cases ?prep)
    case (Inl e)
    then have "res = Inl e \<and> s' = ticked s"
      using after by (simp add: after_prepare_simps)
    then show ?thesis by (elim conjE) (rule raised)
  next
    case (Inr pr)
    show ?thesis
    proof (cases pr)
      case (Refused stage errors)
      show ?thesis
        by (rule refused [OF inv]) (use after Inr Refused in \<open>simp_all add: after_prepare_simps\<close>)
    next
      case (Prepared req ad)
      from Inr Prepared have "?prep = Inr (Prepared req ad)" by simp
      then obtain def m hash where adm:
        "admissible h (in_cache s) (reg s) d (admission_authority d opts (gov s)) (exec_class_policy opts) (gov s) def m"
        "computeCapabilityDefinitionHash def = Inr hash" "ad = adapter def"
        "req = \<lparr>req_capability = draft_capability d, req_input = draft_input d, req_context = draft_context d,
                req_version = version def, req_definition_hash = Some hash\<rparr>"
        unfolding prepare_resolved_Prepared by auto
      have "getCapabilityMeta (reg (ticked s)) (req_capability req) (req_version req) = Some m"
        using adm(1,4) by (simp add: admissible_def)
      from after_prepare_simps(3) [OF this] after Inr Prepared show ?thesis
        using pending [OF inv adm(1,2)] adm(3,4) by simp
    qed
  qed
qed

subsection \<open>After the await\<close>

lemma persistReceiptSafe_Some:
  "persistReceiptSafe io d rt = (Some r, rt') \<longleftrightarrow> persistReceipt io d rt = (Inr r, rt')"
  by (auto simp: persistReceiptSafe_def split: prod.split sum.split)

lemma persistReceiptSafe_pair:
  "\<exists>res. persistReceipt io d rt = (res, snd (persistReceiptSafe io d rt))"
  by (auto simp: persistReceiptSafe_def split: prod.split sum.split)

lemma persist_recorded:
  assumes "runtime_ok rt" "draft_ok d" "persistReceipt io d rt = (res, rt')" "receipt_io io = None"
  obtains t where "receipts rt' = receipts rt @ [new_receipt rt d t]"
    "\<forall>r. res = Inr r \<longrightarrow> r = new_receipt rt d t"
  using assms(3)
proof (cases rule: persistReceipt_cases)
  case (failed n e)
  then show ?thesis using assms(4) by simp
next
  case (recorded n t res')
  let ?r = "new_receipt rt d t"
  have "runtime_ok (record_receipt ?r (rt\<lparr>ticks := n\<rparr>))"
    using record_receipt_ok [of "rt\<lparr>ticks := n\<rparr>" d t] assms(1,2) by (simp add: runtime_ok_tick)
  from persistAnchor_ok(2) [OF this _ new_receipt_fields(1,2) recorded(2)]
  have "receipts rt' = receipts rt @ [?r]" by simp
  moreover have "\<forall>r. res = Inr r \<longrightarrow> r = ?r" unfolding recorded(3) by (cases res') simp_all
  ultimately show ?thesis by (rule that)
qed

lemma persist_Inr_io:
  "persistReceipt io d rt = (Inr r, rt') \<Longrightarrow> receipt_io io = None"
  by (erule persistReceipt_cases) simp_all

lemma complete_success:
  assumes "complete_execution io p output s = (Inr (Success out r req ad), s')"
  obtains rt' where "out = output" "req = p_request p" "ad = p_adapter p"
    "persistReceipt io (success_draft p) (gov s) = (Inr r, rt')"
    "fld r ''output_validation_passed'' = JBool True" "s' = s\<lparr>gov := rt'\<rparr>"
proof (cases "fst (persistReceiptSafe io (success_draft p) (gov s))")
  case None
  then show ?thesis using assms by (simp add: complete_execution_def Let_def split_beta)
next
  case (Some r')
  let ?rt = "snd (persistReceiptSafe io (success_draft p) (gov s))"
  have ok: "fld r' ''output_validation_passed'' = JBool True"
    "out = output" "req = p_request p" "ad = p_adapter p" "r = r'" "s' = s\<lparr>gov := ?rt\<rparr>"
    using assms Some
    by (simp_all add: complete_execution_def assertValidatedSuccessReceipt_def Let_def split_beta
        split: if_splits)
  have "persistReceipt io (success_draft p) (gov s) = (Inr r, ?rt)"
    using Some ok(5) unfolding persistReceiptSafe_Some [symmetric] by (simp add: prod_eq_iff)
  then show ?thesis using that ok by blast
qed

lemma fail_not_success [simp]:
  "fail_execution io p stage ok errors s \<noteq> (Inr (Success out r req ad), s')"
  by (auto simp: fail_execution_def with_receipt_def Let_def split: prod.split)

lemma finish_success:
  assumes "finish_execution h io outcome p s = (Inr (Success output r req ad), s')"
  obtains oc rt' where "outcome = Inr output" "req = p_request p" "ad = p_adapter p"
    "validateAdapterOutputForCapability h (reg s) (req_capability req) (req_version req) output (out_cache s)
       = (None, oc)"
    "persistReceipt io (success_draft p) (gov s) = (Inr r, rt')"
    "fld r ''output_validation_passed'' = JBool True"
    "s' = s\<lparr>out_cache := oc, gov := rt'\<rparr>"
proof (cases outcome)
  case (Inl e)
  then show ?thesis using assms by (simp add: finish_execution_def)
next
  case (Inr out)
  obtain res oc where v: "validateAdapterOutputForCapability h (reg s) (req_capability (p_request p))
      (req_version (p_request p)) out (out_cache s) = (res, oc)" by fastforce
  show ?thesis
  proof (cases res)
    case (Some errors)
    then show ?thesis using assms Inr v by (simp add: finish_execution_def)
  next
    case None
    then have "complete_execution io p out (s\<lparr>out_cache := oc\<rparr>) = (Inr (Success output r req ad), s')"
      using assms Inr v by (simp add: finish_execution_def)
    then show ?thesis
    proof (rule complete_success)
      fix rt'
      assume "output = out" "req = p_request p" "ad = p_adapter p"
        "persistReceipt io (success_draft p) (gov (s\<lparr>out_cache := oc\<rparr>)) = (Inr r, rt')"
        "fld r ''output_validation_passed'' = JBool True" "s' = s\<lparr>out_cache := oc, gov := rt'\<rparr>"
      then show ?thesis using that Inr v None by simp
    qed
  qed
qed

lemma success_draft_ok [simp]: "draft_ok (success_draft p)"
  by (simp add: draft_ok_def success_draft_def)

subsection \<open>Which receipt an execution leaves\<close>

text \<open>
  Error items read back as they were hashed when every item has a path or none; \<open>UndefPath\<close> arises only
  from a validator that reports neither an instance path nor a schema path.
\<close>

definition clean :: "validation_error list \<Rightarrow> bool" where
  "clean es = (\<forall>e \<in> set es. item_path e \<noteq> UndefPath)"

definition cache_clean :: "schema_cache \<Rightarrow> bool" where
  "cache_clean cache = (\<forall>k v x. map_of cache k = Some v \<longrightarrow> clean (ajvErrorsToItems (snd (v x))))"

definition compiler_clean :: "schema_compiler \<Rightarrow> bool" where
  "compiler_clean ajv = (\<forall>schema v x. ajv schema = Inr v \<longrightarrow> clean (ajvErrorsToItems (snd (v x))))"

definition policy_clean :: "(compiled_meta \<Rightarrow> validation_error list) option \<Rightarrow> bool" where
  "policy_clean cp = (\<forall>m. clean (or_else cp defaultClassPolicyHook m))"

lemma clean_simps [simp]:
  "clean []" "clean (e # es) = (item_path e \<noteq> UndefPath \<and> clean es)"
  "clean (es @ es') = (clean es \<and> clean es')" "clean (map msg ms)" "clean (push_if b m)"
  by (auto simp: clean_def push_if_def)

lemma clean_violations: "clean (collectExecutionClassPolicyViolations m)"
  by (simp add: collectExecutionClassPolicyViolations_def output_schema_violations_def Let_def)

lemma policy_clean_default [simp]: "policy_clean None"
  by (simp add: policy_clean_def or_else_def defaultClassPolicyHook_def clean_violations)

lemma clean_validateInput:
  assumes "cache_clean cache" "validateInput ops cache r cap input ver = Some errors"
  shows "clean errors"
proof (cases "getCapability ops r cap ver")
  case None
  then show ?thesis using assms(2) by (auto simp: validateInput_def unknown_capability_def)
next
  case (Some d)
  show ?thesis
  proof (cases "map_of cache (schemaKey cap (version d))")
    case None
    then show ?thesis
      using assms(2) Some by (auto simp: validateInput_def validateAgainstSchema_def)
  next
    case (Some v)
    then have "clean (ajvErrorsToItems (snd (v input)))"
      using assms(1) unfolding cache_clean_def by blast
    then show ?thesis
      using assms(2) Some \<open>getCapability ops r cap ver = Some d\<close>
      by (auto simp: validateInput_def validateAgainstSchema_def Let_def split: if_splits option.splits)
  qed
qed

lemma clean_replay: "assertReplayAllowed m cap ver input rt = Some e \<Longrightarrow> item_path e \<noteq> UndefPath"
  by (auto simp: assertReplayAllowed_def Let_def split: if_splits option.splits)

lemma clean_admission:
  assumes "policy_clean cp"
  shows "clean (checkAdmissionPolicy m a cp)"
proof -
  have "clean (or_else cp defaultClassPolicyHook m)" using assms by (simp add: policy_clean_def)
  then show ?thesis by (simp add: checkAdmissionPolicy_def Let_def validateAuthorityContext_def)
qed

lemma clean_refused:
  assumes "cache_clean cache" "policy_clean cp"
    and "prepare_resolved h cache r d a cp rt = Inr (Refused stage errors)"
  shows "clean errors"
proof (cases "resolveDefinitionForExecution (versions h) r (draft_capability d) (draft_version d)")
  case None
  then show ?thesis using assms(3) by (auto simp: prepare_resolved_def unknown_capability_def)
next
  case (Some dv)
  then obtain def ver where dv:
    "resolveDefinitionForExecution (versions h) r (draft_capability d) (draft_version d) = Some (def, ver)"
    by (cases dv) simp
  show ?thesis
    using assms(3) dv clean_validateInput [OF assms(1)] clean_admission [OF assms(2)] clean_replay
    by (auto simp: prepare_resolved_def Let_def split: option.splits if_splits)
qed

lemma clean_output:
  assumes "compiler_clean (ajv_out h)" "cache_clean cache"
    and "validateAdapterOutputForCapability h r cap ver output cache = (res, cache')"
  shows "cache_clean cache' \<and> (\<forall>errors. res = Some errors \<longrightarrow> clean errors)"
proof (cases "getCapabilityMeta r cap ver")
  case None
  then show ?thesis using assms(2,3) by (auto simp: validateAdapterOutputForCapability_def)
next
  case (Some m)
  let ?key = "policyKey cap ver"
  have out: "validateAdapterOutput (ajv_out h) cap ver m output cache = (res, cache')"
    using assms(3) Some by (simp add: validateAdapterOutputForCapability_def)
  show ?thesis
  proof (cases "map_of cache ?key")
    case (Some v)
    then have "clean (ajvErrorsToItems (snd (v output)))"
      using assms(2) unfolding cache_clean_def by blast
    then show ?thesis
      using out Some assms(2) by (auto simp: validateAdapterOutput_def Let_def split: prod.splits if_splits)
  next
    case None
    show ?thesis
    proof (cases "ajv_out h (output_schema m)")
      case (Inl e)
      then show ?thesis using out None assms(2) by (auto simp: validateAdapterOutput_def Let_def)
    next
      case (Inr v)
      then have reports: "clean (ajvErrorsToItems (snd (v y)))" for y
        using assms(1) unfolding compiler_clean_def by blast
      have "cache_clean (AList.update ?key v cache)"
        using assms(2) reports by (auto simp: cache_clean_def)
      then show ?thesis
        using out None Inr reports [of "output"]
        by (auto simp: validateAdapterOutput_def Let_def split: prod.splits if_splits)
    qed
  qed
qed

lemma failure_draft_ok: "clean errors \<Longrightarrow> draft_ok (failure_draft cap ver hash a cls stage ok errors)"
  by (simp add: draft_ok_def failure_draft_def clean_def)

subsection \<open>The invariant of a process\<close>

definition proc_ok :: "'v host \<Rightarrow> proc \<Rightarrow> bool" where
  "proc_ok h s = (runtime_ok (gov s) \<and> cache_clean (in_cache s) \<and> cache_clean (out_cache s) \<and>
     compiler_clean (ajv_in h) \<and> compiler_clean (ajv_out h))"

definition grows :: "proc \<Rightarrow> proc \<Rightarrow> bool" where
  "grows s s' = (\<exists>rest. receipts (gov s') = receipts (gov s) @ rest)"

lemma grows_simps [simp]:
  "grows s s" "grows s (ticked s)" "grows (ticked s) s' = grows s s'" "grows (s\<lparr>out_cache := oc\<rparr>) s' = grows s s'"
  by (simp_all add: grows_def)

lemma proc_ok_ticked [simp]: "proc_ok h (ticked s) = proc_ok h s"
  by (simp add: proc_ok_def runtime_ok_tick)

lemma persist_anchored:
  assumes "runtime_ok rt" "draft_ok d" "persistReceipt io d rt = (res, rt')" "receipt_io io = None"
    "anchor_io io = None"
  obtains t where "res = Inr (new_receipt rt d t)" "receipts rt' = receipts rt @ [new_receipt rt d t]"
  using assms(3)
proof (cases rule: persistReceipt_cases)
  case (failed n e)
  then show ?thesis using assms(4) by simp
next
  case (recorded n t res')
  let ?rt1 = "record_receipt (new_receipt rt d t) (rt\<lparr>ticks := n\<rparr>)"
  have "anchors ?rt1 = anchors rt" by (simp add: record_receipt_def Let_def)
  moreover have "JNull \<notin> set (anchors rt)"
    using assms(1) not_record_null unfolding runtime_ok_def files_ok_def by blast
  ultimately have "\<not> (anchors ?rt1 \<noteq> [] \<and> last (anchors ?rt1) = JNull)"
    by (metis last_in_set)
  then have "res' = Inr ()" "receipts rt' = receipts ?rt1"
    using recorded(2) assms(5) by (auto simp: persistAnchor_def Let_def)
  then show ?thesis using that [of t] recorded(3) by simp
qed

lemma with_receipt_ok:
  assumes "proc_ok h s" "draft_ok d" "with_receipt io d k s = (res, s')"
  shows "proc_ok h s' \<and> grows s s'"
proof -
  obtain r where "persistReceipt io d (gov s) = (r, snd (persistReceiptSafe io d (gov s)))"
    using persistReceiptSafe_pair by blast
  from persistReceipt_ok [OF _ assms(2) this] assms(1,3) show ?thesis
    by (auto simp: proc_ok_def with_receipt_eq grows_def)
qed

lemma begin_ok:
  assumes "proc_ok h s" "policy_clean (exec_class_policy opts)" "begin_execution h io d opts s = (res, s')"
  shows "proc_ok h s' \<and> grows s s'"
  using assms(3)
proof (cases rule: begin_cases)
  case (refused stage errors)
  have "clean errors"
    using assms(1,2) refused(2) by (auto intro!: clean_refused simp: proc_ok_def)
  then show ?thesis
    using with_receipt_ok [OF _ failure_draft_ok refused(3)] assms(1) by simp
qed (use assms(1) in simp_all)

lemma finish_cases:
  assumes "finish_execution h io outcome p s = (res, s')"
  obtains (threw) e where "outcome = Inl e"
      "fail_execution io p ''adapter'' None [msg (''adapter invocation failed: '' @ e)] s = (res, s')"
  | (invalid) out errors oc where "outcome = Inr out"
      "validateAdapterOutputForCapability h (reg s) (req_capability (p_request p))
         (req_version (p_request p)) out (out_cache s) = (Some errors, oc)"
      "fail_execution io p ''output_validation'' (Some False) errors (s\<lparr>out_cache := oc\<rparr>) = (res, s')"
  | (valid) out oc where "outcome = Inr out"
      "validateAdapterOutputForCapability h (reg s) (req_capability (p_request p))
         (req_version (p_request p)) out (out_cache s) = (None, oc)"
      "complete_execution io p out (s\<lparr>out_cache := oc\<rparr>) = (res, s')"
proof (cases outcome)
  case (Inl e)
  then show ?thesis using assms threw by (simp add: finish_execution_def)
next
  case (Inr out)
  obtain v oc where v: "validateAdapterOutputForCapability h (reg s) (req_capability (p_request p))
      (req_version (p_request p)) out (out_cache s) = (v, oc)" by fastforce
  show ?thesis
  proof (cases v)
    case None
    then show ?thesis using assms Inr v by (intro valid [OF Inr]) (simp_all add: finish_execution_def)
  next
    case (Some errors)
    then show ?thesis using assms Inr v by (intro invalid [OF Inr]) (simp_all add: finish_execution_def)
  qed
qed

lemma fail_ok:
  assumes "proc_ok h s" "clean errors" "fail_execution io p stage ok errors s = (res, s')"
  shows "proc_ok h s' \<and> grows s s'"
  using assms(3) with_receipt_ok [OF assms(1) failure_draft_ok [OF assms(2)]]
  by (simp add: fail_execution_def Let_def)

lemma complete_gov:
  assumes "complete_execution io p out s = (res, s')"
  shows "s' = s\<lparr>gov := snd (persistReceiptSafe io (success_draft p) (gov s))\<rparr>"
  using assms by (auto simp: complete_execution_def Let_def split_beta split: option.splits sum.splits)

lemma output_cache_proc_ok:
  assumes "proc_ok h s"
    and "validateAdapterOutputForCapability h (reg s) cap ver out (out_cache s) = (v, oc)"
  shows "proc_ok h (s\<lparr>out_cache := oc\<rparr>)" and "v = Some errors \<Longrightarrow> clean errors"
  using clean_output [OF _ _ assms(2)] assms(1) by (simp_all add: proc_ok_def)

lemma finish_ok:
  assumes "proc_ok h s" "finish_execution h io outcome p s = (res, s')"
  shows "proc_ok h s' \<and> grows s s'"
  using assms(2)
proof (cases rule: finish_cases)
  case (threw e)
  show ?thesis by (rule fail_ok [OF assms(1) _ threw(2)]) simp
next
  case (invalid out errors oc)
  note parts = output_cache_proc_ok [OF assms(1) invalid(2)]
  show ?thesis using fail_ok [OF parts(1) parts(2) invalid(3)] by simp
next
  case (valid out oc)
  let ?s = "s\<lparr>out_cache := oc\<rparr>"
  have ok: "proc_ok h ?s" by (rule output_cache_proc_ok(1) [OF assms(1) valid(2)])
  obtain r where "persistReceipt io (success_draft p) (gov ?s) = (r, snd (persistReceiptSafe io (success_draft p) (gov ?s)))"
    using persistReceiptSafe_pair by blast
  from persistReceipt_ok [OF _ success_draft_ok this] ok show ?thesis
    unfolding complete_gov [OF valid(3)] by (auto simp: proc_ok_def grows_def)
qed

end
