(* ===== verification/Execution_Properties.thy ===== *)
theory Execution_Properties
  imports Execution_Facts
begin

text \<open>
  The properties of the governed pipeline: what a successful execution has passed, when an execution
  succeeds, which receipt it leaves, that a recorded execution is not prepared again, and that
  executions that interleave at the await keep the invariants of the process.
\<close>

subsection \<open>The shape of an execution\<close>

definition request_for :: "bridge_draft \<Rightarrow> capability_definition \<Rightarrow> string \<Rightarrow> bridge_request" where
  "request_for d def hash =
     \<lparr>req_capability = draft_capability d, req_input = draft_input d, req_context = draft_context d,
      req_version = version def, req_definition_hash = Some hash\<rparr>"

definition admissible_now ::
  "'v host \<Rightarrow> bridge_draft \<Rightarrow> execution_options \<Rightarrow> proc \<Rightarrow> capability_definition \<Rightarrow> compiled_meta \<Rightarrow> bool" where
  "admissible_now h d opts s def m =
     admissible h (in_cache s) (reg s) d (admission_authority d opts (gov s)) (exec_class_policy opts)
       (gov s) def m"

lemma begin_pending:
  assumes "begin_execution h io d opts s = (Inr (Inr p), s')"
  obtains def m hash where "assertStartupInvariants (gov s) = Inr ()" "admissible_now h d opts s def m"
    "computeCapabilityDefinitionHash def = Inr hash"
    "p = \<lparr>p_request = request_for d def hash, p_adapter = adapter def, p_meta = m,
          p_authority = receipt_authority d opts (gov s)\<rparr>" "s' = ticked s"
  using assms
proof (cases rule: begin_cases)
  case (refused stage errors)
  then show ?thesis by (simp add: with_receipt_eq)
next
  case (pending def m hash)
  then show ?thesis
    using that [of def m hash] by (simp add: admissible_now_def request_for_def)
qed simp_all

lemma begin_admissible:
  assumes "assertStartupInvariants (gov s) = Inr ()" "admissible_now h d opts s def m"
    and "computeCapabilityDefinitionHash def = Inr hash"
  shows "begin_execution h io d opts s =
    (Inr (Inr \<lparr>p_request = request_for d def hash, p_adapter = adapter def, p_meta = m,
               p_authority = receipt_authority d opts (gov s)\<rparr>), ticked s)"
proof -
  have adm: "admissible h (in_cache s) (reg s) d (admission_authority d opts (gov s)) (exec_class_policy opts)
      (gov (ticked s)) def m"
    using assms(2) by (simp add: admissible_now_def)
  then have "prepare_resolved h (in_cache s) (reg s) d (admission_authority d opts (gov s))
      (exec_class_policy opts) (gov (ticked s)) = Inr (Prepared (request_for d def hash) (adapter def))"
    unfolding prepare_resolved_Prepared request_for_def using assms(3) by blast
  moreover have "getCapabilityMeta (reg (ticked s)) (req_capability (request_for d def hash))
      (req_version (request_for d def hash)) = Some m"
    using adm by (simp add: admissible_def request_for_def)
  ultimately show ?thesis
    using assms(1) by (simp add: begin_execution_eq after_prepare_simps)
qed

lemma execute_success:
  assumes "executeGovernedCapability h io invoke d opts s = (Inr (Success out r req ad), s')"
  obtains def m hash oc where "assertStartupInvariants (gov s) = Inr ()" "admissible_now h d opts s def m"
    "computeCapabilityDefinitionHash def = Inr hash" "req = request_for d def hash" "ad = adapter def"
    "invoke req ad = Inr out"
    "validateAdapterOutput (ajv_out h) (draft_capability d) (version def) m out (out_cache s) = (None, oc)"
    "persistReceipt io (success_draft \<lparr>p_request = req, p_adapter = ad, p_meta = m,
       p_authority = receipt_authority d opts (gov s)\<rparr>) (gov (ticked s)) = (Inr r, gov s')"
    "fld r ''output_validation_passed'' = JBool True"
    "s' = (ticked s)\<lparr>out_cache := oc, gov := gov s'\<rparr>"
proof -
  obtain res s1 where b: "begin_execution h io d opts s = (res, s1)" by fastforce
  from assms b obtain x where x: "res = Inr x"
    by (cases res) (simp_all add: executeGovernedCapability_def)
  show ?thesis
  proof (cases x)
    case (Inl res')
    then have "res' = Success out r req ad" using assms b x by (simp add: executeGovernedCapability_def)
    from b show ?thesis
    proof (cases rule: begin_cases)
      case (refused stage errors)
      then show ?thesis using x Inl \<open>res' = Success out r req ad\<close> by (simp add: with_receipt_eq)
    qed (use x Inl in simp_all)
  next
    case (Inr p)
    then obtain def m hash where p: "assertStartupInvariants (gov s) = Inr ()" "admissible_now h d opts s def m"
      "computeCapabilityDefinitionHash def = Inr hash" "s1 = ticked s"
      "p = \<lparr>p_request = request_for d def hash, p_adapter = adapter def, p_meta = m,
            p_authority = receipt_authority d opts (gov s)\<rparr>"
      using begin_pending [of h io d opts s p s1] b x by blast
    have "finish_execution h io (invoke (p_request p) (p_adapter p)) p s1 = (Inr (Success out r req ad), s')"
      using assms b x Inr by (simp add: executeGovernedCapability_def)
    then show ?thesis
    proof (rule finish_success)
      fix oc rt'
      assume f: "invoke (p_request p) (p_adapter p) = Inr out" "req = p_request p" "ad = p_adapter p"
        "validateAdapterOutputForCapability h (reg s1) (req_capability req) (req_version req) out (out_cache s1)
          = (None, oc)"
        "persistReceipt io (success_draft p) (gov s1) = (Inr r, rt')"
        "fld r ''output_validation_passed'' = JBool True" "s' = s1\<lparr>out_cache := oc, gov := rt'\<rparr>"
      have "getCapabilityMeta (reg s) (draft_capability d) (version def) = Some m"
        using p(2) by (simp add: admissible_now_def admissible_def)
      then have "validateAdapterOutput (ajv_out h) (draft_capability d) (version def) m out (out_cache s) = (None, oc)"
        using f(2,4) p(4,5) by (simp add: validateAdapterOutputForCapability_def request_for_def)
      then show ?thesis
        using that [OF p(1-3)] f p(4,5) by simp
    qed
  qed
qed

lemma receipt_of_success:
  "fld (new_receipt rt (success_draft p) t) ''stage'' = JStr ''executed''"
  "fld (new_receipt rt (success_draft p) t) ''success'' = JBool True"
  "fld (new_receipt rt (success_draft p) t) ''output_validation_passed'' = JBool True"
  "fld (new_receipt rt (success_draft p) t) ''capability_definition_hash'' =
     opt_null (req_definition_hash (p_request p))"
  by (simp_all add: new_receipt_def Let_def receipt_base_def success_draft_def)

subsection \<open>What a success means\<close>

lemma success_gates:
  assumes "runtime_ok (gov s)"
    and "executeGovernedCapability h io invoke d opts s = (Inr (Success out r req ad), s')"
  shows "\<exists>def m hash. assertStartupInvariants (gov s) = Inr () \<and>
    getCapability (versions h) (reg s) (draft_capability d) (draft_version d) = Some def \<and>
    validateInput (versions h) (in_cache s) (reg s) (draft_capability d) (draft_input d) (Some (version def)) = None \<and>
    getCapabilityMeta (reg s) (draft_capability d) (version def) = Some m \<and>
    checkAdmissionPolicy m (admission_authority d opts (gov s)) (exec_class_policy opts) = [] \<and>
    assertReplayAllowed m (draft_capability d) (version def) (draft_input d) (Some (gov s)) = None \<and>
    computeCapabilityDefinitionHash def = Inr hash \<and> req = request_for d def hash \<and> ad = adapter def \<and>
    invoke req ad = Inr out \<and>
    fst (validateAdapterOutput (ajv_out h) (draft_capability d) (version def) m out (out_cache s)) = None \<and>
    receipts (gov s') = receipts (gov s) @ [r] \<and> fld r ''stage'' = JStr ''executed'' \<and>
    fld r ''capability_definition_hash'' = JStr hash \<and> fld r ''output_validation_passed'' = JBool True"
proof -
  from assms(2) obtain def m hash oc where e: "assertStartupInvariants (gov s) = Inr ()"
    "admissible_now h d opts s def m" "computeCapabilityDefinitionHash def = Inr hash"
    "req = request_for d def hash" "ad = adapter def" "invoke req ad = Inr out"
    "validateAdapterOutput (ajv_out h) (draft_capability d) (version def) m out (out_cache s) = (None, oc)"
    "persistReceipt io (success_draft \<lparr>p_request = req, p_adapter = ad, p_meta = m,
       p_authority = receipt_authority d opts (gov s)\<rparr>) (gov (ticked s)) = (Inr r, gov s')"
    by (rule execute_success)
  have "runtime_ok (gov (ticked s))" using assms(1) by (simp add: runtime_ok_tick)
  from persist_recorded [OF this success_draft_ok e(8) persist_Inr_io [OF e(8)]] obtain t where
    "receipts (gov s') = receipts (gov s) @ [r]"
    "r = new_receipt (gov (ticked s)) (success_draft \<lparr>p_request = req, p_adapter = ad, p_meta = m,
       p_authority = receipt_authority d opts (gov s)\<rparr>) t" by auto
  then have "receipts (gov s') = receipts (gov s) @ [r] \<and> fld r ''stage'' = JStr ''executed'' \<and>
    fld r ''capability_definition_hash'' = JStr hash \<and> fld r ''output_validation_passed'' = JBool True"
    using e(4) by (simp add: receipt_of_success request_for_def opt_null_def)
  then show ?thesis
    using e unfolding admissible_now_def admissible_def by (intro exI conjI) auto
qed

text \<open>C1: An execution that reports success has passed every gate: the start-up checks, the input validation of the
  one definition that was resolved, the admission policy under an authority that the host asserted, and
  the replay gate; the adapter of that definition returned the output, the output passed the output
  schema, and exactly one receipt was appended, which names the hash of that definition and an output
  that was validated.\<close>

theorem success_passed_every_gate:
  assumes "runtime_ok (gov s)"
    and "executeGovernedCapability h io invoke d opts s = (Inr (Success out r req ad), s')"
  shows "\<exists>def m hash. assertStartupInvariants (gov s) = Inr () \<and>
    getCapability (versions h) (reg s) (draft_capability d) (draft_version d) = Some def \<and>
    validateInput (versions h) (in_cache s) (reg s) (draft_capability d) (draft_input d) (Some (version def)) = None \<and>
    getCapabilityMeta (reg s) (draft_capability d) (version def) = Some m \<and>
    checkAdmissionPolicy m (admission_authority d opts (gov s)) (exec_class_policy opts) = [] \<and>
    assertReplayAllowed m (draft_capability d) (version def) (draft_input d) (Some (gov s)) = None \<and>
    computeCapabilityDefinitionHash def = Inr hash \<and> req = request_for d def hash \<and> ad = adapter def \<and>
    invoke req ad = Inr out \<and>
    fst (validateAdapterOutput (ajv_out h) (draft_capability d) (version def) m out (out_cache s)) = None \<and>
    receipts (gov s') = receipts (gov s) @ [r] \<and> fld r ''stage'' = JStr ''executed'' \<and>
    fld r ''capability_definition_hash'' = JStr hash \<and> fld r ''output_validation_passed'' = JBool True"
  using assms by (rule success_gates)

subsection \<open>When an execution succeeds\<close>

lemma valid_output_finishes:
  assumes "runtime_ok (gov s)" "receipt_io io = None" "anchor_io io = None"
    and "getCapabilityMeta (reg s) (req_capability (p_request p)) (req_version (p_request p)) = Some m"
    and "validateAdapterOutput (ajv_out h) (req_capability (p_request p)) (req_version (p_request p)) m out
      (out_cache s) = (None, oc)"
  obtains r s' where "finish_execution h io (Inr out) p s = (Inr (Success out r (p_request p) (p_adapter p)), s')"
    "persistReceipt io (success_draft p) (gov s) = (Inr r, gov s')"
proof -
  obtain res rt where step: "persistReceipt io (success_draft p) (gov s) = (res, rt)" by fastforce
  from persist_anchored [OF assms(1) success_draft_ok this assms(2,3)] obtain t where
    r: "res = Inr (new_receipt (gov s) (success_draft p) t)" by blast
  then have "complete_execution io p out (s\<lparr>out_cache := oc\<rparr>) =
      (Inr (Success out (new_receipt (gov s) (success_draft p) t) (p_request p) (p_adapter p)),
       s\<lparr>out_cache := oc, gov := rt\<rparr>)"
    using step by (simp add: complete_execution_def persistReceiptSafe_def assertValidatedSuccessReceipt_def
        receipt_of_success)
  then show ?thesis
    using that [of _ "s\<lparr>out_cache := oc, gov := rt\<rparr>"] step r assms(4,5)
    by (simp add: finish_execution_def validateAdapterOutputForCapability_def)
qed

lemma admissible_execution_run:
  assumes "runtime_ok (gov s)" "receipt_io io = None" "anchor_io io = None"
    and "admissible_now h d opts s def m" "computeCapabilityDefinitionHash def = Inr hash"
    and "invoke (request_for d def hash) (adapter def) = Inr out"
    and "fst (validateAdapterOutput (ajv_out h) (draft_capability d) (version def) m out (out_cache s)) = None"
  shows "\<exists>r s'. executeGovernedCapability h io invoke d opts s =
    (Inr (Success out r (request_for d def hash) (adapter def)), s')"
proof -
  let ?p = "\<lparr>p_request = request_for d def hash, p_adapter = adapter def, p_meta = m,
      p_authority = receipt_authority d opts (gov s)\<rparr>"
  have "begin_execution h io d opts s = (Inr (Inr ?p), ticked s)"
    by (rule begin_admissible [OF assertStartupInvariants_ok [OF assms(1)] assms(4,5)])
  then have run: "executeGovernedCapability h io invoke d opts s = finish_execution h io (Inr out) ?p (ticked s)"
    using assms(6) by (simp add: executeGovernedCapability_def)
  have meta: "getCapabilityMeta (reg (ticked s)) (req_capability (p_request ?p)) (req_version (p_request ?p)) = Some m"
    using assms(4) by (simp add: admissible_now_def admissible_def request_for_def)
  have valid: "validateAdapterOutput (ajv_out h) (req_capability (p_request ?p)) (req_version (p_request ?p)) m out
      (out_cache (ticked s)) =
      (None, snd (validateAdapterOutput (ajv_out h) (draft_capability d) (version def) m out (out_cache s)))"
    using assms(7) by (simp add: request_for_def prod_eq_iff)
  have "runtime_ok (gov (ticked s))" using assms(1) by (simp add: runtime_ok_tick)
  from valid_output_finishes [OF this assms(2,3) meta valid] show ?thesis
    unfolding run by fastforce
qed

text \<open>C5: An admissible execution succeeds: when the journals are sound and writable, the definition can be hashed,
  the draft passes validation, admission and the replay gate, and the adapter returns an output that the
  output schema accepts, then the pipeline returns this output as a success with its receipt.\<close>

theorem admissible_execution_succeeds:
  assumes "runtime_ok (gov s)" "receipt_io io = None" "anchor_io io = None"
    and "admissible_now h d opts s def m" "computeCapabilityDefinitionHash def = Inr hash"
    and "invoke (request_for d def hash) (adapter def) = Inr out"
    and "fst (validateAdapterOutput (ajv_out h) (draft_capability d) (version def) m out (out_cache s)) = None"
  shows "\<exists>r s'. executeGovernedCapability h io invoke d opts s =
    (Inr (Success out r (request_for d def hash) (adapter def)), s')"
  using assms by (rule admissible_execution_run)

subsection \<open>A concrete process\<close>

definition example_host :: "nat host" where
  "example_host = \<lparr>versions = number_versions, ajv_in = toy_ajv, ajv_out = toy_ajv\<rparr>"

definition example_def :: capability_definition where
  "example_def = toy_definition ''a'' ''1'' (JObj [])"

definition example_proc :: proc where
  "example_proc = \<lparr>reg = registerCapabilityMeta ''a'' ''1'' meta_of_example toy_state, in_cache = toy_cache,
     out_cache = [], gov = example_runtime\<rparr>"

definition draft_with :: "string \<Rightarrow> bridge_draft" where
  "draft_with k = \<lparr>draft_capability = ''a'', draft_input = JObj [(''idempotency_key'', JStr k)],
     draft_context = JNull, draft_version = Some ''1''\<rparr>"

abbreviation keyed_draft :: bridge_draft where
  "keyed_draft \<equiv> draft_with ''k''"

definition run_options :: execution_options where
  "run_options = \<lparr>exec_authority = example_authority, exec_class_policy = None\<rparr>"

lemma example_registry:
  "reg example_proc = \<lparr>byKey = [(''a@1'', example_def)], versionsByCapability = [(''a'', [''1''])],
     semanticByKey = [], metaByKey = [(''a@1'', meta_of_example)]\<rparr>"
  "in_cache example_proc = [(''a@1'', \<lambda>input. (is_record input, None))]"
  by (simp_all add: example_proc_def toy_register_eq registerCapabilityMeta_def reg_key_def example_def_def)

lemma example_proc_ok: "proc_ok example_host example_proc"
proof -
  have "compiler_clean toy_ajv" by (auto simp: compiler_clean_def toy_ajv_def ajvErrorsToItems_def)
  moreover have "cache_clean (in_cache example_proc)" "cache_clean (out_cache example_proc)"
    unfolding example_registry(2) by (auto simp: cache_clean_def ajvErrorsToItems_def example_proc_def)
  moreover have "runtime_ok (gov example_proc)"
    using gov_reach_ok [OF example_reach] by (simp add: example_proc_def)
  ultimately show ?thesis by (simp add: proc_ok_def example_host_def)
qed

lemma show_nat_1: "show_nat (Suc 0) = ''1''"
  by (simp add: show_nat.simps digit_def char_of_def bit_iff_odd)

lemma draft_with_sel [simp]:
  "draft_capability (draft_with k) = ''a''" "draft_version (draft_with k) = Some ''1''"
  "draft_context (draft_with k) = JNull" "draft_input (draft_with k) = JObj [(''idempotency_key'', JStr k)]"
  by (simp_all add: draft_with_def)

lemma example_def_sel [simp]: "version example_def = ''1''"
  by (simp add: example_def_def toy_definition_def)

lemma example_authority_admitted:
  assumes "trim (clock rt (Suc (ticks rt))) \<noteq> []"
  shows "checkAdmissionPolicy meta_of_example (admission_authority (draft_with k) run_options rt) None = []"
proof -
  have "authority_requirements meta_of_example = ''standard''" by (simp add: meta_of_example_def)
  moreover have "trim (''resolved:'' @ ''host'') \<noteq> []" by (simp add: trim_def is_ws_def)
  ultimately show ?thesis
    using assms
    by (simp add: admission_authority_def resolveExecutionAuthorityContext_def Let_def now_def
      run_options_def example_authority_def
      checkAdmissionPolicy_def or_else_def defaultClassPolicyHook_def
      well_formed_no_violations [OF meta_example_wf] validateAuthorityContext_def push_if_def
      context_string_def truthy_opt_def truthy_trim_def less_rank_def ADMISSION_RANK_def
      REQUIREMENT_RANK_def)
qed

lemma example_admissible_at:
  assumes "reg s = reg example_proc" "in_cache s = in_cache example_proc"
    and "trim (clock (gov s) (Suc (ticks (gov s)))) \<noteq> []" "trim k \<noteq> []"
    and "\<not> hasBlockedReplay (gov s) (replayBlockedLookupKey ''a'' ''1'' (draft_input (draft_with k)))"
  shows "admissible_now example_host (draft_with k) run_options s example_def meta_of_example"
proof -
  have "assertReplayAllowed meta_of_example ''a'' ''1'' (draft_input (draft_with k)) (Some (gov s)) = None"
    using assms(4,5)
    by (simp add: assertReplayAllowed_def meta_of_example_def Let_def idempotencyKeyFromInput_def is_record_def)
  moreover have "validateInput number_versions (in_cache s) (reg s) ''a'' (draft_input (draft_with k)) (Some ''1'') = None"
    unfolding assms(1,2) example_registry
    by (simp add: validateInput_def getCapability_def validateAgainstSchema_def schemaKey_def reg_key_def
        is_record_def)
  moreover have "getCapability number_versions (reg s) ''a'' (Some ''1'') = Some example_def"
    "getCapabilityMeta (reg s) ''a'' ''1'' = Some meta_of_example"
    unfolding assms(1) example_registry by (simp_all add: getCapability_def getCapabilityMeta_def reg_key_def)
  moreover have "checkAdmissionPolicy meta_of_example
      (admission_authority (draft_with k) run_options (gov s)) (exec_class_policy run_options) = []"
    using example_authority_admitted [OF assms(3)] by (simp add: run_options_def)
  ultimately show ?thesis by (simp add: admissible_now_def admissible_def example_host_def)
qed

lemma example_admissible:
  "admissible_now example_host keyed_draft run_options example_proc example_def meta_of_example"
proof (rule example_admissible_at)
  show "trim (clock (gov example_proc) (Suc (ticks (gov example_proc)))) \<noteq> []"
    by (simp add: example_proc_def example_runtime_def fresh_runtime_def show_nat_1 trim_def is_ws_def)
  show "\<not> hasBlockedReplay (gov example_proc) (replayBlockedLookupKey ''a'' ''1'' (draft_input keyed_draft))"
    by (simp add: hasBlockedReplay_def example_proc_def example_runtime_def fresh_runtime_def)
qed (simp_all add: trim_def is_ws_def)

lemma example_hash: "\<exists>hash. computeCapabilityDefinitionHash example_def = Inr hash"
  by (simp add: computeCapabilityDefinitionHash_def stable_stringify_def example_def_def toy_definition_def)

lemma no_failure_sel [simp]: "receipt_io no_failure = None" "anchor_io no_failure = None"
  by (simp_all add: no_failure_def)

lemma toy_output_valid:
  "fst (validateAdapterOutput toy_ajv cap ver meta_of_example (JObj []) []) = None"
  by (simp add: validateAdapterOutput_def toy_ajv_def meta_of_example_def is_record_def)

lemma example_output_valid:
  "fst (validateAdapterOutput (ajv_out example_host) (draft_capability keyed_draft)
     (version example_def) meta_of_example (JObj []) (out_cache example_proc)) = None"
  by (simp add: example_host_def example_proc_def toy_output_valid)

lemma example_gov_ok: "runtime_ok (gov example_proc)"
  using example_proc_ok by (simp add: proc_ok_def)

theorem admissible_execution_succeeds_witness:
  "\<exists>hash r s'. executeGovernedCapability example_host no_failure (\<lambda>req ad. Inr (JObj [])) keyed_draft
     run_options example_proc =
    (Inr (Success (JObj []) r (request_for keyed_draft example_def hash) (adapter example_def)), s')"
proof -
  obtain hash where hash: "computeCapabilityDefinitionHash example_def = Inr hash"
    using example_hash by blast
  show ?thesis
    by (rule exI [of _ hash], rule admissible_execution_succeeds
        [where invoke = "\<lambda>req ad. Inr (JObj [])", OF example_gov_ok no_failure_sel example_admissible hash refl example_output_valid])
qed

lemma example_run:
  obtains req ad r s' where "executeGovernedCapability example_host no_failure (\<lambda>req ad. Inr (JObj []))
    keyed_draft run_options example_proc = (Inr (Success (JObj []) r req ad), s')"
proof -
  obtain hash where hash: "computeCapabilityDefinitionHash example_def = Inr hash"
    using example_hash by blast
  from admissible_execution_run [where invoke = "\<lambda>req ad. Inr (JObj [])", OF example_gov_ok no_failure_sel example_admissible hash refl
      example_output_valid]
  show ?thesis using that by blast
qed

theorem success_passed_every_gate_witness:
  "\<exists>out r req ad (s' :: proc) def m hash. assertStartupInvariants (gov example_proc) = Inr () \<and>
    getCapability (versions example_host) (reg example_proc) (draft_capability keyed_draft) (draft_version keyed_draft) = Some def \<and>
    validateInput (versions example_host) (in_cache example_proc) (reg example_proc) (draft_capability keyed_draft) (draft_input keyed_draft) (Some (version def)) = None \<and>
    getCapabilityMeta (reg example_proc) (draft_capability keyed_draft) (version def) = Some m \<and>
    checkAdmissionPolicy m (admission_authority keyed_draft run_options (gov example_proc)) (exec_class_policy run_options) = [] \<and>
    assertReplayAllowed m (draft_capability keyed_draft) (version def) (draft_input keyed_draft) (Some (gov example_proc)) = None \<and>
    computeCapabilityDefinitionHash def = Inr hash \<and> req = request_for keyed_draft def hash \<and> ad = adapter def \<and>
    (Inr (JObj []) :: json result) = Inr out \<and>
    fst (validateAdapterOutput (ajv_out example_host) (draft_capability keyed_draft) (version def) m out (out_cache example_proc)) = None \<and>
    receipts (gov s') = receipts (gov example_proc) @ [r] \<and> fld r ''stage'' = JStr ''executed'' \<and>
    fld r ''capability_definition_hash'' = JStr hash \<and> fld r ''output_validation_passed'' = JBool True"
proof -
  obtain req ad r s' where run: "executeGovernedCapability example_host no_failure (\<lambda>req ad. Inr (JObj []))
      keyed_draft run_options example_proc = (Inr (Success (JObj []) r req ad), s')"
    by (rule example_run)
  show ?thesis
    by (rule exI [of _ "JObj []"], rule exI [of _ r], rule exI [of _ req], rule exI [of _ ad], rule exI [of _ s'],
        rule success_passed_every_gate [OF example_gov_ok run])
qed

subsection \<open>A recorded execution is not repeated\<close>

lemma admitted_not_blocked:
  assumes "assertReplayAllowed m cap ver input (Some rt) = None" "execution_class m = ''B''"
    "replay_behavior m = JStr ''blocked''"
  shows "\<not> hasBlockedReplay rt (replayBlockedLookupKey cap ver input)"
  using assms by (auto simp: assertReplayAllowed_def replay_gated_def Let_def split: if_splits)

lemma success_blocks:
  assumes "runtime_ok (gov s)"
    and run: "executeGovernedCapability h io invoke d opts s = (Inr (Success out r req ad), s')"
    and meta: "getCapabilityMeta (reg s) (req_capability req) (req_version req) = Some m" "replay_gated m"
    and key: "rk = replayBlockedLookupKey (req_capability req) (req_version req) (req_input req)" "replay_key_ok rk"
  shows "runtime_ok (gov s')" and "hasBlockedReplay (gov s') rk"
proof -
  from run obtain def m' hash oc where e: "admissible_now h d opts s def m'" "req = request_for d def hash"
    "persistReceipt io (success_draft \<lparr>p_request = req, p_adapter = ad, p_meta = m',
       p_authority = receipt_authority d opts (gov s)\<rparr>) (gov (ticked s)) = (Inr r, gov s')"
    by (rule execute_success)
  let ?d = "success_draft \<lparr>p_request = req, p_adapter = ad, p_meta = m',
       p_authority = receipt_authority d opts (gov s)\<rparr>"
  have "m' = m" using e(1,2) meta(1) by (simp add: admissible_now_def admissible_def request_for_def)
  have "rk \<noteq> []" using key(2) by (auto simp: replay_key_ok_def)
  then have d: "d_success ?d" "d_stage ?d = ''executed''" "d_replay_key ?d = Some rk"
    using \<open>m' = m\<close> meta(2) key(1) by (simp_all add: success_draft_def execution_replay_key_def truthy_opt_def)
  have ok: "runtime_ok (gov (ticked s))" using assms(1) by (simp add: runtime_ok_tick)
  show ok': "runtime_ok (gov s')" using persistReceipt_ok [OF ok success_draft_ok e(3)] by simp
  from persist_recorded [OF ok success_draft_ok e(3) persist_Inr_io [OF e(3)]] obtain t where
    "receipts (gov s') = receipts (gov (ticked s)) @ [new_receipt (gov (ticked s)) ?d t]" by blast
  then show "hasBlockedReplay (gov s') rk"
    using recorded_execution_in_ledger [OF d key(2)] hasBlockedReplay_ledger [OF ok'] by simp
qed

lemma blocked_forever:
  assumes "runtime_ok rt" "gov_step\<^sup>*\<^sup>* rt rt'" "hasBlockedReplay rt key"
  shows "hasBlockedReplay rt' key"
proof -
  obtain rest where "receipts rt' = receipts rt @ rest" "runtime_ok rt'"
    using gov_steps_append [OF assms(2,1)] by blast
  then show ?thesis
    using assms ledger_of_append [of "receipts rt" key rest] by (simp add: hasBlockedReplay_ledger)
qed

text \<open>C2: Replay protection end to end: after a successful execution of a capability of class B whose metadata
  blocks replay, no later execution of a blocking capability with the same replay key gets past the
  preparation, whatever happened to the runtime in between (further receipts, failed appends,
  restarts). So the adapter is not invoked again for it.\<close>

theorem recorded_execution_is_not_repeated:
  assumes "runtime_ok (gov s)"
    and "executeGovernedCapability h io invoke d opts s = (Inr (Success out r req ad), s')"
    and "getCapabilityMeta (reg s) (req_capability req) (req_version req) = Some m" "replay_gated m"
    and "rk = replayBlockedLookupKey (req_capability req) (req_version req) (req_input req)" "replay_key_ok rk"
    and "gov_step\<^sup>*\<^sup>* (gov s') (gov s2)"
    and "begin_execution h2 io2 d2 opts2 s2 = (Inr (Inr p), s3)"
    and "execution_class (p_meta p) = ''B''" "replay_behavior (p_meta p) = JStr ''blocked''"
  shows "replayBlockedLookupKey (req_capability (p_request p)) (req_version (p_request p)) (req_input (p_request p))
    \<noteq> rk"
proof
  assume same: "replayBlockedLookupKey (req_capability (p_request p)) (req_version (p_request p))
      (req_input (p_request p)) = rk"
  note first = success_blocks [OF assms(1-6)]
  have blocked: "hasBlockedReplay (gov s2) rk" by (rule blocked_forever [OF first(1) assms(7) first(2)])
  from assms(8) obtain def m2 hash where "admissible_now h2 d2 opts2 s2 def m2"
    "p = \<lparr>p_request = request_for d2 def hash, p_adapter = adapter def, p_meta = m2,
          p_authority = receipt_authority d2 opts2 (gov s2)\<rparr>"
    by (rule begin_pending)
  then have "\<not> hasBlockedReplay (gov s2) rk"
    using assms(9,10) same admitted_not_blocked [of m2 "draft_capability d2" "version def" "draft_input d2" "gov s2"]
    by (simp add: admissible_now_def admissible_def request_for_def)
  then show False using blocked by contradiction
qed

text \<open>The same capability on another input is prepared again, which instantiates the property.\<close>

abbreviation example_key :: "string \<Rightarrow> string" where
  "example_key k \<equiv> replayBlockedLookupKey ''a'' ''1'' (draft_input (draft_with k))"

lemma example_keys: "replay_key_ok (example_key ''k'')" "example_key ''k2'' \<noteq> example_key ''k''"
  by (simp_all add: replay_key_ok_def replayBlockedLookupKey_def reg_key_def
      stableInputKeyForReplay_def assign_all_def obj_assign_def obj_set_def proto_key_def json_stringify_def
      last_index_of_def quote_def esc_char_def)

lemma toReplayEntry_key: "toReplayEntry i r = Some e \<Longrightarrow> fld r ''replay_key'' = JStr (replay_key e)"
  by (auto simp: toReplayEntry_def Let_def split: if_splits json.splits option.splits)

lemma single_receipt_ledger:
  assumes "runtime_ok rt'" "receipts rt' = [new_receipt rt d t]" "hasBlockedReplay rt' key"
  shows "d_replay_key d = Some key"
proof -
  have "map_of (fst (index_receipt ([], []) (0, new_receipt rt d t))) key \<noteq> None"
    using assms by (simp add: hasBlockedReplay_ledger ledger_of_def)
  then obtain e where "toReplayEntry 0 (new_receipt rt d t) = Some e" "replay_key e = key"
    by (auto simp: index_receipt_def index_entry_def split: option.splits if_splits)
  then have "(case nonempty_opt (d_replay_key d) of None \<Rightarrow> JUndef | Some s \<Rightarrow> s) = JStr key"
    using toReplayEntry_key by (metis new_receipt_fields(5))
  then show ?thesis by (auto simp: nonempty_opt_def split: option.splits if_splits)
qed

theorem recorded_execution_is_not_repeated_witness:
  "\<exists>req ad r (s' :: proc) p s3.
    executeGovernedCapability example_host no_failure (\<lambda>req ad. Inr (JObj [])) keyed_draft run_options example_proc
      = (Inr (Success (JObj []) r req ad), s') \<and>
    begin_execution example_host no_failure (draft_with ''k2'') run_options
      (s'\<lparr>gov := (gov s')\<lparr>clock := (\<lambda>n. ''t''), ticks := 0\<rparr>\<rparr>) = (Inr (Inr p), s3) \<and>
    replayBlockedLookupKey (req_capability (p_request p)) (req_version (p_request p)) (req_input (p_request p))
      \<noteq> replayBlockedLookupKey (req_capability req) (req_version req) (req_input req)"
proof -
  obtain req ad r s' where run: "executeGovernedCapability example_host no_failure (\<lambda>req ad. Inr (JObj []))
      keyed_draft run_options example_proc = (Inr (Success (JObj []) r req ad), s')"
    by (rule example_run)
  then obtain def m hash oc where e: "admissible_now example_host keyed_draft run_options example_proc def m"
    "req = request_for keyed_draft def hash"
    "persistReceipt no_failure (success_draft \<lparr>p_request = req, p_adapter = ad, p_meta = m,
       p_authority = receipt_authority keyed_draft run_options (gov example_proc)\<rparr>) (gov (ticked example_proc)) =
       (Inr r, gov s')"
    "s' = (ticked example_proc)\<lparr>out_cache := oc, gov := gov s'\<rparr>"
    by (rule execute_success)
  have "def = example_def" "m = meta_of_example"
    using e(1) example_admissible by (simp_all add: admissible_now_def admissible_def)
  then have req: "req_capability req = ''a''" "req_version req = ''1''" "req_input req = draft_input keyed_draft"
    using e(2) by (simp_all add: request_for_def)
  have meta: "getCapabilityMeta (reg example_proc) (req_capability req) (req_version req) = Some meta_of_example"
    "replay_gated meta_of_example"
    using req unfolding example_registry
    by (simp_all add: getCapabilityMeta_def reg_key_def replay_gated_def meta_of_example_def)
  let ?rk = "replayBlockedLookupKey (req_capability req) (req_version req) (req_input req)"
  have rk: "?rk = example_key ''k''" using req by simp
  let ?s2 = "s'\<lparr>gov := (gov s')\<lparr>clock := (\<lambda>n. ''t''), ticks := 0\<rparr>\<rparr>"
  have key_ok: "replay_key_ok ?rk" unfolding rk by (rule example_keys(1))
  have ok': "runtime_ok (gov s')" by (rule success_blocks(1) [OF example_gov_ok run meta refl key_ok])
  have "gov_step (gov s') (gov ?s2)"
    using restart [OF restart_same [OF ok', of "\<lambda>n. ''t''" 0]] by simp
  then have steps: "gov_step\<^sup>*\<^sup>* (gov s') (gov ?s2)" by blast
  have not_blocked: "\<not> hasBlockedReplay (gov s') (example_key ''k2'')"
  proof
    assume blocked: "hasBlockedReplay (gov s') (example_key ''k2'')"
    have "runtime_ok (gov (ticked example_proc))" using example_gov_ok by (simp add: runtime_ok_tick)
    from persist_recorded [OF this success_draft_ok e(3)] obtain t where
      "receipts (gov s') = [new_receipt (gov (ticked example_proc)) (success_draft \<lparr>p_request = req, p_adapter = ad,
        p_meta = m, p_authority = receipt_authority keyed_draft run_options (gov example_proc)\<rparr>) t]"
      by (auto simp: example_proc_def example_runtime_def fresh_runtime_def)
    from single_receipt_ledger [OF ok' this blocked] have "example_key ''k2'' = example_key ''k''"
      using \<open>m = meta_of_example\<close> meta(2) rk
      by (simp add: success_draft_def execution_replay_key_def truthy_opt_def split: if_splits)
    then show False using example_keys(2) by contradiction
  qed
  have adm: "admissible_now example_host (draft_with ''k2'') run_options ?s2 example_def meta_of_example"
  proof (rule example_admissible_at)
    have "reg s' = reg example_proc" by (subst e(4)) simp
    then show "reg ?s2 = reg example_proc" by simp
    have "in_cache s' = in_cache example_proc" by (subst e(4)) simp
    then show "in_cache ?s2 = in_cache example_proc" by simp
    show "\<not> hasBlockedReplay (gov ?s2) (example_key ''k2'')"
      using not_blocked by (simp add: hasBlockedReplay_def)
  qed (simp_all add: trim_def is_ws_def)
  obtain hash2 where hash2: "computeCapabilityDefinitionHash example_def = Inr hash2"
    using example_hash by blast
  have "runtime_ok (gov ?s2)" using ok' by (simp add: runtime_ok_def files_ok_def projections_ok_def)
  from begin_admissible [OF assertStartupInvariants_ok [OF this] adm hash2] obtain p s3 where
    p: "begin_execution example_host no_failure (draft_with ''k2'') run_options ?s2 = (Inr (Inr p), s3)"
    "p_meta p = meta_of_example" by fastforce
  have "replayBlockedLookupKey (req_capability (p_request p)) (req_version (p_request p)) (req_input (p_request p))
      \<noteq> ?rk"
    by (rule recorded_execution_is_not_repeated [OF example_gov_ok run meta refl key_ok steps p(1)])
      (simp_all add: p(2) meta_of_example_def)
  then show ?thesis using run p(1) by blast
qed

subsection \<open>One receipt per execution\<close>

lemma refused_stage:
  "prepare_resolved h cache r d a cp rt = Inr (Refused stage errors) \<Longrightarrow>
     stage \<noteq> ''receipt_persistence''"
  by (auto simp: prepare_resolved_def Let_def split: option.splits if_splits prod.splits)

text \<open>
  How the result of an execution corresponds to its receipt. When only the anchor failed, the result is
  a failure although the receipt says that the capability was executed.
\<close>

definition receipt_matches :: "io_outcome \<Rightarrow> execution_result \<Rightarrow> json \<Rightarrow> bool" where
  "receipt_matches io res r =
     (case res of
        Success out r' req ad \<Rightarrow> r' = r \<and> fld r ''stage'' = JStr ''executed'' \<and> fld r ''success'' = JBool True
      | Failure stage errors receipt req ad \<Rightarrow>
          if stage = ''receipt_persistence''
          then anchor_io io \<noteq> None \<and> fld r ''stage'' = JStr ''executed'' \<and> fld r ''success'' = JBool True
          else fld r ''stage'' = JStr stage \<and> fld r ''success'' = JBool False \<and>
            receipt \<in> {None, Some r} \<and> (anchor_io io = None \<longrightarrow> receipt = Some r))"

lemma safe_recorded:
  assumes "runtime_ok rt" "draft_ok d" "receipt_io io = None"
  obtains t where "receipts (snd (persistReceiptSafe io d rt)) = receipts rt @ [new_receipt rt d t]"
    "fst (persistReceiptSafe io d rt) \<in> {None, Some (new_receipt rt d t)}"
    "anchor_io io = None \<Longrightarrow> fst (persistReceiptSafe io d rt) = Some (new_receipt rt d t)"
proof -
  obtain res rt' where step: "persistReceipt io d rt = (res, rt')" by fastforce
  from persist_recorded [OF assms(1,2) step assms(3)] obtain t where
    t: "receipts rt' = receipts rt @ [new_receipt rt d t]" "\<forall>r. res = Inr r \<longrightarrow> r = new_receipt rt d t" by blast
  have "fst (persistReceiptSafe io d rt) = Some (new_receipt rt d t)" if none: "anchor_io io = None"
  proof -
    from persist_anchored [OF assms(1,2) step assms(3) none] obtain r where "res = Inr r" by blast
    then show ?thesis using step t(2) by (simp add: persistReceiptSafe_def)
  qed
  moreover have "snd (persistReceiptSafe io d rt) = rt'"
    using step by (cases res) (simp_all add: persistReceiptSafe_def)
  moreover have "fst (persistReceiptSafe io d rt) \<in> {None, Some (new_receipt rt d t)}"
  proof (cases res)
    case (Inl e)
    then show ?thesis using step by (simp add: persistReceiptSafe_def)
  next
    case (Inr r)
    then have "r = new_receipt rt d t" using t(2) by blast
    then show ?thesis using step Inr by (simp add: persistReceiptSafe_def)
  qed
  ultimately show ?thesis using that [of t] t(1) by simp
qed

lemma with_receipt_matches:
  assumes "runtime_ok (gov s)" "clean errors" "receipt_io io = None" "stage \<noteq> ''receipt_persistence''"
  obtains r where "receipts (gov (snd (with_receipt io (failure_draft cap ver hash a cls stage ok errors) k s)))
      = receipts (gov s) @ [r]"
    "receipt_matches io (Failure stage errors
       (fst (persistReceiptSafe io (failure_draft cap ver hash a cls stage ok errors) (gov s))) req ad) r"
proof -
  let ?d = "failure_draft cap ver hash a cls stage ok errors"
  from safe_recorded [OF assms(1) failure_draft_ok [OF assms(2)] assms(3)] obtain t where
    t: "receipts (snd (persistReceiptSafe io ?d (gov s))) = receipts (gov s) @ [new_receipt (gov s) ?d t]"
    "fst (persistReceiptSafe io ?d (gov s)) \<in> {None, Some (new_receipt (gov s) ?d t)}"
    "anchor_io io = None \<Longrightarrow> fst (persistReceiptSafe io ?d (gov s)) = Some (new_receipt (gov s) ?d t)"
    by blast
  have f: "fld (new_receipt (gov s) ?d t) ''stage'' = JStr stage"
    "fld (new_receipt (gov s) ?d t) ''success'' = JBool False"
    by (simp_all add: new_receipt_fields failure_draft_def)
  have "receipt_matches io (Failure stage errors (fst (persistReceiptSafe io ?d (gov s))) req ad)
      (new_receipt (gov s) ?d t)"
    unfolding receipt_matches_def execution_result.case if_not_P [OF assms(4)]
    using f t(2,3) by blast
  moreover have "gov (snd (with_receipt io ?d k s)) = snd (persistReceiptSafe io ?d (gov s))"
    by (simp add: with_receipt_def split_beta)
  ultimately show ?thesis using that t(1) by simp
qed

lemma with_receipt_facts:
  assumes "runtime_ok (gov s)" "clean errors" "receipt_io io = None" "stage \<noteq> ''receipt_persistence''"
    and "with_receipt io (failure_draft cap ver hash a cls stage ok errors) k s = (res, s')"
  shows "\<exists>r. receipts (gov s') = receipts (gov s) @ [r] \<and> receipt_matches io (Failure stage errors
    (fst (persistReceiptSafe io (failure_draft cap ver hash a cls stage ok errors) (gov s))) req ad) r"
proof -
  obtain r where "receipts (gov (snd (with_receipt io (failure_draft cap ver hash a cls stage ok errors) k s)))
      = receipts (gov s) @ [r]" "receipt_matches io (Failure stage errors
      (fst (persistReceiptSafe io (failure_draft cap ver hash a cls stage ok errors) (gov s))) req ad) r"
    by (rule with_receipt_matches [OF assms(1-4)])
  then show ?thesis using assms(5) by auto
qed

lemma fail_matches:
  assumes "runtime_ok (gov s)" "clean errors" "receipt_io io = None" "stage \<noteq> ''receipt_persistence''"
    and "fail_execution io p stage ok errors s = (Inr res, s')"
  shows "\<exists>r. receipts (gov s') = receipts (gov s) @ [r] \<and> receipt_matches io res r"
proof -
  let ?d = "failure_draft (req_capability (p_request p)) (Some (req_version (p_request p)))
      (req_definition_hash (p_request p)) (p_authority p) (Some (execution_class (p_meta p))) stage ok errors"
  let ?k = "\<lambda>receipt. Failure stage errors receipt (Some (p_request p)) (Some (p_adapter p))"
  have w: "with_receipt io ?d ?k s = (Inr res, s')" using assms(5) by (simp add: fail_execution_def Let_def)
  then have "res = ?k (fst (persistReceiptSafe io ?d (gov s)))" by (simp add: with_receipt_eq)
  moreover from with_receipt_matches [OF assms(1-4)] obtain r where
    "receipts (gov (snd (with_receipt io ?d ?k s))) = receipts (gov s) @ [r]"
    "receipt_matches io (?k (fst (persistReceiptSafe io ?d (gov s)))) r" by metis
  ultimately show ?thesis using w by auto
qed

lemma finish_matches:
  assumes "proc_ok h s" "receipt_io io = None" "finish_execution h io outcome p s = (Inr res, s')"
  shows "\<exists>r. receipts (gov s') = receipts (gov s) @ [r] \<and> receipt_matches io res r"
  using assms(3)
proof (cases rule: finish_cases)
  case (threw e)
  show ?thesis
    by (rule fail_matches [OF _ _ assms(2) _ threw(2)]) (use assms(1) in \<open>simp_all add: proc_ok_def\<close>)
next
  case (invalid out errors oc)
  note parts = output_cache_proc_ok [OF assms(1) invalid(2)]
  have "\<exists>r. receipts (gov s') = receipts (gov (s\<lparr>out_cache := oc\<rparr>)) @ [r] \<and> receipt_matches io res r"
    by (rule fail_matches [OF _ parts(2) assms(2) _ invalid(3)]) (use parts(1) in \<open>simp_all add: proc_ok_def\<close>)
  then show ?thesis by simp
next
  case (valid out oc)
  have "runtime_ok (gov s)" using assms(1) by (simp add: proc_ok_def)
  from safe_recorded [OF this success_draft_ok assms(2)] obtain t where
    t: "receipts (snd (persistReceiptSafe io (success_draft p) (gov s))) =
        receipts (gov s) @ [new_receipt (gov s) (success_draft p) t]"
      "fst (persistReceiptSafe io (success_draft p) (gov s)) \<in> {None, Some (new_receipt (gov s) (success_draft p) t)}"
      "anchor_io io = None \<Longrightarrow>
        fst (persistReceiptSafe io (success_draft p) (gov s)) = Some (new_receipt (gov s) (success_draft p) t)"
    by blast
  let ?r = "new_receipt (gov s) (success_draft p) t"
  have "receipts (gov s') = receipts (gov s) @ [?r]" using complete_gov [OF valid(3)] t(1) by simp
  moreover have "receipt_matches io res ?r"
  proof (cases "fst (persistReceiptSafe io (success_draft p) (gov s))")
    case None
    then have "anchor_io io \<noteq> None" using t(3) by auto
    then show ?thesis
      using valid(3) None
      by (auto simp: complete_execution_def Let_def split_beta receipt_matches_def receipt_of_success)
  next
    case (Some r')
    then have "r' = ?r" using t(2) by simp
    then show ?thesis
      using valid(3) Some
      by (auto simp: complete_execution_def Let_def split_beta receipt_matches_def receipt_of_success
          assertValidatedSuccessReceipt_def)
  qed
  ultimately show ?thesis by blast
qed

text \<open>C4: Every execution that does not throw leaves exactly one receipt when the receipt journal can be written,
  and the receipt tells its outcome: the stage and the success flag of the result. The one exception is
  the result \<open>receipt_persistence\<close> after a failed anchor, whose receipt says executed.\<close>

theorem one_receipt_per_execution:
  assumes "proc_ok h s" "policy_clean (exec_class_policy opts)" "receipt_io io = None"
    and "executeGovernedCapability h io invoke d opts s = (Inr res, s')"
  shows "\<exists>r. receipts (gov s') = receipts (gov s) @ [r] \<and> receipt_matches io res r"
proof -
  obtain b s1 where b: "begin_execution h io d opts s = (b, s1)" by fastforce
  from b show ?thesis
  proof (cases rule: begin_cases)
    case (refused stage errors)
    have "clean errors" "stage \<noteq> ''receipt_persistence''"
      using assms(1,2) refused(2) by (auto intro!: clean_refused simp: proc_ok_def dest: refused_stage)
    moreover have "runtime_ok (gov (ticked s))" using assms(1) by (simp add: proc_ok_def runtime_ok_tick)
    moreover have "res = Failure stage errors (fst (persistReceiptSafe io (failure_draft (draft_capability d)
        (fst (refusal_of h d s)) None (receipt_authority d opts (gov s)) (snd (refusal_of h d s)) stage None errors)
        (gov (ticked s)))) None None" "s' = s1"
      using refused(3) assms(4) b unfolding with_receipt_eq by (simp_all add: executeGovernedCapability_def)
    ultimately show ?thesis
      using with_receipt_facts [OF _ _ assms(3) _ refused(3), of None None] by simp
  next
    case (pending def m hash)
    let ?p = "\<lparr>p_request = request_for d def hash, p_adapter = adapter def, p_meta = m,
        p_authority = receipt_authority d opts (gov s)\<rparr>"
    have "finish_execution h io (invoke (p_request ?p) (p_adapter ?p)) ?p (ticked s) = (Inr res, s')"
      using assms(4) b pending(4,5) by (simp add: executeGovernedCapability_def request_for_def)
    from finish_matches [OF _ assms(3) this] assms(1) show ?thesis by simp
  qed (use assms(4) b in \<open>simp_all add: executeGovernedCapability_def\<close>)
qed

theorem one_receipt_per_execution_witness:
  "\<exists>res s' r. executeGovernedCapability example_host no_failure (\<lambda>req ad. Inl ''timeout'') keyed_draft
      run_options example_proc = (Inr res, s') \<and>
    receipts (gov s') = receipts (gov example_proc) @ [r] \<and> receipt_matches no_failure res r"
proof -
  let ?run = "executeGovernedCapability example_host no_failure (\<lambda>req ad. Inl ''timeout'') keyed_draft
      run_options example_proc"
  obtain hash where hash: "computeCapabilityDefinitionHash example_def = Inr hash"
    using example_hash by blast
  have "begin_execution example_host no_failure keyed_draft run_options example_proc =
      (Inr (Inr \<lparr>p_request = request_for keyed_draft example_def hash, p_adapter = adapter example_def,
         p_meta = meta_of_example, p_authority = receipt_authority keyed_draft run_options (gov example_proc)\<rparr>),
       ticked example_proc)"
    by (rule begin_admissible [OF assertStartupInvariants_ok [OF example_gov_ok] example_admissible hash])
  then obtain res s' where run: "?run = (Inr res, s')"
    by (simp add: executeGovernedCapability_def finish_execution_def fail_execution_def with_receipt_def
        Let_def split_beta)
  have "policy_clean (exec_class_policy run_options)" by (simp add: run_options_def)
  from one_receipt_per_execution [OF example_proc_ok this no_failure_sel(1) run] run show ?thesis by blast
qed

subsection \<open>Interleaving\<close>

text \<open>
  The executions of one process interleave at the await: a state is the process with the executions that
  wait for their adapter. Between two steps the host may register metadata or definitions (any change
  of the registry, with the validators that the compiler gave), and the runtime may take any step of
  its own. \<open>io\<close> and the outcome of the adapter are arbitrary.
\<close>

inductive exec_step :: "'v host \<Rightarrow> proc \<times> pending list \<Rightarrow> proc \<times> pending list \<Rightarrow> bool" for h where
  begin_waits: "policy_clean (exec_class_policy opts) \<Longrightarrow>
    begin_execution h io d opts s = (Inr (Inr p), s') \<Longrightarrow> exec_step h (s, ps) (s', p # ps)"
| begin_done: "policy_clean (exec_class_policy opts) \<Longrightarrow>
    begin_execution h io d opts s = (Inr (Inl res), s') \<Longrightarrow> exec_step h (s, ps) (s', ps)"
| begin_throws: "policy_clean (exec_class_policy opts) \<Longrightarrow>
    begin_execution h io d opts s = (Inl e, s') \<Longrightarrow> exec_step h (s, ps) (s', ps)"
| resumed: "finish_execution h io outcome p s = (res, s') \<Longrightarrow> exec_step h (s, ps @ p # qs) (s', ps @ qs)"
| registered: "registerCapability (ajv_in h) def (reg s) (in_cache s) = (res, r, c) \<Longrightarrow>
    exec_step h (s, ps) (s\<lparr>reg := r, in_cache := c\<rparr>, ps)"
| meta_registered: "exec_step h (s, ps) (s\<lparr>reg := registerCapabilityMeta cap ver m (reg s)\<rparr>, ps)"
| governed: "gov_step (gov s) rt \<Longrightarrow> exec_step h (s, ps) (s\<lparr>gov := rt\<rparr>, ps)"

inductive_cases exec_stepE: "exec_step h c c'"

lemma registerCapability_clean:
  assumes "compiler_clean ajv" "cache_clean cache" "registerCapability ajv def r cache = (res, r', cache')"
  shows "cache_clean cache'"
proof -
  have del: "cache_clean (dropCompiled cap ver cache)" for cap ver
    using assms(2) by (auto simp: cache_clean_def dropCompiled_def delete_conv' split: if_splits)
  show ?thesis
  proof (cases "ajv (input_schema def)")
    case (Inl e)
    then show ?thesis
      using assms(2,3) del by (auto simp: registerCapability_def compileSchema_def Let_def split: if_splits)
  next
    case (Inr v)
    then have "clean (ajvErrorsToItems (snd (v x)))" for x
      using assms(1) unfolding compiler_clean_def by blast
    then have "cache_clean (AList.update key v c)" if "cache_clean c" for key c
      using that by (auto simp: cache_clean_def)
    then show ?thesis
      using assms(2,3) Inr del by (auto simp: registerCapability_def compileSchema_def Let_def split: if_splits)
  qed
qed

lemma exec_step_ok:
  assumes "exec_step h (s, ps) (s', ps')" "proc_ok h s"
  shows "proc_ok h s' \<and> grows s s'"
  using assms(1)
proof (cases rule: exec_step.cases)
  case (begin_waits opts io d p)
  then show ?thesis using begin_ok [OF assms(2)] by blast
next
  case (begin_done opts io d res)
  then show ?thesis using begin_ok [OF assms(2)] by blast
next
  case (begin_throws opts io d e)
  then show ?thesis using begin_ok [OF assms(2)] by blast
next
  case (resumed io outcome p res qs rs)
  then show ?thesis using finish_ok [OF assms(2)] by blast
next
  case (registered def res r c)
  have "cache_clean c"
    by (rule registerCapability_clean [OF _ _ registered(3)]) (use assms(2) in \<open>simp_all add: proc_ok_def\<close>)
  then show ?thesis using registered assms(2) by (simp add: proc_ok_def grows_def)
next
  case (meta_registered cap ver m)
  then show ?thesis using assms(2) by (simp add: proc_ok_def grows_def)
next
  case (governed rt)
  then show ?thesis
    using gov_step_ok [OF governed(3)] assms(2) by (auto simp: proc_ok_def grows_def)
qed

text \<open>C3: Executions may interleave at the await in any order, adapters may fail, appends may fail, and the host may
  register capabilities in between: in every state that such a run reaches, the start-up checks of the
  governance runtime still pass, so that the next execution is not refused by a broken chain, anchor or
  ledger; and the receipts that were there remain, in order.\<close>

theorem interleaved_executions_keep_invariants:
  assumes "proc_ok h s" and "(exec_step h)\<^sup>*\<^sup>* (s, ps) (s', ps')"
  shows "assertStartupInvariants (gov s') = Inr () \<and> (\<exists>rest. receipts (gov s') = receipts (gov s) @ rest)"
proof -
  from assms(2) have "proc_ok h s' \<and> grows s s'"
  proof (induction arbitrary: rule: rtranclp_induct2)
    case refl
    then show ?case using assms(1) by simp
  next
    case (step s1 ps1 s2 ps2)
    then show ?case using exec_step_ok [OF step.hyps(2)] by (auto simp: grows_def)
  qed
  then show ?thesis using assertStartupInvariants_ok by (simp add: proc_ok_def grows_def)
qed

subsection \<open>Two executions in flight\<close>

lemma example_begins:
  obtains p where "begin_execution example_host no_failure keyed_draft run_options example_proc =
    (Inr (Inr p), ticked example_proc)" "p_meta p = meta_of_example"
    "req_capability (p_request p) = ''a''" "req_version (p_request p) = ''1''"
proof -
  obtain hash where hash: "computeCapabilityDefinitionHash example_def = Inr hash"
    using example_hash by blast
  from begin_admissible [OF assertStartupInvariants_ok [OF example_gov_ok] example_admissible hash]
  show ?thesis
    by (rule that) (simp_all add: request_for_def)
qed

theorem interleaved_executions_keep_invariants_witness:
  "\<exists>p :: pending. assertStartupInvariants (gov (ticked example_proc)) = Inr () \<and>
    (\<exists>rest. receipts (gov (ticked example_proc)) = receipts (gov example_proc) @ rest) \<and>
    p_meta p = meta_of_example"
proof -
  obtain p where p: "begin_execution example_host no_failure keyed_draft run_options example_proc =
      (Inr (Inr p), ticked example_proc)" "p_meta p = meta_of_example"
    by (rule example_begins)
  have "policy_clean (exec_class_policy run_options)" by (simp add: run_options_def)
  from begin_waits [OF this p(1)]
  have "(exec_step example_host)\<^sup>*\<^sup>* (example_proc, []) (ticked example_proc, [p])" by blast
  from interleaved_executions_keep_invariants [OF example_proc_ok this] p(2) show ?thesis by blast
qed

text \<open>
  The replay gate is asked before the await and not again after it: an execution that waits is completed
  even when an execution with the same request has been recorded in the meantime.
\<close>

lemma output_valid_again:
  assumes "validateAdapterOutput ajv cap ver m out cache = (None, oc)"
  shows "validateAdapterOutput ajv cap ver m out oc = (None, oc)"
proof (cases "map_of cache (policyKey cap ver)")
  case (Some v)
  then have "oc = cache" using assms by (auto simp: validateAdapterOutput_def Let_def)
  then show ?thesis using assms by simp
next
  case None
  show ?thesis
  proof (cases "ajv (output_schema m)")
    case (Inl e)
    then show ?thesis using assms None by (simp add: validateAdapterOutput_def)
  next
    case (Inr v)
    then show ?thesis
      using assms None by (auto simp: validateAdapterOutput_def Let_def split: prod.splits if_splits)
  qed
qed

lemma duplicates_in_flight_both_succeed:
  assumes "proc_ok h s" "receipt_io io = None" "anchor_io io = None"
    and "p_request q = p_request p"
    and "getCapabilityMeta (reg s) (req_capability (p_request p)) (req_version (p_request p)) = Some m"
    and "validateAdapterOutput (ajv_out h) (req_capability (p_request p)) (req_version (p_request p)) m out
      (out_cache s) = (None, oc)"
  shows "\<exists>r1 s1 r2 s2. finish_execution h io (Inr out) p s = (Inr (Success out r1 (p_request p) (p_adapter p)), s1) \<and>
    finish_execution h io (Inr out) q s1 = (Inr (Success out r2 (p_request p) (p_adapter q)), s2)"
proof -
  have ok: "runtime_ok (gov s)" using assms(1) by (simp add: proc_ok_def)
  from valid_output_finishes [OF this assms(2,3,5,6)] obtain r1 s1 where
    first: "finish_execution h io (Inr out) p s = (Inr (Success out r1 (p_request p) (p_adapter p)), s1)" by blast
  then have s1: "out_cache s1 = oc" "reg s1 = reg s"
    using assms(5,6) by (rule_tac finish_success [OF first],
      simp add: validateAdapterOutputForCapability_def)+
  have "runtime_ok (gov s1)" using finish_ok [OF assms(1) first] by (simp add: proc_ok_def)
  from valid_output_finishes [OF this assms(2,3), where p = q and h = h and m = m and out = out and oc = oc]
  have "\<exists>r2 s2. finish_execution h io (Inr out) q s1 = (Inr (Success out r2 (p_request q) (p_adapter q)), s2)"
    using s1 assms(4,5) output_valid_again [OF assms(6)] by metis
  then show ?thesis using first assms(4) by auto
qed

end
