(* ===== verification/Disk_Loader.thy ===== *)
theory Disk_Loader
  imports Registry JSON_Text
begin

text \<open>
  Loading capabilities: \<open>capability-registry/src/load-capabilities-from-disk.ts\<close>. The directory that is
  read is a value of type \<open>node\<close>; what the logger is told is a list that is returned with the result on
  every exit. \<open>path.join\<close> puts a slash between names that hold none. The arrow in the message of a hash
  mismatch is outside the modelled characters and is written \<open>-\<close>\<open>>\<close>.
\<close>

subsection \<open>The file tree\<close>

text \<open>\<open>Dangling\<close> is an entry whose \<open>stat\<close> fails, \<open>Unreadable\<close> a file that cannot be read.\<close>

datatype node =
    File string
  | Unreadable message
  | Dir "(string \<times> node) list"
  | Dangling message

datatype read_error = ENOENT | OtherError message

type_synonym entries = "(string \<times> node) list"

definition path_join :: "string \<Rightarrow> string \<Rightarrow> string" where
  "path_join dir name = dir @ ''/'' @ name"

definition readFile :: "string \<Rightarrow> entries \<Rightarrow> string \<Rightarrow> read_error + string" where
  "readFile dir es name =
     (case map_of es name of
        None \<Rightarrow> Inl ENOENT
      | Some (Dangling e) \<Rightarrow> Inl ENOENT
      | Some (File text) \<Rightarrow> Inr text
      | Some (Unreadable e) \<Rightarrow> Inl (OtherError e)
      | Some (Dir ns) \<Rightarrow> Inl (OtherError ''EISDIR: illegal operation on a directory, read''))"

text \<open>Read a file; a missing one gives the message that the code puts in its place.\<close>

definition read_or :: "message \<Rightarrow> string \<Rightarrow> entries \<Rightarrow> string \<Rightarrow> string result" where
  "read_or missing dir es name =
     (case readFile dir es name of
        Inl ENOENT \<Rightarrow> Inl missing
      | Inl (OtherError e) \<Rightarrow> Inl e
      | Inr text \<Rightarrow> Inr text)"

definition JSON_parse :: "message \<Rightarrow> string \<Rightarrow> json result" where
  "JSON_parse invalid text = (case json_parse text of None \<Rightarrow> Inl invalid | Some j \<Rightarrow> Inr j)"

definition check_that :: "bool \<Rightarrow> message \<Rightarrow> 'a result \<Rightarrow> 'a result" where
  "check_that ok e k = (if \<not> ok then Inl e else k)"

lemma check_that_Inr [simp]: "check_that ok e k = Inr x \<longleftrightarrow> ok \<and> k = Inr x"
  by (simp add: check_that_def)

subsection \<open>Logging\<close>

datatype log_line = Info string | Warn string

type_synonym 'a logged = "log_line list \<times> 'a result"

definition bind_logged :: "'a logged \<Rightarrow> ('a \<Rightarrow> 'b logged) \<Rightarrow> 'b logged" where
  "bind_logged m k =
     (case snd m of
        Inl e \<Rightarrow> (fst m, Inl e)
      | Inr x \<Rightarrow> (fst m @ fst (k x), snd (k x)))"

lemma snd_bind_logged [simp]: "snd (bind_logged m k) = bind_result (snd m) (\<lambda>x. snd (k x))"
  by (simp add: bind_logged_def bind_result_def split: sum.split)

text \<open>The \<open>catch\<close> that warns and throws again.\<close>

definition warn_reject :: "string \<Rightarrow> 'a logged \<Rightarrow> 'a logged" where
  "warn_reject path m =
     (case snd m of
        Inl e \<Rightarrow> (fst m @ [Warn (''reject '' @ path @ '': '' @ e)], Inl e)
      | Inr x \<Rightarrow> m)"

lemma snd_warn_reject [simp]: "snd (warn_reject p m) = snd m"
  by (simp add: warn_reject_def split: sum.split)

subsection \<open>Definitions and metadata\<close>

definition the_str :: "json \<Rightarrow> string" where
  "the_str v = (case v of JStr s \<Rightarrow> s | _ \<Rightarrow> [])"

definition nonempty_string :: "json \<Rightarrow> bool" where
  "nonempty_string v = (is_str v \<and> the_str v \<noteq> [])"

definition elements :: "json \<Rightarrow> json list" where
  "elements v = (case v of JArr xs \<Rightarrow> xs | _ \<Rightarrow> [])"

definition parsed_tags :: "json \<Rightarrow> string list option" where
  "parsed_tags v =
     (let ts = map the_str (filter is_str (elements v)) in if length ts > 0 then Some ts else None)"

definition parseDefinitionJson :: "json \<Rightarrow> capability_definition result" where
  "parseDefinitionJson j =
     check_that (is_record j) ''definition.json root must be an object''
     (check_that (nonempty_string (fld j ''capability''))
        ''definition.json: capability must be a non-empty string''
     (check_that (nonempty_string (fld j ''version''))
        ''definition.json: version must be a non-empty string''
     (check_that (is_record (fld j ''adapter'')) ''definition.json: adapter must be an object''
     (check_that (is_str (fld (fld j ''adapter'') ''key'') \<and> is_str (fld (fld j ''adapter'') ''route''))
        ''definition.json: adapter.key and adapter.route must be strings''
     (check_that (is_record (fld j ''input_schema'')) ''definition.json: input_schema must be an object''
     (Inr \<lparr>capability = the_str (fld j ''capability''), version = the_str (fld j ''version''),
           adapter = \<lparr>adapter_key = the_str (fld (fld j ''adapter'') ''key''),
                      adapter_route = the_str (fld (fld j ''adapter'') ''route'')\<rparr>,
           input_schema = fld j ''input_schema'',
           description = (if nonempty_string (fld j ''description'')
                          then Some (the_str (fld j ''description'')) else None),
           tags = parsed_tags (fld j ''tags'')\<rparr>))))))"

text \<open>The regular expression \<open>^sha256:[0-9a-f]{64}$\<close>.\<close>

definition hash_line_ok :: "string \<Rightarrow> bool" where
  "hash_line_ok s =
     (starts_with ''sha256:'' s \<and> length (drop 7 s) = 64 \<and> list_all is_hex (drop 7 s))"

definition verified_hash :: "string \<Rightarrow> entries \<Rightarrow> capability_definition \<Rightarrow> string result" where
  "verified_hash dir es d =
     bind_result (read_or (dir @ '': definition.hash missing (required for verified load)'') dir es ''definition.hash'')
       (\<lambda>text. let want = trim text in
          check_that (hash_line_ok want) (path_join dir ''definition.hash'' @ '': malformed hash line'')
            (bind_result (computeCapabilityDefinitionHash d) (\<lambda>got.
               check_that (got = want)
                 (dir @ '': definition hash mismatch (file '' @ want @ '' vs definition.json -> '' @ got @ '')'')
                 (Inr want))))"

definition readDefinition :: "string \<Rightarrow> entries \<Rightarrow> capability_definition result" where
  "readDefinition dir es =
     bind_result (read_or (dir @ '': definition.json missing'') dir es ''definition.json'') (\<lambda>raw.
     bind_result (JSON_parse (''invalid JSON: '' @ path_join dir ''definition.json'') raw) parseDefinitionJson)"

definition readVerifiedDefinitionDir ::
  "string \<Rightarrow> entries \<Rightarrow> bool \<Rightarrow> (capability_definition \<times> string) logged" where
  "readVerifiedDefinitionDir dir es verify =
     (let res = bind_result (readDefinition dir es) (\<lambda>d.
        bind_result (if verify then verified_hash dir es d else computeCapabilityDefinitionHash d) (\<lambda>hash.
          Inr (d, hash)))
      in (case res of
            Inl e \<Rightarrow> []
          | Inr (d, hash) \<Rightarrow> [Info (''loaded '' @ reg_key (capability d) (version d) @ '' '' @ hash)],
          res))"

definition existsDefJson :: "entries \<Rightarrow> bool" where
  "existsDefJson es =
     (case map_of es ''definition.json'' of
        Some (File text) \<Rightarrow> True | Some (Unreadable e) \<Rightarrow> True | _ \<Rightarrow> False)"

definition readMetaFromDir :: "string \<Rightarrow> entries \<Rightarrow> compiled_meta result" where
  "readMetaFromDir dir es =
     bind_result (read_or (dir @ '': meta.json missing (required for governed capabilities)'') dir es ''meta.json'')
       (\<lambda>raw. bind_result (JSON_parse (''invalid JSON: '' @ path_join dir ''meta.json'') raw)
          parseCapabilityCompiledMeta)"

subsection \<open>The directory walk\<close>

record capability_bundle =
  bundle_definition :: capability_definition
  bundle_meta :: compiled_meta

abbreviation bundle_key :: "capability_bundle \<Rightarrow> string" where
  "bundle_key b \<equiv> reg_key (capability (bundle_definition b)) (version (bundle_definition b))"

text \<open>The walk's state: \<open>seenKeys\<close> and \<open>out\<close>.\<close>

type_synonym walk = "string list \<times> capability_bundle list"

text \<open>What follows the label checks, the same code in both layouts.\<close>

definition add_bundle :: "string \<Rightarrow> entries \<Rightarrow> capability_definition \<Rightarrow> walk \<Rightarrow> walk logged" where
  "add_bundle dir es d st =
     (let k = reg_key (capability d) (version d)
      in if k \<in> set (fst st) then ([], Inl (''duplicate capability registration: '' @ k))
         else bind_logged (warn_reject dir ([], readMetaFromDir dir es)) (\<lambda>m.
           ([], Inr (fst st @ [k], snd st @ [\<lparr>bundle_definition = d, bundle_meta = m\<rparr>]))))"

definition load_flat :: "bool \<Rightarrow> string \<Rightarrow> string \<Rightarrow> entries \<Rightarrow> walk \<Rightarrow> walk logged" where
  "load_flat verify capPath topName es st =
     bind_logged (warn_reject capPath (readVerifiedDefinitionDir capPath es verify)) (\<lambda>(d, hash).
       if capability d \<noteq> topName
       then ([], Inl (capPath @ ''/definition.json: folder name \"'' @ topName
                      @ ''\" must equal definition.capability \"'' @ capability d @ ''\"''))
       else add_bundle capPath es d st)"

definition load_version ::
  "(string \<Rightarrow> bool) \<Rightarrow> bool \<Rightarrow> string \<Rightarrow> string \<Rightarrow> string \<times> entries \<Rightarrow> walk \<Rightarrow> walk logged" where
  "load_version semver_valid verify capPath topName ver st =
     (let verDir = fst ver; vPath = path_join capPath verDir
      in if \<not> semver_valid verDir
         then ([], Inl (vPath @ '': version folder \"'' @ verDir
                        @ ''\" must be valid SemVer when using nested layout''))
         else bind_logged (warn_reject vPath (readVerifiedDefinitionDir vPath (snd ver) verify)) (\<lambda>(d, hash).
           if capability d \<noteq> topName
           then ([], Inl (vPath @ ''/definition.json: parent folder must be definition.capability (expected \"''
                          @ capability d @ ''\", got \"'' @ topName @ ''\")''))
           else if version d \<noteq> verDir
           then ([], Inl (vPath @ ''/definition.json: folder \"'' @ verDir
                          @ ''\" must equal definition.version \"'' @ version d @ ''\"''))
           else add_bundle vPath (snd ver) d st))"

text \<open>The folders of versions; \<open>statSync\<close> throws on an entry that cannot be followed.\<close>

fun version_folders :: "entries \<Rightarrow> (string \<times> entries) list result" where
  "version_folders [] = Inr []"
| "version_folders ((n, Dangling e) # es) = Inl e"
| "version_folders ((n, Dir vs) # es) =
     bind_result (version_folders es) (\<lambda>rest. Inr (if existsDefJson vs then (n, vs) # rest else rest))"
| "version_folders ((n, File t) # es) = version_folders es"
| "version_folders ((n, Unreadable e) # es) = version_folders es"

fun fold_logged :: "('a \<Rightarrow> 's \<Rightarrow> 's logged) \<Rightarrow> 'a list \<Rightarrow> 's \<Rightarrow> 's logged" where
  "fold_logged f [] s = ([], Inr s)"
| "fold_logged f (x # xs) s = bind_logged (f x s) (fold_logged f xs)"

definition load_top ::
  "(string \<Rightarrow> bool) \<Rightarrow> bool \<Rightarrow> string \<Rightarrow> string \<times> node \<Rightarrow> walk \<Rightarrow> walk logged" where
  "load_top semver_valid verify rootDir ent st =
     (let topName = fst ent; capPath = path_join rootDir topName
      in case snd ent of
           Dangling e \<Rightarrow> ([], Inl e)
         | File t \<Rightarrow> ([], Inr st)
         | Unreadable e \<Rightarrow> ([], Inr st)
         | Dir es \<Rightarrow>
             (case version_folders es of
                Inl e \<Rightarrow> ([], Inl e)
              | Inr vs \<Rightarrow>
                  if existsDefJson es \<and> length vs > 0
                  then ([], Inl (capPath
                         @ '': cannot have both definition.json and versioned subfolders with definitions''))
                  else if existsDefJson es then load_flat verify capPath topName es st
                  else fold_logged (load_version semver_valid verify capPath topName) (sort_key fst vs) st))"

text \<open>\<open>semver_valid\<close> is \<open>semver.valid\<close>; the directory is \<open>None\<close> when it is not there.\<close>

record load_options =
  verifyDefinitionHashFile :: "bool option"

definition loadCapabilityBundlesFromDirectory ::
  "(string \<Rightarrow> bool) \<Rightarrow> string \<Rightarrow> node option \<Rightarrow> load_options \<Rightarrow> capability_bundle list logged" where
  "loadCapabilityBundlesFromDirectory semver_valid rootDir tree opts =
     (let verify = (verifyDefinitionHashFile opts \<noteq> Some False)
      in case tree of
           None \<Rightarrow> ([], Inl (''capabilities directory not found: '' @ rootDir))
         | Some (Dangling e) \<Rightarrow> ([], Inl (''capabilities directory not found: '' @ rootDir))
         | Some (File t) \<Rightarrow> ([], Inl (''ENOTDIR: not a directory, scandir '' @ [CHR 0x27] @ rootDir @ [CHR 0x27]))
         | Some (Unreadable e) \<Rightarrow> ([], Inl e)
         | Some (Dir es) \<Rightarrow>
             bind_logged (fold_logged (load_top semver_valid verify rootDir) (sort_key fst es) ([], []))
               (\<lambda>st. ([], Inr (snd st))))"

definition loadDefinitionsFromCapabilitiesDirectory ::
  "(string \<Rightarrow> bool) \<Rightarrow> string \<Rightarrow> node option \<Rightarrow> load_options \<Rightarrow> capability_definition list logged" where
  "loadDefinitionsFromCapabilitiesDirectory semver_valid rootDir tree opts =
     bind_logged (loadCapabilityBundlesFromDirectory semver_valid rootDir tree opts) (\<lambda>bs.
       ([], Inr (map bundle_definition bs)))"

text \<open>Register the bundles in order; the first exception leaves the rest unregistered.\<close>

fun register_bundles ::
  "schema_compiler \<Rightarrow> capability_bundle list \<Rightarrow> registry \<Rightarrow> schema_cache
   \<Rightarrow> unit result \<times> registry \<times> schema_cache" where
  "register_bundles ajv [] r cache = (Inr (), r, cache)"
| "register_bundles ajv (b # bs) r cache =
     (let d = bundle_definition b
      in case registerCapability ajv d r cache of
           (Inl e, r1, c1) \<Rightarrow> (Inl e, r1, c1)
         | (Inr _, r1, c1) \<Rightarrow>
             register_bundles ajv bs (registerCapabilityMeta (capability d) (version d) (bundle_meta b) r1) c1)"

definition registerCapabilitiesFromDirectory ::
  "schema_compiler \<Rightarrow> (string \<Rightarrow> bool) \<Rightarrow> string \<Rightarrow> node option \<Rightarrow> load_options \<Rightarrow> registry \<Rightarrow> schema_cache
   \<Rightarrow> log_line list \<times> unit result \<times> registry \<times> schema_cache" where
  "registerCapabilitiesFromDirectory ajv semver_valid rootDir tree opts r cache =
     (case loadCapabilityBundlesFromDirectory semver_valid rootDir tree opts of
        (ls, Inl e) \<Rightarrow> (ls, Inl e, r, cache)
      | (ls, Inr bs) \<Rightarrow> (ls, register_bundles ajv bs r cache))"

text \<open>
  \<open>resolve_path\<close> is \<open>path.resolve\<close>, which makes a path absolute; \<open>env\<close> and \<open>cwd\<close> are the environment
  variable and the working directory.
\<close>

definition resolveDefaultCapabilitiesRoot ::
  "(string list \<Rightarrow> string) \<Rightarrow> string option \<Rightarrow> string \<Rightarrow> string" where
  "resolveDefaultCapabilitiesRoot resolve_path env cwd =
     (case env of
        Some dir \<Rightarrow> if length dir > 0 then resolve_path [dir] else resolve_path [cwd, ''capabilities'']
      | None \<Rightarrow> resolve_path [cwd, ''capabilities''])"

end
