(* ===== verification/Startup.thy ===== *)
theory Startup
  imports Disk_Loader Governance_Runtime
begin

text \<open>
  Start-up of a host: the semantic validators of \<open>capability-registry/src/builtins.ts\<close>, and the functions
  of \<open>capability-registry/src/index.ts\<close> that create a registry from the disk, check it together with the
  governance runtime, and report health.
\<close>

subsection \<open>Numbers\<close>

text \<open>\<open>typeof v === "object"\<close> for a value that is not \<open>null\<close>; comparisons of a number with an integer.\<close>

definition is_objectish :: "json \<Rightarrow> bool" where
  "is_objectish v = (case v of JObj kvs \<Rightarrow> True | JArr xs \<Rightarrow> True | _ \<Rightarrow> False)"

definition is_integer :: "jsnum \<Rightarrow> bool" where
  "is_integer n = (case n of NumDec m e \<Rightarrow> 0 \<le> e | NumNegZero \<Rightarrow> True | _ \<Rightarrow> False)"

definition dec_less :: "int \<Rightarrow> int \<Rightarrow> int \<Rightarrow> int \<Rightarrow> bool" where
  "dec_less m e m' e' = (m * 10 ^ nat (e - min e e') < m' * 10 ^ nat (e' - min e e'))"

fun num_below :: "jsnum \<Rightarrow> int \<Rightarrow> bool" where
  "num_below NumNaN k = False"
| "num_below (NumInf neg) k = neg"
| "num_below NumNegZero k = (0 < k)"
| "num_below (NumDec m e) k = dec_less m e k 0"

fun num_above :: "jsnum \<Rightarrow> int \<Rightarrow> bool" where
  "num_above NumNaN k = False"
| "num_above (NumInf neg) k = (\<not> neg)"
| "num_above NumNegZero k = (k < 0)"
| "num_above (NumDec m e) k = dec_less k 0 m e"

definition is_finite :: "jsnum \<Rightarrow> bool" where
  "is_finite n = (case n of NumNaN \<Rightarrow> False | NumInf neg \<Rightarrow> False | _ \<Rightarrow> True)"

subsection \<open>Semantic validators\<close>

definition sem_ok :: semantic_result where
  "sem_ok = \<lparr>sem_valid = True, sem_errors = None\<rparr>"

definition sem_fail :: "string \<Rightarrow> semantic_result" where
  "sem_fail e = \<lparr>sem_valid = False, sem_errors = Some [e]\<rparr>"

definition has_own :: "json \<Rightarrow> string \<Rightarrow> bool" where
  "has_own v k = (case v of JObj kvs \<Rightarrow> k \<in> fst ` set kvs | _ \<Rightarrow> False)"

definition semanticParticleUpdateV2 :: semantic_validator where
  "semanticParticleUpdateV2 input =
     (if \<not> is_objectish input then sem_fail ''input must be an object''
      else
        let attr = fld input ''attributes''
        in if \<not> is_objectish attr then sem_fail ''attributes must be an object''
        else case fld attr ''revision'' of
          JNum n \<Rightarrow>
            (if \<not> is_integer n then sem_fail ''attributes.revision must be an integer''
             else if num_below n 0 then sem_fail ''attributes.revision must be non-negative''
             else if num_above n 1000000 then sem_fail ''attributes.revision out of allowed range''
             else if has_own attr ''hue'' then
               (case fld attr ''hue'' of
                  JNum hue \<Rightarrow>
                    if \<not> is_finite hue \<or> num_below hue 0 \<or> num_above hue 1
                    then sem_fail ''attributes.hue must be a finite number in [0, 1]'' else sem_ok
                | _ \<Rightarrow> sem_fail ''attributes.hue must be a number'')
             else sem_ok)
        | _ \<Rightarrow> sem_fail ''attributes.revision must be an integer'')"

definition semanticParticleUpdateV1 :: semantic_validator where
  "semanticParticleUpdateV1 input =
     (if \<not> is_objectish input then sem_fail ''input must be an object''
      else
        let attr = fld input ''attributes''
        in if is_objectish attr then
             (case fld attr ''hue'' of
                JNum hue \<Rightarrow>
                  if num_below hue 0 \<or> num_above hue 1 \<or> \<not> is_finite hue
                  then sem_fail ''attributes.hue must be a finite number in [0, 1]'' else sem_ok
              | _ \<Rightarrow> sem_ok)
           else sem_ok)"

definition registerBuiltinSemanticValidators :: "registry \<Rightarrow> registry" where
  "registerBuiltinSemanticValidators r =
     registerSemanticValidator ''hai.particle.update'' ''2.0.0'' semanticParticleUpdateV2
       (registerSemanticValidator ''hai.particle.update'' ''1.0.0'' semanticParticleUpdateV1 r)"

subsection \<open>The invariants of a registry\<close>

definition label :: "capability_definition \<Rightarrow> string" where
  "label d = reg_key (capability d) (version d)"

definition check_registered :: "registry \<Rightarrow> capability_definition \<Rightarrow> unit result" where
  "check_registered r d =
     (case getCapabilityMeta r (capability d) (version d) of
        None \<Rightarrow> Inl (''governance invariant: meta missing for '' @ label d)
      | Some m \<Rightarrow>
          (let viol = collectExecutionClassPolicyViolations m
           in if length viol > 0
              then Inl (''governance invariant: '' @ label d @ '': '' @ join ''; '' (map message viol))
              else Inr ()))"

definition assertRegistryGovernanceInvariants :: "registry \<Rightarrow> unit result" where
  "assertRegistryGovernanceInvariants r =
     bind_result (map_result (check_registered r) (listCapabilities r)) (\<lambda>_. Inr ())"

definition registered_invariants :: "registry \<Rightarrow> capability_definition \<Rightarrow> governance_invariant list" where
  "registered_invariants r d =
     (let meta = getCapabilityMeta r (capability d) (version d);
          has_schema = (case meta of None \<Rightarrow> False | Some m \<Rightarrow> is_objectish (output_schema m))
      in [\<lparr>inv_ok = (meta \<noteq> None), target = meta_target,
           inv_message = (if meta \<noteq> None then ''meta present for '' else ''meta missing for '') @ label d\<rparr>,
          \<lparr>inv_ok = has_schema, target = output_schema_target,
           inv_message = (if has_schema then ''output schema present for '' else ''output schema missing for '')
             @ label d\<rparr>])"

definition collectGovernanceStartupInvariants ::
  "registry \<Rightarrow> runtime \<Rightarrow> governance_invariant list result" where
  "collectGovernanceStartupInvariants r rt =
     bind_result (startupInvariants rt) (\<lambda>invs.
       Inr (invs @ concat (map (registered_invariants r) (listCapabilities r))))"

definition assertGovernanceStartupInvariants :: "registry \<Rightarrow> runtime \<Rightarrow> unit result" where
  "assertGovernanceStartupInvariants r rt =
     bind_result (assertRegistryGovernanceInvariants r) (\<lambda>_.
     bind_result (collectGovernanceStartupInvariants r rt) fail_on_first)"

record health_status =
  health_ok :: bool
  reasons :: "string list"
  invariants :: "governance_invariant list"
  receipt_chain_status :: chain_verification
  receipt_anchors_status :: verification
  replay_ledger_status :: verification

definition getGovernanceHealthStatus :: "registry \<Rightarrow> runtime \<Rightarrow> health_status result" where
  "getGovernanceHealthStatus r rt =
     bind_result (collectGovernanceStartupInvariants r rt) (\<lambda>invs.
     bind_result (verifyReceiptAnchors rt) (\<lambda>anch.
       let chain = verifyReceiptChain rt; ledger = verifyReplayLedgerConsistency rt;
           reasons = map (\<lambda>i. target_name (target i) @ '': '' @ inv_message i) (filter (\<lambda>i. \<not> inv_ok i) invs)
             @ map (\<lambda>e. ''receipt_chain: '' @ e) (ver_errors chain)
             @ map (\<lambda>e. ''receipt_anchor: '' @ e) (ver_errors anch)
             @ map (\<lambda>e. ''replay_ledger: '' @ e) (ver_errors ledger)
       in Inr \<lparr>health_ok = (length reasons = 0), reasons = reasons, invariants = invs,
               receipt_chain_status = chain, receipt_anchors_status = anch,
               replay_ledger_status = ledger\<rparr>))"

subsection \<open>A registry from the disk\<close>

record compiled_options = load_options +
  registerSemanticValidators :: "bool option"

text \<open>The result, with the log and the validator cache that is left behind on every exit.\<close>

definition createRegistryFromCompiledCapabilities ::
  "schema_compiler \<Rightarrow> (string \<Rightarrow> bool) \<Rightarrow> string \<Rightarrow> node option \<Rightarrow> compiled_options \<Rightarrow> schema_cache
   \<Rightarrow> log_line list \<times> registry result \<times> schema_cache" where
  "createRegistryFromCompiledCapabilities ajv semver_valid capsDir tree opts cache =
     (case registerCapabilitiesFromDirectory ajv semver_valid capsDir tree (load_options.truncate opts)
             new_registry cache of
        (ls, Inl e, r, c) \<Rightarrow> (ls, Inl e, c)
      | (ls, Inr _, r, c) \<Rightarrow>
          (let r' = (if registerSemanticValidators opts \<noteq> Some False
                     then registerBuiltinSemanticValidators r else r)
           in (ls, bind_result (assertRegistryGovernanceInvariants r') (\<lambda>_. Inr r'), c)))"

definition createRegistryWithDefaultCapabilitiesRoot ::
  "schema_compiler \<Rightarrow> (string \<Rightarrow> bool) \<Rightarrow> (string list \<Rightarrow> string) \<Rightarrow> string option \<Rightarrow> string
   \<Rightarrow> (string \<Rightarrow> node option) \<Rightarrow> compiled_options \<Rightarrow> schema_cache
   \<Rightarrow> log_line list \<times> registry result \<times> schema_cache" where
  "createRegistryWithDefaultCapabilitiesRoot ajv semver_valid resolve_path env cwd disk opts cache =
     (let dir = resolveDefaultCapabilitiesRoot resolve_path env cwd
      in createRegistryFromCompiledCapabilities ajv semver_valid dir (disk dir) opts cache)"

text \<open>With the silent logger nothing is logged; the hash is always verified.\<close>

definition suggestedMembraneSnapshotPairs ::
  "(string \<Rightarrow> bool) \<Rightarrow> string \<Rightarrow> string option \<Rightarrow> (string \<Rightarrow> node option) \<Rightarrow> (string \<times> string) list result" where
  "suggestedMembraneSnapshotPairs semver_valid default_root capsDir disk =
     (let dir = (case capsDir of None \<Rightarrow> default_root | Some d \<Rightarrow> d)
      in bind_result (snd (loadDefinitionsFromCapabilitiesDirectory semver_valid dir (disk dir)
              \<lparr>verifyDefinitionHashFile = None\<rparr>))
           (\<lambda>ds. Inr (map (\<lambda>d. (capability d, version d)) ds)))"

end
