(* ===== verification/Disk_Properties.thy ===== *)
theory Disk_Properties
  imports Disk_Loader
begin

text \<open>
  The properties of the loader: a successful load returns exactly the bundles that are on the disk, each
  with the definition whose hash is pinned beside it, and serves exactly them.
\<close>

subsection \<open>What is on the disk\<close>

text \<open>
  \<open>holds_bundle\<close>: a folder with a definition, its pinned hash and its metadata. \<open>bundle_on_disk\<close>: such a
  folder at the place that the labels of the definition give it.
\<close>

definition holds_bundle :: "bool \<Rightarrow> entries \<Rightarrow> capability_bundle \<Rightarrow> bool" where
  "holds_bundle verify es b =
     (\<exists>text j mtext mj.
        map_of es ''definition.json'' = Some (File text) \<and> json_parse text = Some j \<and>
        parseDefinitionJson j = Inr (bundle_definition b) \<and>
        map_of es ''meta.json'' = Some (File mtext) \<and> json_parse mtext = Some mj \<and>
        parseCapabilityCompiledMeta mj = Inr (bundle_meta b) \<and>
        (verify \<longrightarrow> (\<exists>htext. map_of es ''definition.hash'' = Some (File htext) \<and>
           computeCapabilityDefinitionHash (bundle_definition b) = Inr (trim htext))))"

definition bundle_on_disk :: "bool \<Rightarrow> entries \<Rightarrow> capability_bundle \<Rightarrow> bool" where
  "bundle_on_disk verify tree b =
     (let d = bundle_definition b
      in \<exists>es. (capability d, Dir es) \<in> set tree \<and>
           (if existsDefJson es then holds_bundle verify es b
            else \<exists>vs. (version d, Dir vs) \<in> set es \<and> existsDefJson vs \<and> holds_bundle verify vs b))"

lemma read_or_Inr:
  "read_or e dir es name = Inr text \<longleftrightarrow> map_of es name = Some (File text)"
  by (auto simp: read_or_def readFile_def split: option.splits node.splits read_error.splits sum.splits)

lemma JSON_parse_Inr: "JSON_parse e text = Inr j \<longleftrightarrow> json_parse text = Some j"
  by (auto simp: JSON_parse_def split: option.split)

lemma readMeta_Inr:
  "readMetaFromDir dir es = Inr m \<longleftrightarrow>
     (\<exists>mtext mj. map_of es ''meta.json'' = Some (File mtext) \<and> json_parse mtext = Some mj \<and>
        parseCapabilityCompiledMeta mj = Inr m)"
  by (auto simp: readMetaFromDir_def read_or_Inr JSON_parse_Inr)

lemma readDefinition_Inr:
  "readDefinition dir es = Inr d \<longleftrightarrow>
     (\<exists>text j. map_of es ''definition.json'' = Some (File text) \<and> json_parse text = Some j \<and>
        parseDefinitionJson j = Inr d)"
  by (auto simp: readDefinition_def read_or_Inr JSON_parse_Inr)

lemma verified_hash_Inr:
  "verified_hash dir es d = Inr h \<Longrightarrow>
     computeCapabilityDefinitionHash d = Inr h \<and>
     (\<exists>htext. map_of es ''definition.hash'' = Some (File htext) \<and> h = trim htext)"
  by (auto simp: verified_hash_def read_or_Inr Let_def)

lemma readVerified_Inr:
  assumes "snd (readVerifiedDefinitionDir dir es verify) = Inr (d, hash)"
  shows "readDefinition dir es = Inr d \<and>
    (verify \<longrightarrow> (\<exists>htext. map_of es ''definition.hash'' = Some (File htext) \<and>
       computeCapabilityDefinitionHash d = Inr (trim htext)))"
  using assms verified_hash_Inr
  by (auto simp: readVerifiedDefinitionDir_def Let_def split: if_splits)

text \<open>What one folder adds to the walk.\<close>

definition adds :: "bool \<Rightarrow> entries \<Rightarrow> string \<Rightarrow> walk \<Rightarrow> walk \<Rightarrow> capability_bundle \<Rightarrow> bool" where
  "adds verify es cap st st' b =
     (holds_bundle verify es b \<and> capability (bundle_definition b) = cap \<and>
      bundle_key b \<notin> set (fst st) \<and> st' = (fst st @ [bundle_key b], snd st @ [b]))"

lemma add_bundle_Inr:
  assumes "snd (add_bundle dir es d st) = Inr st'"
  obtains m where "readMetaFromDir dir es = Inr m" "reg_key (capability d) (version d) \<notin> set (fst st)"
    "st' = (fst st @ [reg_key (capability d) (version d)], snd st @ [\<lparr>bundle_definition = d, bundle_meta = m\<rparr>])"
  using assms that by (auto simp: add_bundle_def Let_def split: if_splits)

lemma read_and_add:
  assumes "snd (readVerifiedDefinitionDir dir es verify) = Inr (d, hash)" "snd (add_bundle dir es d st) = Inr st'"
  obtains b where "adds verify es (capability d) st st' b" "bundle_definition b = d"
proof -
  from assms(2) obtain m where m: "readMetaFromDir dir es = Inr m"
    "reg_key (capability d) (version d) \<notin> set (fst st)"
    "st' = (fst st @ [reg_key (capability d) (version d)], snd st @ [\<lparr>bundle_definition = d, bundle_meta = m\<rparr>])"
    by (rule add_bundle_Inr)
  let ?b = "\<lparr>bundle_definition = d, bundle_meta = m\<rparr>"
  have "holds_bundle verify es ?b"
    using readVerified_Inr [OF assms(1)] m(1)
    unfolding readMeta_Inr readDefinition_Inr holds_bundle_def by auto
  then have "adds verify es (capability d) st st' ?b" using m(2,3) by (simp add: adds_def)
  then show ?thesis by (rule that) simp
qed

lemma load_flat_Inr:
  assumes "snd (load_flat verify capPath topName es st) = Inr st'"
  obtains b where "adds verify es topName st st' b"
  using assms by (auto simp: load_flat_def split: if_splits elim!: read_and_add)

lemma load_version_Inr:
  assumes "snd (load_version sv verify capPath topName ver st) = Inr st'"
  obtains b where "adds verify (snd ver) topName st st' b" "version (bundle_definition b) = fst ver"
  using assms by (auto simp: load_version_def Let_def split: if_splits elim!: read_and_add)

subsection \<open>The walk\<close>

lemma holds_bundle_unique:
  "holds_bundle verify es b \<Longrightarrow> holds_bundle verify es b' \<Longrightarrow> b = b'"
  by (auto simp: holds_bundle_def intro: capability_bundle.equality)

lemma version_folders_set:
  "version_folders es = Inr vs \<Longrightarrow> set vs = {(n, ns). (n, Dir ns) \<in> set es \<and> existsDefJson ns}"
  by (induction es arbitrary: vs rule: version_folders.induct) (auto split: if_splits)

definition extends :: "walk \<Rightarrow> walk \<Rightarrow> capability_bundle list \<Rightarrow> bool" where
  "extends st st' bs =
     (st' = (fst st @ map bundle_key bs, snd st @ bs) \<and> (distinct (fst st) \<longrightarrow> distinct (fst st')))"

lemma extends_refl: "extends st st []"
  by (simp add: extends_def)

lemma extends_trans: "extends st st1 bs \<Longrightarrow> extends st1 st2 bs' \<Longrightarrow> extends st st2 (bs @ bs')"
  unfolding extends_def by (elim conjE) (simp del: distinct_append)

lemma adds_extends: "adds verify es cap st st' b \<Longrightarrow> extends st st' [b]"
  unfolding adds_def extends_def by auto

text \<open>A walk over a list adds the bundles of its elements, each described by \<open>P\<close>.\<close>

lemma fold_logged_extends:
  assumes "\<And>x st st'. x \<in> set xs \<Longrightarrow> snd (f x st) = Inr st' \<Longrightarrow>
      \<exists>bs. extends st st' bs \<and> (\<forall>b. b \<in> set bs \<longleftrightarrow> P x b)"
    and "snd (fold_logged f xs st) = Inr st'"
  shows "\<exists>bs. extends st st' bs \<and> (\<forall>b. b \<in> set bs \<longleftrightarrow> (\<exists>x \<in> set xs. P x b))"
  using assms
proof (induction xs arbitrary: st)
  case Nil
  then show ?case using extends_refl by fastforce
next
  case (Cons x xs)
  from Cons.prems(2) obtain st1 where st1: "snd (f x st) = Inr st1" "snd (fold_logged f xs st1) = Inr st'"
    by auto
  from Cons.prems(1) [OF _ st1(1)] obtain bs where
    bs: "extends st st1 bs" "\<forall>b. b \<in> set bs \<longleftrightarrow> P x b" by auto
  from Cons.IH [OF Cons.prems(1) st1(2)] obtain bs' where
    "extends st1 st' bs'" "\<forall>b. b \<in> set bs' \<longleftrightarrow> (\<exists>x \<in> set xs. P x b)" by auto
  then show ?case using bs extends_trans [OF bs(1)] by (intro exI [of _ "bs @ bs'"]) auto
qed

definition top_bundle :: "bool \<Rightarrow> string \<times> node \<Rightarrow> capability_bundle \<Rightarrow> bool" where
  "top_bundle verify ent b =
     (let d = bundle_definition b
      in \<exists>es. ent = (capability d, Dir es) \<and>
           (if existsDefJson es then holds_bundle verify es b
            else \<exists>vs. (version d, Dir vs) \<in> set es \<and> existsDefJson vs \<and> holds_bundle verify vs b))"

lemma bundle_on_disk_top: "bundle_on_disk verify tree b \<longleftrightarrow> (\<exists>ent \<in> set tree. top_bundle verify ent b)"
  by (auto simp: bundle_on_disk_def top_bundle_def Let_def)

lemma load_top_Dir:
  assumes "snd (load_top sv verify root (topName, Dir es) st) = Inr st'"
  shows "\<exists>bs. extends st st' bs \<and> (\<forall>b. b \<in> set bs \<longleftrightarrow> top_bundle verify (topName, Dir es) b)"
proof -
  obtain vs where vs: "version_folders es = Inr vs"
    using assms by (auto simp: load_top_def Let_def split: sum.splits)
  show ?thesis
  proof (cases "existsDefJson es")
    case True
    then have "snd (load_flat verify (path_join root topName) topName es st) = Inr st'"
      using assms vs by (auto simp: load_top_def Let_def split: if_splits)
    then obtain b where b: "adds verify es topName st st' b" by (rule load_flat_Inr)
    have "\<forall>b'. b' \<in> set [b] \<longleftrightarrow> top_bundle verify (topName, Dir es) b'"
      using b True holds_bundle_unique unfolding adds_def top_bundle_def by auto
    then show ?thesis using adds_extends [OF b] by blast
  next
    case False
    let ?P = "\<lambda>ver b. fst ver = version (bundle_definition b) \<and> topName = capability (bundle_definition b) \<and>
        holds_bundle verify (snd ver) b"
    have walk: "snd (fold_logged (load_version sv verify (path_join root topName) topName) (sort_key fst vs) st)
        = Inr st'"
      using assms vs False by (simp add: load_top_def Let_def)
    have "\<exists>bs. extends st st' bs \<and> (\<forall>b. b \<in> set bs \<longleftrightarrow> (\<exists>ver \<in> set (sort_key fst vs). ?P ver b))"
    proof (rule fold_logged_extends [OF _ walk])
      fix ver st1 st2
      assume "snd (load_version sv verify (path_join root topName) topName ver st1) = Inr st2"
      then obtain b where b: "adds verify (snd ver) topName st1 st2 b" "version (bundle_definition b) = fst ver"
        by (rule load_version_Inr)
      have "\<forall>b'. b' \<in> set [b] \<longleftrightarrow> ?P ver b'"
        using b holds_bundle_unique unfolding adds_def by auto
      then show "\<exists>bs. extends st1 st2 bs \<and> (\<forall>b. b \<in> set bs \<longleftrightarrow> ?P ver b)"
        using adds_extends [OF b(1)] by blast
    qed
    then show ?thesis
      using False unfolding set_sort version_folders_set [OF vs] top_bundle_def by (fastforce simp: Let_def)
  qed
qed

lemma load_top_Inr:
  assumes "snd (load_top sv verify root ent st) = Inr st'"
  shows "\<exists>bs. extends st st' bs \<and> (\<forall>b. b \<in> set bs \<longleftrightarrow> top_bundle verify ent b)"
proof (cases "\<exists>es. snd ent = Dir es")
  case True
  then obtain n es where "ent = (n, Dir es)" by (metis prod.collapse)
  then show ?thesis using assms load_top_Dir by blast
next
  case False
  then have "st' = st" using assms by (auto simp: load_top_def Let_def split: node.splits)
  moreover have "\<not> top_bundle verify ent b" for b using False by (auto simp: top_bundle_def Let_def)
  ultimately show ?thesis using extends_refl by (intro exI [of _ "[]"]) auto
qed

lemma load_Inr:
  assumes "snd (loadCapabilityBundlesFromDirectory sv root (Some (Dir tree)) opts) = Inr bs"
  shows "(\<forall>b. b \<in> set bs \<longleftrightarrow> bundle_on_disk (verifyDefinitionHashFile opts \<noteq> Some False) tree b) \<and>
    distinct (map bundle_key bs)"
proof -
  let ?verify = "verifyDefinitionHashFile opts \<noteq> Some False"
  obtain st where walk: "snd (fold_logged (load_top sv ?verify root) (sort_key fst tree) ([], [])) = Inr st"
    and bs: "bs = snd st"
    using assms by (auto simp: loadCapabilityBundlesFromDirectory_def Let_def)
  from fold_logged_extends [where P = "top_bundle ?verify", OF _ walk] load_top_Inr obtain bs' where
    "extends ([], []) st bs'" "\<forall>b. b \<in> set bs' \<longleftrightarrow> (\<exists>ent \<in> set (sort_key fst tree). top_bundle ?verify ent b)"
    by blast
  then show ?thesis using bs by (auto simp: extends_def bundle_on_disk_top)
qed

lemma load_distinct:
  "snd (loadCapabilityBundlesFromDirectory sv root (Some (Dir tree)) opts) = Inr bs \<Longrightarrow> distinct (map bundle_key bs)"
  using load_Inr by blast

text \<open>C32: A load that succeeds returns exactly the capabilities that are on the disk: a bundle is in the result if
  and only if its folder, at the place its labels name, holds its definition and well-formed metadata and,
  unless verification is switched off, a hash file with the hash of that definition. No two bundles have
  the same key. So an edited definition, a missing hash or a bad \<open>meta.json\<close> is never loaded silently.\<close>

theorem load_returns_what_is_on_disk:
  assumes "snd (loadCapabilityBundlesFromDirectory sv root (Some (Dir tree)) opts) = Inr bs"
  shows "(\<forall>b. b \<in> set bs \<longleftrightarrow> bundle_on_disk (verifyDefinitionHashFile opts \<noteq> Some False) tree b) \<and>
    distinct (map bundle_key bs)"
  by (rule load_Inr [OF assms])

subsection \<open>A concrete directory\<close>

definition disk_definition_json :: json where
  "disk_definition_json = JObj
     [(''capability'', JStr ''zak.a''), (''version'', JStr ''1.0.0''),
      (''adapter'', JObj [(''key'', JStr ''k''), (''route'', JStr ''r'')]), (''input_schema'', JObj [])]"

definition disk_definition :: capability_definition where
  "disk_definition = \<lparr>capability = ''zak.a'', version = ''1.0.0'',
     adapter = \<lparr>adapter_key = ''k'', adapter_route = ''r''\<rparr>, input_schema = JObj [],
     description = None, tags = None\<rparr>"

definition disk_folder :: "string \<Rightarrow> entries" where
  "disk_folder h =
     [(''definition.hash'', File (h @ [CHR 0x0A])), (''definition.json'', File (json_print disk_definition_json)),
      (''meta.json'', File (json_print meta_example))]"

text \<open>A tree with one flat capability, and a file that the walk skips.\<close>

definition disk_tree :: "string \<Rightarrow> entries" where
  "disk_tree h = [(''README.md'', File ''text''), (''zak.a'', Dir (disk_folder h))]"

lemma tagged_hash_line: "hash_line_ok (''sha256:'' @ sha256Hex s)"
  using sha256Hex_format [of s] by (simp add: hash_line_ok_def)

lemma trim_hash_line: "hash_line_ok h \<Longrightarrow> trim (h @ [CHR 0x0A]) = h"
proof -
  assume h: "hash_line_ok h"
  then have len: "64 = length (drop 7 h)" and hex: "list_all is_hex (drop 7 h)"
    and pre: "starts_with ''sha256:'' h"
    by (simp_all add: hash_line_ok_def)
  then have ne: "h \<noteq> []" by auto
  have "last h \<in> set (drop 7 h)" using len by (metis drop_all last_drop last_in_set linorder_not_le list.size(3) zero_neq_numeral)
  then have "is_hex (last h)" using hex by (simp add: list_all_iff)
  then have last: "\<not> is_ws (last h)" by (auto simp: is_hex_def is_digit_def is_ws_def)
  have "hd h = CHR ''s''" using pre ne by (cases h) auto
  then have hd: "\<not> is_ws (hd h)" by (simp add: is_ws_def)
  have "dropWhile is_ws (h @ [CHR 0x0A]) = h @ [CHR 0x0A]" using ne hd by (cases h) auto
  moreover have "dropWhile is_ws (rev (h @ [CHR 0x0A])) = rev h"
    using ne last by (cases h rule: rev_cases) (simp_all add: is_ws_def)
  ultimately show ?thesis by (simp add: trim_def)
qed

lemma disk_definition_hash: "\<exists>h. computeCapabilityDefinitionHash disk_definition = Inr h \<and> hash_line_ok h"
  using tagged_hash_line
  by (simp add: computeCapabilityDefinitionHash_def stable_stringify_def disk_definition_def)

lemma disk_definition_plain: "json_plain disk_definition_json" "json_plain meta_example"
  by (simp_all add: disk_definition_json_def meta_example_def)

lemma reorder_examples: "reorder disk_definition_json = disk_definition_json" "reorder meta_example = meta_example"
  by (simp_all add: disk_definition_json_def meta_example_def set_all_same is_digit_def)

lemma disk_definition_reads: "parseDefinitionJson disk_definition_json = Inr disk_definition"
  by (simp add: disk_definition_json_def disk_definition_def parseDefinitionJson_def check_that_def is_record_def
      nonempty_string_def is_str_def the_str_def parsed_tags_def elements_def)

lemma disk_definition_labels [simp]:
  "capability disk_definition = ''zak.a''" "version disk_definition = ''1.0.0''"
  by (simp_all add: disk_definition_def)

lemma disk_load:
  assumes h: "computeCapabilityDefinitionHash disk_definition = Inr h" "hash_line_ok h"
  shows "snd (loadCapabilityBundlesFromDirectory sv dir (Some (Dir (disk_tree h))) \<lparr>verifyDefinitionHashFile = None\<rparr>)
    = Inr [\<lparr>bundle_definition = disk_definition, bundle_meta = meta_of_example\<rparr>]"
proof -
  have trim: "trim (h @ [CHR 0x0A]) = h" by (rule trim_hash_line [OF h(2)])
  have read: "readDefinition p (disk_folder h) = Inr disk_definition" for p
    unfolding readDefinition_Inr
    by (simp add: disk_folder_def json_parse_print disk_definition_plain reorder_examples disk_definition_reads)
  have hash: "verified_hash p (disk_folder h) disk_definition = Inr h" for p
    by (simp add: verified_hash_def disk_folder_def read_or_def readFile_def trim h check_that_def Let_def)
  have meta: "readMetaFromDir p (disk_folder h) = Inr meta_of_example" for p
    unfolding readMeta_Inr
    by (simp add: disk_folder_def json_parse_print disk_definition_plain reorder_examples parse_meta_example)
  have exists: "existsDefJson (disk_folder h)" by (simp add: existsDefJson_def disk_folder_def)
  have folders: "version_folders (disk_folder h) = Inr []" by (simp add: disk_folder_def)
  have "snd (load_top sv True dir (''zak.a'', Dir (disk_folder h)) ([], [])) =
      Inr ([reg_key ''zak.a'' ''1.0.0''], [\<lparr>bundle_definition = disk_definition, bundle_meta = meta_of_example\<rparr>])"
    by (simp add: load_top_def Let_def exists folders load_flat_def readVerifiedDefinitionDir_def read hash
        add_bundle_def meta)
  moreover have "snd (load_top sv True dir (''README.md'', File ''text'') st) = Inr st" for st
    by (simp add: load_top_def)
  moreover have "sort_key fst (disk_tree h) = disk_tree h" by (simp add: disk_tree_def)
  ultimately show ?thesis
    by (simp add: loadCapabilityBundlesFromDirectory_def disk_tree_def)
qed

theorem load_returns_what_is_on_disk_witness:
  "\<exists>h bs. snd (loadCapabilityBundlesFromDirectory (\<lambda>s. True) ''caps'' (Some (Dir (disk_tree h)))
      \<lparr>verifyDefinitionHashFile = None\<rparr>) = Inr bs \<and>
    (\<forall>b. b \<in> set bs \<longleftrightarrow> bundle_on_disk True (disk_tree h) b) \<and> distinct (map bundle_key bs) \<and> bs \<noteq> []"
proof -
  obtain h where h: "computeCapabilityDefinitionHash disk_definition = Inr h" "hash_line_ok h"
    using disk_definition_hash by blast
  note load = disk_load [OF h, of "\<lambda>s. True" "''caps''"]
  from load_returns_what_is_on_disk [OF load] show ?thesis
    using load by (intro exI [of _ h] exI) (rule conjI [OF load], simp)
qed

end
