(* ===== verification/Startup_Properties.thy ===== *)
theory Startup_Properties
  imports Complex_Main Startup Disk_Properties Execution_Properties
begin

text \<open>
  The properties of start-up: a registry that was created from the disk serves exactly the bundles of the
  load, and with a sound runtime it passes every start-up check and reports good health; and the range of
  values that the built-in semantic validators accept.
\<close>

subsection \<open>Registering the bundles\<close>

abbreviation entry_of :: "capability_bundle \<Rightarrow> string \<times> capability_definition" where
  "entry_of b \<equiv> (bundle_key b, bundle_definition b)"

abbreviation meta_entry_of :: "capability_bundle \<Rightarrow> string \<times> compiled_meta" where
  "meta_entry_of b \<equiv> (bundle_key b, bundle_meta b)"

lemma registerCapability_fresh:
  assumes "registerCapability ajv d r c = (res, r', c')" "reg_key (capability d) (version d) \<notin> fst ` set (byKey r)"
  shows "byKey r' = byKey r @ [(reg_key (capability d) (version d), d)]" "metaByKey r' = metaByKey r"
  using assms update_fresh [OF assms(2)]
  by (auto simp: registerCapability_def Let_def split: sum.splits)

lemma register_bundles_lists:
  assumes "register_bundles ajv bs r c = (Inr (), r', c')"
    and "distinct (map fst (byKey r) @ map bundle_key bs)" "map fst (metaByKey r) = map fst (byKey r)"
  shows "byKey r' = byKey r @ map entry_of bs \<and> metaByKey r' = metaByKey r @ map meta_entry_of bs"
  using assms
proof (induction bs arbitrary: r c)
  case Nil
  then show ?case by simp
next
  case (Cons b bs)
  let ?d = "bundle_definition b"
  obtain res r1 c1 where step: "registerCapability ajv ?d r c = (res, r1, c1)" by (metis prod_cases3)
  have fresh: "bundle_key b \<notin> fst ` set (byKey r)" using Cons.prems(2) by auto
  then have fresh_meta: "bundle_key b \<notin> fst ` set (metaByKey r)"
    using Cons.prems(3) by (metis list.set_map)
  note one = registerCapability_fresh [OF step fresh]
  let ?r1 = "registerCapabilityMeta (capability ?d) (version ?d) (bundle_meta b) r1"
  have meta: "byKey ?r1 = byKey r @ [entry_of b]" "metaByKey ?r1 = metaByKey r @ [meta_entry_of b]"
    using one update_fresh [OF fresh_meta] by (simp_all add: registerCapabilityMeta_def)
  have "register_bundles ajv bs ?r1 c1 = (Inr (), r', c')"
    using Cons.prems(1) step by (simp add: Let_def split: sum.splits)
  from Cons.IH [OF this] show ?case using Cons.prems(2,3) unfolding meta by auto
qed

lemma create_registry:
  assumes "createRegistryFromCompiledCapabilities ajv sv dir (Some (Dir tree)) opts cache = (ls, Inr r, c)"
  obtains bs where
    "snd (loadCapabilityBundlesFromDirectory sv dir (Some (Dir tree)) (load_options.truncate opts)) = Inr bs"
    "byKey r = map entry_of bs" "metaByKey r = map meta_entry_of bs"
    "assertRegistryGovernanceInvariants r = Inr ()"
proof -
  obtain ls' res where l: "loadCapabilityBundlesFromDirectory sv dir (Some (Dir tree)) (load_options.truncate opts)
      = (ls', res)" by fastforce
  with assms obtain bs where bs: "res = Inr bs"
    by (cases res) (simp_all add: createRegistryFromCompiledCapabilities_def registerCapabilitiesFromDirectory_def)
  obtain res1 r1 c1 where reg: "register_bundles ajv bs new_registry cache = (res1, r1, c1)" by (metis prod_cases3)
  with assms l bs have res1: "res1 = Inr ()"
    and r: "assertRegistryGovernanceInvariants r = Inr ()"
      "r = (if registerSemanticValidators opts \<noteq> Some False then registerBuiltinSemanticValidators r1 else r1)"
    by (auto simp: createRegistryFromCompiledCapabilities_def registerCapabilitiesFromDirectory_def Let_def
        split: sum.splits)
  have distinct: "distinct (map bundle_key bs)"
    using load_distinct [of sv dir tree "load_options.truncate opts" bs] l bs by simp
  have "register_bundles ajv bs new_registry cache = (Inr (), r1, c1)" using reg res1 by simp
  from register_bundles_lists [OF this] distinct have "byKey r1 = map entry_of bs" "metaByKey r1 = map meta_entry_of bs"
    by (simp_all add: new_registry_def)
  moreover have "byKey r = byKey r1" "metaByKey r = metaByKey r1"
    unfolding r(2) by (simp_all add: registerBuiltinSemanticValidators_def registerSemanticValidator_def)
  ultimately show ?thesis using that l bs r(1) by simp
qed

lemma map_result_unit_Inr:
  "map_result f xs = Inr us \<Longrightarrow> x \<in> set xs \<Longrightarrow> \<exists>u. f x = Inr u"
  by (induction xs arbitrary: us) auto

lemma assert_registry_iff:
  "assertRegistryGovernanceInvariants r = Inr () \<longleftrightarrow>
     (\<forall>d \<in> set (listCapabilities r). \<exists>m. getCapabilityMeta r (capability d) (version d) = Some m \<and>
        collectExecutionClassPolicyViolations m = [])"
proof
  assume "assertRegistryGovernanceInvariants r = Inr ()"
  then obtain us where "map_result (check_registered r) (listCapabilities r) = Inr us"
    by (auto simp: assertRegistryGovernanceInvariants_def)
  from map_result_unit_Inr [OF this] show "\<forall>d \<in> set (listCapabilities r).
      \<exists>m. getCapabilityMeta r (capability d) (version d) = Some m \<and> collectExecutionClassPolicyViolations m = []"
    by (fastforce simp: check_registered_def Let_def split: option.splits if_splits)
next
  assume "\<forall>d \<in> set (listCapabilities r). \<exists>m. getCapabilityMeta r (capability d) (version d) = Some m \<and>
      collectExecutionClassPolicyViolations m = []"
  then have "map_result (check_registered r) (listCapabilities r) = Inr (map (\<lambda>d. ()) (listCapabilities r))"
    by (intro map_result_all_ok) (fastforce simp: check_registered_def)
  then show "assertRegistryGovernanceInvariants r = Inr ()"
    by (simp add: assertRegistryGovernanceInvariants_def)
qed

subsection \<open>Start-up checks\<close>

lemma registered_invariants_ok:
  assumes "assertRegistryGovernanceInvariants r = Inr ()"
    and "\<And>m. collectExecutionClassPolicyViolations m = [] \<Longrightarrow> is_objectish (output_schema m)"
    and "d \<in> set (listCapabilities r)" "i \<in> set (registered_invariants r d)"
  shows "inv_ok i"
  using assms unfolding assert_registry_iff
  by (fastforce simp: registered_invariants_def Let_def)

lemma no_violations_schema:
  "collectExecutionClassPolicyViolations m = [] \<Longrightarrow> is_objectish (output_schema m)"
  by (auto simp: collectExecutionClassPolicyViolations_def output_schema_violations_def is_record_def
      is_objectish_def split: json.splits if_splits)

lemma runtime_ok_reports:
  assumes "runtime_ok rt"
  obtains invs anch where "startupInvariants rt = Inr invs" "\<forall>i \<in> set invs. inv_ok i"
    "verifyReceiptAnchors rt = Inr anch" "ver_errors anch = []"
    "ver_errors (verifyReceiptChain rt) = []" "ver_errors (verifyReplayLedgerConsistency rt) = []"
proof -
  from assertStartupInvariants_ok [OF assms] obtain invs where
    invs: "startupInvariants rt = Inr invs" "fail_on_first invs = Inr ()"
    by (auto simp: assertStartupInvariants_def)
  from invs(2) have ok: "\<forall>i \<in> set invs. inv_ok i"
    by (auto simp: fail_on_first_def find_None_iff split: option.splits)
  from invs(1) obtain anch where anch: "verifyReceiptAnchors rt = Inr anch"
    "anchors_invariant anch \<in> set invs" "chain_invariant (verifyReceiptChain rt) \<in> set invs"
    "ledger_invariant (verifyReplayLedgerConsistency rt) \<in> set invs"
    by (auto simp: startupInvariants_def)
  have "ver_ok anch" "ver_ok (verifyReceiptChain rt)" "ver_ok (verifyReplayLedgerConsistency rt)"
    using anch ok by (auto simp: anchors_invariant_def chain_invariant_def ledger_invariant_def)
  moreover have "ver_ok anch \<longleftrightarrow> ver_errors anch = []"
    using anch(1) by (auto simp: verifyReceiptAnchors_def Let_def split: if_splits)
  moreover have "ver_ok (verifyReceiptChain rt) \<longleftrightarrow> ver_errors (verifyReceiptChain rt) = []"
    by (simp add: verifyReceiptChain_def Let_def)
  moreover have "ver_ok (verifyReplayLedgerConsistency rt) \<longleftrightarrow> ver_errors (verifyReplayLedgerConsistency rt) = []"
    by (simp add: verifyReplayLedgerConsistency_def Let_def)
  ultimately show ?thesis using that [OF invs(1) ok anch(1)] by simp
qed

lemma healthy:
  assumes "assertRegistryGovernanceInvariants r = Inr ()" "runtime_ok rt"
  shows "assertGovernanceStartupInvariants r rt = Inr ()"
    and "\<exists>s. getGovernanceHealthStatus r rt = Inr s \<and> health_ok s \<and> reasons s = []"
proof -
  from runtime_ok_reports [OF assms(2)] obtain invs anch where
    rt: "startupInvariants rt = Inr invs" "\<forall>i \<in> set invs. inv_ok i"
    "verifyReceiptAnchors rt = Inr anch" "ver_errors anch = []"
    "ver_errors (verifyReceiptChain rt) = []" "ver_errors (verifyReplayLedgerConsistency rt) = []" by blast
  let ?invs = "invs @ concat (map (registered_invariants r) (listCapabilities r))"
  have all: "\<forall>i \<in> set ?invs. inv_ok i"
    using rt(2) registered_invariants_ok [OF assms(1) no_violations_schema] by auto
  have collect: "collectGovernanceStartupInvariants r rt = Inr ?invs"
    using rt(1) by (simp add: collectGovernanceStartupInvariants_def)
  have "find (\<lambda>i. \<not> inv_ok i) ?invs = None" unfolding find_None_iff using all by blast
  then show "assertGovernanceStartupInvariants r rt = Inr ()"
    using assms(1) collect by (simp add: assertGovernanceStartupInvariants_def fail_on_first_def)
  have "filter (\<lambda>i. \<not> inv_ok i) ?invs = []" unfolding filter_empty_conv using all by blast
  then show "\<exists>s. getGovernanceHealthStatus r rt = Inr s \<and> health_ok s \<and> reasons s = []"
    using collect rt by (simp add: getGovernanceHealthStatus_def Let_def)
qed

text \<open>C38: A registry that was created from the disk lists exactly the definitions of the bundles on the disk,
  each once and with its metadata, and together with a runtime in a sound state it passes all start-up
  checks and its health report is good, with no reason to complain.\<close>

theorem created_registry_is_complete_and_healthy:
  assumes "createRegistryFromCompiledCapabilities ajv sv dir (Some (Dir tree)) opts cache = (ls, Inr r, c)"
    and "runtime_ok rt"
  shows "(\<forall>d. d \<in> set (listCapabilities r) \<longleftrightarrow>
      (\<exists>b. bundle_on_disk (verifyDefinitionHashFile opts \<noteq> Some False) tree b \<and> bundle_definition b = d)) \<and>
    (\<forall>b. bundle_on_disk (verifyDefinitionHashFile opts \<noteq> Some False) tree b \<longrightarrow>
      getCapabilityMeta r (capability (bundle_definition b)) (version (bundle_definition b)) = Some (bundle_meta b)) \<and>
    distinct (map label (listCapabilities r)) \<and>
    assertGovernanceStartupInvariants r rt = Inr () \<and>
    (\<exists>s. getGovernanceHealthStatus r rt = Inr s \<and> health_ok s \<and> reasons s = [])"
proof -
  from assms(1) obtain bs where bs:
    "snd (loadCapabilityBundlesFromDirectory sv dir (Some (Dir tree)) (load_options.truncate opts)) = Inr bs"
    "byKey r = map entry_of bs" "metaByKey r = map meta_entry_of bs"
    "assertRegistryGovernanceInvariants r = Inr ()"
    by (rule create_registry)
  have on_disk: "b \<in> set bs \<longleftrightarrow> bundle_on_disk (verifyDefinitionHashFile opts \<noteq> Some False) tree b" for b
    using load_Inr [OF bs(1)] by (simp add: load_options.truncate_def)
  have distinct: "distinct (map bundle_key bs)" using load_distinct [OF bs(1)] .
  have list: "listCapabilities r = map bundle_definition bs"
    unfolding listCapabilities_def bs(2) by simp
  have "getCapabilityMeta r (capability (bundle_definition b)) (version (bundle_definition b)) = Some (bundle_meta b)"
    if "b \<in> set bs" for b
    unfolding getCapabilityMeta_def bs(3)
    by (rule filter_eq_unique) (use that distinct in \<open>auto simp: comp_def\<close>)
  moreover have "distinct (map label (listCapabilities r))"
    using distinct unfolding list by (simp add: label_def comp_def)
  moreover have "d \<in> set (listCapabilities r) \<longleftrightarrow> (\<exists>b \<in> set bs. bundle_definition b = d)" for d
    unfolding list by auto
  ultimately show ?thesis using healthy [OF bs(4) assms(2)] on_disk by auto
qed

lemma disk_create:
  assumes h: "computeCapabilityDefinitionHash disk_definition = Inr h" "hash_line_ok h"
  obtains ls r c where "createRegistryFromCompiledCapabilities toy_ajv (\<lambda>s. True) ''caps'' (Some (Dir (disk_tree h)))
    \<lparr>verifyDefinitionHashFile = None, registerSemanticValidators = None\<rparr> [] = (ls, Inr r, c)"
proof -
  let ?opts = "\<lparr>verifyDefinitionHashFile = None, registerSemanticValidators = None\<rparr>"
  have opts: "load_options.truncate ?opts = \<lparr>verifyDefinitionHashFile = None\<rparr>"
    by (simp add: load_options.truncate_def)
  obtain ls where load: "loadCapabilityBundlesFromDirectory (\<lambda>s. True) ''caps'' (Some (Dir (disk_tree h)))
      (load_options.truncate ?opts) = (ls, Inr [\<lparr>bundle_definition = disk_definition, bundle_meta = meta_of_example\<rparr>])"
    using disk_load [OF h, of "\<lambda>s. True" "''caps''"] unfolding opts by (metis prod.collapse)
  have "collectExecutionClassPolicyViolations meta_of_example = []"
    by (rule well_formed_no_violations [OF meta_example_wf])
  then show ?thesis
    using that load
    by (simp add: createRegistryFromCompiledCapabilities_def registerCapabilitiesFromDirectory_def
        registerCapability_def compileSchema_def toy_ajv_def disk_definition_def new_registry_def is_record_def
        set_add_def Let_def registerCapabilityMeta_def registerBuiltinSemanticValidators_def
        registerSemanticValidator_def assertRegistryGovernanceInvariants_def listCapabilities_def
        check_registered_def getCapabilityMeta_def)
qed

theorem created_registry_is_complete_and_healthy_witness:
  "\<exists>r. distinct (map label (listCapabilities r)) \<and>
    disk_definition \<in> set (listCapabilities r) \<and>
    assertGovernanceStartupInvariants r recorded_runtime = Inr () \<and>
    (\<exists>s. getGovernanceHealthStatus r recorded_runtime = Inr s \<and> health_ok s \<and> reasons s = [])"
proof -
  obtain h where h: "computeCapabilityDefinitionHash disk_definition = Inr h" "hash_line_ok h"
    using disk_definition_hash by blast
  obtain ls r c where create:
    "createRegistryFromCompiledCapabilities toy_ajv (\<lambda>s. True) ''caps'' (Some (Dir (disk_tree h)))
      \<lparr>verifyDefinitionHashFile = None, registerSemanticValidators = None\<rparr> [] = (ls, Inr r, c)"
    by (rule disk_create [OF h])
  have "bundle_on_disk True (disk_tree h) \<lparr>bundle_definition = disk_definition, bundle_meta = meta_of_example\<rparr>"
    using load_Inr [OF disk_load [OF h, of "\<lambda>s. True" "''caps''"]] by auto
  then show ?thesis
    using created_registry_is_complete_and_healthy [OF create gov_reach_ok [OF recorded_reach]]
    by (intro exI [of _ r]) force
qed

subsection \<open>The built-in validators\<close>

text \<open>The number that a decimal denotes.\<close>

fun num_value :: "jsnum \<Rightarrow> rat option" where
  "num_value NumNaN = None"
| "num_value (NumInf neg) = None"
| "num_value NumNegZero = Some 0"
| "num_value (NumDec m e) = Some (of_int m * 10 powi e)"

lemma dec_less_iff: "dec_less m e m' e' \<longleftrightarrow> (of_int m :: rat) * 10 powi e < of_int m' * 10 powi e'"
proof -
  let ?k = "min e e'"
  have split: "(10 :: rat) powi x = 10 ^ nat (x - ?k) * 10 powi ?k" if "?k \<le> x" for x
    using that power_int_add [of "10 :: rat" "x - ?k" ?k] by (simp add: power_int_def)
  have pos: "(0 :: rat) < 10 powi ?k" by simp
  have "dec_less m e m' e' \<longleftrightarrow>
      (of_int (m * 10 ^ nat (e - ?k)) :: rat) < of_int (m' * 10 ^ nat (e' - ?k))"
    unfolding of_int_less_iff dec_less_def ..
  also have "\<dots> \<longleftrightarrow> (of_int m :: rat) * (10 ^ nat (e - ?k) * 10 powi ?k)
      < of_int m' * (10 ^ nat (e' - ?k) * 10 powi ?k)"
    using pos mult_less_cancel_right_pos [OF pos] by (simp add: mult.assoc [symmetric])
  finally show ?thesis using split [of e] split [of e'] by simp
qed

lemma num_below_iff: "num_value n = Some q \<Longrightarrow> num_below n k \<longleftrightarrow> q < of_int k"
  by (cases n) (auto simp: dec_less_iff)

lemma num_above_iff: "num_value n = Some q \<Longrightarrow> num_above n k \<longleftrightarrow> of_int k < q"
  by (cases n) (auto simp: dec_less_iff)

lemma finite_value: "is_finite n \<longleftrightarrow> (\<exists>q. num_value n = Some q)"
  by (cases n) (auto simp: is_finite_def)

lemma integer_value:
  assumes "is_integer n"
  obtains k where "num_value n = Some (of_int k)"
proof (cases n)
  case (NumDec m e)
  then have "num_value n = Some (of_int (m * 10 ^ nat e))"
    using assms by (simp add: is_integer_def power_int_def)
  then show ?thesis by (rule that)
next
  case NumNegZero
  then show ?thesis using that [of 0] by simp
qed (use assms in \<open>simp_all add: is_integer_def\<close>)

text \<open>The semantic validator of \<open>hai.particle.update\<close> 2.0.0 accepts an input only when \<open>attributes.revision\<close> is
  an integer between 0 and 1000000 and \<open>attributes.hue\<close>, when it is there, is a number between 0 and 1.\<close>

theorem particle_update_v2_bounds:
  assumes "sem_valid (semanticParticleUpdateV2 input)"
  shows "\<exists>n k. fld (fld input ''attributes'') ''revision'' = JNum n \<and> num_value n = Some (of_int k) \<and>
    0 \<le> k \<and> k \<le> 1000000 \<and>
    (if has_own (fld input ''attributes'') ''hue''
     then \<exists>h q. fld (fld input ''attributes'') ''hue'' = JNum h \<and> num_value h = Some q \<and> 0 \<le> q \<and> q \<le> 1
     else True)"
proof -
  from assms obtain n where n: "fld (fld input ''attributes'') ''revision'' = JNum n" "is_integer n"
    "\<not> num_below n 0" "\<not> num_above n 1000000"
    by (auto simp: semanticParticleUpdateV2_def Let_def sem_fail_def split: if_splits json.splits)
  obtain k where k: "num_value n = Some (of_int k)" by (rule integer_value [OF n(2)])
  then have range: "0 \<le> k" "k \<le> 1000000"
    using n(3,4) num_below_iff [OF k, of 0] num_above_iff [OF k, of 1000000] by simp_all
  have "\<exists>h q. fld (fld input ''attributes'') ''hue'' = JNum h \<and> num_value h = Some q \<and> 0 \<le> q \<and> q \<le> 1"
    if own: "has_own (fld input ''attributes'') ''hue''"
  proof -
    from assms own n(1) obtain h where h: "fld (fld input ''attributes'') ''hue'' = JNum h" "is_finite h"
      "\<not> num_below h 0" "\<not> num_above h 1"
      by (auto simp: semanticParticleUpdateV2_def Let_def sem_fail_def split: if_splits json.splits)
    then obtain q where q: "num_value h = Some q" by (auto simp: finite_value)
    then show ?thesis
      using h num_below_iff [OF q, of 0] num_above_iff [OF q, of 1] by (auto simp: not_less)
  qed
  then show ?thesis using n(1) k range by auto
qed

theorem particle_update_v2_bounds_witness:
  "let input = JObj [(''attributes'', JObj [(''revision'', JNum (NumDec 12 0)), (''hue'', JNum (NumDec 5 (-1)))])]
   in \<exists>n k. fld (fld input ''attributes'') ''revision'' = JNum n \<and> num_value n = Some (of_int k) \<and>
    0 \<le> k \<and> k \<le> 1000000 \<and>
    (if has_own (fld input ''attributes'') ''hue''
     then \<exists>h q. fld (fld input ''attributes'') ''hue'' = JNum h \<and> num_value h = Some q \<and> 0 \<le> q \<and> q \<le> 1
     else True)"
  unfolding Let_def
  by (rule particle_update_v2_bounds)
    (simp add: semanticParticleUpdateV2_def is_objectish_def is_integer_def dec_less_def has_own_def
      is_finite_def sem_ok_def)

end
