(* ===== verification/JSON_Pretty.thy ===== *)
theory JSON_Pretty
  imports JSON_Text
begin

text \<open>
  \<open>JSON.stringify(value, null, 2)\<close>, its use in \<open>capability-compiler/src/pretty-json.ts\<close>, and the round
  trip: what it prints is read back by \<open>JSON.parse\<close>.
\<close>

definition newline :: "string \<Rightarrow> string" where
  "newline ind = CHR 0x0A # ind"

definition gap :: string where
  "gap = ''  ''"

text \<open>The items of an array or object on lines of their own between two brackets.\<close>

definition block :: "char \<Rightarrow> char \<Rightarrow> string \<Rightarrow> string list \<Rightarrow> string" where
  "block opening closing ind items =
     (if items = [] then [opening, closing]
      else opening # newline (ind @ gap) @ join ('','' @ newline (ind @ gap)) items @ newline ind @ [closing])"

fun json_pretty :: "string \<Rightarrow> json \<Rightarrow> string"
  and pretty_elems :: "string \<Rightarrow> json list \<Rightarrow> string list"
  and pretty_members :: "string \<Rightarrow> (string \<times> json) list \<Rightarrow> string list" where
  "json_pretty ind (JArr xs) = block (CHR ''['') (CHR '']'') ind (pretty_elems (ind @ gap) xs)"
| "json_pretty ind (JObj kvs) = block (CHR ''{'') (CHR ''}'') ind (pretty_members (ind @ gap) kvs)"
| "json_pretty ind v = json_print v"
| "pretty_elems ind [] = []"
| "pretty_elems ind (x # xs) = (if x = JUndef then ''null'' else json_pretty ind x) # pretty_elems ind xs"
| "pretty_members ind [] = []"
| "pretty_members ind ((k, v) # kvs) =
     (if v = JUndef then pretty_members ind kvs
      else (quote k @ '': '' @ json_pretty ind v) # pretty_members ind kvs)"

definition json_stringify_pretty :: "json \<Rightarrow> string result" where
  "json_stringify_pretty v = (if has_bigint v then Inl bigint_error else Inr (json_pretty [] v))"

text \<open>The file \<open>pretty-json.ts\<close>, which declares \<open>sortKeysDeep\<close> again.\<close>

definition pretty_sortKeysDeep :: "json \<Rightarrow> json" where
  "pretty_sortKeysDeep v = sort_keys_deep v"

definition stringifySortedPretty :: "json \<Rightarrow> string result" where
  "stringifySortedPretty v =
     bind_result (json_stringify_pretty (pretty_sortKeysDeep v)) (\<lambda>s. Inr (s @ [CHR 0x0A]))"

subsection \<open>Round trip\<close>

definition blank :: "string \<Rightarrow> bool" where
  "blank w = list_all json_ws w"

lemma blank_simps [simp]:
  "blank []" "blank (c # w) = (json_ws c \<and> blank w)" "blank (v @ w) = (blank v \<and> blank w)"
  "blank gap" "blank (newline w) = blank w"
  by (simp_all add: blank_def gap_def newline_def)

lemma skip_blank [simp]: "blank w \<Longrightarrow> skip_ws (w @ r) = skip_ws r"
  by (induction w) (auto simp: blank_def skip_ws_def)

lemma skip_newline [simp]: "blank w \<Longrightarrow> skip_ws (newline w @ r) = skip_ws r"
  by (rule skip_blank) simp

lemma parse_elems_skip: "parse_elems f (skip_ws s) = parse_elems f s"
  by (cases f) simp_all

lemma parse_members_skip: "parse_members f (skip_ws s) = parse_members f s"
  by (cases f) simp_all

lemma plain_pretty_elems: "plain_elems xs \<Longrightarrow> pretty_elems ind xs = map (json_pretty ind) xs"
  by (induction xs) auto

abbreviation pretty_member :: "string \<Rightarrow> string \<times> json \<Rightarrow> string" where
  "pretty_member ind p \<equiv> quote (fst p) @ '': '' @ json_pretty ind (snd p)"

lemma plain_pretty_members: "plain_members kvs \<Longrightarrow> pretty_members ind kvs = map (pretty_member ind) kvs"
  by (induction kvs) auto

lemma pretty_arr_shape:
  "plain_elems xs \<Longrightarrow> json_pretty ind (JArr xs) = block (CHR ''['') (CHR '']'') ind (map (json_pretty (ind @ gap)) xs)"
  by (simp add: plain_pretty_elems)

lemma pretty_obj_shape:
  "plain_members kvs \<Longrightarrow>
     json_pretty ind (JObj kvs) = block (CHR ''{'') (CHR ''}'') ind (map (pretty_member (ind @ gap)) kvs)"
  by (simp add: plain_pretty_members)

lemma json_pretty_head:
  assumes "json_plain v"
  obtains c r where "json_pretty ind v = c # r" "code c \<notin> {9, 10, 13, 32, 44, 58, 93, 125}"
proof -
  have print: "\<exists>c r. json_print v = c # r \<and> code c \<notin> {9, 10, 13, 32, 44, 58, 93, 125}"
    by (rule json_print_head [OF assms]) blast
  have "\<exists>c r. json_pretty ind v = c # r \<and> code c \<notin> {9, 10, 13, 32, 44, 58, 93, 125}"
  proof (cases v)
    case (JArr xs)
    then show ?thesis by (simp add: block_def)
  next
    case (JObj kvs)
    then show ?thesis by (simp add: block_def)
  qed (use print in auto)
  then show ?thesis using that by blast
qed

lemma skip_pretty: "json_plain v \<Longrightarrow> skip_ws (json_pretty ind v @ r) = json_pretty ind v @ r"
  by (erule json_pretty_head [of v ind]) (simp add: skip_ws_def)

definition pretty_back :: "json \<Rightarrow> bool" where
  "pretty_back v = (\<forall>ind f r. blank ind \<longrightarrow> num_stop r \<longrightarrow> 2 * length (json_pretty ind v @ r) < f \<longrightarrow>
     parse_value f (json_pretty ind v @ r) = Some (reorder v, r))"

lemma pretty_backD:
  "pretty_back v \<Longrightarrow> blank ind \<Longrightarrow> num_stop r \<Longrightarrow> 2 * length (json_pretty ind v @ r) < f \<Longrightarrow>
   parse_value f (json_pretty ind v @ r) = Some (reorder v, r)"
  by (simp add: pretty_back_def)

lemma num_stop_newline [simp]: "num_stop (newline w @ r)"
  by (simp add: newline_def is_digit_def)

lemma parse_elems_pretty:
  assumes "\<forall>x \<in> set xs. json_plain x \<and> pretty_back x" and "xs \<noteq> []" "blank ind" "blank w"
    and "2 * length (join ('','' @ newline ind) (map (json_pretty ind) xs) @ newline w @ CHR '']'' # r) + 1 < f"
  shows "parse_elems f (join ('','' @ newline ind) (map (json_pretty ind) xs) @ newline w @ CHR '']'' # r)
    = Some (map reorder xs, r)"
  using assms
proof (induction xs arbitrary: f)
  case Nil
  then show ?case by simp
next
  case (Cons x xs)
  obtain g where f: "f = Suc g" using Cons.prems by (cases f) auto
  have x: "json_plain x" "pretty_back x" using Cons.prems by auto
  show ?case
  proof (cases xs)
    case Nil
    have "parse_value g (json_pretty ind x @ newline w @ CHR '']'' # r) = Some (reorder x, newline w @ CHR '']'' # r)"
      using Cons.prems Nil f by (intro pretty_backD [OF x(2)]) auto
    then show ?thesis using Cons.prems by (simp add: f Nil skip_pretty [OF x(1)])
  next
    case (Cons y ys)
    let ?rest = "join ('','' @ newline ind) (map (json_pretty ind) xs) @ newline w @ CHR '']'' # r"
    have shape: "join ('','' @ newline ind) (map (json_pretty ind) (x # xs)) @ newline w @ CHR '']'' # r
        = json_pretty ind x @ CHR '','' # newline ind @ ?rest"
      by (simp add: Cons)
    have "parse_value g (json_pretty ind x @ CHR '','' # newline ind @ ?rest)
        = Some (reorder x, CHR '','' # newline ind @ ?rest)"
      using Cons.prems Cons f by (intro pretty_backD [OF x(2)]) (auto simp: is_digit_def)
    moreover have "parse_elems g ?rest = Some (map reorder xs, r)"
      using Cons.prems f Cons by (intro Cons.IH) auto
    then have "parse_elems g (newline ind @ ?rest) = Some (map reorder xs, r)"
      using Cons.prems(3) parse_elems_skip [of g "newline ind @ ?rest"] parse_elems_skip [of g ?rest] by simp
    ultimately show ?thesis unfolding shape by (simp add: f skip_pretty [OF x(1)])
  qed
qed

lemma parse_members_pretty:
  assumes "\<forall>p \<in> set kvs. json_plain (snd p) \<and> pretty_back (snd p)" and "kvs \<noteq> []" "blank ind" "blank w"
    and "2 * length (join ('','' @ newline ind) (map (pretty_member ind) kvs) @ newline w @ CHR ''}'' # r) + 1 < f"
  shows "parse_members f (join ('','' @ newline ind) (map (pretty_member ind) kvs) @ newline w @ CHR ''}'' # r)
    = Some (map_vals reorder kvs, r)"
  using assms
proof (induction kvs arbitrary: f)
  case Nil
  then show ?case by simp
next
  case (Cons p kvs)
  obtain g where f: "f = Suc g" using Cons.prems by (cases f) auto
  have p: "json_plain (snd p)" "pretty_back (snd p)" using Cons.prems by auto
  have key: "skip_ws (quote (fst p) @ u) = CHR 0x22 # tl (quote (fst p)) @ u" for u
    by (subst quote_hd) simp
  have space: "skip_ws (CHR '' '' # u) = skip_ws u" for u by (simp add: skip_ws_def)
  show ?case
  proof (cases kvs)
    case Nil
    have "parse_value g (json_pretty ind (snd p) @ newline w @ CHR ''}'' # r)
        = Some (reorder (snd p), newline w @ CHR ''}'' # r)"
      using Cons.prems Nil f by (intro pretty_backD [OF p(2)]) auto
    then show ?thesis
      using Cons.prems by (simp add: f Nil key space parse_chars_quoted skip_pretty [OF p(1)])
  next
    case (Cons q ys)
    let ?rest = "join ('','' @ newline ind) (map (pretty_member ind) kvs) @ newline w @ CHR ''}'' # r"
    have shape: "join ('','' @ newline ind) (map (pretty_member ind) (p # kvs)) @ newline w @ CHR ''}'' # r
        = quote (fst p) @ CHR '':'' # CHR '' '' # json_pretty ind (snd p) @ CHR '','' # newline ind @ ?rest"
      by (simp add: Cons)
    have "parse_value g (json_pretty ind (snd p) @ CHR '','' # newline ind @ ?rest)
        = Some (reorder (snd p), CHR '','' # newline ind @ ?rest)"
      using Cons.prems Cons f by (intro pretty_backD [OF p(2)]) (auto simp: is_digit_def)
    moreover have "parse_members g ?rest = Some (map_vals reorder kvs, r)"
      using Cons.prems f Cons by (intro Cons.IH) auto
    then have "parse_members g (newline ind @ ?rest) = Some (map_vals reorder kvs, r)"
      using Cons.prems(3) parse_members_skip [of g "newline ind @ ?rest"] parse_members_skip [of g ?rest] by simp
    ultimately show ?thesis
      unfolding shape by (simp add: f key space parse_chars_quoted skip_pretty [OF p(1)])
  qed
qed

lemma pretty_back_arr:
  assumes IH: "\<And>x. x \<in> set xs \<Longrightarrow> pretty_back x" and plain: "plain_elems xs"
  shows "pretty_back (JArr xs)"
proof (unfold pretty_back_def, intro allI impI)
  fix ind f r
  assume ind: "blank ind" and fuel: "2 * length (json_pretty ind (JArr xs) @ r) < f"
  then obtain g where f: "f = Suc g" by (cases f) auto
  let ?in = "ind @ gap"
  let ?body = "join ('','' @ newline ?in) (map (json_pretty ?in) xs) @ newline ind @ CHR '']'' # r"
  show "parse_value f (json_pretty ind (JArr xs) @ r) = Some (reorder (JArr xs), r)"
  proof (cases xs)
    case Nil
    then show ?thesis by (simp add: f block_def)
  next
    case (Cons y ys)
    have shape: "json_pretty ind (JArr xs) @ r = CHR ''['' # newline ?in @ ?body"
      unfolding pretty_arr_shape [OF plain] block_def using Cons by simp
    have "json_plain y" using plain Cons by simp
    then obtain c t where c: "json_pretty ?in y = c # t" "code c \<notin> {9, 10, 13, 32, 44, 58, 93, 125}"
      by (rule json_pretty_head)
    obtain u where u: "?body = c # u"
      using join_head [of "map (json_pretty ?in) xs" c t "'','' @ newline ?in"] Cons c by auto
    have "parse_elems g ?body = Some (map reorder xs, r)"
      using IH plain Cons fuel f ind unfolding shape
      by (intro parse_elems_pretty) (auto simp: plain_elems_all)
    then have "parse_elems g (c # u) = Some (map reorder xs, r)" unfolding u .
    moreover have "skip_ws (newline ?in @ c # u) = c # u" using ind c(2) by simp
    ultimately show ?thesis
      using c(2) unfolding shape f u by (simp add: reorder_elems_map)
  qed
qed

lemma pretty_back_obj:
  assumes IH: "\<And>p. p \<in> set kvs \<Longrightarrow> pretty_back (snd p)" and plain: "plain_members kvs"
  shows "pretty_back (JObj kvs)"
proof (unfold pretty_back_def, intro allI impI)
  fix ind f r
  assume ind: "blank ind" and fuel: "2 * length (json_pretty ind (JObj kvs) @ r) < f"
  then obtain g where f: "f = Suc g" by (cases f) auto
  let ?in = "ind @ gap"
  let ?body = "join ('','' @ newline ?in) (map (pretty_member ?in) kvs) @ newline ind @ CHR ''}'' # r"
  show "parse_value f (json_pretty ind (JObj kvs) @ r) = Some (reorder (JObj kvs), r)"
  proof (cases kvs)
    case Nil
    then show ?thesis by (simp add: f set_all_def block_def)
  next
    case (Cons q ys)
    have shape: "json_pretty ind (JObj kvs) @ r = CHR ''{'' # newline ?in @ ?body"
      unfolding pretty_obj_shape [OF plain] block_def using Cons by simp
    have "pretty_member ?in q = CHR 0x22 # tl (quote (fst q)) @ '': '' @ json_pretty ?in (snd q)"
      by (subst quote_hd) simp
    then have "hd (map (pretty_member ?in) kvs) = CHR 0x22 # tl (quote (fst q)) @ '': '' @ json_pretty ?in (snd q)"
      by (simp only: Cons list.map list.sel)
    then have "\<exists>u. join ('','' @ newline ?in) (map (pretty_member ?in) kvs) = CHR 0x22 # u"
      using join_head Cons by blast
    then obtain u where u: "?body = CHR 0x22 # u" by auto
    have "parse_members g ?body = Some (map_vals reorder kvs, r)"
      using IH plain Cons fuel f ind unfolding shape
      by (intro parse_members_pretty) (auto simp: plain_members_all)
    then have "parse_members g (CHR 0x22 # u) = Some (map_vals reorder kvs, r)" unfolding u .
    moreover have "skip_ws (newline ?in @ CHR 0x22 # u) = CHR 0x22 # u" using ind by simp
    ultimately show ?thesis
      unfolding shape f u by (simp add: reorder_members_map)
  qed
qed

lemma pretty_back_atom:
  assumes "\<And>ind. json_pretty ind v = json_print v" "json_plain v"
  shows "pretty_back v"
  using reads_back_print [OF assms(2)] by (simp add: pretty_back_def reads_back_def assms(1))

lemma pretty_back_print: "json_plain v \<Longrightarrow> pretty_back v"
proof (induction v rule: json_members_induct)
  case (Arr xs)
  then show ?case by (intro pretty_back_arr) (auto simp: plain_elems_all)
next
  case (Obj kvs)
  then show ?case by (intro pretty_back_obj) (auto simp: plain_members_all)
qed (simp_all add: pretty_back_atom)

lemma json_parse_pretty:
  assumes "json_plain v" "blank w"
  shows "json_parse (json_pretty [] v @ w) = Some (reorder v)"
proof -
  have "num_stop w"
    using assms(2) by (cases w) (auto simp: num_stop_def is_digit_def)
  then have "parse_value (2 * length (json_pretty [] v @ w) + 2) (json_pretty [] v @ w) = Some (reorder v, w)"
    by (intro pretty_backD [OF pretty_back_print [OF assms(1)]]) simp_all
  moreover have "skip_ws w = []" using skip_blank [OF assms(2), of "[]"] by (simp add: skip_ws_def)
  ultimately show ?thesis by (simp add: json_parse_def skip_pretty [OF assms(1)])
qed

end
