(* ===== verification/Worksheet.thy ===== *)
theory Worksheet
  imports Registry JSON_Pretty
begin

text \<open>
  Worksheets: \<open>capability-compiler/src/normalize.ts\<close>, \<open>output-schema.ts\<close>, \<open>validate.ts\<close>, \<open>compile-def.ts\<close>
  and \<open>meta.ts\<close>. A worksheet is the value that the YAML parser returns. \<open>compiler_host\<close> collects the external
  functions: \<open>semver.valid\<close>, the Ajv compiler (both instances have the same options), Ajv's \<open>errorsText\<close>,
  and the YAML parser and printer. A dash of the messages that is outside the modelled characters is
  written as a hyphen.
\<close>

record compiler_host =
  semver_valid :: "string \<Rightarrow> bool"
  ajv_compile :: schema_compiler
  errorsText :: "ajv_error list option \<Rightarrow> string"
  parseYaml :: "string \<Rightarrow> json result"
  stringifyYaml :: "json \<Rightarrow> string"

subsection \<open>Normalisation\<close>

fun trimDeep :: "json \<Rightarrow> json"
  and trim_elems :: "json list \<Rightarrow> json list"
  and trim_members :: "(string \<times> json) list \<Rightarrow> (string \<times> json) list" where
  "trimDeep (JStr s) = JStr (trim s)"
| "trimDeep (JArr xs) = JArr (trim_elems xs)"
| "trimDeep (JObj kvs) = JObj (assign_all (sort_key fst (trim_members kvs)))"
| "trimDeep v = v"
| "trim_elems [] = []"
| "trim_elems (x # xs) = trimDeep x # trim_elems xs"
| "trim_members [] = []"
| "trim_members ((k, v) # kvs) = (k, trimDeep v) # trim_members kvs"

definition normalizeCapabilityId :: "string \<Rightarrow> string" where
  "normalizeCapabilityId raw = to_lower (trim raw)"

definition normalizeAdapterField :: "string \<Rightarrow> string" where
  "normalizeAdapterField raw = trim raw"

text \<open>The same function as in \<open>enforcement.ts\<close>, declared again.\<close>

definition normalize_sortKeysDeep :: "json \<Rightarrow> json" where
  "normalize_sortKeysDeep v = sort_keys_deep v"

definition normalizeWorksheetTree :: "json \<Rightarrow> json" where
  "normalizeWorksheetTree v = normalize_sortKeysDeep (trimDeep v)"

subsection \<open>Output schema\<close>

definition shorthand_types :: "string list" where
  "shorthand_types = [''string'', ''number'', ''integer'', ''boolean'', ''object'', ''array'']"

fun shorthand_props :: "(string \<times> json) list \<Rightarrow> (string \<times> json) list \<Rightarrow> (string \<times> json) list result" where
  "shorthand_props [] props = Inr props"
| "shorthand_props ((k, v) # kvs) props =
     (case v of
        JStr s \<Rightarrow>
          (let t = to_lower (trim s)
           in if t \<in> set shorthand_types
              then shorthand_props kvs (obj_assign k (JObj [(''type'', JStr t)]) props)
              else Inl (''output_schema shorthand \"'' @ k @ ''\": unknown type \"'' @ s
                        @ ''\" (use string|number|integer|boolean|object|array)''))
      | _ \<Rightarrow> Inl (''output_schema field \"'' @ k
                  @ ''\" must be a type string or use full JSON Schema on output_schema root''))"

definition coerceOutputSchema :: "json \<Rightarrow> json result" where
  "coerceOutputSchema raw =
     (case raw of
        JObj kvs \<Rightarrow>
          if is_str (fld raw ''type'') then Inr raw
          else bind_result (shorthand_props kvs []) (\<lambda>props.
            Inr (JObj [(''type'', JStr ''object''), (''properties'', JObj props),
                       (''additionalProperties'', JBool False)]))
      | _ \<Rightarrow> Inl ''output_schema must be a mapping or JSON Schema object'')"

subsection \<open>Validation\<close>

text \<open>\<open>ws_golden_output\<close> is \<open>JUndef\<close> when there is none, and so are the fields of the other classes.\<close>

record worksheet =
  ws_capability :: string
  ws_version :: string
  ws_adapter :: adapter_binding
  ws_execution_class :: string
  ws_authority_requirements :: string
  ws_input_schema :: json
  ws_output_schema :: json
  ws_golden_input :: json
  ws_golden_output :: json
  ws_description :: "string option"
  ws_tags :: "string list option"
  ws_side_effect_tier :: json
  ws_idempotency :: json
  ws_replay_behavior :: json
  ws_async_model :: json
  ws_job_id_field :: json
  ws_partial_receipt :: json

definition is_lower :: "char \<Rightarrow> bool" where
  "is_lower c = (97 \<le> code c \<and> code c \<le> 122)"

definition word_char :: "char \<Rightarrow> bool" where
  "word_char c = (is_lower c \<or> is_digit c \<or> c = CHR ''_'' \<or> c = CHR ''.'')"

definition CAPABILITY_RE :: "string \<Rightarrow> bool" where
  "CAPABILITY_RE s =
     ((starts_with ''hai.'' s \<or> starts_with ''zak.'' s) \<and>
      (case drop 4 s of [] \<Rightarrow> False | c # cs \<Rightarrow> is_lower c \<and> list_all word_char cs))"

definition ADAPTER_KEY_RE :: "string \<Rightarrow> bool" where
  "ADAPTER_KEY_RE s =
     (case s of [] \<Rightarrow> False
      | c # cs \<Rightarrow> is_lower c \<and> list_all (\<lambda>d. is_lower d \<or> is_digit d \<or> d = CHR ''-'') cs)"

definition ROUTE_RE :: "string \<Rightarrow> bool" where
  "ROUTE_RE s = (case s of [] \<Rightarrow> False | c # cs \<Rightarrow> is_lower c \<and> list_all word_char cs)"

definition TOP_KEYS :: "string list" where
  "TOP_KEYS =
     [''capability'', ''version'', ''adapter'', ''execution_class'', ''authority_requirements'',
      ''input_schema'', ''output_schema'', ''golden'', ''description'', ''tags'', ''side_effect_tier'',
      ''idempotency'', ''replay_behavior'', ''async_model'', ''job_id_field'', ''partial_receipt'']"

definition err_if :: "bool \<Rightarrow> string \<Rightarrow> string list" where
  "err_if b e = (if b then [e] else [])"

lemma err_if_Nil [simp]: "err_if b e = [] \<longleftrightarrow> \<not> b"
  by (simp add: err_if_def)

definition str_ok :: "(string \<Rightarrow> bool) \<Rightarrow> json \<Rightarrow> bool" where
  "str_ok p v = (case v of JStr s \<Rightarrow> p s | _ \<Rightarrow> False)"

definition unknown_keys :: "json \<Rightarrow> string list" where
  "unknown_keys raw =
     (case raw of
        JObj kvs \<Rightarrow> map (\<lambda>p. ''unknown top-level key: \"'' @ fst p @ ''\"'')
                      (filter (\<lambda>p. fst p \<notin> set TOP_KEYS) kvs)
      | _ \<Rightarrow> [])"

definition field_errors :: "compiler_host \<Rightarrow> json \<Rightarrow> string list" where
  "field_errors h raw =
     (let ad = fld raw ''adapter''
      in err_if (\<not> str_ok CAPABILITY_RE (fld raw ''capability''))
           ''capability must match ^(hai|zak).[a-z][a-z0-9_.]*$ (lowercase segments after prefix)''
         @ err_if (\<not> str_ok (semver_valid h) (fld raw ''version'')) ''version must be a valid SemVer string''
         @ (if \<not> is_record ad then [''adapter must be a mapping with key and route'']
            else err_if (\<not> str_ok ADAPTER_KEY_RE (fld ad ''key'')) ''adapter.key must match ^[a-z][a-z0-9-]*$''
                 @ err_if (\<not> str_ok ROUTE_RE (fld ad ''route'')) ''adapter.route must match ^[a-z][a-z0-9_.]*$'')
         @ err_if (\<not> one_of [''A'', ''B'', ''C''] (fld raw ''execution_class''))
             ''execution_class must be A, B, or C''
         @ err_if (\<not> one_of authority_names (fld raw ''authority_requirements''))
             ''authority_requirements must be none|standard|elevated|continuous_resonance_required''
         @ err_if (\<not> is_record (fld raw ''input_schema'')) ''input_schema must be a JSON Schema object''
         @ err_if (is_null_or_undef (fld raw ''output_schema''))
             ''output_schema is required (JSON Schema object or shorthand field map)''
         @ err_if (is_null_or_undef (fld raw ''golden''))
             ''golden is required (minimum: input - compiler emits hash + schema + fixture tests)'')"

definition class_errors :: "json \<Rightarrow> string list" where
  "class_errors raw =
     (let c = fld raw ''execution_class''; there = (\<lambda>k. fld raw k \<noteq> JUndef)
      in (if c = JStr ''B'' then
            err_if (\<not> one_of [''low'', ''medium'', ''irreversible''] (fld raw ''side_effect_tier''))
              ''Class B: side_effect_tier must be low|medium|irreversible''
            @ err_if (\<not> one_of [''none'', ''keyed'', ''inherent''] (fld raw ''idempotency''))
              ''Class B: idempotency must be none|keyed|inherent''
            @ err_if (\<not> one_of [''blocked'', ''allowed_same_key'', ''allowed_read_only_subset'']
                        (fld raw ''replay_behavior''))
              ''Class B: replay_behavior must be blocked|allowed_same_key|allowed_read_only_subset''
          else [])
         @ (if c = JStr ''C'' then
              err_if (\<not> one_of [''poll'', ''callback'', ''poll_or_callback''] (fld raw ''async_model''))
                ''Class C: async_model must be poll|callback|poll_or_callback''
              @ err_if (\<not> str_ok (\<lambda>s. length (trim s) \<noteq> 0) (fld raw ''job_id_field''))
                ''Class C: job_id_field must be a non-empty string''
              @ err_if (fld raw ''partial_receipt'' \<noteq> JBool True \<and> fld raw ''partial_receipt'' \<noteq> JBool False)
                ''Class C: partial_receipt must be boolean''
            else [])
         @ (if c = JStr ''A'' then
              err_if (there ''side_effect_tier'') ''Class A: must not set side_effect_tier''
              @ err_if (there ''idempotency'') ''Class A: must not set idempotency''
              @ err_if (there ''replay_behavior'') ''Class A: must not set replay_behavior''
              @ err_if (there ''async_model'') ''Class A: must not set async_model''
              @ err_if (there ''job_id_field'') ''Class A: must not set job_id_field''
              @ err_if (there ''partial_receipt'') ''Class A: must not set partial_receipt''
            else [])
         @ (if c = JStr ''B'' then
              err_if (there ''async_model'')
                ''Class B: must not set async fields (use Class C as primary if async)''
              @ err_if (there ''job_id_field'') ''Class B: must not set job_id_field''
              @ err_if (there ''partial_receipt'') ''Class B: must not set partial_receipt''
            else [])
         @ (if c = JStr ''C'' then
              err_if (there ''side_effect_tier'')
                ''Class C: must not set Class B mutating fields (split capability or extend compiler policy)''
              @ err_if (there ''idempotency'') ''Class C: must not set idempotency''
              @ err_if (there ''replay_behavior'') ''Class C: must not set replay_behavior''
            else []))"

text \<open>The golden example: the errors, or its input and output.\<close>

definition check_golden ::
  "compiler_host \<Rightarrow> validator \<Rightarrow> validator \<Rightarrow> json \<Rightarrow> string list + json \<times> json" where
  "check_golden h validateIn validateOut golden =
     (if \<not> is_record golden then Inl [''golden must be a mapping with input (and optional output)'']
      else if \<not> is_record (fld golden ''input'') then Inl [''golden.input must be an object'']
      else
        let gi = fld golden ''input''; go = fld golden ''output'';
            vi = validateIn gi; vo = validateOut go;
            errors = err_if (\<not> fst vi) (''golden.input fails input_schema: '' @ errorsText h (snd vi))
              @ err_if (\<not> is_null_or_undef go \<and> \<not> fst vo)
                  (''golden.output fails output_schema: '' @ errorsText h (snd vo))
        in if errors \<noteq> [] then Inl errors
           else Inr (gi, if go = JNull then JUndef else go))"

definition worksheet_description :: "json \<Rightarrow> string option" where
  "worksheet_description v =
     (case v of JStr s \<Rightarrow> (let d = trim s in if length d > 0 then Some d else None) | _ \<Rightarrow> None)"

text \<open>The tags: \<open>None\<close> is an error; a \<open>Set\<close> and a sort make the list ordered and free of duplicates.\<close>

definition the_string :: "json \<Rightarrow> string" where
  "the_string v = (case v of JStr s \<Rightarrow> s | _ \<Rightarrow> [])"

definition worksheet_tags :: "json \<Rightarrow> string list option option" where
  "worksheet_tags v =
     (case v of
        JUndef \<Rightarrow> Some None
      | JArr ts \<Rightarrow>
          if list_ex (\<lambda>t. \<not> is_str t) ts then None
          else let tgs = sort (remdups (filter (\<lambda>t. t \<noteq> []) (map (\<lambda>t. trim (the_string t)) ts)))
               in Some (if length tgs > 0 then Some tgs else None)
      | _ \<Rightarrow> None)"

definition make_worksheet ::
  "json \<Rightarrow> json \<Rightarrow> json \<times> json \<Rightarrow> string list option \<Rightarrow> worksheet" where
  "make_worksheet raw os golden tgs =
     (let c = fld raw ''execution_class'';
          b = (\<lambda>k. if c = JStr ''B'' then fld raw k else JUndef);
          a = (\<lambda>k. if c = JStr ''C'' then fld raw k else JUndef)
      in \<lparr>ws_capability = the_string (fld raw ''capability''), ws_version = the_string (fld raw ''version''),
          ws_adapter = \<lparr>adapter_key = the_string (fld (fld raw ''adapter'') ''key''),
                        adapter_route = the_string (fld (fld raw ''adapter'') ''route'')\<rparr>,
          ws_execution_class = the_string c,
          ws_authority_requirements = the_string (fld raw ''authority_requirements''),
          ws_input_schema = fld raw ''input_schema'', ws_output_schema = os,
          ws_golden_input = fst golden, ws_golden_output = snd golden,
          ws_description = worksheet_description (fld raw ''description''), ws_tags = tgs,
          ws_side_effect_tier = b ''side_effect_tier'', ws_idempotency = b ''idempotency'',
          ws_replay_behavior = b ''replay_behavior'', ws_async_model = a ''async_model'',
          ws_job_id_field = (case a ''job_id_field'' of JStr s \<Rightarrow> JStr (trim s) | v \<Rightarrow> v),
          ws_partial_receipt = a ''partial_receipt''\<rparr>)"

definition validateWorksheet :: "compiler_host \<Rightarrow> json \<Rightarrow> string list + worksheet" where
  "validateWorksheet h raw =
     (if \<not> is_record raw then Inl [''worksheet root must be a mapping'']
      else if unknown_keys raw \<noteq> [] then Inl (unknown_keys raw)
      else if field_errors h raw @ class_errors raw \<noteq> [] then Inl (field_errors h raw @ class_errors raw)
      else case coerceOutputSchema (fld raw ''output_schema'') of
        Inl e \<Rightarrow> Inl [e]
      | Inr os \<Rightarrow>
          (case ajv_compile h os of
             Inl e \<Rightarrow> Inl [''output_schema invalid: '' @ e]
           | Inr validateOut \<Rightarrow>
               (case ajv_compile h (fld raw ''input_schema'') of
                  Inl e \<Rightarrow> Inl [''input_schema invalid: '' @ e]
                | Inr validateIn \<Rightarrow>
                    (case check_golden h validateIn validateOut (fld raw ''golden'') of
                       Inl errors \<Rightarrow> Inl errors
                     | Inr golden \<Rightarrow>
                         (case worksheet_tags (fld raw ''tags'') of
                            None \<Rightarrow> Inl [''tags must be an array of strings'']
                          | Some tgs \<Rightarrow> Inr (make_worksheet raw os golden tgs))))))"

subsection \<open>The artifacts of a worksheet\<close>

definition worksheetToCapabilityDefinition :: "worksheet \<Rightarrow> capability_definition" where
  "worksheetToCapabilityDefinition ws =
     \<lparr>capability = ws_capability ws, version = ws_version ws, adapter = ws_adapter ws,
      input_schema = ws_input_schema ws, description = ws_description ws,
      tags = (case ws_tags ws of None \<Rightarrow> None | Some ts \<Rightarrow> if length ts > 0 then Some ts else None)\<rparr>"

definition COMPILER_VERSION :: string where
  "COMPILER_VERSION = ''0.1.0''"

definition TEMPLATE_VERSION :: string where
  "TEMPLATE_VERSION = ''1.2.1''"

definition meta_members :: "worksheet \<Rightarrow> (string \<times> json) list" where
  "meta_members ws =
     [(''generated_by'', JStr ''@zak/capability-compiler''),
      (''compiler_version'', JStr COMPILER_VERSION),
      (''template_version'', JStr TEMPLATE_VERSION),
      (''execution_class'', JStr (ws_execution_class ws)),
      (''authority_requirements'', JStr (ws_authority_requirements ws)),
      (''output_schema'', ws_output_schema ws)]
     @ (if ws_side_effect_tier ws \<noteq> JUndef then
          [(''side_effect_tier'', ws_side_effect_tier ws), (''idempotency'', ws_idempotency ws),
           (''replay_behavior'', ws_replay_behavior ws)] else [])
     @ (if ws_async_model ws \<noteq> JUndef then
          [(''async_model'', ws_async_model ws), (''job_id_field'', ws_job_id_field ws),
           (''partial_receipt'', ws_partial_receipt ws)] else [])"

definition buildMeta :: "worksheet \<Rightarrow> json" where
  "buildMeta ws = normalize_sortKeysDeep (JObj (meta_members ws))"

end
