(* ===== verification/Compiler_Emit.thy ===== *)
theory Compiler_Emit
  imports Worksheet Disk_Loader
begin

text \<open>
  The capability compiler: \<open>capability-compiler/src/emit.ts\<close>, \<open>gen-test.ts\<close> and \<open>cli.ts\<close>. Compilation is a
  function from the text of a worksheet to the directory and the files that are written; verification
  reads a file tree. Failures of the file system while writing are not modelled. Text of the engine's own
  exceptions is fixed, since no caller inspects it.
\<close>

subsection \<open>Reading a worksheet\<close>

definition rename_str :: "string \<Rightarrow> (string \<Rightarrow> string) \<Rightarrow> (string \<times> json) list \<Rightarrow> (string \<times> json) list" where
  "rename_str k f kvs =
     (case map_of kvs k of Some (JStr s) \<Rightarrow> AList.update k (JStr (f s)) kvs | _ \<Rightarrow> kvs)"

definition applyNamingNorm :: "json \<Rightarrow> json result" where
  "applyNamingNorm v =
     (case v of
        JObj kvs \<Rightarrow>
          (let kvs1 = rename_str ''capability'' normalizeCapabilityId kvs
           in case map_of kvs1 ''adapter'' of
                Some (JObj a) \<Rightarrow>
                  Inr (JObj (AList.update ''adapter''
                    (JObj (rename_str ''route'' normalizeAdapterField
                            (rename_str ''key'' normalizeAdapterField a))) kvs1))
              | _ \<Rightarrow> Inr (JObj kvs1))
      | JNull \<Rightarrow> Inl ''Cannot read properties of null (reading capability)''
      | JUndef \<Rightarrow> Inl ''Cannot read properties of undefined (reading capability)''
      | _ \<Rightarrow> Inr v)"

definition parseWorksheetYaml :: "compiler_host \<Rightarrow> string \<Rightarrow> json result" where
  "parseWorksheetYaml h text =
     bind_result (parseYaml h text) (\<lambda>raw. applyNamingNorm (normalizeWorksheetTree raw))"

subsection \<open>Writing the artifacts\<close>

record compile_options =
  outBase :: string
  nestedVersionLayout :: bool

text \<open>The definition as the object that is printed.\<close>

definition definition_json :: "capability_definition \<Rightarrow> json" where
  "definition_json d =
     JObj ([(''capability'', JStr (capability d)), (''version'', JStr (version d)),
            (''adapter'', JObj [(''key'', JStr (adapter_key (adapter d))),
                                (''route'', JStr (adapter_route (adapter d)))]),
            (''input_schema'', input_schema d)]
       @ (case description d of None \<Rightarrow> [] | Some s \<Rightarrow> [(''description'', JStr s)])
       @ (case tags d of None \<Rightarrow> [] | Some ts \<Rightarrow> [(''tags'', JArr (map JStr ts))]))"

definition lines_of :: "string list \<Rightarrow> string" where
  "lines_of ls = join [CHR 0x0A] ls"

definition output_tests :: "worksheet \<Rightarrow> string" where
  "output_tests ws =
     (if \<not> is_null_or_undef (ws_golden_output ws) then lines_of
        [[],
         ''  const EXPECTED_OUTPUT = '' @ json_pretty [] (ws_golden_output ws) @ '' as const;'',
         [],
         ''  it(\"golden output is byte-for-byte exact (change worksheet + recompile, do not hand-edit)\", () => {'',
         ''    expect(fixture.output).toEqual(EXPECTED_OUTPUT);'',
         ''  });'']
      else [])"

definition generateTestSpec :: "worksheet \<Rightarrow> string" where
  "generateTestSpec ws = lines_of
     [''/* eslint-disable */'',
      ''// GENERATED BY @zak/capability-compiler - DO NOT EDIT BY HAND.'',
      ''import { readFileSync } from \"node:fs\";'',
      ''import { dirname, join } from \"node:path\";'',
      ''import { fileURLToPath } from \"node:url\";'',
      ''import { describe, expect, it } from \"vitest\";'',
      ''import {'',
      ''  CapabilityRegistry,'',
      ''  computeCapabilityDefinitionHash,'',
      ''  parseCapabilityCompiledMeta,'',
      ''  type CapabilityDefinition,'',
      ''} from \"@zak/capability-registry\";'',
      [],
      ''const dir = dirname(fileURLToPath(import.meta.url));'',
      ''const definition = JSON.parse('',
      ''  readFileSync(join(dir, \"definition.json\"), \"utf8\")'',
      '') as CapabilityDefinition;'',
      ''const expectedHash = readFileSync(join(dir, \"definition.hash\"), \"utf8\").trim();'',
      ''const meta = parseCapabilityCompiledMeta('',
      ''  JSON.parse(readFileSync(join(dir, \"meta.json\"), \"utf8\"))'',
      '');'',
      ''const fixture = JSON.parse(readFileSync(join(dir, \"test.fixture.json\"), \"utf8\")) as {'',
      ''  input: Record<string, unknown>;'',
      ''  output?: unknown;'',
      ''};'',
      [],
      ''describe(\"'' @ ws_capability ws @ ''@'' @ ws_version ws @ ''\", () => {'',
      ''  it(\"definition hash matches definition.hash (compiler / host contract)\", () => {'',
      ''    expect(computeCapabilityDefinitionHash(definition)).toBe(expectedHash);'',
      ''  });'',
      [],
      ''  it(\"golden input validates against input_schema (registry / Ajv)\", () => {'',
      ''    const r = new CapabilityRegistry();'',
      ''    r.registerCapability(definition);'',
      ''    r.registerCapabilityMeta(definition.capability, definition.version, meta);'',
      ''    const vr = r.validateInput(definition.capability, fixture.input, definition.version);'',
      ''    expect(vr.valid).toBe(true);'',
      ''  });'' @ output_tests ws,
      ''});'',
      []]"

definition golden_fixture :: "worksheet \<Rightarrow> json" where
  "golden_fixture ws =
     JObj ([(''input'', ws_golden_input ws)]
       @ (if ws_golden_output ws \<noteq> JUndef then [(''output'', ws_golden_output ws)] else []))"

text \<open>The files of one worksheet, in the order in which they are written.\<close>

definition artifacts :: "compiler_host \<Rightarrow> json \<Rightarrow> worksheet \<Rightarrow> (string \<times> string) list result" where
  "artifacts h parsed ws =
     (let d = worksheetToCapabilityDefinition ws
      in bind_result (computeCapabilityDefinitionHash d) (\<lambda>hash.
         bind_result (stringifySortedPretty (definition_json d)) (\<lambda>def_text.
         bind_result (stringifySortedPretty (buildMeta ws)) (\<lambda>meta_text.
         bind_result (stringifySortedPretty (golden_fixture ws)) (\<lambda>fixture_text.
           Inr [(''worksheet.normalized.yaml'', stringifyYaml h parsed),
                (''definition.json'', def_text),
                (''definition.hash'', hash @ [CHR 0x0A]),
                (''meta.json'', meta_text),
                (''test.fixture.json'', fixture_text),
                (''test.spec.ts'', generateTestSpec ws)])))))"

definition compileWorksheetFile ::
  "compiler_host \<Rightarrow> string result \<Rightarrow> compile_options \<Rightarrow> (string \<times> (string \<times> string) list) result" where
  "compileWorksheetFile h file opts =
     bind_result file (\<lambda>text.
     bind_result (parseWorksheetYaml h text) (\<lambda>parsed.
       case validateWorksheet h parsed of
         Inl errors \<Rightarrow> Inl (''worksheet invalid:'' @ [CHR 0x0A] @ lines_of errors)
       | Inr ws \<Rightarrow>
           (let capDir = path_join (outBase opts) (ws_capability ws);
                outDir = (if nestedVersionLayout opts then path_join capDir (ws_version ws) else capDir)
            in bind_result (artifacts h parsed ws) (\<lambda>files. Inr (outDir, files)))))"

subsection \<open>Verifying a tree\<close>

text \<open>The hash of a parsed \<open>definition.json\<close> whose shape was not checked.\<close>

definition raw_tags :: "json \<Rightarrow> (string \<times> json) list result" where
  "raw_tags v =
     (case v of
        JArr ts \<Rightarrow> Inr (if ts = [] then [] else [(''tags'', JArr (sort_key js_string ts))])
      | JStr s \<Rightarrow> Inr (if s = [] then [] else [(''tags'', JArr (map (\<lambda>c. JStr [c]) (sort s)))])
      | JNull \<Rightarrow> Inl ''Cannot read properties of null (reading length)''
      | JObj kvs \<Rightarrow>
          (case fld v ''length'' of
             JNum n \<Rightarrow> (case n of
                 NumDec m e \<Rightarrow> if 0 < m then Inl ''definition.tags is not iterable'' else Inr []
               | NumInf neg \<Rightarrow> if neg then Inr [] else Inl ''definition.tags is not iterable''
               | _ \<Rightarrow> Inr [])
           | _ \<Rightarrow> Inr [])
      | _ \<Rightarrow> Inr [])"

definition raw_definition_hash :: "json \<Rightarrow> string result" where
  "raw_definition_hash j =
     (if is_null_or_undef j then Inl ''Cannot read properties of null (reading capability)''
      else if is_null_or_undef (fld j ''adapter'') then Inl ''Cannot read properties of undefined (reading key)''
      else bind_result (raw_tags (fld j ''tags'')) (\<lambda>tag_part.
        sha256TaggedCanonical (JObj
          ([(''v'', JNum (NumDec 1 0)), (''capability'', fld j ''capability''),
            (''version'', fld j ''version''),
            (''adapter'', JObj [(''key'', fld (fld j ''adapter'') ''key''),
                                (''route'', fld (fld j ''adapter'') ''route'')]),
            (''input_schema'', fld j ''input_schema'')]
           @ (if fld j ''description'' \<noteq> JUndef then [(''description'', fld j ''description'')] else [])
           @ tag_part))))"

definition verifyOneCapabilityDir :: "entries \<Rightarrow> string \<Rightarrow> unit result" where
  "verifyOneCapabilityDir es lab =
     bind_result (read_or ''ENOENT: no such file or directory, open definition.json'' [] es ''definition.json'') (\<lambda>raw.
     bind_result (JSON_parse ''Unexpected token in JSON'' raw) (\<lambda>j.
     bind_result (read_or ''ENOENT: no such file or directory, open definition.hash'' [] es ''definition.hash'') (\<lambda>text.
     bind_result (raw_definition_hash j) (\<lambda>got.
       check_that (got = trim text)
         (lab @ '': definition hash mismatch (disk '' @ trim text @ '' vs computed '' @ got @ '')'')
         (Inr ())))))"

fun verify_versions :: "string \<Rightarrow> (string \<times> node) list \<Rightarrow> unit result" where
  "verify_versions name [] = Inr ()"
| "verify_versions name ((ver, Dangling e) # es) = Inl e"
| "verify_versions name ((ver, File t) # es) = verify_versions name es"
| "verify_versions name ((ver, Unreadable e) # es) = verify_versions name es"
| "verify_versions name ((ver, Dir vs) # es) =
     bind_result (if existsDefJson vs then verifyOneCapabilityDir vs (reg_key name ver) else Inr ()) (\<lambda>_.
       verify_versions name es)"

fun verify_tree :: "(string \<times> node) list \<Rightarrow> unit result" where
  "verify_tree [] = Inr ()"
| "verify_tree ((name, Dangling e) # ns) = Inl e"
| "verify_tree ((name, File t) # ns) = verify_tree ns"
| "verify_tree ((name, Unreadable e) # ns) = verify_tree ns"
| "verify_tree ((name, Dir es) # ns) =
     bind_result (if existsDefJson es then verifyOneCapabilityDir es name
                  else verify_versions name (sort_key fst es)) (\<lambda>_. verify_tree ns)"

definition verifyCompiledCapabilities :: "node option \<Rightarrow> unit result" where
  "verifyCompiledCapabilities tree =
     (case tree of
        Some (Dir ns) \<Rightarrow> verify_tree ns
      | Some (Unreadable e) \<Rightarrow> Inl e
      | Some (File t) \<Rightarrow> Inl ''ENOTDIR: not a directory, scandir''
      | _ \<Rightarrow> Inl ''ENOENT: no such file or directory, scandir'')"

subsection \<open>The command line\<close>

datatype cli_action =
    Usage
  | Verify string
  | Compile string compile_options

definition arg :: "nat \<Rightarrow> string list \<Rightarrow> string option" where
  "arg i argv = (if i < length argv \<and> argv ! i \<noteq> [] then Some (argv ! i) else None)"

fun find_index :: "string \<Rightarrow> string list \<Rightarrow> nat option" where
  "find_index a [] = None"
| "find_index a (x # xs) = (if x = a then Some 0 else map_option Suc (find_index a xs))"

definition splice :: "nat \<Rightarrow> nat \<Rightarrow> 'a list \<Rightarrow> 'a list" where
  "splice i n xs = take i xs @ drop (i + n) xs"

text \<open>\<open>resolve_path\<close> is \<open>path.resolve\<close>; \<open>cwd\<close> the working directory.\<close>

definition compile_action :: "(string list \<Rightarrow> string) \<Rightarrow> string \<Rightarrow> string list \<Rightarrow> cli_action" where
  "compile_action resolve_path out argv =
     (let nested = find_index ''--nested-version'' argv;
          argv' = (case nested of None \<Rightarrow> argv | Some i \<Rightarrow> splice i 1 argv)
      in case arg 1 argv' of
           None \<Rightarrow> Usage
         | Some sheet \<Rightarrow>
             if arg 2 argv' \<noteq> None then Usage
             else Compile (resolve_path [sheet]) \<lparr>outBase = out, nestedVersionLayout = (nested \<noteq> None)\<rparr>)"

definition cli_main :: "(string list \<Rightarrow> string) \<Rightarrow> string \<Rightarrow> string list \<Rightarrow> cli_action" where
  "cli_main resolve_path cwd argv =
     (if length argv < 2 then Usage
      else if argv ! 0 = ''verify'' then Verify (resolve_path [argv ! 1])
      else if argv ! 0 \<noteq> ''compile'' then Usage
      else case find_index ''--out'' argv of
        None \<Rightarrow> compile_action resolve_path (resolve_path [cwd, ''capabilities'']) argv
      | Some i \<Rightarrow>
          (case arg (i + 1) argv of
             None \<Rightarrow> Usage
           | Some dir \<Rightarrow> compile_action resolve_path (resolve_path [dir]) (splice i 2 argv)))"

end
