(* ===== verification/Compiler_Facts.thy ===== *)
theory Compiler_Facts
  imports Compiler_Emit Disk_Properties Enforcement
begin

text \<open>
  Lemmas on the compiler: field access commutes with sorting and reordering keys, a normalised worksheet
  is plain data without the key \<open>__proto__\<close>, what a validated worksheet satisfies, and that the metadata
  and the definition of a worksheet are read back by the registry's parsers.
\<close>

subsection \<open>Field access\<close>

lemma fld_cong_members:
  assumes "set as = set bs" "distinct (map fst as)" "distinct (map fst bs)"
  shows "fld (JObj as) k = fld (JObj bs) k"
  using map_of_inject_set [OF assms(2,3)] assms(1) by (simp add: fld_def)

lemma distinct_set_all: "distinct (map fst kvs) \<Longrightarrow> distinct (map fst (set_all kvs))"
  by (metis mset_set_all mset_map mset_eq_imp_distinct_iff)

lemma distinct_sort_key: "distinct (map fst (sort_key f kvs)) = distinct (map fst kvs)"
  by (metis mset_sort mset_map mset_eq_imp_distinct_iff)

lemma fld_set_all: "distinct (map fst kvs) \<Longrightarrow> fld (JObj (set_all kvs)) k = fld (JObj kvs) k"
  by (intro fld_cong_members) (simp_all add: distinct_set_all)

lemma fld_sort_key: "distinct (map fst kvs) \<Longrightarrow> fld (JObj (sort_key fst kvs)) k = fld (JObj kvs) k"
  by (intro fld_cong_members) (simp_all add: distinct_sort_key)

lemma fld_map_vals: "f JUndef = JUndef \<Longrightarrow> fld (JObj (map_vals f kvs)) k = f (fld (JObj kvs) k)"
  by (induction kvs) auto

lemma fld_reorder: "json_plain v \<Longrightarrow> fld (reorder v) k = reorder (fld v k)"
proof (cases v)
  case (JObj kvs)
  moreover assume "json_plain v"
  ultimately show ?thesis by (simp add: reorder_members_map fld_set_all fld_map_vals)
qed simp_all

lemma fld_sort_keys_deep: "no_proto v \<Longrightarrow> fld (sort_keys_deep v) k = sort_keys_deep (fld v k)"
proof (cases v)
  case (JObj kvs)
  moreover assume "no_proto v"
  ultimately have kvs: "distinct (map fst kvs)" "proto_key \<notin> fst ` set kvs"
    by (auto simp: no_proto_members_all)
  have "assign_all (sort_key fst (map_vals sort_keys_deep kvs)) = set_all (sort_key fst (map_vals sort_keys_deep kvs))"
    using kvs(2) by (intro assign_all_no_proto) (simp add: set_map_vals image_image)
  then show ?thesis
    using kvs(1) unfolding JObj sort_keys_deep.simps sort_keys_members_map
    by (simp only: fld_set_all fld_sort_key distinct_sort_key map_fst_map_vals fld_map_vals sort_keys_deep.simps)
qed (simp_all add: fld_def)

lemma plain_fld: "json_plain v \<Longrightarrow> fld v k = JUndef \<or> json_plain (fld v k)"
  by (cases v) (auto simp: fld_def plain_members_all split: option.split dest: map_of_SomeD)

lemma no_proto_fld: "no_proto v \<Longrightarrow> no_proto (fld v k)"
  by (cases v) (auto simp: fld_def no_proto_members_all split: option.split dest: map_of_SomeD)

lemma plain_sort_keys: "json_plain v \<Longrightarrow> no_proto v \<Longrightarrow> json_plain (sort_keys_deep v)"
  by (simp add: sort_keys_deep_reorder plain_reorder)

subsection \<open>Plain data without \<open>__proto__\<close>\<close>

definition tame :: "json \<Rightarrow> bool" where
  "tame v = (json_plain v \<and> no_proto v)"

lemma tame_atoms [simp]:
  "tame JNull" "tame (JBool b)" "tame (JStr s)" "\<not> tame JUndef" "tame (JNum n) = json_plain (JNum n)"
  by (simp_all add: tame_def)

lemma tame_arr [simp]: "tame (JArr xs) = (\<forall>x \<in> set xs. tame x)"
  by (auto simp: tame_def plain_elems_all no_proto_elems_all)

lemma tame_obj [simp]:
  "tame (JObj kvs) = (distinct (map fst kvs) \<and> (\<forall>p \<in> set kvs. fst p \<noteq> proto_key \<and> tame (snd p)))"
  by (auto simp: tame_def plain_members_all no_proto_members_all)

lemma tame_fld: "tame v \<Longrightarrow> fld v k = JUndef \<or> tame (fld v k)"
  using plain_fld no_proto_fld by (auto simp: tame_def)

lemma tame_obj_assign_list:
  assumes "distinct (map fst kvs)" "\<forall>p \<in> set kvs. tame (snd p)"
  shows "tame (JObj (assign_all kvs))"
proof -
  let ?kept = "filter (\<lambda>p. fst p \<noteq> proto_key) kvs"
  have "foldl (\<lambda>out (k, v). obj_assign k v out) out kvs = foldl (\<lambda>out (k, v). obj_set k v out) out ?kept" for out
    by (induction kvs arbitrary: out) (auto simp: obj_assign_def)
  then have eq: "assign_all kvs = set_all ?kept" by (simp add: assign_all_def set_all_def)
  have "distinct (map fst ?kept)" using assms(1) by (simp add: distinct_map_filter)
  then show ?thesis using assms(2) by (auto simp: eq distinct_set_all)
qed

lemma trim_elems_map: "trim_elems xs = map trimDeep xs"
  by (induction xs) auto

lemma trim_members_map: "trim_members kvs = map_vals trimDeep kvs"
  by (induction kvs) auto

lemma tame_trimDeep: "json_plain v \<Longrightarrow> tame (trimDeep v)"
proof (induction v rule: json_members_induct)
  case (Arr xs)
  then show ?case by (auto simp: trim_elems_map plain_elems_all)
next
  case (Obj kvs)
  then show ?case
    unfolding trimDeep.simps trim_members_map
    by (intro tame_obj_assign_list) (auto simp: distinct_sort_key plain_members_all set_map_vals)
qed simp_all

lemma sort_keys_elems_tame: "tame v \<Longrightarrow> tame (sort_keys_deep v)"
proof (induction v rule: json_members_induct)
  case (Arr xs)
  then show ?case by (auto simp: sort_keys_elems_map)
next
  case (Obj kvs)
  then show ?case
    unfolding sort_keys_deep.simps sort_keys_members_map
    by (intro tame_obj_assign_list) (auto simp: distinct_sort_key set_map_vals)
qed simp_all

lemma tame_rename:
  assumes "tame (JObj kvs)"
  shows "tame (JObj (rename_str k f kvs))"
proof (cases "map_of kvs k")
  case None
  then show ?thesis using assms by (simp add: rename_str_def)
next
  case (Some v)
  then have "k \<noteq> proto_key" using assms by (auto dest: map_of_SomeD)
  then have "tame (JObj (AList.update k (JStr s) kvs))" for s
    using assms set_update_subset [of k "JStr s" kvs] by (auto simp: distinct_update)
  then show ?thesis using assms Some by (auto simp: rename_str_def split: json.split)
qed

lemma tame_naming:
  assumes "tame v" "applyNamingNorm v = Inr v'"
  shows "tame v'"
proof (cases v)
  case (JObj kvs)
  let ?kvs1 = "rename_str ''capability'' normalizeCapabilityId kvs"
  have t: "tame (JObj ?kvs1)" using assms(1) JObj tame_rename by blast
  show ?thesis
  proof (cases "\<exists>a. map_of ?kvs1 ''adapter'' = Some (JObj a)")
    case True
    then obtain a where a: "map_of ?kvs1 ''adapter'' = Some (JObj a)" by blast
    then have "(''adapter'', JObj a) \<in> set ?kvs1" by (rule map_of_SomeD)
    then have "tame (JObj a)" using t unfolding tame_obj [of ?kvs1] by fastforce
    then have new: "tame (JObj (rename_str ''route'' normalizeAdapterField (rename_str ''key'' normalizeAdapterField a)))"
      by (intro tame_rename)
    have "''adapter'' \<noteq> proto_key" by (simp add: proto_key_def)
    then have "tame (JObj (AList.update ''adapter''
        (JObj (rename_str ''route'' normalizeAdapterField (rename_str ''key'' normalizeAdapterField a))) ?kvs1))"
      using t new set_update_subset [of "''adapter''" _ ?kvs1] by (fastforce simp: distinct_update)
    then show ?thesis
      using assms(2) JObj a by (auto simp: applyNamingNorm_def Let_def simp del: tame_obj)
  next
    case False
    then have "v' = JObj ?kvs1"
      using assms(2) JObj by (auto simp: applyNamingNorm_def Let_def split: option.splits json.splits)
    then show ?thesis using t by simp
  qed
qed (use assms in \<open>auto simp: applyNamingNorm_def\<close>)

lemma parsed_worksheet_tame:
  assumes "parseYaml h text = Inr y" "json_plain y" "parseWorksheetYaml h text = Inr parsed"
  shows "tame parsed"
  using assms tame_naming [OF sort_keys_elems_tame [OF tame_trimDeep [OF assms(2)]]]
  by (auto simp: parseWorksheetYaml_def normalizeWorksheetTree_def normalize_sortKeysDeep_def)

subsection \<open>What a validated worksheet satisfies\<close>

text \<open>
  What is relied on of the external functions: \<open>semver.valid\<close> rejects the empty string, and Ajv rejects a
  schema whose \<open>type\<close> is the empty string.
\<close>

definition host_laws :: "compiler_host \<Rightarrow> bool" where
  "host_laws h =
     (\<not> semver_valid h [] \<and>
      (\<forall>schema v. ajv_compile h schema = Inr v \<longrightarrow> fld schema ''type'' \<noteq> JStr []))"

lemma str_okE:
  assumes "str_ok p v"
  obtains s where "v = JStr s" "p s"
  using assms by (auto simp: str_ok_def split: json.splits)

lemma validated:
  assumes "validateWorksheet h raw = Inr ws"
  obtains os golden tgs validateOut where "is_record raw" "field_errors h raw = []" "class_errors raw = []"
    "coerceOutputSchema (fld raw ''output_schema'') = Inr os" "ajv_compile h os = Inr validateOut"
    "worksheet_tags (fld raw ''tags'') = Some tgs" "ws = make_worksheet raw os golden tgs"
  using assms by (auto simp: validateWorksheet_def split: if_splits sum.splits option.splits)

lemma tame_obj_assign:
  assumes "tame (JObj props)" "tame x"
  shows "tame (JObj (obj_assign k x props))"
proof (cases "k \<in> fst ` set props")
  case True
  then have "k \<noteq> proto_key" using assms(1) by auto
  then show ?thesis
    using assms True set_update_subset [of k x props] by (auto simp: obj_assign_def obj_set_def distinct_update)
next
  case False
  have "distinct (map fst (obj_set k x props))"
    using mset_obj_set_fresh [OF False, of x] assms(1) False
    by (metis distinct.simps(2) fst_conv list.set_map list.simps(9) mset.simps(2) mset_eq_imp_distinct_iff mset_map tame_obj)
  then show ?thesis
    using assms False set_obj_set_fresh [OF False, of x] by (auto simp: obj_assign_def)
qed

lemma shorthand_props_tame:
  assumes "shorthand_props kvs props = Inr props'" "tame (JObj props)"
  shows "tame (JObj props')"
  using assms
proof (induction kvs props rule: shorthand_props.induct)
  case (1 props)
  then show ?case by simp
next
  case (2 k v kvs props)
  from "2.prems"(1) obtain s where s: "v = JStr s" "to_lower (trim s) \<in> set shorthand_types"
    "shorthand_props kvs (obj_assign k (JObj [(''type'', JStr (to_lower (trim s)))]) props) = Inr props'"
    by (auto simp: Let_def split: json.splits if_splits)
  have "''type'' \<noteq> proto_key" by (simp add: proto_key_def)
  then have item: "tame (JObj [(''type'', JStr (to_lower (trim s)))])" by simp
  have "tame (JObj (obj_assign k (JObj [(''type'', JStr (to_lower (trim s)))]) props))"
    by (rule tame_obj_assign [OF "2.prems"(2) item])
  from "2.IH" [OF s(1) refl s(2,3) this] show ?case .
qed

text \<open>The coerced output schema: tame, an object, with a type.\<close>

lemma coerced_schema:
  assumes "coerceOutputSchema v = Inr os" "v = JUndef \<or> tame v"
  shows "tame os \<and> is_record os \<and> is_str (fld os ''type'')"
proof -
  from assms(1) obtain kvs where kvs: "v = JObj kvs" by (auto simp: coerceOutputSchema_def split: json.splits)
  show ?thesis
  proof (cases "is_str (fld v ''type'')")
    case True
    then show ?thesis using assms kvs by (auto simp: coerceOutputSchema_def is_record_def)
  next
    case False
    have coerce: "bind_result (shorthand_props kvs []) (\<lambda>props. Inr (JObj [(''type'', JStr ''object''),
        (''properties'', JObj props), (''additionalProperties'', JBool False)])) = Inr os"
      using assms(1) unfolding kvs coerceOutputSchema_def json.case if_not_P [OF False [unfolded kvs]] .
    obtain props where read: "shorthand_props kvs [] = Inr props"
      using coerce by (cases "shorthand_props kvs []") simp_all
    have os: "os = JObj [(''type'', JStr ''object''), (''properties'', JObj props),
                 (''additionalProperties'', JBool False)]"
      using coerce unfolding read bind_result_simps by blast
    have props: "tame (JObj props)" using read by (rule shorthand_props_tame) simp
    have "distinct [''type'', ''properties'', ''additionalProperties'']"
      "proto_key \<notin> set [''type'', ''properties'', ''additionalProperties'']"
      by (simp_all add: proto_key_def)
    then have "tame os" using props unfolding os tame_obj by auto
    moreover have "fld os ''type'' = JStr ''object''" unfolding os by simp
    ultimately show ?thesis by (simp add: os is_record_def is_str_def)
  qed
qed

subsection \<open>Metadata\<close>

text \<open>The metadata that the registry reads from the document of a worksheet, up to the output schema.\<close>

definition meta_of_worksheet :: "worksheet \<Rightarrow> json \<Rightarrow> compiled_meta" where
  "meta_of_worksheet ws os =
     \<lparr>authority_requirements = ws_authority_requirements ws, execution_class = ws_execution_class ws,
      output_schema = os, async_model = ws_async_model ws, job_id_field = ws_job_id_field ws,
      partial_receipt = ws_partial_receipt ws, side_effect_tier = ws_side_effect_tier ws,
      idempotency = ws_idempotency ws, replay_behavior = ws_replay_behavior ws\<rparr>"

definition class_fields_ok :: "worksheet \<Rightarrow> bool" where
  "class_fields_ok ws =
     (if ws_execution_class ws = ''B'' then
        isSideEffectTier (ws_side_effect_tier ws) \<and> isIdempotency (ws_idempotency ws) \<and>
        isReplayBehavior (ws_replay_behavior ws) \<and>
        ws_async_model ws = JUndef \<and> ws_job_id_field ws = JUndef \<and> ws_partial_receipt ws = JUndef
      else ws_side_effect_tier ws = JUndef \<and> ws_idempotency ws = JUndef \<and> ws_replay_behavior ws = JUndef \<and>
        (if ws_execution_class ws = ''C'' then
           nonempty_str (ws_async_model ws) \<and> nonempty_str (ws_job_id_field ws) \<and> is_bool (ws_partial_receipt ws)
         else ws_execution_class ws = ''A'' \<and>
           ws_async_model ws = JUndef \<and> ws_job_id_field ws = JUndef \<and> ws_partial_receipt ws = JUndef))"

lemma one_of_names: "one_of ns (JStr s) = (s \<in> set ns)"
  by (simp add: one_of_def)

lemma class_fields:
  assumes "class_errors raw = []" "one_of [''A'', ''B'', ''C''] (fld raw ''execution_class'')"
  shows "class_fields_ok (make_worksheet raw os golden tgs)"
proof -
  let ?ws = "make_worksheet raw os golden tgs"
  from assms(2) obtain c where c: "fld raw ''execution_class'' = JStr c" "c \<in> {''A'', ''B'', ''C''}"
    by (auto elim!: one_ofE)
  then have cls: "ws_execution_class ?ws = c" by (simp add: make_worksheet_def Let_def the_string_def)
  consider "c = ''A''" | "c = ''B''" | "c = ''C''" using c(2) by blast
  then show ?thesis
  proof cases
    case 1
    then show ?thesis using c(1) by (simp add: class_fields_ok_def make_worksheet_def Let_def the_string_def)
  next
    case 2
    then show ?thesis
      using c(1) assms(1)
      by (simp add: class_fields_ok_def make_worksheet_def Let_def the_string_def class_errors_def
          isSideEffectTier_def CLASS_B_SIDE_EFFECT_TIERS_def isIdempotency_def CLASS_B_IDEMPOTENCY_def
          isReplayBehavior_def CLASS_B_REPLAY_BEHAVIOR_def)
  next
    case 3
    then have am: "one_of [''poll'', ''callback'', ''poll_or_callback''] (fld raw ''async_model'')"
      and job: "str_ok (\<lambda>s. length (trim s) \<noteq> 0) (fld raw ''job_id_field'')"
      and pr: "fld raw ''partial_receipt'' = JBool True \<or> fld raw ''partial_receipt'' = JBool False"
      using c(1) assms(1) by (auto simp: class_errors_def Let_def)
    from am obtain m where "fld raw ''async_model'' = JStr m" "m \<noteq> []" by (auto elim!: one_ofE)
    moreover from job obtain j where "fld raw ''job_id_field'' = JStr j" "trim j \<noteq> []" by (auto elim!: str_okE)
    moreover obtain b where "fld raw ''partial_receipt'' = JBool b" using pr by blast
    ultimately show ?thesis
      using c(1) 3
      by (simp add: class_fields_ok_def make_worksheet_def Let_def the_string_def nonempty_str_def is_bool_def)
  qed
qed

lemma class_fields_shape:
  assumes "class_fields_ok ws"
  shows "(ws_side_effect_tier ws = JUndef \<longrightarrow> ws_idempotency ws = JUndef \<and> ws_replay_behavior ws = JUndef) \<and>
    (ws_async_model ws = JUndef \<longrightarrow> ws_job_id_field ws = JUndef \<and> ws_partial_receipt ws = JUndef)"
  using assms
  by (auto simp: class_fields_ok_def isSideEffectTier_def one_of_def nonempty_str_def split: if_splits)

lemma meta_fields:
  assumes "class_fields_ok ws"
  shows "fld (JObj (meta_members ws)) ''execution_class'' = JStr (ws_execution_class ws)"
    "fld (JObj (meta_members ws)) ''authority_requirements'' = JStr (ws_authority_requirements ws)"
    "fld (JObj (meta_members ws)) ''output_schema'' = ws_output_schema ws"
    "fld (JObj (meta_members ws)) ''side_effect_tier'' = ws_side_effect_tier ws"
    "fld (JObj (meta_members ws)) ''idempotency'' = ws_idempotency ws"
    "fld (JObj (meta_members ws)) ''replay_behavior'' = ws_replay_behavior ws"
    "fld (JObj (meta_members ws)) ''async_model'' = ws_async_model ws"
    "fld (JObj (meta_members ws)) ''job_id_field'' = ws_job_id_field ws"
    "fld (JObj (meta_members ws)) ''partial_receipt'' = ws_partial_receipt ws"
  using class_fields_shape [OF assms] by (simp_all add: meta_members_def)

text \<open>Scalars and absent fields, which sorting and reordering leave alone.\<close>

definition scalar :: "json \<Rightarrow> bool" where
  "scalar v = (case v of JArr xs \<Rightarrow> False | JObj kvs \<Rightarrow> False | _ \<Rightarrow> True)"

lemma class_fields_scalar:
  assumes "class_fields_ok ws"
  shows "scalar (ws_side_effect_tier ws)" "scalar (ws_idempotency ws)" "scalar (ws_replay_behavior ws)"
    "scalar (ws_async_model ws)" "scalar (ws_job_id_field ws)" "scalar (ws_partial_receipt ws)"
  using assms
  by (auto simp: class_fields_ok_def isSideEffectTier_def isIdempotency_def isReplayBehavior_def one_of_def
      nonempty_str_def is_bool_def scalar_def split: json.splits if_splits)

lemma scalar_same: "scalar v \<Longrightarrow> sort_keys_deep v = v" "scalar v \<Longrightarrow> reorder v = v"
  by (cases v; simp add: scalar_def)+

lemma to_if_set_same:
  "nonempty_str v \<or> v = JUndef \<Longrightarrow> to_str_if_set v = v" "is_bool v \<or> v = JUndef \<Longrightarrow> to_bool_if_set v = v"
  by (auto simp: to_str_if_set_def to_bool_if_set_def nonempty_str_def is_bool_def split: json.splits)

lemma parse_meta_fields:
  assumes "is_record j" "class_fields_ok ws" "ws_authority_requirements ws \<in> set authority_names"
    and f: "fld j ''execution_class'' = JStr (ws_execution_class ws)"
    "fld j ''authority_requirements'' = JStr (ws_authority_requirements ws)" "fld j ''output_schema'' = os"
    "fld j ''side_effect_tier'' = ws_side_effect_tier ws" "fld j ''idempotency'' = ws_idempotency ws"
    "fld j ''replay_behavior'' = ws_replay_behavior ws" "fld j ''async_model'' = ws_async_model ws"
    "fld j ''job_id_field'' = ws_job_id_field ws" "fld j ''partial_receipt'' = ws_partial_receipt ws"
    and os: "is_record os" "nonempty_str (fld os ''type'')"
  shows "parseCapabilityCompiledMeta j = Inr (meta_of_worksheet ws os)"
proof -
  have cls: "ws_execution_class ws \<in> {''A'', ''B'', ''C''}"
    using assms(2) by (auto simp: class_fields_ok_def split: if_splits)
  have same: "to_str_if_set (ws_async_model ws) = ws_async_model ws"
    "to_str_if_set (ws_job_id_field ws) = ws_job_id_field ws"
    "to_bool_if_set (ws_partial_receipt ws) = ws_partial_receipt ws"
    using assms(2) by (auto simp: class_fields_ok_def intro!: to_if_set_same split: if_splits)
  have auth: "one_of [''none'', ''standard'', ''elevated'', ''continuous_resonance_required'']
      (JStr (ws_authority_requirements ws))"
    using assms(3) by (simp add: one_of_names authority_names_def)
  have viol: "collectExecutionClassPolicyViolations (meta_of_worksheet ws os) = []"
  proof -
    have c: "execution_class (meta_of_worksheet ws os) \<in> {''A'', ''B'', ''C''}"
      using cls by (simp add: meta_of_worksheet_def)
    show ?thesis
      unfolding no_violations_iff [OF c] using assms(2) os
      by (auto simp: meta_of_worksheet_def class_fields_ok_def split: if_splits)
  qed
  show ?thesis
  proof (cases "ws_execution_class ws = ''B''")
    case True
    then have "isSideEffectTier (ws_side_effect_tier ws)" "isIdempotency (ws_idempotency ws)"
      "isReplayBehavior (ws_replay_behavior ws)"
      using assms(2) by (auto simp: class_fields_ok_def)
    then show ?thesis
      using viol assms(1) os(1) auth True
      by (simp add: parseCapabilityCompiledMeta_def f same one_of_names Let_def meta_of_worksheet_def)
  next
    case False
    then have "ws_side_effect_tier ws = JUndef" "ws_idempotency ws = JUndef" "ws_replay_behavior ws = JUndef"
      using assms(2) by (auto simp: class_fields_ok_def)
    then show ?thesis
      using viol assms(1) os(1) auth False cls
      by (simp add: parseCapabilityCompiledMeta_def f same one_of_names Let_def meta_of_worksheet_def)
  qed
qed

lemma is_record_same [simp]:
  "is_record (sort_keys_deep v) = is_record v" "is_record (reorder v) = is_record v"
  by (cases v; simp add: is_record_def)+

lemma scalar_str [simp]: "scalar (JStr s)" "scalar JUndef" "scalar (JBool b)"
  by (simp_all add: scalar_def)

text \<open>A worksheet that was validated: the facts that the artifacts rest on.\<close>

lemma validated_worksheet:
  assumes "validateWorksheet h raw = Inr ws" "tame raw" "host_laws h"
  shows "class_fields_ok ws" "ws_authority_requirements ws \<in> set authority_names"
    "tame (ws_output_schema ws)" "is_record (ws_output_schema ws)"
    "\<exists>s. fld (ws_output_schema ws) ''type'' = JStr s \<and> s \<noteq> []"
    "tame (ws_input_schema ws)" "is_record (ws_input_schema ws)"
    "ws_capability ws \<noteq> []" "semver_valid h (ws_version ws)" "ws_version ws \<noteq> []"
    "ws_description ws \<noteq> Some []" "ws_tags ws \<noteq> Some []"
proof -
  from assms(1) obtain os golden tgs validateOut where v: "is_record raw" "field_errors h raw = []"
    "class_errors raw = []" "coerceOutputSchema (fld raw ''output_schema'') = Inr os"
    "ajv_compile h os = Inr validateOut" "worksheet_tags (fld raw ''tags'') = Some tgs"
    "ws = make_worksheet raw os golden tgs"
    by (rule validated)
  have f: "str_ok CAPABILITY_RE (fld raw ''capability'')" "str_ok (semver_valid h) (fld raw ''version'')"
    "one_of [''A'', ''B'', ''C''] (fld raw ''execution_class'')"
    "one_of authority_names (fld raw ''authority_requirements'')" "is_record (fld raw ''input_schema'')"
    using v(2) by (simp_all add: field_errors_def Let_def)
  have sel: "ws_capability ws = the_string (fld raw ''capability'')"
    "ws_version ws = the_string (fld raw ''version'')"
    "ws_authority_requirements ws = the_string (fld raw ''authority_requirements'')"
    "ws_input_schema ws = fld raw ''input_schema''" "ws_output_schema ws = os"
    "ws_description ws = worksheet_description (fld raw ''description'')" "ws_tags ws = tgs"
    by (simp_all add: v(7) make_worksheet_def Let_def)
  show "class_fields_ok ws" unfolding v(7) by (rule class_fields [OF v(3) f(3)])
  show "ws_authority_requirements ws \<in> set authority_names"
    using f(4) by (auto simp: sel the_string_def elim!: one_ofE)
  have os: "tame os" "is_record os" "is_str (fld os ''type'')"
    using coerced_schema [OF v(4) tame_fld [OF assms(2)]] by simp_all
  then show "tame (ws_output_schema ws)" "is_record (ws_output_schema ws)" by (simp_all add: sel)
  have "fld os ''type'' \<noteq> JStr []" using assms(3) v(5) by (simp add: host_laws_def)
  then show "\<exists>s. fld (ws_output_schema ws) ''type'' = JStr s \<and> s \<noteq> []"
    using os(3) by (auto simp: sel is_str_def split: json.splits)
  show "tame (ws_input_schema ws)" "is_record (ws_input_schema ws)"
    using f(5) tame_fld [OF assms(2), of "''input_schema''"] by (auto simp: sel is_record_def)
  show "ws_capability ws \<noteq> []"
    using f(1) by (auto simp: sel the_string_def CAPABILITY_RE_def elim!: str_okE)
  from f(2) show ver: "semver_valid h (ws_version ws)" by (auto simp: sel the_string_def elim!: str_okE)
  then show "ws_version ws \<noteq> []" using assms(3) by (auto simp: host_laws_def)
  show "ws_description ws \<noteq> Some []"
    by (simp add: sel worksheet_description_def Let_def split: json.split)
  show "ws_tags ws \<noteq> Some []"
    using v(6) by (auto simp: sel worksheet_tags_def Let_def split: json.splits if_splits)
qed

end
