(* ===== verification/Compiler_Properties.thy ===== *)
theory Compiler_Properties
  imports Compiler_Facts
begin

text \<open>
  The properties of the capability compiler: what it writes is loaded by the registry as the definition and
  the metadata of the worksheet, passes the compiler's own verifier, and a validated worksheet compiles.
\<close>

subsection \<open>Printing sorted and reading back\<close>

definition reread :: "json \<Rightarrow> json" where
  "reread v = reorder (sort_keys_deep v)"

lemma reread_simps [simp]:
  "reread JUndef = JUndef" "reread (JStr s) = JStr s" "reread (JArr xs) = JArr (map reread xs)"
  by (simp_all add: reread_def sort_keys_elems_map reorder_elems_map)

lemma reread_scalar: "scalar v \<Longrightarrow> reread v = v"
  by (simp add: reread_def scalar_same)

lemma tame_plain: "tame v \<Longrightarrow> json_plain v" "tame v \<Longrightarrow> no_proto v"
  by (simp_all add: tame_def)

lemma fld_reread: "tame v \<Longrightarrow> fld (reread v) k = reread (fld v k)"
  by (simp add: reread_def fld_reorder plain_sort_keys tame_plain fld_sort_keys_deep)

lemma canon_reread: "tame v \<Longrightarrow> canon (reread v) = canon v"
  by (simp add: reread_def canon_reorder plain_sort_keys tame_plain canon_sort_keys_deep)

lemma is_record_reread [simp]: "is_record (reread v) = is_record v"
  by (simp add: reread_def)

lemma reread_sorted: "tame v \<Longrightarrow> reread (sort_keys_deep v) = reread v"
proof -
  assume v: "tame v"
  then have "no_proto (sort_keys_deep v)" using sort_keys_elems_tame tame_plain(2) by blast
  then have "sort_keys_deep (sort_keys_deep v) = reorder (canon (sort_keys_deep v))"
    by (rule sort_keys_deep_reorder)
  also have "\<dots> = sort_keys_deep v"
    by (simp only: canon_sort_keys_deep [OF tame_plain(2) [OF v]])
      (simp only: sort_keys_deep_reorder [OF tame_plain(2) [OF v]])
  finally show ?thesis by (simp add: reread_def)
qed

lemma written_json:
  assumes "tame v"
  obtains out where "stringifySortedPretty v = Inr out" "json_parse out = Some (reread v)"
proof -
  have plain: "json_plain (sort_keys_deep v)" using assms by (simp add: plain_sort_keys tame_plain)
  have "stringifySortedPretty v = Inr (json_pretty [] (sort_keys_deep v) @ [CHR 0x0A])"
    using plain by (simp add: stringifySortedPretty_def json_stringify_pretty_def pretty_sortKeysDeep_def)
  moreover have "json_parse (json_pretty [] (sort_keys_deep v) @ [CHR 0x0A]) = Some (reread v)"
    unfolding reread_def by (rule json_parse_pretty [OF plain]) simp
  ultimately show ?thesis by (rule that)
qed

subsection \<open>The definition\<close>

definition well_shaped :: "capability_definition \<Rightarrow> bool" where
  "well_shaped d =
     (capability d \<noteq> [] \<and> version d \<noteq> [] \<and> tame (input_schema d) \<and> is_record (input_schema d) \<and>
      description d \<noteq> Some [] \<and> tags d \<noteq> Some [])"

lemma definition_json_fields:
  "fld (definition_json d) ''capability'' = JStr (capability d)"
  "fld (definition_json d) ''version'' = JStr (version d)"
  "fld (definition_json d) ''adapter'' =
     JObj [(''key'', JStr (adapter_key (adapter d))), (''route'', JStr (adapter_route (adapter d)))]"
  "fld (definition_json d) ''input_schema'' = input_schema d"
  "fld (definition_json d) ''description'' = (case description d of None \<Rightarrow> JUndef | Some s \<Rightarrow> JStr s)"
  "fld (definition_json d) ''tags'' = (case tags d of None \<Rightarrow> JUndef | Some ts \<Rightarrow> JArr (map JStr ts))"
  by (simp_all add: definition_json_def fld_append split: option.split)

lemma tame_definition_json: "tame (input_schema d) \<Longrightarrow> tame (definition_json d)"
  by (auto simp: definition_json_def proto_key_def split: option.split)

definition reread_definition :: "capability_definition \<Rightarrow> capability_definition" where
  "reread_definition d = d\<lparr>input_schema := reread (input_schema d)\<rparr>"

lemma reread_definition_sel [simp]:
  "capability (reread_definition d) = capability d" "version (reread_definition d) = version d"
  by (simp_all add: reread_definition_def)

lemma reread_definition_identity:
  "tame (input_schema d) \<Longrightarrow> definition_identity (reread_definition d) = definition_identity d"
  by (simp add: definition_identity_def reread_definition_def canon_reread)

lemma strings_of_tags: "map the_str (filter is_str (map JStr ts)) = ts"
  by (induction ts) (simp_all add: is_str_def the_str_def)

lemma definition_reads_back:
  assumes "well_shaped d"
  shows "parseDefinitionJson (reread (definition_json d)) = Inr (reread_definition d)"
proof -
  have d: "capability d \<noteq> []" "version d \<noteq> []" "tame (input_schema d)" "is_record (input_schema d)"
    "description d \<noteq> Some []" "tags d \<noteq> Some []"
    using assms by (simp_all add: well_shaped_def)
  note tame = tame_definition_json [OF d(3)]
  let ?a = "JObj [(''key'', JStr (adapter_key (adapter d))), (''route'', JStr (adapter_route (adapter d)))]"
  have "tame ?a" by (simp add: proto_key_def)
  then have adapter: "fld (reread ?a) ''key'' = JStr (adapter_key (adapter d))"
    "fld (reread ?a) ''route'' = JStr (adapter_route (adapter d))" "is_record (reread ?a)"
    by (simp_all add: fld_reread is_record_def [of ?a])
  have root: "is_record (reread (definition_json d))"
    unfolding is_record_reread by (simp add: definition_json_def is_record_def)
  have desc: "(if nonempty_string (case description d of None \<Rightarrow> JUndef | Some s \<Rightarrow> JStr s)
      then Some (the_str (case description d of None \<Rightarrow> JUndef | Some s \<Rightarrow> JStr s)) else None) = description d"
    using d(5) by (cases "description d") (simp_all add: nonempty_string_def is_str_def the_str_def)
  have tgs: "parsed_tags (case tags d of None \<Rightarrow> JUndef | Some ts \<Rightarrow> JArr (map JStr ts)) = tags d"
    using d(6) by (cases "tags d") (simp_all add: parsed_tags_def elements_def strings_of_tags)
  have same: "reread (case description d of None \<Rightarrow> JUndef | Some s \<Rightarrow> JStr s)
      = (case description d of None \<Rightarrow> JUndef | Some s \<Rightarrow> JStr s)"
    "reread (case tags d of None \<Rightarrow> JUndef | Some ts \<Rightarrow> JArr (map JStr ts))
      = (case tags d of None \<Rightarrow> JUndef | Some ts \<Rightarrow> JArr (map JStr ts))"
    by (simp_all split: option.split)
  have str: "nonempty_string (JStr s) = (s \<noteq> [])" "the_str (JStr s) = s" "is_str (JStr s)" for s
    by (simp_all add: nonempty_string_def is_str_def the_str_def)
  show ?thesis
    unfolding parseDefinitionJson_def fld_reread [OF tame] definition_json_fields same desc tgs adapter reread_simps
      str check_that_Inr is_record_reread
    using d root by (simp add: adapter reread_definition_def is_str_def is_record_def [of "JObj xs" for xs])
qed

subsection \<open>The written folder\<close>

definition compiled_folder :: "(string \<times> string) list \<Rightarrow> entries" where
  "compiled_folder files = map (\<lambda>(name, text). (name, File text)) files"

text \<open>The folder below \<open>outBase\<close> at the place that the layout gives it.\<close>

definition compiled_tree :: "bool \<Rightarrow> worksheet \<Rightarrow> (string \<times> string) list \<Rightarrow> entries" where
  "compiled_tree nested ws files =
     [(ws_capability ws,
       if nested then Dir [(ws_version ws, Dir (compiled_folder files))] else Dir (compiled_folder files))]"

lemma version_folders_files: "version_folders (compiled_folder files) = Inr []"
  by (induction files) (auto simp: compiled_folder_def)

text \<open>A folder whose files read back as the definition, the metadata and the hash of a worksheet.\<close>

definition written :: "worksheet \<Rightarrow> string \<Rightarrow> (string \<times> string) list \<Rightarrow> bool" where
  "written ws hash files =
     (\<exists>def_text meta_text.
        map_of (compiled_folder files) ''definition.json'' = Some (File def_text) \<and>
        json_parse def_text = Some (reread (definition_json (worksheetToCapabilityDefinition ws))) \<and>
        map_of (compiled_folder files) ''meta.json'' = Some (File meta_text) \<and>
        json_parse meta_text = Some (reread (JObj (meta_members ws))) \<and>
        map_of (compiled_folder files) ''definition.hash'' = Some (File (hash @ [CHR 0x0A])) \<and>
        computeCapabilityDefinitionHash (worksheetToCapabilityDefinition ws) = Inr hash \<and>
        hash_line_ok hash)"

lemma writtenE:
  assumes "written ws hash files"
  obtains def_text meta_text where
    "map_of (compiled_folder files) ''definition.json'' = Some (File def_text)"
    "json_parse def_text = Some (reread (definition_json (worksheetToCapabilityDefinition ws)))"
    "map_of (compiled_folder files) ''meta.json'' = Some (File meta_text)"
    "json_parse meta_text = Some (reread (JObj (meta_members ws)))"
    "map_of (compiled_folder files) ''definition.hash'' = Some (File (hash @ [CHR 0x0A]))"
    "computeCapabilityDefinitionHash (worksheetToCapabilityDefinition ws) = Inr hash" "hash_line_ok hash"
  using assms unfolding written_def by blast

lemma definition_of_worksheet:
  "capability (worksheetToCapabilityDefinition ws) = ws_capability ws"
  "version (worksheetToCapabilityDefinition ws) = ws_version ws"
  "input_schema (worksheetToCapabilityDefinition ws) = ws_input_schema ws"
  by (simp_all add: worksheetToCapabilityDefinition_def)

lemma validated_shape:
  assumes "validateWorksheet h raw = Inr ws" "tame raw" "host_laws h"
  shows "well_shaped (worksheetToCapabilityDefinition ws)"
  using validated_worksheet [OF assms]
  by (auto simp: well_shaped_def worksheetToCapabilityDefinition_def split: option.split)

lemma validated_meta_tame:
  assumes "class_fields_ok ws" "tame (ws_output_schema ws)"
  shows "tame (JObj (meta_members ws))"
proof -
  have present: "ws_side_effect_tier ws \<noteq> JUndef \<Longrightarrow>
      tame (ws_side_effect_tier ws) \<and> tame (ws_idempotency ws) \<and> tame (ws_replay_behavior ws)"
    "ws_async_model ws \<noteq> JUndef \<Longrightarrow>
      tame (ws_async_model ws) \<and> tame (ws_job_id_field ws) \<and> tame (ws_partial_receipt ws)"
    using assms(1)
    by (auto simp: class_fields_ok_def isSideEffectTier_def isIdempotency_def isReplayBehavior_def one_of_def
        nonempty_str_def is_bool_def split: json.splits if_splits)
  show ?thesis
    using present assms(2) by (auto simp: meta_members_def proto_key_def)
qed

lemma artifacts_written:
  assumes "artifacts h parsed ws = Inr files" "tame (ws_input_schema ws)" "tame (JObj (meta_members ws))"
  shows "\<exists>hash. written ws hash files"
proof -
  let ?d = "worksheetToCapabilityDefinition ws"
  have "tame (definition_json ?d)" using assms(2) by (intro tame_definition_json) (simp add: definition_of_worksheet)
  then obtain def_text where d: "stringifySortedPretty (definition_json ?d) = Inr def_text"
    "json_parse def_text = Some (reread (definition_json ?d))"
    by (rule written_json)
  have sorted: "tame (sort_keys_deep (JObj (meta_members ws)))" using assms(3) by (rule sort_keys_elems_tame)
  obtain meta_text where m: "stringifySortedPretty (buildMeta ws) = Inr meta_text"
    "json_parse meta_text = Some (reread (JObj (meta_members ws)))"
    using written_json [OF sorted] reread_sorted [OF assms(3)]
    by (auto simp: buildMeta_def normalize_sortKeysDeep_def)
  obtain hash fixture where parts: "computeCapabilityDefinitionHash ?d = Inr hash"
    "stringifySortedPretty (golden_fixture ws) = Inr fixture"
    using assms(1) by (auto simp: artifacts_def Let_def d m)
  have line: "hash_line_ok hash"
    using parts(1) tagged_hash_line by (auto simp: computeCapabilityDefinitionHash_def)
  have files: "files = [(''worksheet.normalized.yaml'', stringifyYaml h parsed), (''definition.json'', def_text),
      (''definition.hash'', hash @ [CHR 0x0A]), (''meta.json'', meta_text), (''test.fixture.json'', fixture),
      (''test.spec.ts'', generateTestSpec ws)]"
    using assms(1) by (simp add: artifacts_def Let_def d m parts)
  show ?thesis
    unfolding written_def using d(2) m(2) parts(1) line by (simp add: files compiled_folder_def)
qed

text \<open>What a compilation that succeeds went through.\<close>

lemma compiled:
  assumes "parseYaml h text = Inr y" "json_plain y" "host_laws h"
    and "compileWorksheetFile h (Inr text) opts = Inr (outDir, files)"
  obtains parsed ws hash where "parseWorksheetYaml h text = Inr parsed" "tame parsed"
    "validateWorksheet h parsed = Inr ws" "written ws hash files"
proof -
  obtain parsed where p1: "parseWorksheetYaml h text = Inr parsed"
    using assms(4) by (cases "parseWorksheetYaml h text") (simp_all add: compileWorksheetFile_def)
  obtain ws where p2: "validateWorksheet h parsed = Inr ws"
    using assms(4) by (cases "validateWorksheet h parsed") (simp_all add: compileWorksheetFile_def p1)
  have "artifacts h parsed ws = Inr files"
    using assms(4) by (cases "artifacts h parsed ws") (simp_all add: compileWorksheetFile_def p1 p2 Let_def)
  note p = p1 p2 this
  have t: "tame parsed" by (rule parsed_worksheet_tame [OF assms(1,2) p(1)])
  note v = validated_worksheet [OF p(2) t assms(3)]
  obtain hash where "written ws hash files"
    using artifacts_written [OF p(3) v(6) validated_meta_tame [OF v(1,3)]] by blast
  then show ?thesis by (rule that [OF p(1) t p(2)])
qed

lemma meta_reads_back:
  assumes "validateWorksheet h raw = Inr ws" "tame raw" "host_laws h"
  shows "parseCapabilityCompiledMeta (reread (JObj (meta_members ws)))
    = Inr (meta_of_worksheet ws (reread (ws_output_schema ws)))"
proof -
  note v = validated_worksheet [OF assms]
  note t = validated_meta_tame [OF v(1,3)]
  from v(5) obtain s where s: "fld (ws_output_schema ws) ''type'' = JStr s" "s \<noteq> []" by blast
  have "fld (reread (ws_output_schema ws)) ''type'' = JStr s" by (simp add: fld_reread v(3) s(1))
  then have type: "nonempty_str (fld (reread (ws_output_schema ws)) ''type'')"
    using s(2) by (simp add: nonempty_str_def)
  have root: "is_record (reread (JObj (meta_members ws)))"
    unfolding is_record_reread by (simp add: is_record_def)
  note f = meta_fields [OF v(1)] and c = class_fields_scalar [OF v(1)]
  show ?thesis
    by (rule parse_meta_fields [OF root v(1,2)])
      (simp_all only: fld_reread [OF t] f reread_simps is_record_reread v(4) type
        reread_scalar [OF c(1)] reread_scalar [OF c(2)] reread_scalar [OF c(3)]
        reread_scalar [OF c(4)] reread_scalar [OF c(5)] reread_scalar [OF c(6)])
qed

subsection \<open>Loading what was compiled\<close>

definition compiled_bundle :: "worksheet \<Rightarrow> capability_bundle" where
  "compiled_bundle ws =
     \<lparr>bundle_definition = reread_definition (worksheetToCapabilityDefinition ws),
      bundle_meta = meta_of_worksheet ws (reread (ws_output_schema ws))\<rparr>"

lemma folder_reads:
  assumes w: "written ws hash files" and d: "well_shaped (worksheetToCapabilityDefinition ws)"
  shows "readDefinition dir (compiled_folder files) = Inr (reread_definition (worksheetToCapabilityDefinition ws))"
    "verified_hash dir (compiled_folder files) (reread_definition (worksheetToCapabilityDefinition ws)) = Inr hash"
    "existsDefJson (compiled_folder files)"
proof -
  let ?d = "worksheetToCapabilityDefinition ws"
  from w obtain def_text meta_text where f:
    "map_of (compiled_folder files) ''definition.json'' = Some (File def_text)"
    "json_parse def_text = Some (reread (definition_json ?d))"
    "map_of (compiled_folder files) ''definition.hash'' = Some (File (hash @ [CHR 0x0A]))"
    "computeCapabilityDefinitionHash ?d = Inr hash" "hash_line_ok hash"
    by (rule writtenE)
  show "readDefinition dir (compiled_folder files) = Inr (reread_definition ?d)"
    unfolding readDefinition_Inr using f(1,2) definition_reads_back [OF d] by blast
  have "tame (input_schema ?d)" using d by (simp add: well_shaped_def)
  then have "computeCapabilityDefinitionHash (reread_definition ?d) = Inr hash"
    using identity_same_hash [OF reread_definition_identity] f(4) by simp
  then show "verified_hash dir (compiled_folder files) (reread_definition ?d) = Inr hash"
    by (simp add: verified_hash_def read_or_def readFile_def f(3) trim_hash_line [OF f(5)] f(5) check_that_def Let_def)
  show "existsDefJson (compiled_folder files)" by (simp add: existsDefJson_def f(1))
qed

lemma compiled_add:
  assumes "written ws hash files" "validateWorksheet h raw = Inr ws" "tame raw" "host_laws h"
  shows "snd (add_bundle dir (compiled_folder files) (bundle_definition (compiled_bundle ws)) ([], []))
    = Inr ([reg_key (ws_capability ws) (ws_version ws)], [compiled_bundle ws])"
proof -
  from assms(1) obtain meta_text where m:
    "map_of (compiled_folder files) ''meta.json'' = Some (File meta_text)"
    "json_parse meta_text = Some (reread (JObj (meta_members ws)))"
    by (rule writtenE)
  have "readMetaFromDir dir (compiled_folder files) = Inr (bundle_meta (compiled_bundle ws))"
    unfolding readMeta_Inr using m meta_reads_back [OF assms(2,3,4)] by (auto simp: compiled_bundle_def)
  then show ?thesis
    by (simp add: add_bundle_def compiled_bundle_def definition_of_worksheet)
qed

lemma load_compiled:
  assumes w: "written ws hash files" and v: "validateWorksheet h raw = Inr ws" "tame raw" "host_laws h"
  shows "snd (loadCapabilityBundlesFromDirectory (semver_valid h) caps
      (Some (Dir (compiled_tree nested ws files))) \<lparr>verifyDefinitionHashFile = None\<rparr>) = Inr [compiled_bundle ws]"
proof -
  note r = folder_reads [OF w validated_shape [OF v]]
  note a = compiled_add [OF w v]
  let ?d = "reread_definition (worksheetToCapabilityDefinition ws)"
  have bd: "bundle_definition (compiled_bundle ws) = ?d" by (simp add: compiled_bundle_def)
  have read: "snd (readVerifiedDefinitionDir dir (compiled_folder files) True) = Inr (?d, hash)" for dir
    by (simp add: readVerifiedDefinitionDir_def r)
  have sv: "semver_valid h (ws_version ws)" by (rule validated_worksheet(9) [OF v])
  have flat: "snd (load_flat True dir (ws_capability ws) (compiled_folder files) ([], []))
      = Inr ([reg_key (ws_capability ws) (ws_version ws)], [compiled_bundle ws])" for dir
    using a [of dir] unfolding bd by (simp add: load_flat_def read definition_of_worksheet)
  have ver: "snd (load_version (semver_valid h) True dir (ws_capability ws)
        (ws_version ws, compiled_folder files) ([], []))
      = Inr ([reg_key (ws_capability ws) (ws_version ws)], [compiled_bundle ws])" for dir
    using a unfolding bd by (simp add: load_version_def read definition_of_worksheet sv Let_def)
  have no_def: "\<not> existsDefJson [(n, Dir es)]" for n es by (simp add: existsDefJson_def)
  show ?thesis
    by (cases nested)
      (simp_all add: loadCapabilityBundlesFromDirectory_def compiled_tree_def load_top_def Let_def r(3)
        version_folders_files flat ver no_def)
qed

subsection \<open>The verifier\<close>

lemma sort_key_js_string: "sort_key js_string (map JStr ts) = map JStr (sort ts)"
proof -
  have "insort_key js_string (JStr t) (map JStr us) = map JStr (insort t us)" for t us
    by (induction us) simp_all
  then show ?thesis by (induction ts) simp_all
qed

lemma raw_tags_of_strings: "raw_tags (JArr (map JStr ts)) = Inr (if ts = [] then [] else [(''tags'', JArr (map JStr (sort ts)))])"
  by (simp add: raw_tags_def sort_key_js_string)

lemma raw_hash_of_written:
  assumes "well_shaped d"
  shows "raw_definition_hash (reread (definition_json d)) = computeCapabilityDefinitionHash d"
proof -
  have d: "tame (input_schema d)" using assms by (simp add: well_shaped_def)
  note tame = tame_definition_json [OF d]
  let ?a = "JObj [(''key'', JStr (adapter_key (adapter d))), (''route'', JStr (adapter_route (adapter d)))]"
  have "tame ?a" by (simp add: proto_key_def)
  then have adapter: "fld (reread ?a) ''key'' = JStr (adapter_key (adapter d))"
    "fld (reread ?a) ''route'' = JStr (adapter_route (adapter d))"
    by (simp_all add: fld_reread)
  have "is_record (reread ?a)" "is_record (reread (definition_json d))"
    unfolding is_record_reread by (simp_all add: definition_json_def is_record_def)
  then have there: "\<not> is_null_or_undef (reread ?a)" "\<not> is_null_or_undef (reread (definition_json d))"
    by (auto simp: is_record_def is_null_or_undef_def)
  have tgs: "raw_tags (reread (case tags d of None \<Rightarrow> JUndef | Some ts \<Rightarrow> JArr (map JStr ts))) =
      Inr (case tags d of None \<Rightarrow> [] | Some ts \<Rightarrow> if length ts > 0 then [(''tags'', JArr (map JStr (sort ts)))] else [])"
    by (cases "tags d") (simp_all add: raw_tags_of_strings comp_def, simp add: raw_tags_def)
  have desc: "(if reread (case description d of None \<Rightarrow> JUndef | Some s \<Rightarrow> JStr s) \<noteq> JUndef
      then [(''description'', reread (case description d of None \<Rightarrow> JUndef | Some s \<Rightarrow> JStr s))] else [])
    = (case description d of None \<Rightarrow> [] | Some s \<Rightarrow> [(''description'', JStr s)])"
    by (simp split: option.split)
  have "raw_definition_hash (reread (definition_json d)) = sha256TaggedCanonical (definition_payload (reread_definition d))"
    unfolding raw_definition_hash_def fld_reread [OF tame] definition_json_fields tgs desc adapter reread_simps
      if_not_P [OF there(1)] if_not_P [OF there(2)] bind_result_simps
    by (simp add: definition_payload_def reread_definition_def)
  then show ?thesis
    using identity_same_hash [OF reread_definition_identity [OF d]] by (simp add: definition_hash_eq)
qed

lemma verify_folder:
  assumes "written ws hash files" "well_shaped (worksheetToCapabilityDefinition ws)"
  shows "verifyOneCapabilityDir (compiled_folder files) lab = Inr ()"
proof -
  let ?d = "worksheetToCapabilityDefinition ws"
  from assms(1) obtain def_text meta_text where f:
    "map_of (compiled_folder files) ''definition.json'' = Some (File def_text)"
    "json_parse def_text = Some (reread (definition_json ?d))"
    "map_of (compiled_folder files) ''definition.hash'' = Some (File (hash @ [CHR 0x0A]))"
    "computeCapabilityDefinitionHash ?d = Inr hash" "hash_line_ok hash"
    by (rule writtenE)
  show ?thesis
    by (simp add: verifyOneCapabilityDir_def read_or_def readFile_def f(1,3) JSON_parse_def f(2)
        raw_hash_of_written [OF assms(2)] f(4) trim_hash_line [OF f(5)] check_that_def)
qed

lemma verify_compiled:
  assumes "written ws hash files" "well_shaped (worksheetToCapabilityDefinition ws)"
  shows "verifyCompiledCapabilities (Some (Dir (compiled_tree nested ws files))) = Inr ()"
proof -
  have "existsDefJson (compiled_folder files)" by (rule folder_reads(3) [OF assms])
  moreover have "\<not> existsDefJson [(n, Dir es)]" for n es by (simp add: existsDefJson_def)
  ultimately show ?thesis
    by (cases nested) (simp_all add: verifyCompiledCapabilities_def compiled_tree_def verify_folder [OF assms])
qed

subsection \<open>A valid worksheet compiles\<close>

lemma validated_golden:
  assumes "validateWorksheet h raw = Inr ws" "tame raw"
  shows "tame (ws_golden_input ws)" "ws_golden_output ws = JUndef \<or> tame (ws_golden_output ws)"
proof -
  obtain golden vi vo os tgs where g: "check_golden h vi vo (fld raw ''golden'') = Inr golden"
    "ws = make_worksheet raw os golden tgs"
    using assms(1) by (auto simp: validateWorksheet_def split: if_splits sum.splits option.splits)
  have rec: "is_record (fld raw ''golden'')" "is_record (fld (fld raw ''golden'') ''input'')"
    using g(1) by (auto simp: check_golden_def split: if_splits)
  have gold: "golden = (fld (fld raw ''golden'') ''input'',
      if fld (fld raw ''golden'') ''output'' = JNull then JUndef else fld (fld raw ''golden'') ''output'')"
    using g(1) rec by (simp add: check_golden_def Let_def split: if_splits)
  have sel: "ws_golden_input ws = fst golden" "ws_golden_output ws = snd golden"
    by (simp_all add: g(2) make_worksheet_def Let_def)
  have t: "tame (fld raw ''golden'')" 
    using tame_fld [OF assms(2), of "''golden''"] rec(1) by (auto simp: is_record_def)
  show "tame (ws_golden_input ws)"
    using tame_fld [OF t, of "''input''"] rec(2) by (auto simp: sel gold is_record_def)
  show "ws_golden_output ws = JUndef \<or> tame (ws_golden_output ws)"
    using tame_fld [OF t, of "''output''"] by (auto simp: sel gold)
qed

lemma valid_compiles:
  assumes "parseWorksheetYaml h text = Inr parsed" "tame parsed" "validateWorksheet h parsed = Inr ws" "host_laws h"
  shows "\<exists>files. compileWorksheetFile h (Inr text) opts =
    Inr (if nestedVersionLayout opts then path_join (path_join (outBase opts) (ws_capability ws)) (ws_version ws)
         else path_join (outBase opts) (ws_capability ws), files)"
proof -
  let ?d = "worksheetToCapabilityDefinition ws"
  note v = validated_worksheet [OF assms(3,2,4)] and g = validated_golden [OF assms(3,2)]
  have tame: "tame (definition_json ?d)" "tame (sort_keys_deep (JObj (meta_members ws)))" "tame (golden_fixture ws)"
    using tame_definition_json [of ?d] v(6) sort_keys_elems_tame [OF validated_meta_tame [OF v(1,3)]] g
    by (auto simp: definition_of_worksheet golden_fixture_def proto_key_def)
  obtain d_text m_text f_text where texts: "stringifySortedPretty (definition_json ?d) = Inr d_text"
    "stringifySortedPretty (buildMeta ws) = Inr m_text" "stringifySortedPretty (golden_fixture ws) = Inr f_text"
    using written_json [OF tame(1)] written_json [OF tame(2)] written_json [OF tame(3)]
    unfolding buildMeta_def normalize_sortKeysDeep_def by metis
  have "\<exists>hash. computeCapabilityDefinitionHash ?d = Inr hash"
    using tame_plain(1) [OF v(6)]
    by (simp add: computeCapabilityDefinitionHash_def stable_stringify_def definition_of_worksheet)
  then obtain hash where "computeCapabilityDefinitionHash ?d = Inr hash" by blast
  then show ?thesis
    by (simp add: compileWorksheetFile_def assms(1,3) artifacts_def Let_def texts)
qed

subsection \<open>A concrete worksheet\<close>

definition sheet_yaml :: json where
  "sheet_yaml = JObj
     [(''capability'', JStr '' ZAK.a''), (''version'', JStr ''1.0.0''),
      (''adapter'', JObj [(''key'', JStr ''k ''), (''route'', JStr ''r'')]),
      (''execution_class'', JStr ''B''), (''authority_requirements'', JStr ''none''),
      (''input_schema'', JObj []), (''output_schema'', JObj [(''ok'', JStr ''Boolean'')]),
      (''golden'', JObj [(''input'', JObj [])]), (''side_effect_tier'', JStr ''low''),
      (''idempotency'', JStr ''keyed''), (''replay_behavior'', JStr ''blocked''),
      (''tags'', JArr [JStr ''b '', JStr ''a'', JStr ''b''])]"

text \<open>An Ajv that accepts everything except an empty type.\<close>

definition sheet_host :: compiler_host where
  "sheet_host =
     \<lparr>semver_valid = (\<lambda>s. s = ''1.0.0''),
      ajv_compile = (\<lambda>schema. if fld schema ''type'' = JStr [] then Inl ''type'' else Inr (\<lambda>v. (True, None))),
      errorsText = (\<lambda>e. []), parseYaml = (\<lambda>text. Inr sheet_yaml), stringifyYaml = (\<lambda>v. [])\<rparr>"

lemma sheet_host_laws: "host_laws sheet_host"
  by (simp add: host_laws_def sheet_host_def)

lemma sheet_yaml_plain: "json_plain sheet_yaml"
  by (simp add: sheet_yaml_def)

definition sheet_sorted :: json where
  "sheet_sorted = JObj
     [(''adapter'', JObj [(''key'', JStr ''k''), (''route'', JStr ''r'')]),
      (''authority_requirements'', JStr ''none''), (''capability'', JStr ''zak.a''),
      (''execution_class'', JStr ''B''), (''golden'', JObj [(''input'', JObj [])]),
      (''idempotency'', JStr ''keyed''),
      (''input_schema'', JObj []), (''output_schema'', JObj [(''ok'', JStr ''Boolean'')]),
      (''replay_behavior'', JStr ''blocked''),
      (''side_effect_tier'', JStr ''low''),
      (''tags'', JArr [JStr ''b'', JStr ''a'', JStr ''b'']), (''version'', JStr ''1.0.0'')]"

lemma assign_all_same:
  assumes "distinct (map fst kvs)" "\<forall>p \<in> set kvs. \<not> array_index (fst p) \<and> fst p \<noteq> proto_key"
  shows "assign_all kvs = kvs"
  using assms by (subst assign_all_no_proto) (auto intro: set_all_same)

text \<open>What the normalisation makes of it, step by step.\<close>

lemma sheet_trim: "trimDeep sheet_yaml = JObj
     [(''adapter'', JObj [(''key'', JStr ''k''), (''route'', JStr ''r'')]),
      (''authority_requirements'', JStr ''none''), (''capability'', JStr ''ZAK.a''),
      (''execution_class'', JStr ''B''), (''golden'', JObj [(''input'', JObj [])]),
      (''idempotency'', JStr ''keyed''),
      (''input_schema'', JObj []), (''output_schema'', JObj [(''ok'', JStr ''Boolean'')]),
      (''replay_behavior'', JStr ''blocked''),
      (''side_effect_tier'', JStr ''low''),
      (''tags'', JArr [JStr ''b'', JStr ''a'', JStr ''b'']), (''version'', JStr ''1.0.0'')]"
  by (simp add: sheet_yaml_def trim_def is_ws_def assign_all_same proto_key_def is_digit_def)

lemma sheet_parsed: "parseWorksheetYaml sheet_host [] = Inr sheet_sorted"
  by (simp add: parseWorksheetYaml_def sheet_host_def normalizeWorksheetTree_def sheet_trim normalize_sortKeysDeep_def
     assign_all_same proto_key_def is_digit_def applyNamingNorm_def rename_str_def Let_def normalizeCapabilityId_def normalizeAdapterField_def trim_def is_ws_def sheet_sorted_def to_lower_def lower_char_def char_of_def bit_0)

definition sheet_output_schema :: json where
  "sheet_output_schema = JObj [(''type'', JStr ''object''),
     (''properties'', JObj [(''ok'', JObj [(''type'', JStr ''boolean'')])]), (''additionalProperties'', JBool False)]"

lemma sheet_coerce: "coerceOutputSchema (JObj [(''ok'', JStr ''Boolean'')]) = Inr sheet_output_schema"
  by (simp add: coerceOutputSchema_def is_str_def trim_def is_ws_def to_lower_def lower_char_def char_of_def bit_0 shorthand_types_def
    obj_assign_def obj_set_def proto_key_def is_digit_def sheet_output_schema_def)

lemma sheet_keys: "unknown_keys sheet_sorted = []"
  by (simp add: unknown_keys_def sheet_sorted_def TOP_KEYS_def)

lemma sheet_fields: "field_errors sheet_host sheet_sorted = []"
  by (simp add: field_errors_def Let_def sheet_sorted_def str_ok_def CAPABILITY_RE_def is_lower_def
     word_char_def is_digit_def sheet_host_def is_record_def ADAPTER_KEY_RE_def ROUTE_RE_def one_of_def authority_names_def
     is_null_or_undef_def)

lemma sheet_class: "class_errors sheet_sorted = []"
  by (simp add: class_errors_def Let_def sheet_sorted_def one_of_def)

lemma sheet_tags: "worksheet_tags (fld sheet_sorted ''tags'') = Some (Some [''a'', ''b''])"
  by (simp add: sheet_sorted_def worksheet_tags_def is_str_def the_string_def trim_def is_ws_def Let_def)

lemma sheet_parts:
  "is_record sheet_sorted" "fld sheet_sorted ''output_schema'' = JObj [(''ok'', JStr ''Boolean'')]"
  "fld sheet_sorted ''input_schema'' = JObj []" "fld sheet_sorted ''golden'' = JObj [(''input'', JObj [])]"
  by (simp_all add: sheet_sorted_def is_record_def)

lemma sheet_golden:
  "check_golden sheet_host (\<lambda>v. (True, None)) (\<lambda>v. (True, None)) (JObj [(''input'', JObj [])]) = Inr (JObj [], JUndef)"
  by (simp add: check_golden_def is_record_def Let_def)

lemma sheet_ajv:
  "ajv_compile sheet_host sheet_output_schema = Inr (\<lambda>v. (True, None))"
  "ajv_compile sheet_host (JObj []) = Inr (\<lambda>v. (True, None))"
  by (simp_all add: sheet_host_def sheet_output_schema_def)

lemma sheet_valid:
  "validateWorksheet sheet_host sheet_sorted =
     Inr (make_worksheet sheet_sorted sheet_output_schema (JObj [], JUndef) (Some [''a'', ''b'']))"
  unfolding validateWorksheet_def sheet_keys sheet_fields sheet_class sheet_tags sheet_parts sheet_coerce sheet_ajv
     sheet_golden by (simp add: sheet_golden sheet_ajv sheet_parts)

lemma sheet_tame: "tame sheet_sorted"
  using parsed_worksheet_tame [OF _ sheet_yaml_plain sheet_parsed] by (simp add: sheet_host_def)

lemma sheet_compiles:
  "\<exists>outDir files. compileWorksheetFile sheet_host (Inr []) opts = Inr (outDir, files)"
  using valid_compiles [OF sheet_parsed sheet_tame sheet_valid sheet_host_laws] by blast

lemma sheet_read: "parseYaml sheet_host [] = Inr sheet_yaml"
  by (simp add: sheet_host_def)

subsection \<open>Properties\<close>

text \<open>C39: What the compiler writes, the registry loads. When a worksheet compiles, loading the directory below
  \<open>outBase\<close>, in either layout and with hash verification on, succeeds and gives exactly one bundle: its
  definition has the identity (so also the hash) of the worksheet's definition, and its metadata is that of
  the worksheet, with the coerced output schema up to the order of keys.\<close>

theorem compile_then_load:
  assumes "parseYaml h sheet = Inr y" "json_plain y" "host_laws h"
    and "compileWorksheetFile h (Inr sheet) opts = Inr (outDir, files)"
  shows "\<exists>parsed ws b. parseWorksheetYaml h sheet = Inr parsed \<and> validateWorksheet h parsed = Inr ws \<and>
    snd (loadCapabilityBundlesFromDirectory (semver_valid h) caps
      (Some (Dir (compiled_tree (nestedVersionLayout opts) ws files))) \<lparr>verifyDefinitionHashFile = None\<rparr>) = Inr [b] \<and>
    definition_identity (bundle_definition b) = definition_identity (worksheetToCapabilityDefinition ws) \<and>
    bundle_meta b = meta_of_worksheet ws (reread (ws_output_schema ws)) \<and>
    canon (reread (ws_output_schema ws)) = canon (ws_output_schema ws)"
proof -
  obtain parsed ws hash where c: "parseWorksheetYaml h sheet = Inr parsed" "tame parsed"
    "validateWorksheet h parsed = Inr ws" "written ws hash files"
    using assms by (rule compiled)
  note v = validated_worksheet [OF c(3,2) assms(3)]
  have "definition_identity (bundle_definition (compiled_bundle ws)) =
      definition_identity (worksheetToCapabilityDefinition ws)"
    using v(6) by (simp add: compiled_bundle_def reread_definition_identity definition_of_worksheet)
  then show ?thesis
    using c(1,3) load_compiled [OF c(4,3,2) assms(3)] canon_reread [OF v(3)]
    by (intro exI [of _ parsed] exI [of _ ws] exI [of _ "compiled_bundle ws"]) (simp add: compiled_bundle_def)
qed

theorem compile_then_load_witness:
  "\<exists>outDir files ws b.
    compileWorksheetFile sheet_host (Inr []) \<lparr>outBase = ''out'', nestedVersionLayout = True\<rparr> = Inr (outDir, files) \<and>
    snd (loadCapabilityBundlesFromDirectory (semver_valid sheet_host) ''out''
      (Some (Dir (compiled_tree True ws files))) \<lparr>verifyDefinitionHashFile = None\<rparr>) = Inr [b] \<and>
    definition_identity (bundle_definition b) = definition_identity (worksheetToCapabilityDefinition ws)"
proof -
  let ?opts = "\<lparr>outBase = ''out'', nestedVersionLayout = True\<rparr>"
  obtain outDir files where c: "compileWorksheetFile sheet_host (Inr []) ?opts = Inr (outDir, files)"
    using sheet_compiles by blast
  from compile_then_load [OF sheet_read sheet_yaml_plain sheet_host_laws c, of "''out''"] show ?thesis
    using c unfolding compile_options.select_convs by blast
qed

text \<open>The compiler's own verifier accepts every tree that the compiler wrote: the hash that it recomputes from
  the raw \<open>definition.json\<close>, whose shape it does not check, is the pinned one.\<close>

theorem compiled_tree_verifies:
  assumes "parseYaml h sheet = Inr y" "json_plain y" "host_laws h"
    and "compileWorksheetFile h (Inr sheet) opts = Inr (outDir, files)"
  shows "\<exists>parsed ws. parseWorksheetYaml h sheet = Inr parsed \<and> validateWorksheet h parsed = Inr ws \<and>
    verifyCompiledCapabilities (Some (Dir (compiled_tree (nestedVersionLayout opts) ws files))) = Inr ()"
proof -
  obtain parsed ws hash where c: "parseWorksheetYaml h sheet = Inr parsed" "tame parsed"
    "validateWorksheet h parsed = Inr ws" "written ws hash files"
    using assms by (rule compiled)
  show ?thesis
    using c(1,3) verify_compiled [OF c(4) validated_shape [OF c(3,2) assms(3)]] by blast
qed

theorem compiled_tree_verifies_witness:
  "\<exists>outDir files ws.
    compileWorksheetFile sheet_host (Inr []) \<lparr>outBase = ''out'', nestedVersionLayout = False\<rparr> = Inr (outDir, files) \<and>
    verifyCompiledCapabilities (Some (Dir (compiled_tree False ws files))) = Inr ()"
proof -
  let ?opts = "\<lparr>outBase = ''out'', nestedVersionLayout = False\<rparr>"
  obtain outDir files where c: "compileWorksheetFile sheet_host (Inr []) ?opts = Inr (outDir, files)"
    using sheet_compiles by blast
  from compiled_tree_verifies [OF sheet_read sheet_yaml_plain sheet_host_laws c] show ?thesis
    using c unfolding compile_options.select_convs by blast
qed

text \<open>C40: Emission never fails after validation: for a plain YAML document, compilation succeeds exactly when the
  document parses and validates, and then the output goes to the folder of the capability, with the version
  below it in the nested layout.\<close>

theorem compile_succeeds_iff_valid:
  assumes "parseYaml h sheet = Inr y" "json_plain y" "host_laws h"
  shows "(\<exists>files. compileWorksheetFile h (Inr sheet) opts = Inr (outDir, files)) =
    (\<exists>parsed ws. parseWorksheetYaml h sheet = Inr parsed \<and> validateWorksheet h parsed = Inr ws \<and>
      outDir = (if nestedVersionLayout opts
                then path_join (path_join (outBase opts) (ws_capability ws)) (ws_version ws)
                else path_join (outBase opts) (ws_capability ws)))"
    (is "?compiles = ?valid")
proof
  assume ?compiles
  then obtain files where c: "compileWorksheetFile h (Inr sheet) opts = Inr (outDir, files)" by blast
  obtain parsed ws hash where p: "parseWorksheetYaml h sheet = Inr parsed" "tame parsed"
    "validateWorksheet h parsed = Inr ws"
    using assms c by (rule compiled)
  show ?valid
    using c valid_compiles [OF p assms(3), of opts] by (intro exI [of _ parsed] exI [of _ ws]) (auto simp: p)
next
  assume ?valid
  then obtain parsed ws where p: "parseWorksheetYaml h sheet = Inr parsed" "validateWorksheet h parsed = Inr ws"
    and dir: "outDir = (if nestedVersionLayout opts
                then path_join (path_join (outBase opts) (ws_capability ws)) (ws_version ws)
                else path_join (outBase opts) (ws_capability ws))"
    by blast
  have "tame parsed" by (rule parsed_worksheet_tame [OF assms(1,2) p(1)])
  from valid_compiles [OF p(1) this p(2) assms(3)] show ?compiles unfolding dir .
qed

theorem compile_succeeds_iff_valid_witness:
  "\<exists>files. compileWorksheetFile sheet_host (Inr []) \<lparr>outBase = ''out'', nestedVersionLayout = True\<rparr>
     = Inr (''out/zak.a/1.0.0'', files)"
proof -
  have "''out/zak.a/1.0.0'' = path_join (path_join ''out'' (ws_capability (make_worksheet sheet_sorted
      sheet_output_schema (JObj [], JUndef) (Some [''a'', ''b''])))) (ws_version (make_worksheet sheet_sorted
      sheet_output_schema (JObj [], JUndef) (Some [''a'', ''b''])))"
    by (simp add: path_join_def make_worksheet_def Let_def sheet_sorted_def the_string_def)
  then show ?thesis
    using sheet_parsed sheet_valid
    by (subst compile_succeeds_iff_valid [OF sheet_read sheet_yaml_plain sheet_host_laws]) auto
qed

end
