(* ===== verification/Kernel_Contracts.thy ===== *)
theory Kernel_Contracts
  imports JSON_Text
begin

text \<open>
  The contracts of the adapters: \<open>zak-adapters/src/contracts/kernel.ts\<close>, \<open>contracts/audit.ts\<close> and
  \<open>utils/money.ts\<close>, and the interface \<open>KernelRuntime\<close> that both adapters are written against, as a locale.
\<close>

subsection \<open>Amounts\<close>

datatype monetary_value =
    Decimal string
  | Minor int

text \<open>The regular expression \<open>^-?\d+(\.\d+)?$\<close>.\<close>

definition digits1 :: "string \<Rightarrow> bool" where
  "digits1 s = (s \<noteq> [] \<and> list_all is_digit s)"

definition decimal_string :: "string \<Rightarrow> bool" where
  "decimal_string s =
     (let u = (case s of c # r \<Rightarrow> if c = CHR ''-'' then r else s | [] \<Rightarrow> [])
      in case split_on (CHR ''.'') u of
           [ip] \<Rightarrow> digits1 ip
         | [ip, fp] \<Rightarrow> digits1 ip \<and> digits1 fp
         | _ \<Rightarrow> False)"

definition float_error :: message where
  "float_error = ''Invalid monetary type: floats not permitted. Use string ('' @ [CHR 0x27] @ ''10.50''
     @ [CHR 0x27] @ '') or BigInt minor units.''"

definition parseAmount :: "json \<Rightarrow> monetary_value result" where
  "parseAmount v =
     (case v of
        JNum n \<Rightarrow> Inl float_error
      | JStr s \<Rightarrow> if \<not> decimal_string s then Inl ''Invalid monetary format: string must be numeric decimal.''
                  else Inr (Decimal s)
      | JBig i \<Rightarrow> Inr (Minor i)
      | _ \<Rightarrow> Inl ''Invalid monetary input: must be string or bigint.'')"

subsection \<open>The kernel\<close>

record envelope =
  intentId :: string
  payload :: json

datatype outcome = Success | Denied | Interrupted | Timeout

fun outcome_text :: "outcome \<Rightarrow> string" where
  "outcome_text Success = ''success''"
| "outcome_text Denied = ''denied''"
| "outcome_text Interrupted = ''interrupted''"
| "outcome_text Timeout = ''timeout''"

record runtime_info =
  admittedCapability :: string
  capabilityVersion :: string
  admitReceiptId :: string
  executeReceiptId :: "string option"

text \<open>A \<open>KernelResult\<close>; \<open>kr_digest\<close> and \<open>kr_output\<close> are \<open>JUndef\<close> when they are absent.\<close>

record kernel_result =
  kr_outcome :: outcome
  kr_digest :: json
  kr_runtime :: "runtime_info option"
  kr_error :: "string option"
  kr_output :: json

definition denied :: "runtime_info option \<Rightarrow> string \<Rightarrow> kernel_result" where
  "denied info e =
     \<lparr>kr_outcome = Denied, kr_digest = JUndef, kr_runtime = info, kr_error = Some e, kr_output = JUndef\<rparr>"

lemma denied_sel [simp]:
  "kr_outcome (denied info e) = Denied" "kr_error (denied info e) = Some e" "kr_runtime (denied info e) = info"
  "kr_output (denied info e) = JUndef" "kr_digest (denied info e) = JUndef"
  by (simp_all add: denied_def)

definition runtime_json :: "runtime_info \<Rightarrow> json" where
  "runtime_json i =
     JObj ([(''admittedCapability'', JStr (admittedCapability i)),
            (''capabilityVersion'', JStr (capabilityVersion i)),
            (''admitReceiptId'', JStr (admitReceiptId i))]
       @ (case executeReceiptId i of None \<Rightarrow> [] | Some r \<Rightarrow> [(''executeReceiptId'', JStr r)]))"

text \<open>The result as the object that is sent to the client; the order is that of every place that builds one.\<close>

definition result_json :: "kernel_result \<Rightarrow> json" where
  "result_json r =
     JObj ([(''outcome'', JStr (outcome_text (kr_outcome r)))]
       @ (if kr_digest r \<noteq> JUndef then [(''digest'', kr_digest r)] else [])
       @ (case kr_runtime r of None \<Rightarrow> [] | Some i \<Rightarrow> [(''runtime'', runtime_json i)])
       @ (case kr_error r of None \<Rightarrow> [] | Some e \<Rightarrow> [(''error'', JStr e)])
       @ (if kr_output r \<noteq> JUndef then [(''output'', kr_output r)] else []))"

text \<open>
  A kernel maps an envelope and a state to a result, or an exception, and a new state. \<open>granted s s'\<close> is
  what the state must show for a success: the contract of a governed kernel.
\<close>

type_synonym 's kernel = "envelope \<Rightarrow> 's \<Rightarrow> kernel_result result \<times> 's"

locale governed_kernel =
  fixes execute :: "envelope \<Rightarrow> 's \<Rightarrow> kernel_result result \<times> 's"
    and granted :: "envelope \<Rightarrow> 's \<Rightarrow> 's \<Rightarrow> bool"
  assumes success_granted: "execute e s = (Inr r, s') \<Longrightarrow> kr_outcome r = Success \<Longrightarrow> granted e s s'"

subsection \<open>Audit events\<close>

datatype audit_kind = INGESTED | EXECUTED | EMITTED | REJECTED

text \<open>An event, with the further fields as members; \<open>timestamp\<close> is an ISO 8601 string.\<close>

record audit_event =
  timestamp :: string
  adapterId :: string
  correlationId :: string
  event :: audit_kind
  extras :: "(string \<times> json) list"

end
