(* ===== verification/Proxy_Frames.thy ===== *)
theory Proxy_Frames
  imports Kernel_Contracts
begin

text \<open>
  What \<open>ProxyKernelClient.execute\<close> (\<open>zak-adapters/src/proxy/ProxyKernelClient.ts\<close>) sends and how it reads the
  answers: the frames of one execution, over a \<open>request\<close> that is a parameter. The connection that
  implements \<open>request\<close> is in \<open>Proxy_Client\<close>.
\<close>

subsection \<open>The environment\<close>

record proxy_env =
  ZAK_PROXY_PORT :: "string option"
  ZAK_PROXY_HOST :: "string option"
  ZAK_PROXY_CLIENT_ID :: "string option"
  ZAK_PROXY_PLUGIN :: "string option"
  ZAK_ADAPTER_ID :: "string option"
  ZAK_ADAPTER_CAPABILITIES :: "string option"
  ZAK_CONSTITUTION_ID :: "string option"
  ZAK_POLICY_HASH_CLAIM :: "string option"
  ZAK_ADVERSARIAL_MODE :: "string option"

definition or_empty :: "string option \<Rightarrow> string" where
  "or_empty v = (case v of None \<Rightarrow> [] | Some s \<Rightarrow> s)"

text \<open>
  \<open>Number(text)\<close> on the strings that a variable can hold: white space is ignored, the empty text is zero,
  and a prefix selects another base. A decimal literal may lack the digits on one side of its point.
\<close>

definition digit_in :: "nat \<Rightarrow> char \<Rightarrow> bool" where
  "digit_in base c = (case hex_val c of None \<Rightarrow> False | Some d \<Rightarrow> d < base)"

definition in_base :: "nat \<Rightarrow> string \<Rightarrow> jsnum" where
  "in_base base ds =
     (if ds \<noteq> [] \<and> list_all (digit_in base) ds
      then norm_dec (int (foldl (\<lambda>n c. base * n + the (hex_val c)) 0 ds)) 0 else NumNaN)"

definition decimal_number :: "bool \<Rightarrow> string \<Rightarrow> jsnum" where
  "decimal_number neg s =
     (if s = ''Infinity'' then NumInf neg
      else let (ip, r) = span_digits s;
               (fp, r1) = (case r of c # r' \<Rightarrow> if c = CHR ''.'' then span_digits r' else ([], r) | [] \<Rightarrow> ([], []))
           in if ip @ fp = [] then NumNaN
              else case parse_exp r1 of
                Some (x, []) \<Rightarrow>
                  (let m = int (nat_of_digits (ip @ fp))
                   in if m = 0 then (if neg then NumNegZero else NumDec 0 0)
                      else norm_dec (if neg then - m else m) (x - int (length fp)))
              | _ \<Rightarrow> NumNaN)"

definition js_number :: "string \<Rightarrow> jsnum" where
  "js_number text =
     (let s = trim text
      in case s of
           [] \<Rightarrow> NumDec 0 0
         | c # r \<Rightarrow>
             if starts_with ''0x'' s \<or> starts_with ''0X'' s then in_base 16 (drop 2 s)
             else if starts_with ''0o'' s \<or> starts_with ''0O'' s then in_base 8 (drop 2 s)
             else if starts_with ''0b'' s \<or> starts_with ''0B'' s then in_base 2 (drop 2 s)
             else if c = CHR ''-'' then decimal_number True r
             else if c = CHR ''+'' then decimal_number False r
             else decimal_number False s)"

definition isProxyEnabled :: "proxy_env \<Rightarrow> bool" where
  "isProxyEnabled env =
     (case ZAK_PROXY_PORT env of None \<Rightarrow> False | Some p \<Rightarrow> p \<noteq> [] \<and> js_number p \<noteq> NumNaN)"

subsection \<open>The proposal\<close>

definition KERNEL_BRIDGE :: string where
  "KERNEL_BRIDGE = ''execute.kernel_bridge''"

definition KERNEL_CONNECTION_LOST :: message where
  "KERNEL_CONNECTION_LOST = ''Kernel Connection Lost''"

text \<open>\<open>JSON.parse(JSON.stringify(payload, replacer))\<close>: a \<open>BigInt\<close> becomes its decimal text.\<close>

fun bigints_as_text :: "json \<Rightarrow> json"
  and bigints_elems :: "json list \<Rightarrow> json list"
  and bigints_members :: "(string \<times> json) list \<Rightarrow> (string \<times> json) list" where
  "bigints_as_text (JBig i) = JStr (show_int i)"
| "bigints_as_text (JArr xs) = JArr (bigints_elems xs)"
| "bigints_as_text (JObj kvs) = JObj (bigints_members kvs)"
| "bigints_as_text v = v"
| "bigints_elems [] = []"
| "bigints_elems (x # xs) = bigints_as_text x # bigints_elems xs"
| "bigints_members [] = []"
| "bigints_members ((k, v) # kvs) = (k, bigints_as_text v) # bigints_members kvs"

definition undefined_text_error :: message where
  "undefined_text_error = ''Unexpected token u in JSON at position 0''"

definition envelopePayloadClone :: "json \<Rightarrow> json result" where
  "envelopePayloadClone v =
     (if v = JUndef then Inl undefined_text_error
      else case json_parse (json_print (bigints_as_text v)) of
        None \<Rightarrow> Inl undefined_text_error
      | Some w \<Rightarrow> Inr w)"

definition adversarialPayloadProbe :: "json \<Rightarrow> json" where
  "adversarialPayloadProbe v =
     (case v of
        JObj kvs \<Rightarrow> JObj (obj_set ''malformed_probe'' (JBool True) kvs)
      | _ \<Rightarrow> JObj [(''wrapped'', v), (''malformed_probe'', JBool True)])"

record routing =
  fromModule :: string
  toModule :: string

record proposal =
  prop_capability :: string
  prop_routing :: routing
  prop_intent :: string
  prop_payload :: json
  prop_version :: string
  prop_hash :: "string option"

definition trimmed_text :: "json \<Rightarrow> string option" where
  "trimmed_text v = (case v of JStr s \<Rightarrow> if length (trim s) > 0 then Some (trim s) else None | _ \<Rightarrow> None)"

definition buildProposal :: "json \<Rightarrow> string \<Rightarrow> routing \<Rightarrow> proposal" where
  "buildProposal pl intent route =
     (if is_record pl then
        let req = fld pl ''capability_request'';
            field = (\<lambda>k. if is_record req then trimmed_text (fld req k) else None)
        in \<lparr>prop_capability = (case field ''capability'' of None \<Rightarrow> KERNEL_BRIDGE | Some c \<Rightarrow> c),
            prop_routing = route, prop_intent = intent, prop_payload = pl,
            prop_version = (case field ''capability_version'' of None \<Rightarrow> ''1.0.0'' | Some v \<Rightarrow> v),
            prop_hash = (case field ''capability_definition_hash'' of
                           None \<Rightarrow> None
                         | Some _ \<Rightarrow> (case fld req ''capability_definition_hash'' of JStr h \<Rightarrow> Some h | _ \<Rightarrow> None))\<rparr>
      else \<lparr>prop_capability = KERNEL_BRIDGE, prop_routing = route, prop_intent = intent, prop_payload = pl,
            prop_version = ''1.0.0'', prop_hash = None\<rparr>)"

definition proposal_json :: "proposal \<Rightarrow> json" where
  "proposal_json p =
     JObj ([(''capability'', JStr (prop_capability p)),
            (''from_module'', JStr (fromModule (prop_routing p))),
            (''to_module'', JStr (toModule (prop_routing p))),
            (''intent_id'', JStr (prop_intent p)),
            (''payload'', prop_payload p),
            (''capability_version'', JStr (prop_version p))]
       @ (case prop_hash p of None \<Rightarrow> [] | Some h \<Rightarrow> [(''capability_definition_hash'', JStr h)]))"

subsection \<open>The frames\<close>

definition admit_frame :: "string \<Rightarrow> string \<Rightarrow> string \<Rightarrow> proposal \<Rightarrow> json" where
  "admit_frame constitution claim intent p =
     JObj ([(''op'', JStr ''admit''),
            (''context'', JObj [(''constitution_id'', JStr constitution), (''correlation_id'', JStr intent)]),
            (''proposal'', proposal_json p)]
       @ (if claim \<noteq> [] then [(''policy_hash_claim'', JStr claim)] else []))"

definition execute_frame :: "string \<Rightarrow> string \<Rightarrow> string \<Rightarrow> proposal \<Rightarrow> json \<Rightarrow> json" where
  "execute_frame ticket receipt intent p pl =
     JObj [(''op'', JStr ''execute''), (''admit_ticket'', JStr ticket), (''admit_receipt_id'', JStr receipt),
           (''proposal'', proposal_json p),
           (''envelope'', JObj [(''intentId'', JStr intent), (''payload'', pl)]),
           (''context'', JObj [(''correlation_id'', JStr intent)])]"

definition null_error :: "string \<Rightarrow> message" where
  "null_error k = ''Cannot read properties of null (reading '' @ [CHR 0x27] @ k @ [CHR 0x27] @ '')''"

text \<open>A string that is not empty, as the two checks \<open>typeof x !== "string" || !x\<close> ask for.\<close>

definition text_of :: "json \<Rightarrow> string option" where
  "text_of v = (case v of JStr s \<Rightarrow> if s \<noteq> [] then Some s else None | _ \<Rightarrow> None)"

definition error_text :: "json \<Rightarrow> string \<Rightarrow> string" where
  "error_text v other = (case v of JStr e \<Rightarrow> e | _ \<Rightarrow> other)"

text \<open>Reading the answer to \<open>admit\<close>: a denial, or the ticket and the receipt.\<close>

definition read_admit :: "json \<Rightarrow> message + kernel_result + string \<times> string" where
  "read_admit res =
     (if res = JNull then Inl (null_error ''ok'')
      else if fld res ''ok'' \<noteq> JBool True \<or> fld res ''admitted'' \<noteq> JBool True then
        Inr (Inl (denied None (error_text (fld res ''error'') ''admit denied'')))
      else case text_of (fld res ''admit_ticket'') of
        None \<Rightarrow> Inr (Inl (denied None ''admit missing admit_ticket''))
      | Some ticket \<Rightarrow>
          (case text_of (fld res ''admit_receipt_id'') of
             None \<Rightarrow> Inr (Inl (denied None ''admit missing admit_receipt_id''))
           | Some receipt \<Rightarrow> Inr (Inr (ticket, receipt))))"

definition interpretGoldExecuteResponse :: "json \<Rightarrow> runtime_info \<Rightarrow> kernel_result result" where
  "interpretGoldExecuteResponse res runtime =
     (if res = JNull then Inl (null_error ''ok'')
      else
        let info = runtime\<lparr>executeReceiptId :=
                     (case fld res ''execute_receipt_id'' of JStr r \<Rightarrow> Some r | _ \<Rightarrow> None)\<rparr>;
            gold = fld res ''gold''
        in Inr
          (if fld res ''ok'' \<noteq> JBool True \<or> fld res ''executed'' \<noteq> JBool True then
             denied (Some info) (error_text (fld res ''error'') ''proxy execute error'')
           else if fld gold ''outcome'' = JStr ''success'' then
             \<lparr>kr_outcome = Success, kr_digest = fld gold ''digest'', kr_runtime = Some info, kr_error = None,
              kr_output = fld gold ''output''\<rparr>
           else if fld gold ''outcome'' = JStr ''denied'' \<or> truthy (fld gold ''error'') then
             denied (Some info) (js_string (nullish_else (fld gold ''error'') (JStr ''gold denied'')))
           else denied (Some info) ''unexpected gold response''))"

subsection \<open>Executing\<close>

type_synonym 's requester = "json \<Rightarrow> 's \<Rightarrow> json result \<times> 's"

text \<open>The payload that is sent.\<close>

definition sent_payload :: "proxy_env \<Rightarrow> json \<Rightarrow> json result" where
  "sent_payload env v =
     bind_result (envelopePayloadClone v) (\<lambda>w.
       Inr (if ZAK_ADVERSARIAL_MODE env = Some ''1'' then adversarialPayloadProbe w else w))"

definition execute_admitted ::
  "'s requester \<Rightarrow> string \<Rightarrow> proposal \<Rightarrow> json \<Rightarrow> string \<Rightarrow> string \<Rightarrow> 's \<Rightarrow> kernel_result result \<times> 's" where
  "execute_admitted request intent p pl ticket receipt s =
     (case request (execute_frame ticket receipt intent p pl) s of
        (Inl e, s') \<Rightarrow> (Inl e, s')
      | (Inr res, s') \<Rightarrow>
          (interpretGoldExecuteResponse res
             \<lparr>admittedCapability = prop_capability p, capabilityVersion = prop_version p,
              admitReceiptId = receipt, executeReceiptId = None\<rparr>, s'))"

definition admit_and_execute ::
  "'s requester \<Rightarrow> proxy_env \<Rightarrow> string \<Rightarrow> proposal \<Rightarrow> json \<Rightarrow> 's \<Rightarrow> kernel_result result \<times> 's" where
  "admit_and_execute request env intent p pl s =
     (case request (admit_frame (or_empty (ZAK_CONSTITUTION_ID env)) (or_empty (ZAK_POLICY_HASH_CLAIM env)) intent p) s of
        (Inl e, s1) \<Rightarrow> (Inl e, s1)
      | (Inr res, s1) \<Rightarrow>
          (case read_admit res of
             Inl e \<Rightarrow> (Inl e, s1)
           | Inr (Inl r) \<Rightarrow> (Inr r, s1)
           | Inr (Inr (ticket, receipt)) \<Rightarrow> execute_admitted request intent p pl ticket receipt s1))"

text \<open>\<open>poisoned\<close> reads the flag of the client.\<close>

definition proxy_execute ::
  "'s requester \<Rightarrow> ('s \<Rightarrow> bool) \<Rightarrow> proxy_env \<Rightarrow> routing \<Rightarrow> 's kernel \<Rightarrow> 's kernel" where
  "proxy_execute request poisoned env route fallback e s =
     (if \<not> isProxyEnabled env then fallback e s
      else if poisoned s then (Inl KERNEL_CONNECTION_LOST, s)
      else if or_empty (ZAK_CONSTITUTION_ID env) = [] then
        (Inl ''ProxyKernelClient: ZAK_CONSTITUTION_ID required when proxy is enabled'', s)
      else case sent_payload env (payload e) of
        Inl err \<Rightarrow> (Inl err, s)
      | Inr pl \<Rightarrow>
          admit_and_execute request env (intentId e) (buildProposal pl (intentId e) route) pl s)"

text \<open>A concrete environment.\<close>

definition kind_env :: proxy_env where
  "kind_env =
     \<lparr>ZAK_PROXY_PORT = Some ''4100'', ZAK_PROXY_HOST = None, ZAK_PROXY_CLIENT_ID = Some ''c'',
      ZAK_PROXY_PLUGIN = Some ''p'', ZAK_ADAPTER_ID = Some ''a'', ZAK_ADAPTER_CAPABILITIES = None,
      ZAK_CONSTITUTION_ID = Some ''k'', ZAK_POLICY_HASH_CLAIM = None, ZAK_ADVERSARIAL_MODE = None\<rparr>"

lemma kind_enabled: "isProxyEnabled kind_env"
  by (simp add: isProxyEnabled_def kind_env_def js_number_def decimal_number_def trim_def is_ws_def
      span_digits_def is_digit_def Let_def parse_exp_def norm_dec.simps nat_of_digits_def digit_val_def)

end
