(* ===== verification/Adapters.thy ===== *)
theory Adapters
  imports Kernel_Contracts Proxy_Frames
begin

text \<open>
  The two adapters of \<open>zak-adapters/src\<close>: the HTTP adapter (\<open>adapters/http/adapter.ts\<close>, \<open>server.ts\<close>), the
  ingress sentry (\<open>adapters/sentry/adapter.ts\<close>), and the wiring of \<open>index.ts\<close>. What they print on the
  standard output is a list of audit events in their state; the readings of the clocks and the random
  identifiers are numbered, and given by the host.
\<close>

subsection \<open>Host and state\<close>

record adapter_host =
  isoNow :: "nat \<Rightarrow> string"
  msNow :: "nat \<Rightarrow> int"
  randomUUID :: "nat \<Rightarrow> string"
  uptime :: "nat \<Rightarrow> jsnum"
  parse_error :: "string \<Rightarrow> message"

record 's adapter_state =
  reads :: nat
  audit :: "audit_event list"
  kernel_state :: 's

definition logEvent ::
  "adapter_host \<Rightarrow> string \<Rightarrow> audit_kind \<Rightarrow> string \<Rightarrow> (string \<times> json) list \<Rightarrow> 's adapter_state \<Rightarrow> 's adapter_state" where
  "logEvent host aid kind cid info st =
     st\<lparr>reads := reads st + 1,
        audit := audit st @
          [\<lparr>timestamp = isoNow host (reads st), adapterId = aid, correlationId = cid, event = kind, extras = info\<rparr>]\<rparr>"

definition js_int :: "int \<Rightarrow> json" where
  "js_int i = JNum (norm_dec i 0)"

subsection \<open>The HTTP adapter\<close>

text \<open>A header is one string or a non-empty array of strings.\<close>

datatype header_value = One string | Many string "string list"

type_synonym headers = "string \<Rightarrow> header_value option"

record http_input =
  in_intentId :: string
  in_payload :: json
  in_correlationId :: string

record http_output =
  out_status :: nat
  out_headers :: "(string \<times> string) list"
  out_body :: kernel_result

definition resolveCorrelationId ::
  "adapter_host \<Rightarrow> headers \<Rightarrow> 's adapter_state \<Rightarrow> string \<times> 's adapter_state" where
  "resolveCorrelationId host hs st =
     (case hs ''x-correlation-id'' of
        Some (Many x xs) \<Rightarrow> (x, st)
      | Some (One x) \<Rightarrow>
          if x \<noteq> [] then (x, st) else (randomUUID host (reads st), st\<lparr>reads := reads st + 1\<rparr>)
      | None \<Rightarrow> (randomUUID host (reads st), st\<lparr>reads := reads st + 1\<rparr>))"

definition has_key :: "string \<Rightarrow> json \<Rightarrow> bool" where
  "has_key k v = (case v of JObj kvs \<Rightarrow> map_of kvs k \<noteq> None | _ \<Rightarrow> False)"

definition is_object :: "json \<Rightarrow> bool" where
  "is_object v = (case v of JObj kvs \<Rightarrow> True | JArr xs \<Rightarrow> True | _ \<Rightarrow> False)"

text \<open>The body of the \<open>try\<close> block of \<open>ingest\<close>.\<close>

definition check_body :: "json \<Rightarrow> string \<Rightarrow> http_input result" where
  "check_body body cid =
     (if \<not> is_object body then Inl ''Invalid payload: Body must be a JSON object''
      else bind_result (if has_key ''amount'' body then bind_result (parseAmount (fld body ''amount'')) (\<lambda>_. Inr ())
                        else Inr ()) (\<lambda>_.
        case fld body ''intentId'' of
          JStr i \<Rightarrow> if i = [] then Inl ''Missing required field: intentId''
                    else Inr \<lparr>in_intentId = i, in_payload = body, in_correlationId = cid\<rparr>
        | _ \<Rightarrow> Inl ''Missing required field: intentId''))"

definition http_ingest ::
  "adapter_host \<Rightarrow> string \<Rightarrow> headers \<Rightarrow> json \<Rightarrow> 's adapter_state \<Rightarrow> http_input result \<times> 's adapter_state" where
  "http_ingest host aid hs body st =
     (let (cid, st1) = resolveCorrelationId host hs st;
          st2 = logEvent host aid INGESTED cid [] st1
      in case check_body body cid of
           Inl e \<Rightarrow> (Inl e, logEvent host aid REJECTED cid [(''error'', JStr e)] st2)
         | Inr input \<Rightarrow> (Inr input, st2))"

definition http_execute ::
  "adapter_host \<Rightarrow> string \<Rightarrow> 's kernel \<Rightarrow> http_input \<Rightarrow> 's adapter_state \<Rightarrow> kernel_result result \<times> 's adapter_state" where
  "http_execute host aid kern input st =
     (let start = msNow host (reads st);
          (res, ks) = kern \<lparr>intentId = in_intentId input, payload = in_payload input\<rparr> (kernel_state st);
          st1 = st\<lparr>reads := reads st + 2, kernel_state := ks\<rparr>;
          duration = js_int (msNow host (reads st + 1) - start)
      in case res of
           Inr r \<Rightarrow>
             (Inr r, logEvent host aid EXECUTED (in_correlationId input)
                [(''durationMs'', duration), (''outcome'', JStr (outcome_text (kr_outcome r)))] st1)
         | Inl e \<Rightarrow>
             (Inl e, logEvent host aid REJECTED (in_correlationId input)
                [(''durationMs'', duration), (''error'', JStr e)] st1))"

definition outcome_status :: "outcome \<Rightarrow> nat" where
  "outcome_status x =
     (if x = Success then 200 else if x = Denied then 403 else if x = Timeout then 408 else 500)"

definition http_emit ::
  "adapter_host \<Rightarrow> string \<Rightarrow> string \<Rightarrow> kernel_result \<Rightarrow> 's adapter_state \<Rightarrow> http_output \<times> 's adapter_state" where
  "http_emit host aid cid r st =
     (\<lparr>out_status = outcome_status (kr_outcome r),
       out_headers = [(''Content-Type'', ''application/json''), (''X-Correlation-ID'', cid),
                      (''X-ZAK-Adapter'', aid)],
       out_body = r\<rparr>,
      logEvent host aid EMITTED cid [(''outcome'', JStr (outcome_text (kr_outcome r)))] st)"

subsection \<open>The HTTP server\<close>

record http_request =
  req_method :: string
  req_url :: string
  req_headers :: headers
  req_chunks :: "string list"

text \<open>The body is the value that \<open>JSON.stringify\<close> prints.\<close>

record http_response =
  res_status :: nat
  res_headers :: "(string \<times> string) list"
  res_body :: "json option"

definition corsHeaders :: "(string \<times> string) list" where
  "corsHeaders =
     [(''Access-Control-Allow-Origin'', ''*''), (''Access-Control-Allow-Methods'', ''GET,POST,OPTIONS''),
      (''Access-Control-Allow-Headers'', ''Content-Type,X-Correlation-ID'')]"

text \<open>The text of the body; \<open>None\<close> when the connection is destroyed because it is too long.\<close>

fun collect_body :: "string \<Rightarrow> string list \<Rightarrow> string option" where
  "collect_body text [] = Some text"
| "collect_body text (c # cs) =
     (if length (text @ c) > 1000000 then None else collect_body (text @ c) cs)"

definition error_response :: "message \<Rightarrow> http_response" where
  "error_response e =
     \<lparr>res_status = (if includes_str ''Invalid'' e then 400 else 500),
      res_headers = (''Content-Type'', ''application/json'') # corsHeaders,
      res_body = Some (JObj [(''error'', JStr e)])\<rparr>"

text \<open>The \<open>end\<close> handler of the execution endpoint.\<close>

definition execute_endpoint ::
  "adapter_host \<Rightarrow> string \<Rightarrow> 's kernel \<Rightarrow> headers \<Rightarrow> string \<Rightarrow> 's adapter_state \<Rightarrow> http_response \<times> 's adapter_state" where
  "execute_endpoint host aid kern hs text st =
     (case json_parse text of
        None \<Rightarrow> (error_response (parse_error host text), st)
      | Some body \<Rightarrow>
          (case http_ingest host aid hs body st of
             (Inl e, st1) \<Rightarrow> (error_response e, st1)
           | (Inr input, st1) \<Rightarrow>
               (case http_execute host aid kern input st1 of
                  (Inl e, st2) \<Rightarrow> (error_response e, st2)
                | (Inr r, st2) \<Rightarrow>
                    (let (out, st3) = http_emit host aid (in_correlationId input) r st2
                     in (\<lparr>res_status = out_status out, res_headers = out_headers out @ corsHeaders,
                          res_body = Some (result_json (out_body out))\<rparr>, st3)))))"

text \<open>One request: \<open>None\<close> is a connection that is destroyed without an answer.\<close>

definition handle_request ::
  "adapter_host \<Rightarrow> string \<Rightarrow> 's kernel \<Rightarrow> http_request \<Rightarrow> 's adapter_state \<Rightarrow> http_response option \<times> 's adapter_state" where
  "handle_request host aid kern req st =
     (if req_method req = ''OPTIONS'' then
        (Some \<lparr>res_status = 204, res_headers = corsHeaders, res_body = None\<rparr>, st)
      else if req_method req = ''GET'' \<and> req_url req = ''/zak/health'' then
        (Some \<lparr>res_status = 200, res_headers = (''Content-Type'', ''application/json'') # corsHeaders,
               res_body = Some (JObj [(''status'', JStr ''ok''), (''uptime'', JNum (uptime host (reads st)))])\<rparr>,
         st\<lparr>reads := reads st + 1\<rparr>)
      else if req_method req = ''POST'' \<and> req_url req = ''/zak/execute'' then
        (case collect_body [] (req_chunks req) of
           None \<Rightarrow> (None, st)
         | Some text \<Rightarrow>
             (let (res, st') = execute_endpoint host aid kern (req_headers req) text st in (Some res, st')))
      else (Some \<lparr>res_status = 404, res_headers = corsHeaders, res_body = None\<rparr>, st))"

subsection \<open>The ingress sentry\<close>

datatype packet_protocol = SCTP | UDP | TCP

datatype signaling_type = INIT | HEARTBEAT | DATA

record packet =
  srcAddr :: string
  dstAddr :: string
  protocol :: packet_protocol
  packet_length :: int
  signalingType :: "signaling_type option"
  packetHash :: string

fun protocol_text :: "packet_protocol \<Rightarrow> string" where
  "protocol_text SCTP = ''SCTP''"
| "protocol_text UDP = ''UDP''"
| "protocol_text TCP = ''TCP''"

fun signaling_text :: "signaling_type \<Rightarrow> string" where
  "signaling_text INIT = ''INIT''"
| "signaling_text HEARTBEAT = ''HEARTBEAT''"
| "signaling_text DATA = ''DATA''"

definition packet_json :: "packet \<Rightarrow> json" where
  "packet_json p =
     JObj ([(''srcAddr'', JStr (srcAddr p)), (''dstAddr'', JStr (dstAddr p)),
            (''protocol'', JStr (protocol_text (protocol p))), (''length'', js_int (packet_length p))]
       @ (case signalingType p of None \<Rightarrow> [] | Some t \<Rightarrow> [(''signalingType'', JStr (signaling_text t))])
       @ [(''packetHash'', JStr (packetHash p))])"

text \<open>The class has a \<open>logEvent\<close> of its own, with the same body.\<close>

definition sentry_logEvent ::
  "adapter_host \<Rightarrow> string \<Rightarrow> audit_kind \<Rightarrow> string \<Rightarrow> (string \<times> json) list \<Rightarrow> 's adapter_state \<Rightarrow> 's adapter_state" where
  "sentry_logEvent host aid kind cid info st = logEvent host aid kind cid info st"

definition sentry_ingest ::
  "adapter_host \<Rightarrow> string \<Rightarrow> packet \<Rightarrow> string \<Rightarrow> 's adapter_state \<Rightarrow> envelope \<times> 's adapter_state" where
  "sentry_ingest host aid p cid st =
     (\<lparr>intentId = ''mitigate-storm'', payload = packet_json p\<rparr>,
      sentry_logEvent host aid INGESTED cid [(''protocol'', JStr (protocol_text (protocol p)))] st)"

definition sentry_execute ::
  "adapter_host \<Rightarrow> string \<Rightarrow> 's kernel \<Rightarrow> envelope \<Rightarrow> 's adapter_state \<Rightarrow> kernel_result result \<times> 's adapter_state" where
  "sentry_execute host aid kern e st =
     (let start = msNow host (reads st)
      in case kern e (kernel_state st) of
           (Inl err, ks) \<Rightarrow> (Inl err, st\<lparr>reads := reads st + 1, kernel_state := ks\<rparr>)
         | (Inr r, ks) \<Rightarrow>
             (Inr r, sentry_logEvent host aid EXECUTED ''N/A''
                [(''durationMs'', js_int (msNow host (reads st + 1) - start)),
                 (''outcome'', JStr (outcome_text (kr_outcome r)))]
                (st\<lparr>reads := reads st + 2, kernel_state := ks\<rparr>)))"

datatype xdp_action = XDP_PASS | XDP_DROP | XDP_ABORTED

definition sentry_emit :: "kernel_result \<Rightarrow> xdp_action" where
  "sentry_emit r =
     (if kr_outcome r = Success then XDP_PASS
      else if kr_outcome r = Denied then XDP_DROP
      else XDP_ABORTED)"

subsection \<open>Wiring\<close>

definition unavailableKernel :: "'s kernel" where
  "unavailableKernel e s =
     (Inr \<lparr>kr_outcome = Denied, kr_digest = JUndef, kr_runtime = None,
           kr_error = Some ''Constitutional proxy runtime is unavailable. Set ZAK_PROXY_PORT and related proxy env before executing capabilities.'',
           kr_output = JObj [(''intentId'', JStr (intentId e)), (''receivedPayload'', payload e)]\<rparr>, s)"

definition adapter_routing :: "string option \<Rightarrow> string \<Rightarrow> routing" where
  "adapter_routing negative_test adapterType =
     (let negativeTest = (negative_test = Some ''1'')
      in if adapterType = ''sentry''
         then \<lparr>fromModule = (if negativeTest then ''evil/not-in-dependency-map'' else ''adapters/sentry/adapter''),
               toModule = ''kernel/runner''\<rparr>
         else \<lparr>fromModule = (if negativeTest then ''evil/not-in-dependency-map'' else ''adapters/http/adapter''),
               toModule = ''kernel/runner''\<rparr>)"

definition kernelRuntimeForAdapterType ::
  "'s requester \<Rightarrow> ('s \<Rightarrow> bool) \<Rightarrow> proxy_env \<Rightarrow> string option \<Rightarrow> string \<Rightarrow> 's kernel" where
  "kernelRuntimeForAdapterType request poisoned env negative_test adapterType =
     proxy_execute request poisoned env (adapter_routing negative_test adapterType) unavailableKernel"

text \<open>What \<open>bootstrap\<close> starts.\<close>

datatype startup = StartHttp jsnum | StartSentry | StartNothing

definition ADAPTER_TYPE :: "string option \<Rightarrow> string" where
  "ADAPTER_TYPE v = (case v of None \<Rightarrow> ''http'' | Some s \<Rightarrow> if s = [] then ''http'' else s)"

definition bootstrap :: "string option \<Rightarrow> string option \<Rightarrow> startup" where
  "bootstrap adapter_type port =
     (if ADAPTER_TYPE adapter_type = ''http'' then
        StartHttp (let n = (case port of None \<Rightarrow> NumNaN | Some p \<Rightarrow> js_number p)
                   in if truthy (JNum n) then n else NumDec 808 1)
      else if ADAPTER_TYPE adapter_type = ''sentry'' then StartSentry
      else StartNothing)"

end
