(* ===== verification/Adapter_Properties.thy ===== *)
theory Adapter_Properties
  imports Adapters
begin

text \<open>
  The properties of the adapters: the proxy executes only what it admitted, a success that reaches an
  HTTP client or lets a packet pass was admitted and executed, and the audit trail of a request. The
  locale \<open>governed_kernel\<close> is the interface between the adapters and the kernel: its lemmas hold for every
  kernel that keeps the contract, and the interpretation shows that the proxy client does.
\<close>

subsection \<open>Every governed kernel\<close>

lemma http_execute_Inr:
  assumes "http_execute host aid kern input st = (Inr r, st')"
  shows "kern \<lparr>intentId = in_intentId input, payload = in_payload input\<rparr> (kernel_state st) = (Inr r, kernel_state st')"
  using assms by (auto simp: http_execute_def Let_def logEvent_def split: prod.splits sum.splits)

lemma check_body_Inr:
  assumes "check_body body cid = Inr input"
  shows "in_payload input = body \<and> fld body ''intentId'' = JStr (in_intentId input) \<and> in_correlationId input = cid \<and>
    (has_key ''amount'' body \<longrightarrow> (\<exists>a. parseAmount (fld body ''amount'') = Inr a))"
proof (cases "has_key ''amount'' body")
  case True
  then show ?thesis
    using assms by (cases "parseAmount (fld body ''amount'')")
      (auto simp: check_body_def split: if_splits json.splits)
next
  case False
  then show ?thesis using assms by (auto simp: check_body_def split: if_splits json.splits)
qed

lemma http_ingest_Inr:
  assumes "http_ingest host aid hs body st = (Inr input, st')"
  shows "\<exists>cid. check_body body cid = Inr input" "kernel_state st' = kernel_state st"
proof -
  obtain cid st1 where c: "resolveCorrelationId host hs st = (cid, st1)" by (cases "resolveCorrelationId host hs st")
  have "kernel_state st1 = kernel_state st"
    using c by (auto simp: resolveCorrelationId_def split: option.splits header_value.splits if_splits)
  then show "\<exists>cid. check_body body cid = Inr input" "kernel_state st' = kernel_state st"
    using assms c by (auto simp: http_ingest_def Let_def logEvent_def split: sum.splits)
qed

text \<open>What an answer 200 of the execution endpoint went through.\<close>

lemma endpoint_200:
  assumes "execute_endpoint host aid kern hs text st = (res, st')" "res_status res = 200"
  obtains body input r st1 where "json_parse text = Some body" "\<exists>cid. check_body body cid = Inr input"
    "kern \<lparr>intentId = in_intentId input, payload = in_payload input\<rparr> (kernel_state st) = (Inr r, kernel_state st')"
    "kr_outcome r = Success" "res_body res = Some (result_json r)"
proof -
  obtain body where b: "json_parse text = Some body"
    using assms by (cases "json_parse text") (auto simp: execute_endpoint_def error_response_def split: if_splits)
  obtain input st1 where i: "http_ingest host aid hs body st = (Inr input, st1)"
    using assms b
    by (cases "http_ingest host aid hs body st"; cases "fst (http_ingest host aid hs body st)")
      (auto simp: execute_endpoint_def error_response_def split: if_splits)
  obtain r st2 where r: "http_execute host aid kern input st1 = (Inr r, st2)"
    using assms b i
    by (cases "http_execute host aid kern input st1"; cases "fst (http_execute host aid kern input st1)")
      (auto simp: execute_endpoint_def error_response_def split: if_splits)
  have out: "res_status res = outcome_status (kr_outcome r)" "res_body res = Some (result_json r)"
    "kernel_state st' = kernel_state st2"
    using assms(1) b i r by (auto simp: execute_endpoint_def http_emit_def Let_def logEvent_def)
  have "kr_outcome r = Success" using out(1) assms(2) by (auto simp: outcome_status_def split: if_splits)
  then show ?thesis
    using that [OF b http_ingest_Inr(1) [OF i]] http_execute_Inr [OF r] http_ingest_Inr(2) [OF i] out(2,3) by simp
qed

context governed_kernel
begin

lemma http_success_granted:
  assumes "execute_endpoint host aid execute hs text st = (res, st')" "res_status res = 200"
  shows "\<exists>body i. json_parse text = Some body \<and> fld body ''intentId'' = JStr i \<and>
    (has_key ''amount'' body \<longrightarrow> (\<exists>a. parseAmount (fld body ''amount'') = Inr a)) \<and>
    granted \<lparr>intentId = i, payload = body\<rparr> (kernel_state st) (kernel_state st')"
proof -
  obtain body input r where e: "json_parse text = Some body" "\<exists>cid. check_body body cid = Inr input"
    "execute \<lparr>intentId = in_intentId input, payload = in_payload input\<rparr> (kernel_state st) = (Inr r, kernel_state st')"
    "kr_outcome r = Success"
    using assms by (rule endpoint_200)
  then show ?thesis
    using success_granted [OF e(3,4)] check_body_Inr by metis
qed

lemma sentry_pass_granted:
  assumes "sentry_execute host aid execute e st = (Inr r, st')" "sentry_emit r = XDP_PASS"
  shows "granted e (kernel_state st) (kernel_state st')"
proof -
  have "execute e (kernel_state st) = (Inr r, kernel_state st')"
    using assms(1) by (auto simp: sentry_execute_def Let_def sentry_logEvent_def logEvent_def split: prod.splits sum.splits)
  moreover have "kr_outcome r = Success" using assms(2) by (auto simp: sentry_emit_def split: if_splits)
  ultimately show ?thesis by (rule success_granted)
qed

end

subsection \<open>The exchange with the proxy\<close>

text \<open>The frames that were sent, each with what came back; \<open>answer\<close> is the proxy.\<close>

type_synonym exchanges = "(json \<times> json result) list"

definition ask :: "(exchanges \<Rightarrow> json \<Rightarrow> json result) \<Rightarrow> exchanges requester" where
  "ask answer frame s = (answer s frame, s @ [(frame, answer s frame)])"

definition env_admit_frame :: "proxy_env \<Rightarrow> envelope \<Rightarrow> proposal \<Rightarrow> json" where
  "env_admit_frame env e p =
     admit_frame (or_empty (ZAK_CONSTITUTION_ID env)) (or_empty (ZAK_POLICY_HASH_CLAIM env)) (intentId e) p"

text \<open>The answers that let an execution go on: an admission with its ticket and receipt, and a success.\<close>

definition admits :: "json \<Rightarrow> string \<Rightarrow> string \<Rightarrow> bool" where
  "admits a ticket receipt =
     (fld a ''ok'' = JBool True \<and> fld a ''admitted'' = JBool True \<and>
      fld a ''admit_ticket'' = JStr ticket \<and> ticket \<noteq> [] \<and>
      fld a ''admit_receipt_id'' = JStr receipt \<and> receipt \<noteq> [])"

definition reports_success :: "json \<Rightarrow> bool" where
  "reports_success x =
     (fld x ''ok'' = JBool True \<and> fld x ''executed'' = JBool True \<and>
      fld (fld x ''gold'') ''outcome'' = JStr ''success'')"

lemma text_of_Some: "text_of v = Some s \<longleftrightarrow> v = JStr s \<and> s \<noteq> []"
  by (auto simp: text_of_def split: json.split)

lemma text_of_None: "text_of (JStr s) = None \<longleftrightarrow> s = []"
  by (simp add: text_of_def)

lemma read_admit_ok:
  "read_admit a = Inr (Inr (ticket, receipt)) \<longleftrightarrow> admits a ticket receipt"
  by (auto simp: read_admit_def admits_def text_of_Some text_of_None split: option.splits if_splits)

lemma read_admit_denied: "read_admit a = Inr (Inl r) \<Longrightarrow> kr_outcome r = Denied"
  by (auto simp: read_admit_def split: option.splits if_splits)

lemma interpret_success:
  "interpretGoldExecuteResponse x info = Inr r \<Longrightarrow> kr_outcome r = Success \<Longrightarrow> reports_success x"
  by (auto simp: interpretGoldExecuteResponse_def reports_success_def Let_def split: if_splits)

text \<open>The three ways a call can end: nothing sent, admission asked, or admitted and execution asked.\<close>

definition nothing_sent :: "kernel_result result \<Rightarrow> exchanges \<Rightarrow> bool" where
  "nothing_sent res sent = (sent = [] \<and> throws res)"

definition only_admission_sent ::
  "proxy_env \<Rightarrow> envelope \<Rightarrow> proposal \<Rightarrow> kernel_result result \<Rightarrow> exchanges \<Rightarrow> bool" where
  "only_admission_sent env e p res sent =
     (\<exists>adm. sent = [(env_admit_frame env e p, adm)] \<and> (\<forall>r. res = Inr r \<longrightarrow> kr_outcome r = Denied))"

definition admission_and_execution_sent ::
  "proxy_env \<Rightarrow> envelope \<Rightarrow> proposal \<Rightarrow> json \<Rightarrow> kernel_result result \<Rightarrow> exchanges \<Rightarrow> bool" where
  "admission_and_execution_sent env e p pl res sent =
     (\<exists>a ticket receipt exe. admits a ticket receipt \<and>
        sent = [(env_admit_frame env e p, Inr a), (execute_frame ticket receipt (intentId e) p pl, exe)] \<and>
        (\<forall>r. res = Inr r \<longrightarrow> kr_outcome r = Success \<longrightarrow> (\<exists>x. exe = Inr x \<and> reports_success x)))"

lemma admit_and_execute_cases:
  assumes "admit_and_execute (ask answer) env (intentId e) p pl s = (res, s')"
  shows "\<exists>sent. s' = s @ sent \<and>
    (only_admission_sent env e p res sent \<or> admission_and_execution_sent env e p pl res sent)"
proof -
  let ?f = "env_admit_frame env e p"
  note d = assms [unfolded admit_and_execute_def, folded env_admit_frame_def]
  show ?thesis
  proof (cases "answer s ?f")
    case (Inl err)
    then show ?thesis using d by (auto simp: ask_def only_admission_sent_def)
  next
    case (Inr a)
    show ?thesis
    proof (cases "read_admit a")
      case (Inl err)
      then show ?thesis using d Inr by (auto simp: ask_def only_admission_sent_def)
    next
      case read: (Inr x)
      show ?thesis
      proof (cases x)
        case (Inl r)
        then show ?thesis
          using d Inr read read_admit_denied [of a r] by (auto simp: ask_def only_admission_sent_def)
      next
        case ticket: (Inr tr)
        obtain ticket receipt where tr: "tr = (ticket, receipt)" by (cases tr)
        let ?s1 = "s @ [(?f, Inr a)]" and ?g = "execute_frame ticket receipt (intentId e) p pl"
        have adm: "admits a ticket receipt" using read ticket tr read_admit_ok by simp
        have run: "execute_admitted (ask answer) (intentId e) p pl ticket receipt ?s1 = (res, s')"
          using d Inr read ticket tr by (simp add: ask_def)
        have s': "s' = s @ [(?f, Inr a), (?g, answer ?s1 ?g)]"
          using run by (auto simp: execute_admitted_def ask_def split: sum.splits)
        have "\<exists>x. answer ?s1 ?g = Inr x \<and> reports_success x" if "res = Inr r" "kr_outcome r = Success" for r
          using run that interpret_success
          by (auto simp: execute_admitted_def ask_def split: sum.splits)
        then show ?thesis using s' adm unfolding admission_and_execution_sent_def by blast
      qed
    qed
  qed
qed

lemma proxy_execute_cases:
  assumes "proxy_execute (ask answer) poisoned env route fallback e s = (res, s')" "isProxyEnabled env"
  shows "\<exists>sent. s' = s @ sent \<and> (nothing_sent res sent \<or>
    (\<exists>pl. sent_payload env (payload e) = Inr pl \<and>
      (let p = buildProposal pl (intentId e) route
       in only_admission_sent env e p res sent \<or> admission_and_execution_sent env e p pl res sent)))"
proof -
  consider err where "(res, s') = (Inl err, s)"
    | pl where "sent_payload env (payload e) = Inr pl"
        "admit_and_execute (ask answer) env (intentId e) (buildProposal pl (intentId e) route) pl s = (res, s')"
    using assms by (auto simp: proxy_execute_def split: if_splits sum.splits)
  then show ?thesis
  proof cases
    case 1
    then show ?thesis by (auto simp: nothing_sent_def throws_def)
  next
    case 2
    then show ?thesis using admit_and_execute_cases [OF 2(2)] by (auto simp: Let_def)
  qed
qed

text \<open>The contract of the proxy client: a success was admitted and executed by the proxy.\<close>

definition proxied :: "proxy_env \<Rightarrow> routing \<Rightarrow> envelope \<Rightarrow> exchanges \<Rightarrow> exchanges \<Rightarrow> bool" where
  "proxied env route e s s' =
     (isProxyEnabled env \<and> (\<exists>pl a ticket receipt x. sent_payload env (payload e) = Inr pl \<and> admits a ticket receipt \<and>
        reports_success x \<and>
        (let p = buildProposal pl (intentId e) route
         in s' = s @ [(env_admit_frame env e p, Inr a),
                      (execute_frame ticket receipt (intentId e) p pl, Inr x)])))"

lemma runtime_success_proxied:
  assumes "kernelRuntimeForAdapterType (ask answer) poisoned env neg ty e s = (Inr r, s')" "kr_outcome r = Success"
  shows "proxied env (adapter_routing neg ty) e s s'"
proof (cases "isProxyEnabled env")
  case True
  have run: "proxy_execute (ask answer) poisoned env (adapter_routing neg ty) unavailableKernel e s = (Inr r, s')"
    using assms(1) by (simp add: kernelRuntimeForAdapterType_def)
  obtain sent pl where sent: "s' = s @ sent" "sent_payload env (payload e) = Inr pl"
    "admission_and_execution_sent env e (buildProposal pl (intentId e) (adapter_routing neg ty)) pl (Inr r) sent"
    using proxy_execute_cases [OF run True] assms(2)
    by (auto simp: nothing_sent_def throws_def only_admission_sent_def Let_def)
  then obtain a ticket receipt x where "admits a ticket receipt" "reports_success x"
    "s' = s @ [(env_admit_frame env e (buildProposal pl (intentId e) (adapter_routing neg ty)), Inr a),
       (execute_frame ticket receipt (intentId e) (buildProposal pl (intentId e) (adapter_routing neg ty)) pl, Inr x)]"
    using assms(2) unfolding admission_and_execution_sent_def by blast
  then show ?thesis using sent(2) True unfolding proxied_def Let_def by blast
next
  case False
  then show ?thesis
    using assms by (auto simp: kernelRuntimeForAdapterType_def proxy_execute_def unavailableKernel_def)
qed

interpretation proxy: governed_kernel "kernelRuntimeForAdapterType (ask answer) poisoned env neg ty"
    "proxied env (adapter_routing neg ty)" for answer poisoned env neg ty
  by unfold_locales (rule runtime_success_proxied)

subsection \<open>The audit trail\<close>

lemma logEvent_sel [simp]:
  "audit (logEvent host aid kind cid info st) = audit st @
     [\<lparr>timestamp = isoNow host (reads st), adapterId = aid, correlationId = cid, event = kind, extras = info\<rparr>]"
  "kernel_state (logEvent host aid kind cid info st) = kernel_state st"
  by (simp_all add: logEvent_def)

lemma resolveCorrelationId_audit: "audit (snd (resolveCorrelationId host hs st)) = audit st"
  by (auto simp: resolveCorrelationId_def split: option.split header_value.split)

text \<open>The events of one request: all with the adapter's id and one correlation id.\<close>

definition trail :: "string \<Rightarrow> string \<Rightarrow> audit_kind list \<Rightarrow> 's adapter_state \<Rightarrow> 's adapter_state \<Rightarrow> bool" where
  "trail aid cid kinds st st' =
     (\<exists>evs. audit st' = audit st @ evs \<and> map event evs = kinds \<and>
        (\<forall>ev \<in> set evs. adapterId ev = aid \<and> correlationId ev = cid))"

lemma trail_refl: "audit st' = audit st \<Longrightarrow> trail aid cid [] st st'"
  by (simp add: trail_def)

lemma trail_log: "trail aid cid kinds st st1 \<Longrightarrow> audit st2 = audit st1 \<Longrightarrow>
    trail aid cid (kinds @ [kind]) st (logEvent host aid kind cid info st2)"
  by (fastforce simp: trail_def)

lemma ingest_trail:
  assumes "http_ingest host aid hs body st = (res, st')"
  shows "\<exists>cid. (\<forall>e. res = Inl e \<longrightarrow> trail aid cid [INGESTED, REJECTED] st st') \<and>
    (\<forall>input. res = Inr input \<longrightarrow> in_correlationId input = cid \<and> trail aid cid [INGESTED] st st')"
proof -
  obtain cid st1 where c: "resolveCorrelationId host hs st = (cid, st1)" by (cases "resolveCorrelationId host hs st")
  have "audit st1 = audit st" using resolveCorrelationId_audit [of host hs st] c by simp
  then have "trail aid cid [] st st1" by (rule trail_refl)
  then have one: "trail aid cid [INGESTED] st (logEvent host aid INGESTED cid [] st1)"
    using trail_log [of aid cid "[]" st st1 st1] by simp
  show ?thesis
  proof (cases "check_body body cid")
    case (Inl e)
    then show ?thesis
      using assms c trail_log [OF one refl, of REJECTED host "[(''error'', JStr e)]"]
      by (auto simp: http_ingest_def Let_def)
  next
    case (Inr input)
    then show ?thesis
      using assms c one check_body_Inr [OF Inr] by (auto simp: http_ingest_def Let_def)
  qed
qed

lemma execute_trail:
  assumes "http_execute host aid kern input st1 = (res, st2)" "trail aid (in_correlationId input) kinds st st1"
  shows "(\<forall>e. res = Inl e \<longrightarrow> trail aid (in_correlationId input) (kinds @ [REJECTED]) st st2) \<and>
    (\<forall>r. res = Inr r \<longrightarrow> trail aid (in_correlationId input) (kinds @ [EXECUTED]) st st2)"
proof -
  obtain out ks where k: "kern \<lparr>intentId = in_intentId input, payload = in_payload input\<rparr> (kernel_state st1) = (out, ks)"
    by (cases "kern \<lparr>intentId = in_intentId input, payload = in_payload input\<rparr> (kernel_state st1)")
  have same: "audit (st1\<lparr>reads := reads st1 + 2, kernel_state := ks\<rparr>) = audit st1" by simp
  show ?thesis
    using assms(1) trail_log [OF assms(2) same] k
    by (cases out) (auto simp: http_execute_def Let_def)
qed

text \<open>The audit trail tells the fate of every execution request. A request that is answered leaves one of
  three trails, all events with one correlation id: nothing, when the body is not JSON; an ingestion and a
  rejection, with an error status; or an ingestion, an execution and an emission, and then the answer
  carries the correlation id and a status that tells the outcome. A success always has the last one.\<close>

theorem audit_trail_of_request:
  assumes "execute_endpoint host aid kern hs text st = (res, st')"
  shows "\<exists>cid. (json_parse text = None \<and> trail aid cid [] st st' \<and> res_status res \<in> {400, 500}) \<or>
    (trail aid cid [INGESTED, REJECTED] st st' \<and> res_status res \<in> {400, 500}) \<or>
    (trail aid cid [INGESTED, EXECUTED, EMITTED] st st' \<and> res_status res \<in> {200, 403, 408, 500} \<and>
     (''X-Correlation-ID'', cid) \<in> set (res_headers res))"
proof (cases "json_parse text")
  case None
  then show ?thesis using assms by (auto simp: execute_endpoint_def error_response_def trail_refl)
next
  case (Some body)
  obtain out1 st1 where i: "http_ingest host aid hs body st = (out1, st1)" by (cases "http_ingest host aid hs body st")
  obtain cid where cid: "\<And>e. out1 = Inl e \<Longrightarrow> trail aid cid [INGESTED, REJECTED] st st1"
    "\<And>input. out1 = Inr input \<Longrightarrow> in_correlationId input = cid \<and> trail aid cid [INGESTED] st st1"
    using ingest_trail [OF i] by blast
  show ?thesis
  proof (cases out1)
    case (Inl e)
    then have "res = error_response e \<and> st' = st1" using assms Some i by (simp add: execute_endpoint_def)
    then show ?thesis using cid(1) [OF Inl] by (auto simp: error_response_def)
  next
    case (Inr input)
    obtain out2 st2 where x: "http_execute host aid kern input st1 = (out2, st2)"
      by (cases "http_execute host aid kern input st1")
    have t1: "trail aid (in_correlationId input) [INGESTED] st st1" using cid(2) [OF Inr] by simp
    show ?thesis
    proof (cases out2)
      case (Inl e)
      then have "res = error_response e \<and> st' = st2" using assms Some i Inr x by (simp add: execute_endpoint_def)
      then show ?thesis using execute_trail [OF x t1] Inl by (auto simp: error_response_def)
    next
      case r: (Inr r)
      then have t2: "trail aid (in_correlationId input) [INGESTED, EXECUTED] st st2"
        using execute_trail [OF x t1] by simp
      have "res_status res = outcome_status (kr_outcome r) \<and>
          (''X-Correlation-ID'', in_correlationId input) \<in> set (res_headers res) \<and>
          st' = logEvent host aid EMITTED (in_correlationId input)
            [(''outcome'', JStr (outcome_text (kr_outcome r)))] st2"
        using assms Some i Inr x r by (auto simp: execute_endpoint_def http_emit_def Let_def)
      then show ?thesis using trail_log [OF t2 refl] by (auto simp: outcome_status_def)
    qed
  qed
qed

subsection \<open>Properties\<close>

text \<open>C9: The proxy client never executes what was not admitted. With the proxy enabled, one call sends nothing and
  throws; or it sends the admission of its proposal and, whatever came back, is denied or throws; or it got
  an admission with a ticket and a receipt and then sends one execution with exactly these, the same
  proposal and the same payload. It reports success only if the proxy reports that execution as successful.\<close>

theorem proxy_execution_is_admitted:
  assumes "proxy_execute (ask answer) poisoned env route fallback e s = (res, s')" "isProxyEnabled env"
  shows "\<exists>sent. s' = s @ sent \<and> (nothing_sent res sent \<or>
    (\<exists>pl. sent_payload env (payload e) = Inr pl \<and>
      (let p = buildProposal pl (intentId e) route
       in only_admission_sent env e p res sent \<or> admission_and_execution_sent env e p pl res sent)))"
  using assms by (rule proxy_execute_cases)

text \<open>A proxy that admits with a ticket and then reports success.\<close>

definition kind_proxy :: "exchanges \<Rightarrow> json \<Rightarrow> json result" where
  "kind_proxy s frame =
     (if fld frame ''op'' = JStr ''admit''
      then Inr (JObj [(''ok'', JBool True), (''admitted'', JBool True), (''admit_ticket'', JStr ''t''),
                      (''admit_receipt_id'', JStr ''r'')])
      else Inr (JObj [(''ok'', JBool True), (''executed'', JBool True),
                      (''gold'', JObj [(''outcome'', JStr ''success'')])]))"

definition kind_body :: json where
  "kind_body = JObj [(''intentId'', JStr ''i''), (''amount'', JStr ''10.50'')]"

lemma kind_body_back: "json_parse (json_print kind_body) = Some kind_body"
proof -
  have "json_plain kind_body" "reorder kind_body = kind_body"
    by (simp_all add: kind_body_def set_all_same is_digit_def)
  then show ?thesis using json_parse_print [of kind_body] by simp
qed

lemma kind_payload: "sent_payload kind_env kind_body = Inr kind_body"
proof -
  have "bigints_as_text kind_body = kind_body" "kind_body \<noteq> JUndef" by (simp_all add: kind_body_def)
  then show ?thesis by (simp add: sent_payload_def envelopePayloadClone_def kind_body_back kind_env_def)
qed

lemma kind_answers:
  "kind_proxy s (admit_frame c cl i p) = Inr (JObj [(''ok'', JBool True), (''admitted'', JBool True),
     (''admit_ticket'', JStr ''t''), (''admit_receipt_id'', JStr ''r'')])"
  "kind_proxy s (execute_frame t r i p pl) = Inr (JObj [(''ok'', JBool True), (''executed'', JBool True),
     (''gold'', JObj [(''outcome'', JStr ''success'')])])"
  by (simp_all add: kind_proxy_def admit_frame_def execute_frame_def)

lemma kind_runtime:
  "\<exists>r s'. proxy_execute (ask kind_proxy) (\<lambda>s. False) kind_env route fallback \<lparr>intentId = ''i'', payload = kind_body\<rparr> [] =
     (Inr r, s') \<and> kr_outcome r = Success \<and> length s' = 2"
proof -
  have "or_empty (ZAK_CONSTITUTION_ID kind_env) \<noteq> []" by (simp add: kind_env_def or_empty_def)
  then show ?thesis
    by (simp add: proxy_execute_def kind_enabled kind_payload admit_and_execute_def ask_def kind_answers
        read_admit_def text_of_def execute_admitted_def interpretGoldExecuteResponse_def Let_def)
qed

theorem proxy_execution_is_admitted_witness:
  "\<exists>r s' pl. proxy_execute (ask kind_proxy) (\<lambda>s. False) kind_env (adapter_routing None ''http'') unavailableKernel
      \<lparr>intentId = ''i'', payload = kind_body\<rparr> [] = (Inr r, s') \<and> kr_outcome r = Success \<and>
    admission_and_execution_sent kind_env \<lparr>intentId = ''i'', payload = kind_body\<rparr>
      (buildProposal pl ''i'' (adapter_routing None ''http'')) pl (Inr r) s'"
proof -
  obtain r s' where run: "proxy_execute (ask kind_proxy) (\<lambda>s. False) kind_env (adapter_routing None ''http'')
      unavailableKernel \<lparr>intentId = ''i'', payload = kind_body\<rparr> [] = (Inr r, s')" "kr_outcome r = Success" "length s' = 2"
    using kind_runtime by blast
  from proxy_execution_is_admitted [OF run(1) kind_enabled] run(2,3) show ?thesis
    unfolding nothing_sent_def only_admission_sent_def throws_def Let_def
    by (intro exI [of _ r] exI [of _ s'] exI [of _ kind_body] conjI run(1,2)) (auto simp: kind_payload)
qed

text \<open>C8: An HTTP client gets the status 200 only for what the proxy admitted and executed. When the execution
  endpoint answers 200, the body was a JSON object with a string as its intent and, if it has an amount, an
  amount that is not a JSON number; the proxy is enabled, and the two last frames of the exchange are the
  admission of this intent and its execution under the ticket that the proxy gave. Without the proxy no
  answer is a 200.\<close>

theorem http_success_was_executed:
  assumes "execute_endpoint host aid (kernelRuntimeForAdapterType (ask answer) poisoned env neg ty) hs text st = (res, st')"
    and "res_status res = 200"
  shows "\<exists>body i. json_parse text = Some body \<and> fld body ''intentId'' = JStr i \<and>
    (\<forall>n. has_key ''amount'' body \<longrightarrow> fld body ''amount'' \<noteq> JNum n) \<and>
    proxied env (adapter_routing neg ty) \<lparr>intentId = i, payload = body\<rparr> (kernel_state st) (kernel_state st')"
proof -
  from proxy.http_success_granted [OF assms] obtain body i where "json_parse text = Some body"
    "fld body ''intentId'' = JStr i" "has_key ''amount'' body \<longrightarrow> (\<exists>a. parseAmount (fld body ''amount'') = Inr a)"
    "proxied env (adapter_routing neg ty) \<lparr>intentId = i, payload = body\<rparr> (kernel_state st) (kernel_state st')"
    by blast
  then show ?thesis
    by (intro exI [of _ body] exI [of _ i]) (auto simp: parseAmount_def)
qed

definition still_host :: adapter_host where
  "still_host =
     \<lparr>isoNow = (\<lambda>n. ''t''), msNow = (\<lambda>n. 0), randomUUID = (\<lambda>n. ''u''), uptime = (\<lambda>n. NumDec 0 0),
      parse_error = (\<lambda>s. ''Unexpected token'')\<rparr>"

definition first_state :: "exchanges adapter_state" where
  "first_state = \<lparr>reads = 0, audit = [], kernel_state = []\<rparr>"

lemma kind_amount: "parseAmount (JStr ''10.50'') = Inr (Decimal ''10.50'')"
  by (simp add: parseAmount_def decimal_string_def Let_def digits1_def is_digit_def)

lemma kind_checked: "check_body kind_body cid = Inr \<lparr>in_intentId = ''i'', in_payload = kind_body, in_correlationId = cid\<rparr>"
  by (simp add: check_body_def kind_body_def is_object_def has_key_def kind_amount)

lemma kind_endpoint:
  "\<exists>res st'. execute_endpoint still_host ''h'' (kernelRuntimeForAdapterType (ask kind_proxy) (\<lambda>s. False) kind_env None ''http'')
     (\<lambda>k. None) (json_print kind_body) first_state = (res, st') \<and> res_status res = 200"
proof -
  obtain r s' where run: "proxy_execute (ask kind_proxy) (\<lambda>s. False) kind_env (adapter_routing None ''http'')
      unavailableKernel \<lparr>intentId = ''i'', payload = kind_body\<rparr> [] = (Inr r, s')" "kr_outcome r = Success"
    using kind_runtime by blast
  show ?thesis
    by (simp add: execute_endpoint_def kind_body_back http_ingest_def resolveCorrelationId_def Let_def kind_checked
        http_execute_def first_state_def kernelRuntimeForAdapterType_def run http_emit_def outcome_status_def)
qed

theorem http_success_was_executed_witness:
  "\<exists>res st'. execute_endpoint still_host ''h'' (kernelRuntimeForAdapterType (ask kind_proxy) (\<lambda>s. False) kind_env None ''http'')
     (\<lambda>k. None) (json_print kind_body) first_state = (res, st') \<and>
   proxied kind_env (adapter_routing None ''http'') \<lparr>intentId = ''i'', payload = kind_body\<rparr> [] (kernel_state st')"
proof -
  obtain res st' where run: "execute_endpoint still_host ''h'' (kernelRuntimeForAdapterType (ask kind_proxy) (\<lambda>s. False)
      kind_env None ''http'') (\<lambda>k. None) (json_print kind_body) first_state = (res, st')" "res_status res = 200"
    using kind_endpoint by blast
  have "fld kind_body ''intentId'' = JStr ''i''" by (simp add: kind_body_def)
  then show ?thesis
    using http_success_was_executed [OF run] run(1) by (auto simp: kind_body_back first_state_def)
qed

theorem audit_trail_of_request_witness:
  "\<exists>res st' cid. execute_endpoint still_host ''h'' (kernelRuntimeForAdapterType (ask kind_proxy) (\<lambda>s. False) kind_env None ''http'')
     (\<lambda>k. None) (json_print kind_body) first_state = (res, st') \<and>
   trail ''h'' cid [INGESTED, EXECUTED, EMITTED] first_state st'"
proof -
  obtain res st' where run: "execute_endpoint still_host ''h'' (kernelRuntimeForAdapterType (ask kind_proxy) (\<lambda>s. False)
      kind_env None ''http'') (\<lambda>k. None) (json_print kind_body) first_state = (res, st')" "res_status res = 200"
    using kind_endpoint by blast
  have "200 \<noteq> (400 :: nat)" "200 \<noteq> (500 :: nat)" by simp_all
  then show ?thesis using audit_trail_of_request [OF run(1)] run by auto
qed

text \<open>The sentry lets a packet pass only when its kernel call was admitted and executed.\<close>

lemma packet_passes_only_executed:
  assumes "sentry_execute host aid (kernelRuntimeForAdapterType (ask answer) poisoned env neg ty) e st = (Inr r, st')"
    and "sentry_emit r = XDP_PASS"
  shows "proxied env (adapter_routing neg ty) e (kernel_state st) (kernel_state st')"
  by (rule proxy.sentry_pass_granted [OF assms])

text \<open>A body without an intent is the client's mistake, but its answer is a 500.\<close>

lemma missing_intent_is_500:
  "res_status (fst (execute_endpoint host aid kern hs ''{}'' st)) = 500"
proof -
  have parsed: "json_parse ''{}'' = Some (JObj [])" using json_parse_print [of "JObj []"] by (simp add: set_all_def)
  have "check_body (JObj []) cid = Inl ''Missing required field: intentId''" for cid
    by (simp add: check_body_def is_object_def has_key_def)
  then show ?thesis
    by (simp add: execute_endpoint_def parsed http_ingest_def split_beta Let_def error_response_def)
qed

end
