(* ===== verification/Proxy_Client.thy ===== *)
theory Proxy_Client
  imports Proxy_Frames SHA256
begin

text \<open>
  The connection of \<open>ProxyKernelClient\<close> (\<open>zak-adapters/src/proxy/ProxyKernelClient.ts\<close>): one TCP socket, a
  session that is opened and registered once, and requests that are serialised on a chain of promises.

  The state holds the fields of the class and, explicitly, what the promises hold: \<open>attempt\<close> is the progress of
  the last \<open>openAndRegister\<close>; \<open>awaiting\<close> the calls of \<open>request\<close> suspended on the session; \<open>running\<close> the call
  whose promise \<open>opTail\<close> ends in, and \<open>queue\<close> the calls chained behind it; \<open>settled\<close> what calls returned, in
  order; \<open>sent\<close> the lines written. An event is one callback of the event loop, and its handler also does the
  continuations that the event loop runs before the next callback. The callback of a write comes before the
  answer to what was written. \<open>live\<close> are the sockets that have the client's handlers.
\<close>

subsection \<open>State\<close>

datatype waiter = Register | Call nat

datatype attempt = Idle | Connecting nat | Registering | Opened

record client =
  poisoned :: bool
  socket :: "nat option"
  inbound :: string
  pending :: "waiter list"
  session :: bool
  attempt :: attempt
  awaiting :: "(nat \<times> json) list"
  running :: "nat option"
  queue :: "(nat \<times> string) list"
  settled :: "(nat \<times> json result) list"
  sent :: "(waiter \<times> string) list"
  live :: "nat list"
  connections :: "(string \<times> jsnum) list"

definition new_client :: client where
  "new_client =
     \<lparr>poisoned = False, socket = None, inbound = [], pending = [], session = False, attempt = Idle,
      awaiting = [], running = None, queue = [], settled = [], sent = [], live = [], connections = []\<rparr>"

subsection \<open>Requests\<close>

definition settle :: "nat \<Rightarrow> json result \<Rightarrow> client \<Rightarrow> client" where
  "settle i r c = c\<lparr>settled := settled c @ [(i, r)]\<rparr>"

text \<open>The chain goes on: \<open>run\<close> rejects once the client is poisoned, and writes its line otherwise.\<close>

fun run_queue :: "(nat \<times> string) list \<Rightarrow> client \<Rightarrow> client" where
  "run_queue [] c = c\<lparr>queue := []\<rparr>"
| "run_queue ((i, line) # ops) c =
     (if poisoned c then run_queue ops (settle i (Inl KERNEL_CONNECTION_LOST) c)
      else c\<lparr>running := Some i, queue := ops, pending := pending c @ [Call i], sent := sent c @ [(Call i, line)]\<rparr>)"

definition enqueue :: "nat \<times> string \<Rightarrow> client \<Rightarrow> client" where
  "enqueue p c = (if running c = None then run_queue [p] c else c\<lparr>queue := queue c @ [p]\<rparr>)"

definition finish_call :: "nat \<Rightarrow> json result \<Rightarrow> client \<Rightarrow> client" where
  "finish_call i r c =
     (if running c = Some i then run_queue (queue c) (settle i r (c\<lparr>running := None\<rparr>)) else c)"

text \<open>What \<open>request\<close> does once the session is there.\<close>

definition continue_call :: "nat \<times> json \<Rightarrow> client \<Rightarrow> client" where
  "continue_call p c =
     (if socket c = None then settle (fst p) (Inl ''ProxyKernelClient: socket not initialized'') c
      else case json_stringify (snd p) of
        Inl e \<Rightarrow> settle (fst p) (Inl e) c
      | Inr text \<Rightarrow> enqueue (fst p, text @ [CHR 0x0A]) c)"

subsection \<open>The session\<close>

definition open_session :: "client \<Rightarrow> client" where
  "open_session c = fold continue_call (awaiting c) (c\<lparr>attempt := Opened, awaiting := []\<rparr>)"

definition reject_call :: "message \<Rightarrow> waiter \<Rightarrow> client \<Rightarrow> client" where
  "reject_call e w c = (case w of Register \<Rightarrow> c | Call i \<Rightarrow> finish_call i (Inl e) c)"

text \<open>The \<open>catch\<close> of \<open>ensureSession\<close>, and the calls that awaited the session. The socket is forgotten, but
  neither closed nor stripped of its handlers.\<close>

definition fail_session :: "message \<Rightarrow> client \<Rightarrow> client" where
  "fail_session e c =
     (let c1 = c\<lparr>session := False, attempt := Idle\<rparr>;
          c2 = (if poisoned c1 then c1
                else fold (reject_call e) (pending c1) (c1\<lparr>socket := None, inbound := [], pending := []\<rparr>))
      in fold (\<lambda>p. settle (fst p) (Inl e)) (awaiting c2) (c2\<lparr>awaiting := []\<rparr>))"

definition positive_port :: "string option \<Rightarrow> bool" where
  "positive_port v =
     (case v of None \<Rightarrow> False | Some p \<Rightarrow> (case js_number p of NumDec m e \<Rightarrow> 0 < m | _ \<Rightarrow> False))"

definition register_error :: "proxy_env \<Rightarrow> message option" where
  "register_error env =
     (if \<not> positive_port (ZAK_PROXY_PORT env) then
        Some ''ProxyKernelClient: ZAK_PROXY_PORT must be a positive integer''
      else if or_empty (ZAK_PROXY_CLIENT_ID env) = [] then
        Some ''ProxyKernelClient: ZAK_PROXY_CLIENT_ID is required when ZAK_PROXY_PORT is set''
      else if or_empty (ZAK_PROXY_PLUGIN env) = [] then
        Some ''ProxyKernelClient: ZAK_PROXY_PLUGIN is required when ZAK_PROXY_PORT is set''
      else if or_empty (ZAK_ADAPTER_ID env) = [] then
        Some ''ProxyKernelClient: ZAK_ADAPTER_ID is required when ZAK_PROXY_PORT is set''
      else None)"

definition proxy_address :: "proxy_env \<Rightarrow> string \<times> jsnum" where
  "proxy_address env =
     (if or_empty (ZAK_PROXY_HOST env) = [] then ''127.0.0.1'' else or_empty (ZAK_PROXY_HOST env),
      js_number (or_empty (ZAK_PROXY_PORT env)))"

text \<open>\<open>openAndRegister\<close> up to the connection.\<close>

definition start_session :: "proxy_env \<Rightarrow> client \<Rightarrow> client" where
  "start_session env c =
     (case register_error env of
        Some e \<Rightarrow> fail_session e c
      | None \<Rightarrow> c\<lparr>attempt := Connecting (length (connections c)), connections := connections c @ [proxy_address env]\<rparr>)"

definition default_capabilities :: "string list" where
  "default_capabilities =
     [KERNEL_BRIDGE, ''search_files'', ''list_files'', ''read_file'', ''commit_edit'', ''conversation.respond'',
      ''zak.dev.write_worksheet'', ''zak.dev.compile'', ''zak.dev.test_runner'',
      ''zak.dev.propose_membrane_admission'']"

definition declared_capabilities :: "proxy_env \<Rightarrow> string list" where
  "declared_capabilities env =
     (let caps = filter (\<lambda>s. s \<noteq> []) (map trim (split_on (CHR '','') (or_empty (ZAK_ADAPTER_CAPABILITIES env))))
      in if length caps > 0 then caps else default_capabilities)"

text \<open>The measurement of \<open>attestation.ts\<close>; \<open>bytes\<close> is the content of the bundle, or the error of reading it.\<close>

definition adapterBundleSha256 :: "string result \<Rightarrow> string result" where
  "adapterBundleSha256 bytes = bind_result bytes (\<lambda>data. Inr (sha256Tagged data))"

definition register_json :: "proxy_env \<Rightarrow> string \<Rightarrow> json" where
  "register_json env hash =
     JObj [(''op'', JStr ''register''), (''client_id'', JStr (or_empty (ZAK_PROXY_CLIENT_ID env))),
           (''plugin'', JStr (or_empty (ZAK_PROXY_PLUGIN env))),
           (''adapter_id'', JStr (or_empty (ZAK_ADAPTER_ID env))),
           (''declared_capabilities'', JArr (map JStr (declared_capabilities env))),
           (''adapter_bundle_hash'', JStr hash)]"

text \<open>\<open>openAndRegister\<close> from the connection on.\<close>

definition connected :: "proxy_env \<Rightarrow> string result \<Rightarrow> nat \<Rightarrow> client \<Rightarrow> client" where
  "connected env bytes n c =
     (let c1 = c\<lparr>socket := Some n, live := live c @ [n]\<rparr>
      in case adapterBundleSha256 bytes of
           Inl e \<Rightarrow> fail_session e c1
         | Inr hash \<Rightarrow>
             c1\<lparr>attempt := Registering, pending := pending c1 @ [Register],
                sent := sent c1 @ [(Register, json_print (register_json env hash) @ [CHR 0x0A])]\<rparr>)"

definition registered :: "json result \<Rightarrow> client \<Rightarrow> client" where
  "registered r c =
     (case r of
        Inl e \<Rightarrow> fail_session e c
      | Inr v \<Rightarrow>
          if v = JNull then fail_session (null_error ''ok'') c
          else if fld v ''ok'' \<noteq> JBool True then
            fail_session (''ProxyKernelClient: register failed - ''
              @ error_text (fld v ''error'') ''proxy register rejected'') c
          else open_session c)"

definition ensure_and_call :: "proxy_env \<Rightarrow> nat \<Rightarrow> json \<Rightarrow> client \<Rightarrow> client" where
  "ensure_and_call env i frame c =
     (if \<not> session c then start_session env (c\<lparr>session := True, awaiting := awaiting c @ [(i, frame)]\<rparr>)
      else if attempt c = Opened then continue_call (i, frame) c
      else c\<lparr>awaiting := awaiting c @ [(i, frame)]\<rparr>)"

definition request :: "proxy_env \<Rightarrow> nat \<Rightarrow> json \<Rightarrow> client \<Rightarrow> client" where
  "request env i frame c =
     (if \<not> isProxyEnabled env then
        settle i (Inl ''ProxyKernelClient.request() requires ZAK_PROXY_PORT to be set'') c
      else if poisoned c then settle i (Inl KERNEL_CONNECTION_LOST) c
      else ensure_and_call env i frame c)"

subsection \<open>The socket\<close>

text \<open>A promise of \<open>pending\<close> is settled.\<close>

definition answer_waiter :: "waiter \<times> json result \<Rightarrow> client \<Rightarrow> client" where
  "answer_waiter p c = (case fst p of Register \<Rightarrow> registered (snd p) c | Call i \<Rightarrow> finish_call i (snd p) c)"

definition reset_transport :: "client \<Rightarrow> client" where
  "reset_transport c =
     c\<lparr>pending := [], live := (case socket c of None \<Rightarrow> live c | Some n \<Rightarrow> removeAll n (live c)),
       socket := None, session := False, inbound := []\<rparr>"

definition poisonFromTransportLoss :: "client \<Rightarrow> client" where
  "poisonFromTransportLoss c =
     (if poisoned c then c
      else fold (\<lambda>w. answer_waiter (w, Inl KERNEL_CONNECTION_LOST)) (pending c)
             (reset_transport (c\<lparr>poisoned := True\<rparr>)))"

definition parse_answer :: "string \<Rightarrow> json result" where
  "parse_answer line = (case json_parse line of None \<Rightarrow> Inl ''Unexpected token in JSON'' | Some v \<Rightarrow> Inr v)"

text \<open>The loop of \<open>onData\<close>: the waiters that get a line, the waiters left, and the text left. It stops after
  the first line that nobody waits for.\<close>

fun take_lines :: "waiter list \<Rightarrow> string \<Rightarrow> (waiter \<times> json result) list \<times> waiter list \<times> string" where
  "take_lines [] text =
     (case index_of (CHR 0x0A) text of None \<Rightarrow> ([], [], text) | Some i \<Rightarrow> ([], [], drop (i + 1) text))"
| "take_lines (w # ws) text =
     (case index_of (CHR 0x0A) text of
        None \<Rightarrow> ([], w # ws, text)
      | Some i \<Rightarrow>
          (let (as, rest) = take_lines ws (drop (i + 1) text) in ((w, parse_answer (take i text)) # as, rest)))"

definition onData :: "string \<Rightarrow> client \<Rightarrow> client" where
  "onData chunk c =
     (let (as, ws, rest) = take_lines (pending c) (inbound c @ chunk)
      in fold answer_waiter as (c\<lparr>pending := ws, inbound := rest\<rparr>))"

definition write_failed :: "message \<Rightarrow> client \<Rightarrow> client" where
  "write_failed e c = answer_waiter (last (pending c), Inl e) (c\<lparr>pending := butlast (pending c)\<rparr>)"

subsection \<open>Events\<close>

datatype client_event =
    Request nat json
  | Connected
  | ConnectFailed message
  | Data nat string
  | SockError nat
  | SockClosed nat
  | WriteFailed message

text \<open>The identifiers of the calls that were made.\<close>

definition calls :: "client \<Rightarrow> nat list" where
  "calls c = map fst (settled c) @ (case running c of None \<Rightarrow> [] | Some i \<Rightarrow> [i]) @ map fst (queue c) @ map fst (awaiting c)"

fun enabled :: "client_event \<Rightarrow> client \<Rightarrow> bool" where
  "enabled (Request i frame) c = (i \<notin> set (calls c))"
| "enabled Connected c = (\<exists>n. attempt c = Connecting n)"
| "enabled (ConnectFailed e) c = (\<exists>n. attempt c = Connecting n)"
| "enabled (Data n chunk) c = (n \<in> set (live c))"
| "enabled (SockError n) c = (n \<in> set (live c))"
| "enabled (SockClosed n) c = (n \<in> set (live c))"
| "enabled (WriteFailed e) c = (pending c \<noteq> [])"

fun handle_event :: "proxy_env \<Rightarrow> string result \<Rightarrow> client_event \<Rightarrow> client \<Rightarrow> client" where
  "handle_event env bytes (Request i frame) c = request env i frame c"
| "handle_event env bytes Connected c =
     (case attempt c of Connecting n \<Rightarrow> connected env bytes n c | _ \<Rightarrow> c)"
| "handle_event env bytes (ConnectFailed e) c = fail_session e c"
| "handle_event env bytes (Data n chunk) c = onData chunk c"
| "handle_event env bytes (SockError n) c = poisonFromTransportLoss c"
| "handle_event env bytes (SockClosed n) c = poisonFromTransportLoss c"
| "handle_event env bytes (WriteFailed e) c = write_failed e c"

inductive client_reach :: "proxy_env \<Rightarrow> string result \<Rightarrow> client \<Rightarrow> bool"
  for env :: proxy_env and bytes :: "string result" where
  reach_new: "client_reach env bytes new_client"
| reach_event: "client_reach env bytes c \<Longrightarrow> enabled ev c \<Longrightarrow> client_reach env bytes (handle_event env bytes ev c)"

text \<open>A run of events, each enabled when it comes.\<close>

fun client_run :: "proxy_env \<Rightarrow> string result \<Rightarrow> client_event list \<Rightarrow> client \<Rightarrow> client option" where
  "client_run env bytes [] c = Some c"
| "client_run env bytes (ev # evs) c =
     (if enabled ev c then client_run env bytes evs (handle_event env bytes ev c) else None)"

end
