(* ===== verification/Proxy_Client_Properties.thy ===== *)
theory Proxy_Client_Properties
  imports Proxy_Client "HOL-Library.Multiset"
begin

text \<open>
  The properties of the connection to the proxy, over every sequence of events: at most one line waits for
  its answer, every answer goes to the call that wrote the last line, a lost transport is final, and what
  is queued is answered in order.
\<close>

subsection \<open>The operations\<close>

text \<open>What the chain of calls leaves alone.\<close>

definition frame_of :: "client \<Rightarrow> _" where
  "frame_of c = (poisoned c, socket c, inbound c, session c, attempt c, awaiting c, live c, connections c)"

lemma settle_sel [simp]:
  "frame_of (settle i r c) = frame_of c" "poisoned (settle i r c) = poisoned c" "sent (settle i r c) = sent c"
  "running (settle i r c) = running c" "queue (settle i r c) = queue c" "pending (settle i r c) = pending c"
  "settled (settle i r c) = settled c @ [(i, r)]" "awaiting (settle i r c) = awaiting c"
  "attempt (settle i r c) = attempt c" "session (settle i r c) = session c" "socket (settle i r c) = socket c"
  "inbound (settle i r c) = inbound c" "live (settle i r c) = live c"
  by (simp_all add: settle_def frame_of_def)

lemma run_queue_poisoned:
  "poisoned c \<Longrightarrow> run_queue ops c =
     c\<lparr>queue := [], settled := settled c @ map (\<lambda>p. (fst p, Inl KERNEL_CONNECTION_LOST)) ops\<rparr>"
  by (induction ops c rule: run_queue.induct) (simp_all add: settle_def)

lemma run_queue_open:
  "\<not> poisoned c \<Longrightarrow> run_queue ops c =
     (case ops of [] \<Rightarrow> c\<lparr>queue := []\<rparr>
      | p # ps \<Rightarrow> c\<lparr>running := Some (fst p), queue := ps, pending := pending c @ [Call (fst p)],
                   sent := sent c @ [(Call (fst p), snd p)]\<rparr>)"
  by (cases ops) (auto split: prod.split)

text \<open>The state of the chain once the session is open.\<close>

definition chain_ok :: "client \<Rightarrow> bool" where
  "chain_ok c =
     (pending c = (case running c of None \<Rightarrow> [] | Some i \<Rightarrow> [Call i]) \<and>
      (running c = None \<longrightarrow> queue c = []) \<and> (poisoned c \<longrightarrow> running c = None) \<and>
      (pending c \<noteq> [] \<longrightarrow> sent c \<noteq> [] \<and> fst (last (sent c)) = hd (pending c)))"

lemma mset_calls:
  "mset (calls c) = mset (map fst (settled c)) + (case running c of None \<Rightarrow> {#} | Some i \<Rightarrow> {#i#}) +
     mset (map fst (queue c)) + mset (map fst (awaiting c))"
  by (simp add: calls_def split: option.split)

lemma map_fst_pair: "map (fst \<circ> (\<lambda>p. (fst p, x))) ps = map fst ps"
  by simp

lemma run_queue_chain:
  assumes "pending c = []" "running c = None"
  shows "chain_ok (run_queue ops c)" "frame_of (run_queue ops c) = frame_of c"
    "mset (calls (run_queue ops c)) = mset (map fst ops) + mset (calls (c\<lparr>queue := []\<rparr>))"
    "poisoned c \<Longrightarrow> sent (run_queue ops c) = sent c"
  using assms
  by (cases "poisoned c"; cases ops;
      simp add: run_queue_poisoned run_queue_open chain_ok_def frame_of_def mset_calls comp_def)+

lemma enqueue_chain:
  assumes "chain_ok c"
  shows "chain_ok (enqueue p c)" "frame_of (enqueue p c) = frame_of c"
    "mset (calls (enqueue p c)) = add_mset (fst p) (mset (calls c))"
    "poisoned c \<Longrightarrow> sent (enqueue p c) = sent c"
proof -
  have idle: "pending c = []" "queue c = []" if "running c = None" using assms that by (simp_all add: chain_ok_def)
  show "chain_ok (enqueue p c)" "frame_of (enqueue p c) = frame_of c"
    "mset (calls (enqueue p c)) = add_mset (fst p) (mset (calls c))"
    "poisoned c \<Longrightarrow> sent (enqueue p c) = sent c"
    using assms idle run_queue_chain [of c "[p]"]
    by (cases "running c"; simp add: enqueue_def chain_ok_def frame_of_def mset_calls)+
qed

lemma continue_chain:
  assumes "chain_ok c"
  shows "chain_ok (continue_call p c)" "frame_of (continue_call p c) = frame_of c"
    "mset (calls (continue_call p c)) = add_mset (fst p) (mset (calls c))"
    "poisoned c \<Longrightarrow> sent (continue_call p c) = sent c"
proof -
  have settle: "chain_ok (settle i r c)" "mset (calls (settle i r c)) = add_mset i (mset (calls c))" for i r
    using assms by (simp_all add: chain_ok_def mset_calls)
  show "chain_ok (continue_call p c)" "frame_of (continue_call p c) = frame_of c"
    "mset (calls (continue_call p c)) = add_mset (fst p) (mset (calls c))"
    "poisoned c \<Longrightarrow> sent (continue_call p c) = sent c"
    using settle enqueue_chain [OF assms]
    by (simp_all add: continue_call_def split: sum.split)
qed

lemma continue_all_chain:
  assumes "chain_ok c"
  shows "chain_ok (fold continue_call ps c) \<and> frame_of (fold continue_call ps c) = frame_of c \<and>
    mset (calls (fold continue_call ps c)) = mset (map fst ps) + mset (calls c) \<and>
    (poisoned c \<longrightarrow> sent (fold continue_call ps c) = sent c)"
  using assms
proof (induction ps arbitrary: c)
  case Nil
  then show ?case by simp
next
  case (Cons p ps)
  note one = continue_chain [OF Cons.prems, of p]
  have "poisoned (continue_call p c) = poisoned c" using one(2) by (simp add: frame_of_def)
  then show ?case using Cons.IH [OF one(1)] one by simp
qed

lemma settle_all:
  "fold (\<lambda>p. settle (fst p) (Inl e)) ps c = c\<lparr>settled := settled c @ map (\<lambda>p. (fst p, Inl e)) ps\<rparr>"
  by (induction ps arbitrary: c) (simp_all add: settle_def)

lemma fail_session_eq:
  assumes "pending c = []"
  shows "fail_session e c =
    (if poisoned c then c\<lparr>session := False, attempt := Idle, awaiting := [],
                         settled := settled c @ map (\<lambda>p. (fst p, Inl e)) (awaiting c)\<rparr>
     else c\<lparr>session := False, attempt := Idle, awaiting := [], socket := None, inbound := [],
            settled := settled c @ map (\<lambda>p. (fst p, Inl e)) (awaiting c)\<rparr>)"
  using assms by (simp add: fail_session_def Let_def settle_all)

subsection \<open>The invariant\<close>

definition client_ok :: "client \<Rightarrow> bool" where
  "client_ok c =
     ((case attempt c of
         Idle \<Rightarrow> pending c = [] \<and> running c = None \<and> queue c = [] \<and> awaiting c = []
       | Connecting n \<Rightarrow> pending c = [] \<and> running c = None \<and> queue c = []
       | Registering \<Rightarrow> pending c = [Register] \<and> running c = None \<and> queue c = [] \<and>
           sent c \<noteq> [] \<and> fst (last (sent c)) = Register
       | Opened \<Rightarrow> awaiting c = [] \<and> chain_ok c) \<and>
      (poisoned c \<longrightarrow> \<not> session c) \<and> (\<not> poisoned c \<longrightarrow> session c = (attempt c \<noteq> Idle)) \<and>
      distinct (calls c))"

text \<open>The state in which the promise of a waiter is settled.\<close>

definition answered :: "waiter \<Rightarrow> client \<Rightarrow> bool" where
  "answered w c =
     (pending c = [] \<and> distinct (calls c) \<and>
      (case w of
         Register \<Rightarrow> attempt c = Registering \<and> running c = None \<and> queue c = []
       | Call i \<Rightarrow> attempt c = Opened \<and> awaiting c = [] \<and> running c = Some i) \<and>
      session c = (\<not> poisoned c))"

lemma distinct_mset_cong: "mset xs = mset ys \<Longrightarrow> distinct xs = distinct ys"
  by (rule mset_eq_imp_distinct_iff)

lemma open_session_ok:
  assumes "answered Register c"
  shows "client_ok (open_session c)" "mset (calls (open_session c)) = mset (calls c)"
    "poisoned (open_session c) = poisoned c" "poisoned c \<Longrightarrow> sent (open_session c) = sent c"
proof -
  let ?c = "c\<lparr>attempt := Opened, awaiting := []\<rparr>"
  have "chain_ok ?c" using assms by (simp add: answered_def chain_ok_def)
  note all = continue_all_chain [OF this, of "awaiting c"]
  have calls: "mset (map fst (awaiting c)) + mset (calls ?c) = mset (calls c)" by (simp add: mset_calls)
  show "mset (calls (open_session c)) = mset (calls c)" using all calls by (simp add: open_session_def)
  moreover have "distinct (calls c)" using assms by (simp add: answered_def)
  ultimately have "distinct (calls (open_session c))" using distinct_mset_cong by blast
  then show "client_ok (open_session c)"
    using all assms by (auto simp: open_session_def client_ok_def frame_of_def answered_def)
  show "poisoned (open_session c) = poisoned c" "poisoned c \<Longrightarrow> sent (open_session c) = sent c"
    using all by (simp_all add: open_session_def frame_of_def)
qed

lemma fail_session_ok:
  assumes "pending c = []" "running c = None" "queue c = []" "distinct (calls c)"
  shows "client_ok (fail_session e c)" "mset (calls (fail_session e c)) = mset (calls c)"
    "poisoned (fail_session e c) = poisoned c" "sent (fail_session e c) = sent c"
proof -
  show same: "mset (calls (fail_session e c)) = mset (calls c)"
    using assms by (simp add: fail_session_eq mset_calls multiset.map_comp comp_def)
  show "client_ok (fail_session e c)"
    using assms distinct_mset_cong [OF same] by (simp add: client_ok_def fail_session_eq)
  show "poisoned (fail_session e c) = poisoned c" "sent (fail_session e c) = sent c"
    using assms by (simp_all add: fail_session_eq)
qed

lemma answer_ok:
  assumes "answered w c"
  shows "client_ok (answer_waiter (w, r) c)" "mset (calls (answer_waiter (w, r) c)) = mset (calls c)"
    "poisoned (answer_waiter (w, r) c) = poisoned c"
    "poisoned c \<Longrightarrow> sent (answer_waiter (w, r) c) = sent c"
proof -
  have "client_ok (answer_waiter (w, r) c) \<and> mset (calls (answer_waiter (w, r) c)) = mset (calls c) \<and>
    poisoned (answer_waiter (w, r) c) = poisoned c \<and>
    (poisoned c \<longrightarrow> sent (answer_waiter (w, r) c) = sent c)"
  proof (cases w)
    case Register
    have "pending c = []" "running c = None" "queue c = []" "distinct (calls c)"
      using assms Register by (simp_all add: answered_def)
    note fail = fail_session_ok [OF this]
    show ?thesis
      using fail open_session_ok assms Register
      by (auto simp: answer_waiter_def registered_def split: sum.split)
  next
    case (Call i)
    let ?c = "settle i r (c\<lparr>running := None\<rparr>)"
    have c: "pending c = []" "running c = Some i" "attempt c = Opened" "awaiting c = []" "session c = (\<not> poisoned c)"
      "distinct (calls c)"
      using assms Call by (simp_all add: answered_def)
    have "pending ?c = []" "running ?c = None" using c by simp_all
    note run = run_queue_chain [OF this, of "queue c"]
    have eq: "answer_waiter (w, r) c = run_queue (queue c) ?c"
      using c Call by (simp add: answer_waiter_def finish_call_def)
    have calls: "mset (calls (run_queue (queue c) ?c)) = mset (calls c)"
      using run(3) c by (simp add: mset_calls settle_def)
    show ?thesis
      using run calls c distinct_mset_cong [OF calls] unfolding eq
      by (simp add: client_ok_def frame_of_def)
  qed
  then show "client_ok (answer_waiter (w, r) c)" "mset (calls (answer_waiter (w, r) c)) = mset (calls c)"
    "poisoned (answer_waiter (w, r) c) = poisoned c"
    "poisoned c \<Longrightarrow> sent (answer_waiter (w, r) c) = sent c"
    by blast+
qed

subsection \<open>Every event keeps the invariant\<close>

lemma client_ok_new: "client_ok new_client"
  by (simp add: client_ok_def new_client_def calls_def)

lemma pending_one:
  assumes "client_ok c" "pending c \<noteq> []"
  obtains w where "pending c = [w]" "sent c \<noteq> []" "fst (last (sent c)) = w"
    "attempt c = Registering \<and> w = Register \<or> attempt c = Opened \<and> \<not> poisoned c \<and> (\<exists>i. w = Call i \<and> running c = Some i)"
  using assms
  by (auto simp: client_ok_def chain_ok_def split: attempt.splits option.splits)

lemma pending_single: "client_ok c \<Longrightarrow> pending c \<noteq> [] \<Longrightarrow> \<exists>w. pending c = [w]"
  by (erule (1) pending_one) blast

lemma ok_answered:
  assumes "client_ok c" "pending c = [w]"
    "calls c' = calls c" "running c' = running c" "queue c' = queue c" "awaiting c' = awaiting c"
    "attempt c' = attempt c" "pending c' = []" "session c' = (\<not> poisoned c')"
  shows "answered w c'"
  using assms
  by (auto simp: client_ok_def chain_ok_def answered_def split: attempt.splits option.splits)

lemma calls_cong:
  "settled c' = settled c \<Longrightarrow> running c' = running c \<Longrightarrow> queue c' = queue c \<Longrightarrow> awaiting c' = awaiting c \<Longrightarrow>
   calls c' = calls c"
  by (simp add: calls_def)

lemma pending_session: "client_ok c \<Longrightarrow> pending c \<noteq> [] \<Longrightarrow> session c = (\<not> poisoned c)"
  by (auto simp: client_ok_def split: attempt.splits)

text \<open>What every event but a new call does: the invariant, the calls and the loss of the transport are kept.\<close>

definition keeps :: "client \<Rightarrow> client \<Rightarrow> bool" where
  "keeps c c' =
     (client_ok c' \<and> mset (calls c') = mset (calls c) \<and> (poisoned c \<longrightarrow> poisoned c' \<and>
        filter (\<lambda>l. fst l \<noteq> Register) (sent c') = filter (\<lambda>l. fst l \<noteq> Register) (sent c)))"

lemma keeps_answer:
  assumes "client_ok c" "pending c = [w]"
    "settled c' = settled c" "running c' = running c" "queue c' = queue c" "awaiting c' = awaiting c"
    "attempt c' = attempt c" "pending c' = []" "session c' = (\<not> poisoned c')" "sent c' = sent c"
    "poisoned c \<longrightarrow> poisoned c'"
  shows "keeps c (answer_waiter (w, r) c')"
proof -
  have calls: "calls c' = calls c" by (rule calls_cong [OF assms(3-6)])
  note a = answer_ok [OF ok_answered [OF assms(1,2) calls assms(4-9)], of r]
  show ?thesis using a assms(10,11) calls unfolding keeps_def by simp
qed

lemma keeps_data:
  assumes "client_ok c"
  shows "keeps c (onData chunk c)"
proof (cases "pending c")
  case Nil
  have "keeps c (c\<lparr>pending := [], inbound := x\<rparr>)" for x
    using assms Nil by (auto simp: keeps_def client_ok_def chain_ok_def calls_def split: attempt.splits)
  then show ?thesis using Nil by (auto simp: onData_def split: option.split)
next
  case (Cons w ws)
  then obtain w where w: "pending c = [w]" using pending_single [OF assms] by auto
  have "keeps c (c\<lparr>pending := [w], inbound := x\<rparr>)" for x
    using assms w by (auto simp: keeps_def client_ok_def chain_ok_def calls_def split: attempt.splits)
  moreover have "keeps c (answer_waiter (w, r) (c\<lparr>pending := [], inbound := x\<rparr>))" for r x
    using pending_session [OF assms] w by (intro keeps_answer [OF assms w]) simp_all
  ultimately show ?thesis using w by (simp add: onData_def split: option.split)
qed

lemma keeps_poison:
  assumes "client_ok c"
  shows "keeps c (poisonFromTransportLoss c)"
proof (cases "poisoned c")
  case True
  then show ?thesis using assms by (simp add: poisonFromTransportLoss_def keeps_def)
next
  case False
  show ?thesis
  proof (cases "pending c")
    case Nil
    have "keeps c (reset_transport (c\<lparr>poisoned := True\<rparr>))"
      using assms Nil False
      by (auto simp: keeps_def reset_transport_def client_ok_def chain_ok_def calls_def split: attempt.splits option.splits)
    then show ?thesis using Nil False by (simp add: poisonFromTransportLoss_def)
  next
    case (Cons w ws)
    then obtain w where w: "pending c = [w]" using pending_single [OF assms] by auto
    have "keeps c (answer_waiter (w, r) (reset_transport (c\<lparr>poisoned := True\<rparr>)))" for r
      by (rule keeps_answer [OF assms w]) (simp_all add: reset_transport_def)
    then show ?thesis using w False by (simp add: poisonFromTransportLoss_def)
  qed
qed

lemma keeps_write_failed:
  assumes "client_ok c" "pending c \<noteq> []"
  shows "keeps c (write_failed e c)"
proof -
  obtain w where w: "pending c = [w]" using pending_single [OF assms] by auto
  have "keeps c (answer_waiter (w, r) (c\<lparr>pending := []\<rparr>))" for r
    using pending_session [OF assms] by (intro keeps_answer [OF assms(1) w]) simp_all
  then show ?thesis using w by (simp add: write_failed_def)
qed

lemma keeps_fail:
  assumes "client_ok c" "pending c = []" "running c = None" "queue c = []"
    "settled c' = settled c" "running c' = running c" "queue c' = queue c" "awaiting c' = awaiting c"
    "pending c' = []" "sent c' = sent c" "poisoned c \<longrightarrow> poisoned c'"
  shows "keeps c (fail_session e c')"
proof -
  have calls: "calls c' = calls c" by (rule calls_cong [OF assms(5-8)])
  have "distinct (calls c')" using assms(1) calls by (simp add: client_ok_def)
  then show ?thesis
    using fail_session_ok [of c'] assms calls by (simp add: keeps_def)
qed

lemma connecting_idle:
  "client_ok c \<Longrightarrow> attempt c = Connecting n \<Longrightarrow> pending c = [] \<and> running c = None \<and> queue c = []"
  by (simp add: client_ok_def)

lemma keeps_connected:
  assumes "client_ok c" "attempt c = Connecting n"
  shows "keeps c (connected env bytes n c)"
proof (cases "adapterBundleSha256 bytes")
  case (Inl e)
  then show ?thesis
    using connecting_idle [OF assms] keeps_fail [OF assms(1), of "c\<lparr>socket := Some n, live := live c @ [n]\<rparr>" e]
    by (simp add: connected_def)
next
  case (Inr hash)
  have "calls (connected env bytes n c) = calls c"
    by (rule calls_cong) (simp_all add: connected_def Inr)
  then show ?thesis
    using assms by (simp add: connected_def Inr keeps_def client_ok_def)
qed

lemma keeps_connect_failed:
  "client_ok c \<Longrightarrow> attempt c = Connecting n \<Longrightarrow> keeps c (fail_session e c)"
  using connecting_idle [of c n] keeps_fail [of c c e] by simp

text \<open>A new call adds its identifier.\<close>

lemma request_ok:
  assumes "client_ok c" "i \<notin> set (calls c)"
  shows "client_ok (request env i frame c) \<and>
    mset (calls (request env i frame c)) = add_mset i (mset (calls c)) \<and>
    (poisoned c \<longrightarrow> poisoned (request env i frame c) \<and> sent (request env i frame c) = sent c)"
proof -
  have dist: "distinct xs" if "mset xs = add_mset i (mset (calls c))" for xs
  proof -
    have "mset xs = mset (i # calls c)" using that by simp
    then have "distinct xs = distinct (i # calls c)" by (rule distinct_mset_cong)
    then show ?thesis using assms by (simp add: client_ok_def)
  qed
  have settle: "client_ok (settle i r c) \<and> mset (calls (settle i r c)) = add_mset i (mset (calls c))" for r
  proof -
    have "mset (calls (settle i r c)) = add_mset i (mset (calls c))" by (simp add: mset_calls)
    then show ?thesis
      using dist [of "calls (settle i r c)"] assms(1)
      by (auto simp: client_ok_def chain_ok_def split: attempt.splits)
  qed
  let ?new = "c\<lparr>session := True, awaiting := awaiting c @ [(i, frame)]\<rparr>"
  have new: "mset (calls ?new) = add_mset i (mset (calls c))" by (simp add: mset_calls)
  consider "\<not> isProxyEnabled env \<or> poisoned c" | "isProxyEnabled env" "\<not> poisoned c" "\<not> session c"
    | "isProxyEnabled env" "\<not> poisoned c" "session c" "attempt c = Opened"
    | "isProxyEnabled env" "\<not> poisoned c" "session c" "attempt c \<noteq> Opened"
    by blast
  then show ?thesis
  proof cases
    case 1
    then show ?thesis using settle by (auto simp: request_def)
  next
    case 2
    have idle: "attempt c = Idle" using assms(1) 2 by (auto simp: client_ok_def)
    have "pending ?new = []" "running ?new = None" "queue ?new = []"
      using assms(1) idle by (simp_all add: client_ok_def)
    note fail = fail_session_ok [OF this dist [OF new]]
    have start: "client_ok (?new\<lparr>attempt := Connecting n, connections := x\<rparr>)"
      "mset (calls (?new\<lparr>attempt := Connecting n, connections := x\<rparr>)) = add_mset i (mset (calls c))" for n x
      using assms(1) idle dist [OF new] 2 new by (simp_all add: client_ok_def calls_def)
    show ?thesis
      using 2 fail start new by (simp add: request_def ensure_and_call_def start_session_def split: option.split)
  next
    case 3
    have "chain_ok c" using assms(1) 3 by (simp add: client_ok_def)
    note cont = continue_chain [OF this, of "(i, frame)"]
    have "distinct (calls (continue_call (i, frame) c))" by (rule dist) (use cont(3) in simp)
    then show ?thesis
      using 3 cont assms(1) by (simp add: request_def ensure_and_call_def client_ok_def frame_of_def)
  next
    case 4
    let ?c = "c\<lparr>awaiting := awaiting c @ [(i, frame)]\<rparr>"
    have calls: "mset (calls ?c) = add_mset i (mset (calls c))" by (simp add: mset_calls)
    have "attempt c \<noteq> Idle" using assms(1) 4 by (auto simp: client_ok_def)
    then have "client_ok ?c"
      using assms(1) dist [OF calls] 4 by (auto simp: client_ok_def split: attempt.splits)
    then show ?thesis using 4 calls by (simp add: request_def ensure_and_call_def)
  qed
qed

lemma event_ok:
  assumes "client_ok c" "enabled ev c"
  shows "client_ok (handle_event env bytes ev c)"
    "\<nexists>i frame. ev = Request i frame \<Longrightarrow> keeps c (handle_event env bytes ev c)"
proof -
  have keeps: "keeps c (handle_event env bytes ev c)" if "\<nexists>i frame. ev = Request i frame"
    using that assms(2)
    by (cases ev)
      (auto simp: keeps_connected [OF assms(1)] keeps_connect_failed [OF assms(1)] keeps_data [OF assms(1)]
        keeps_poison [OF assms(1)] keeps_write_failed [OF assms(1)])
  then show "\<nexists>i frame. ev = Request i frame \<Longrightarrow> keeps c (handle_event env bytes ev c)" by blast
  show "client_ok (handle_event env bytes ev c)"
  proof (cases "\<exists>i frame. ev = Request i frame")
    case True
    then show ?thesis using request_ok [OF assms(1)] assms(2) by auto
  next
    case False
    then show ?thesis using keeps by (simp add: keeps_def)
  qed
qed

lemma client_reach_ok: "client_reach env bytes c \<Longrightarrow> client_ok c"
  by (induction rule: client_reach.induct) (simp_all add: client_ok_new event_ok)

subsection \<open>Results\<close>

text \<open>The calls that returned an answer.\<close>

definition successes :: "client \<Rightarrow> (nat \<times> json result) set" where
  "successes c = {p \<in> set (settled c). \<not> throws (snd p)}"

lemma successes_simps [simp]:
  "successes (settle i (Inl e) c) = successes c"
  "successes (settle i (Inr v) c) = insert (i, Inr v) (successes c)"
  by (auto simp: successes_def throws_def)

lemma successes_upd [simp]:
  "successes (c\<lparr>poisoned := x0\<rparr>) = successes c"
  "successes (c\<lparr>socket := x1\<rparr>) = successes c"
  "successes (c\<lparr>inbound := x2\<rparr>) = successes c"
  "successes (c\<lparr>pending := x3\<rparr>) = successes c"
  "successes (c\<lparr>session := x4\<rparr>) = successes c"
  "successes (c\<lparr>attempt := x5\<rparr>) = successes c"
  "successes (c\<lparr>awaiting := x6\<rparr>) = successes c"
  "successes (c\<lparr>running := x7\<rparr>) = successes c"
  "successes (c\<lparr>queue := x8\<rparr>) = successes c"
  "successes (c\<lparr>sent := x9\<rparr>) = successes c"
  "successes (c\<lparr>live := x10\<rparr>) = successes c"
  "successes (c\<lparr>connections := x11\<rparr>) = successes c"
  by (simp_all add: successes_def)

lemma successes_cong: "settled c' = settled c \<Longrightarrow> successes c' = successes c"
  by (simp add: successes_def)

lemma successes_run_queue: "successes (run_queue ops c) = successes c"
  by (cases "poisoned c")
    (auto simp: run_queue_poisoned run_queue_open successes_def throws_def split: list.split)

lemma successes_continue: "successes (continue_call p c) = successes c"
proof -
  have "successes (enqueue q c) = successes c" for q
    by (simp add: enqueue_def successes_run_queue del: run_queue.simps)
  then show ?thesis by (simp add: continue_call_def split: sum.split)
qed

lemma successes_open: "successes (open_session c) = successes c"
proof -
  have "successes (fold continue_call ps d) = successes d" for ps d
    by (induction ps arbitrary: d) (simp_all add: successes_continue)
  then show ?thesis by (simp add: open_session_def)
qed

lemma successes_fail: "pending c = [] \<Longrightarrow> successes (fail_session e c) = successes c"
  by (auto simp: fail_session_eq successes_def throws_def)

lemma successes_answer:
  assumes "pending c = []"
  shows "successes (answer_waiter (w, r) c) =
    successes c \<union> {p. \<exists>i v. w = Call i \<and> r = Inr v \<and> running c = Some i \<and> p = (i, Inr v)}"
proof (cases w)
  case Register
  then show ?thesis
    using successes_fail [OF assms] successes_open [of c]
    by (auto simp: answer_waiter_def registered_def split: sum.split)
next
  case (Call i)
  have "successes (settle i r (c\<lparr>running := None\<rparr>)) =
      successes c \<union> {p. \<exists>v. r = Inr v \<and> p = (i, Inr v)}"
    by (cases r) (auto simp: successes_def throws_def)
  then show ?thesis
    using Call by (auto simp: answer_waiter_def finish_call_def successes_run_queue)
qed

lemma successes_lost: "pending c = [] \<Longrightarrow> successes (answer_waiter (w, Inl e) c) = successes c"
  by (simp add: successes_answer)

lemma successes_poison:
  assumes "client_ok c"
  shows "successes (poisonFromTransportLoss c) = successes c"
proof -
  let ?c = "reset_transport (c\<lparr>poisoned := True\<rparr>)"
  have c: "successes ?c = successes c" "pending ?c = []" by (simp_all add: reset_transport_def successes_def)
  show ?thesis
  proof (cases "pending c = []")
    case True
    then show ?thesis using c by (simp add: poisonFromTransportLoss_def)
  next
    case False
    then obtain w where "pending c = [w]" using pending_single [OF assms] by auto
    then show ?thesis using c successes_lost [OF c(2)] by (simp add: poisonFromTransportLoss_def)
  qed
qed

lemma successes_request:
  assumes "client_ok c"
  shows "successes (request env i frame c) = successes c"
proof (cases "isProxyEnabled env \<and> \<not> poisoned c \<and> \<not> session c")
  case True
  then have "attempt c = Idle" using assms by (auto simp: client_ok_def)
  then have "pending c = []" using assms by (simp add: client_ok_def)
  then have "successes (start_session env (c\<lparr>session := True, awaiting := awaiting c @ [(i, frame)]\<rparr>)) = successes c"
    by (simp add: start_session_def successes_fail split: option.split)
  then show ?thesis using True by (simp add: request_def ensure_and_call_def)
next
  case False
  then show ?thesis
    by (auto simp: request_def ensure_and_call_def successes_continue)
qed

lemma successes_connected:
  assumes "client_ok c" "attempt c = Connecting n"
  shows "successes (connected env bytes n c) = successes c"
  using connecting_idle [OF assms]
  by (simp add: connected_def successes_fail Let_def split: sum.split)

text \<open>Only data answers a call, and only the one that waits.\<close>

lemma onData_none:
  assumes "pending c = []"
  obtains x where "onData chunk c = c\<lparr>pending := [], inbound := x\<rparr>"
  using that assms by (cases "index_of (CHR 0x0A) (inbound c @ chunk)") (simp_all only: onData_def take_lines.simps
    Let_def option.case prod.case fold_Nil id_apply)

lemma onData_one:
  assumes "pending c = [w]"
  obtains x where "onData chunk c = c\<lparr>pending := [w], inbound := x\<rparr>"
    | line rest x where "inbound c @ chunk = line @ CHR 0x0A # rest" "CHR 0x0A \<notin> set line"
        "onData chunk c = answer_waiter (w, parse_answer line) (c\<lparr>pending := [], inbound := x\<rparr>)"
proof (cases "index_of (CHR 0x0A) (inbound c @ chunk)")
  case None
  then have "onData chunk c = c\<lparr>pending := [w], inbound := inbound c @ chunk\<rparr>"
    by (simp only: onData_def assms take_lines.simps Let_def option.case prod.case fold_Nil id_apply)
  then show ?thesis by (rule that(1))
next
  case (Some k)
  have "\<exists>x. take_lines [] u = ([], [], x)" for u 
    by (cases "index_of (CHR 0x0A) u") (simp_all only: take_lines.simps option.case, simp_all)
  then obtain x where x: "take_lines [] (drop (k + 1) (inbound c @ chunk)) = ([], [], x)" by blast
  have "onData chunk c = answer_waiter (w, parse_answer (take k (inbound c @ chunk))) (c\<lparr>pending := [], inbound := x\<rparr>)"
    by (simp only: onData_def assms take_lines.simps(2) Some x Let_def option.case prod.case fold.simps comp_def id_apply)
  with index_of_Some_split [OF Some] show ?thesis using that(2) by blast
qed

lemma successes_data:
  assumes "client_ok c"
  shows "successes (onData chunk c) = successes c \<or>
    (\<exists>i v line rest. pending c = [Call i] \<and> successes (onData chunk c) = insert (i, Inr v) (successes c) \<and>
       inbound c @ chunk = line @ CHR 0x0A # rest \<and> CHR 0x0A \<notin> set line \<and> json_parse line = Some v)"
proof (cases "pending c = []")
  case True
  then show ?thesis by (rule onData_none [of c chunk]) simp
next
  case False
  then obtain w where w: "pending c = [w]" using pending_single [OF assms] by auto
  then show ?thesis
  proof (rule onData_one [of c w chunk])
    fix x
    assume "onData chunk c = c\<lparr>pending := [w], inbound := x\<rparr>"
    then show ?thesis by simp
  next
    fix line rest x
    assume d: "inbound c @ chunk = line @ CHR 0x0A # rest" "CHR 0x0A \<notin> set line"
      "onData chunk c = answer_waiter (w, parse_answer line) (c\<lparr>pending := [], inbound := x\<rparr>)"
    have eq: "successes (onData chunk c) =
        successes c \<union> {p. \<exists>i v. w = Call i \<and> parse_answer line = Inr v \<and> running c = Some i \<and> p = (i, Inr v)}"
      using successes_answer [of "c\<lparr>pending := [], inbound := x\<rparr>" w "parse_answer line"] unfolding d(3) by simp
    show ?thesis
    proof (cases "\<exists>i v. w = Call i \<and> parse_answer line = Inr v \<and> running c = Some i")
      case True
      then obtain i v where iv: "w = Call i" "parse_answer line = Inr v" "running c = Some i" by blast
      then have "json_parse line = Some v" by (simp add: parse_answer_def split: option.splits)
      then show ?thesis using iv w d(1,2) eq by auto
    next
      case False
      then show ?thesis using eq by auto
    qed
  qed
qed

text \<open>What an event adds to the answers.\<close>

lemma event_success:
  assumes "client_ok c" "enabled ev c"
  shows "successes (handle_event env bytes ev c) = successes c \<or>
    (\<exists>n chunk i v line rest. ev = Data n chunk \<and> pending c = [Call i] \<and>
       successes (handle_event env bytes ev c) = insert (i, Inr v) (successes c) \<and>
       inbound c @ chunk = line @ CHR 0x0A # rest \<and> CHR 0x0A \<notin> set line \<and> json_parse line = Some v)"
proof (cases ev)
  case (Request j frame)
  then show ?thesis using successes_request [OF assms(1)] by simp
next
  case Connected
  then show ?thesis using assms(2) successes_connected [OF assms(1)] by auto
next
  case (ConnectFailed e)
  then obtain n where "attempt c = Connecting n" using assms(2) by auto
  then show ?thesis using ConnectFailed connecting_idle [OF assms(1)] by (simp add: successes_fail)
next
  case (Data n chunk)
  then show ?thesis using successes_data [OF assms(1), of chunk] by auto
next
  case (SockError n)
  then show ?thesis using successes_poison [OF assms(1)] by simp
next
  case (SockClosed n)
  then show ?thesis using successes_poison [OF assms(1)] by simp
next
  case (WriteFailed e)
  then obtain w where "pending c = [w]" using assms(2) pending_single [OF assms(1)] by auto
  then show ?thesis using WriteFailed by (simp add: write_failed_def successes_lost)
qed

text \<open>C10: Requests and answers match. In every reachable state of the client, during the registration and after a lost
  transport too, at most one line waits for its answer, it is the last line that was written, and no call has
  been settled twice. When any event makes a call return an answer, that call wrote the line that waits, the
  transport is not lost, and the event is data from a live socket: the answer is the value of the first
  complete line of the buffered text, up to its first line feed.\<close>

theorem answers_match_requests:
  assumes "client_reach env bytes c"
  shows "length (pending c) \<le> 1 \<and> (pending c \<noteq> [] \<longrightarrow> sent c \<noteq> [] \<and> pending c = [fst (last (sent c))])
    \<and> distinct (map fst (settled c))
    \<and> (\<forall>ev i v. enabled ev c \<and> (i, Inr v) \<in> successes (handle_event env bytes ev c) - successes c \<longrightarrow>
         pending c = [Call i] \<and> \<not> poisoned c
         \<and> (\<exists>n chunk line rest. ev = Data n chunk \<and> n \<in> set (live c) \<and> CHR 0x0A \<notin> set line
              \<and> inbound c @ chunk = line @ CHR 0x0A # rest \<and> json_parse line = Some v))"
proof -
  have ok: "client_ok c" using assms by (rule client_reach_ok)
  have waits: "length (pending c) \<le> 1 \<and> (pending c \<noteq> [] \<longrightarrow> sent c \<noteq> [] \<and> pending c = [fst (last (sent c))])"
    by (cases "pending c = []") (auto elim: pending_one [OF ok])
  have once: "distinct (map fst (settled c))" using ok by (simp add: client_ok_def calls_def)
  have answer: "pending c = [Call i] \<and> \<not> poisoned c
      \<and> (\<exists>n chunk line rest. ev = Data n chunk \<and> n \<in> set (live c) \<and> CHR 0x0A \<notin> set line
           \<and> inbound c @ chunk = line @ CHR 0x0A # rest \<and> json_parse line = Some v)"
    if en: "enabled ev c" and new: "(i, Inr v) \<in> successes (handle_event env bytes ev c) - successes c" for ev i v
  proof -
    obtain n chunk line rest where ev: "ev = Data n chunk" "pending c = [Call i]" "CHR 0x0A \<notin> set line"
        "inbound c @ chunk = line @ CHR 0x0A # rest" "json_parse line = Some v"
      using event_success [OF ok en, of env bytes] new by auto
    have "\<not> poisoned c" by (rule pending_one [OF ok]) (use ev(2) in auto)
    then show ?thesis using ev en by auto
  qed
  with waits once answer show ?thesis by blast
qed

subsection \<open>Runs\<close>

lemma run_keeps_lost:
  assumes "client_ok c" "poisoned c" "client_run env bytes evs c = Some c'"
  shows "client_ok c' \<and> poisoned c' \<and> successes c' = successes c \<and>
    filter (\<lambda>l. fst l \<noteq> Register) (sent c') = filter (\<lambda>l. fst l \<noteq> Register) (sent c)"
  using assms
proof (induction evs arbitrary: c)
  case Nil
  then show ?case by simp
next
  case (Cons ev evs)
  let ?c = "handle_event env bytes ev c"
  have en: "enabled ev c" "client_run env bytes evs ?c = Some c'" using Cons.prems(3) by (auto split: if_splits)
  have lost: "poisoned ?c \<and> filter (\<lambda>l. fst l \<noteq> Register) (sent ?c) = filter (\<lambda>l. fst l \<noteq> Register) (sent c)"
  proof (cases "\<exists>i frame. ev = Request i frame")
    case True
    then show ?thesis using request_ok [OF Cons.prems(1)] en(1) Cons.prems(2) by auto
  next
    case False
    then show ?thesis using event_ok(2) [OF Cons.prems(1) en(1)] Cons.prems(2) by (simp add: keeps_def)
  qed
  have "\<not> (\<exists>i. pending c = [Call i])"
  proof (rule notI, elim exE)
    fix i
    assume i: "pending c = [Call i]"
    show False by (rule pending_one [OF Cons.prems(1)]) (use i Cons.prems(2) in auto)
  qed
  then have succ: "successes ?c = successes c"
    using event_success [OF Cons.prems(1) en(1), of env bytes] by blast
  then show ?case
    using Cons.IH [OF event_ok(1) [OF Cons.prems(1) en(1)] conjunct1 [OF lost] en(2)] lost succ by simp
qed

text \<open>The calls that are written or wait in the chain, in order.\<close>

definition chained :: "client \<Rightarrow> nat list" where
  "chained c = (case running c of None \<Rightarrow> [] | Some i \<Rightarrow> [i]) @ map fst (queue c)"

lemma calls_chained: "calls c = map fst (settled c) @ chained c @ map fst (awaiting c)"
  by (simp add: calls_def chained_def)

lemma poison_opened:
  assumes "client_ok c" "attempt c = Opened" "\<not> poisoned c"
  shows "settled (poisonFromTransportLoss c) = settled c @ map (\<lambda>i. (i, Inl KERNEL_CONNECTION_LOST)) (chained c)"
    "chained (poisonFromTransportLoss c) = []" "poisoned (poisonFromTransportLoss c)"
    "sent (poisonFromTransportLoss c) = sent c"
proof -
  let ?c = "reset_transport (c\<lparr>poisoned := True\<rparr>)"
  have chain: "chain_ok c" using assms(1,2) by (simp add: client_ok_def)
  show "settled (poisonFromTransportLoss c) = settled c @ map (\<lambda>i. (i, Inl KERNEL_CONNECTION_LOST)) (chained c)"
    "chained (poisonFromTransportLoss c) = []" "poisoned (poisonFromTransportLoss c)"
    "sent (poisonFromTransportLoss c) = sent c"
    using chain assms(3)
    by (cases "running c"; simp add: chain_ok_def poisonFromTransportLoss_def reset_transport_def chained_def
        answer_waiter_def finish_call_def run_queue_poisoned comp_def)+
qed

text \<open>C11: The loss of the transport is final. When the socket of an open client closes, every call that is written
  or queued fails with \<open>Kernel Connection Lost\<close>, none is left waiting, and whatever events follow, the client
  stays poisoned, writes no line of a call any more, and no call ever returns an answer.\<close>

theorem transport_loss_is_final:
  assumes "client_reach env bytes c" "attempt c = Opened" "\<not> poisoned c" "n \<in> set (live c)"
    and "client_run env bytes (SockClosed n # evs) c = Some c'"
  shows "settled (poisonFromTransportLoss c) = settled c @ map (\<lambda>i. (i, Inl KERNEL_CONNECTION_LOST)) (chained c) \<and>
    chained (poisonFromTransportLoss c) = [] \<and> poisoned c' \<and> successes c' = successes c \<and>
    filter (\<lambda>l. fst l \<noteq> Register) (sent c') = filter (\<lambda>l. fst l \<noteq> Register) (sent c)"
proof -
  have ok: "client_ok c" using assms(1) by (rule client_reach_ok)
  note lost = poison_opened [OF ok assms(2,3)]
  have run: "client_run env bytes evs (poisonFromTransportLoss c) = Some c'" using assms(4,5) by simp
  have "client_ok (poisonFromTransportLoss c)" using keeps_poison [OF ok] by (simp add: keeps_def)
  from run_keeps_lost [OF this lost(3) run] show ?thesis
    using lost successes_poison [OF ok] by simp
qed

subsection \<open>Answering what is queued\<close>

definition line_of :: "json \<Rightarrow> string" where
  "line_of v = json_print v @ [CHR 0x0A]"

lemma onData_line:
  assumes "pending c = [Call i]" "running c = Some i" "inbound c = []" "json_plain v"
  shows "onData (line_of v) c = run_queue (queue c) (settle i (Inr (reorder v)) (c\<lparr>pending := [], inbound := [], running := None\<rparr>))"
proof -
  have idx: "index_of (CHR 0x0A) (line_of v) = Some (length (json_print v))"
    using index_of_append [OF json_print_no_newline, of v "[]"] by (simp add: line_of_def)
  have "take_lines [Call i] (line_of v) = ([(Call i, parse_answer (json_print v))], [], [])"
    by (simp only: take_lines.simps idx option.case) (simp add: line_of_def)
  then have "onData (line_of v) c = answer_waiter (Call i, parse_answer (json_print v)) (c\<lparr>pending := [], inbound := []\<rparr>)"
    using assms by (simp add: onData_def del: take_lines.simps)
  then show ?thesis
    using assms by (simp add: answer_waiter_def finish_call_def parse_answer_def json_parse_print)
qed



subsection \<open>A concrete client\<close>

text \<open>Two calls are made, the connection is opened and the proxy accepts the registration.\<close>

definition two_calls :: client where
  "two_calls = request kind_env 1 JNull (request kind_env 0 JNull new_client)"

lemma kind_register: "register_error kind_env = None"
proof -
  have "js_number ''4100'' = NumDec 41 2"
    by (simp add: js_number_def decimal_number_def trim_def is_ws_def span_digits_def is_digit_def Let_def
        parse_exp_def norm_dec.simps nat_of_digits_def digit_val_def)
  then show ?thesis by (simp add: register_error_def positive_port_def kind_env_def or_empty_def)
qed

lemma two_calls_fields:
  "attempt two_calls = Connecting 0" "awaiting two_calls = [(0, JNull), (1, JNull)]" "pending two_calls = []"
  "running two_calls = None" "queue two_calls = []" "settled two_calls = []" "live two_calls = []"
  "inbound two_calls = []" "\<not> poisoned two_calls" "sent two_calls = []"
  by (simp_all add: two_calls_def request_def kind_enabled new_client_def ensure_and_call_def start_session_def
      kind_register)

lemma two_calls_reach: "client_reach kind_env bytes two_calls"
proof -
  have "client_reach kind_env bytes (handle_event kind_env bytes (Request 0 JNull) new_client)"
    by (intro client_reach.intros) (simp add: calls_def new_client_def)
  then have "client_reach kind_env bytes
      (handle_event kind_env bytes (Request 1 JNull) (handle_event kind_env bytes (Request 0 JNull) new_client))"
    by (rule reach_event)
      (simp add: calls_def request_def kind_enabled new_client_def ensure_and_call_def start_session_def kind_register)
  then show ?thesis by (simp add: two_calls_def)
qed

definition accepted :: json where
  "accepted = JObj [(''ok'', JBool True)]"

lemma accepted_plain: "json_plain accepted" "reorder accepted = accepted"
  by (simp_all add: accepted_def set_all_same is_digit_def)

definition open_client :: client where
  "open_client = onData (line_of accepted) (connected kind_env (Inr []) 0 two_calls)"

lemma open_client_fields:
  "attempt open_client = Opened" "running open_client = Some 0" "chained open_client = [0, 1]"
  "pending open_client = [Call 0]" "inbound open_client = []" "live open_client = [0]" "settled open_client = []"
  "\<not> poisoned open_client"
proof -
  have idx: "index_of (CHR 0x0A) (line_of accepted) = Some (length (json_print accepted))"
    using index_of_append [OF json_print_no_newline, of accepted "[]"] by (simp add: line_of_def)
  have lines: "take_lines [Register] (line_of accepted) = ([(Register, parse_answer (json_print accepted))], [], [])"
    by (simp only: take_lines.simps idx option.case) (simp add: line_of_def)
  have parsed: "parse_answer (json_print accepted) = Inr accepted"
    by (simp add: parse_answer_def json_parse_print accepted_plain)
  have "fld accepted ''ok'' = JBool True" "accepted \<noteq> JNull" by (simp_all add: accepted_def)
  note run = open_client_def onData_def connected_def adapterBundleSha256_def two_calls_fields lines parsed
    answer_waiter_def registered_def this open_session_def continue_call_def json_stringify_def enqueue_def chained_def
  show "attempt open_client = Opened" "running open_client = Some 0" "chained open_client = [0, 1]"
    "pending open_client = [Call 0]" "inbound open_client = []" "live open_client = [0]" "settled open_client = []"
    "\<not> poisoned open_client"
    by (simp_all add: run del: take_lines.simps)
qed

lemma open_client_reach: "client_reach kind_env (Inr []) open_client"
proof -
  have "client_reach kind_env (Inr []) (handle_event kind_env (Inr []) Connected two_calls)"
    by (rule reach_event [OF two_calls_reach]) (simp add: two_calls_fields)
  then have c: "client_reach kind_env (Inr []) (connected kind_env (Inr []) 0 two_calls)"
    by (simp add: two_calls_fields)
  have "client_reach kind_env (Inr [])
      (handle_event kind_env (Inr []) (Data 0 (line_of accepted)) (connected kind_env (Inr []) 0 two_calls))"
    by (rule reach_event [OF c]) (simp add: connected_def adapterBundleSha256_def)
  then show ?thesis by (simp add: open_client_def)
qed

lemma open_client_answer: "successes (onData (line_of accepted) open_client) = {(0, Inr accepted)}"
proof -
  have "successes (settle 0 (Inr accepted) (open_client\<lparr>pending := [], inbound := [], running := None\<rparr>))
      = {(0, Inr accepted)}"
    by (auto simp: successes_def open_client_fields throws_def)
  then show ?thesis
    using onData_line [OF open_client_fields(4,2,5) accepted_plain(1)]
    by (simp add: successes_run_queue accepted_plain)
qed

theorem answers_match_requests_witness:
  "(0, Inr accepted) \<in> successes (handle_event kind_env (Inr []) (Data 0 (line_of accepted)) open_client) - successes open_client \<and>
   length (pending open_client) \<le> 1 \<and> fst (last (sent open_client)) = Call 0"
proof -
  have en: "enabled (Data 0 (line_of accepted)) open_client" by (simp add: open_client_fields)
  have new: "(0, Inr accepted) \<in> successes (handle_event kind_env (Inr []) (Data 0 (line_of accepted)) open_client) -
      successes open_client"
    using open_client_answer by (simp add: successes_def open_client_fields)
  note all = answers_match_requests [OF open_client_reach]
  then have "pending open_client = [Call 0]" using en new by blast
  with all new show ?thesis by auto
qed

theorem transport_loss_is_final_witness:
  "\<exists>c'. client_run kind_env (Inr []) [SockClosed 0, Request 2 JNull] open_client = Some c' \<and> poisoned c' \<and>
    settled (poisonFromTransportLoss open_client) =
      [(0, Inl KERNEL_CONNECTION_LOST), (1, Inl KERNEL_CONNECTION_LOST)]"
proof -
  have "client_ok open_client" by (rule client_reach_ok [OF open_client_reach])
  note lost = poison_opened [OF this open_client_fields(1,8)]
  have "awaiting (poisonFromTransportLoss open_client) = []"
    using client_reach_ok [OF open_client_reach]
    by (simp add: poisonFromTransportLoss_def open_client_fields reset_transport_def answer_waiter_def finish_call_def
        run_queue_poisoned client_ok_def)
  then have "enabled (Request 2 JNull) (poisonFromTransportLoss open_client)"
    using lost(1,2) by (simp add: calls_chained open_client_fields)
  then have run: "\<exists>c'. client_run kind_env (Inr []) [SockClosed 0, Request 2 JNull] open_client = Some c'"
    by (simp add: open_client_fields)
  then obtain c' where c': "client_run kind_env (Inr []) (SockClosed 0 # [Request 2 JNull]) open_client = Some c'" by blast
  have "0 \<in> set (live open_client)" by (simp add: open_client_fields)
  from transport_loss_is_final [OF open_client_reach open_client_fields(1,8) this c'] show ?thesis
    using c' by (auto simp: open_client_fields)
qed


subsection \<open>Two defects\<close>

text \<open>A line that nobody waits for is dropped, but the loop stops there: a second one stays in the buffer, and is
  taken for the answer of the next call.\<close>

lemma unsolicited_line_answers_next_call:
  assumes "pending c = []" "inbound c = []"
  shows "inbound (onData (line_of v @ line_of w) c) = line_of w"
proof -
  have "index_of (CHR 0x0A) (line_of v @ line_of w) = Some (length (json_print v))"
    using index_of_append [OF json_print_no_newline, of v "line_of w"] by (simp add: line_of_def)
  then show ?thesis using assms by (simp add: onData_def line_of_def)
qed

text \<open>A rejected registration leaves the socket open with the client's handlers, so that the client is poisoned
  when the proxy closes it, even while a second attempt is under way.\<close>

lemma rejected_registration_poisons_later:
  assumes "attempt c = Registering" "pending c = []" "\<not> poisoned c" "n \<in> set (live c)"
    "fld v ''ok'' \<noteq> JBool True"
  shows "let c' = registered (Inr v) c
    in attempt c' = Idle \<and> \<not> poisoned c' \<and> enabled (SockClosed n) c' \<and> poisoned (poisonFromTransportLoss c')"
  using assms by (simp add: registered_def Let_def fail_session_eq poisonFromTransportLoss_def reset_transport_def)

end
