(* ===== verification/Node_Files.thy ===== *)
theory Node_Files
  imports JSON_Text
begin

text \<open>
  The parts of Node's standard library that programs around the registry use on files: the POSIX forms of
  \<open>path.join\<close>, \<open>path.resolve\<close> and \<open>path.dirname\<close>, and the synchronous operations of \<open>fs\<close> on a disk that is
  passed along as a value. Links and permissions are not part of the disk; the failures they cause are
  arguments of the operations.
\<close>

subsection \<open>Paths\<close>

definition segments :: "string \<Rightarrow> string list" where
  "segments p = filter (\<lambda>s. s \<noteq> [] \<and> s \<noteq> ''.'') (split_on (CHR ''/'') p)"

text \<open>
  Resolve \<open>..\<close> from left to right; the first argument holds the segments already kept, last one first.
  \<open>up\<close> says whether a \<open>..\<close> that has nothing left to remove is kept, as it is in a relative path.
\<close>

fun climb :: "bool \<Rightarrow> string list \<Rightarrow> string list \<Rightarrow> string list" where
  "climb up kept [] = rev kept"
| "climb up kept (s # ss) =
     (if s = ''..'' then
        (case kept of
           [] \<Rightarrow> climb up (if up then [s] else []) ss
         | k # ks \<Rightarrow> climb up (if k = ''..'' then s # kept else ks) ss)
      else climb up (s # kept) ss)"

definition is_absolute :: "string \<Rightarrow> bool" where
  "is_absolute p = starts_with ''/'' p"

definition ends_in_slash :: "string \<Rightarrow> bool" where
  "ends_in_slash p = (p \<noteq> [] \<and> last p = CHR ''/'')"

definition path_normalize :: "string \<Rightarrow> string" where
  "path_normalize p =
     (let body = join ''/'' (climb (\<not> is_absolute p) [] (segments p));
          tail = (if ends_in_slash p then ''/'' else [])
      in if is_absolute p then (if body = [] then ''/'' else ''/'' @ body @ tail)
         else (if body = [] then ''.'' @ tail else body @ tail))"

definition path_joins :: "string list \<Rightarrow> string" where
  "path_joins ps =
     (let j = join ''/'' (filter (\<lambda>p. p \<noteq> []) ps) in if j = [] then ''.'' else path_normalize j)"

definition of_segments :: "string list \<Rightarrow> string" where
  "of_segments ss = ''/'' @ join ''/'' ss"

definition path_resolve :: "string \<Rightarrow> string \<Rightarrow> string" where
  "path_resolve base p =
     of_segments (climb False [] (segments (if is_absolute p then p else base @ ''/'' @ p)))"

definition path_dirname :: "string \<Rightarrow> string" where
  "path_dirname p = of_segments (butlast (segments p))"

text \<open>A name that is one ordinary component of a path.\<close>

definition plain_name :: "string \<Rightarrow> bool" where
  "plain_name s = (s \<noteq> [] \<and> s \<noteq> ''.'' \<and> s \<noteq> ''..'' \<and> CHR ''/'' \<notin> set s)"

subsection \<open>The disk\<close>

text \<open>
  A disk lists its absolute paths, in the order in which a directory enumerates them. The root is always a
  directory.
\<close>

datatype disk_entry = Regular string | Directory

type_synonym disk = "(string \<times> disk_entry) list"

text \<open>What a write met: it was done, the file was not opened, or the write broke off after some code units.\<close>

datatype write_outcome = Written | Not_opened message | Broken_off nat message

definition no_slash :: "string \<Rightarrow> string" where
  "no_slash p = (if ends_in_slash p then butlast p else p)"

definition has_nul :: "string \<Rightarrow> bool" where
  "has_nul p = (CHR 0x00 \<in> set p)"

definition nul_error :: message where
  "nul_error = ''The argument must be a string without null bytes''"

definition is_dir :: "disk \<Rightarrow> string \<Rightarrow> bool" where
  "is_dir d p = (no_slash p = [] \<or> map_of d (no_slash p) = Some Directory)"

definition file_text :: "disk \<Rightarrow> string \<Rightarrow> string option" where
  "file_text d p = (case map_of d p of Some (Regular t) \<Rightarrow> Some t | _ \<Rightarrow> None)"

definition existsSync :: "disk \<Rightarrow> string \<Rightarrow> bool" where
  "existsSync d p = (\<not> has_nul p \<and> (is_dir d p \<or> \<not> ends_in_slash p \<and> file_text d p \<noteq> None))"

definition prefixes_of :: "string \<Rightarrow> string list" where
  "prefixes_of p = map (\<lambda>i. of_segments (take i (segments p))) [1..<Suc (length (segments p))]"

definition add_dir :: "disk \<Rightarrow> string \<Rightarrow> disk" where
  "add_dir d p = (if map_of d p = None then d @ [(p, Directory)] else d)"

text \<open>\<open>mkdirSync\<close> with \<open>recursive\<close>: the missing directories on the way are made from the top.\<close>

definition mkdirSync :: "message option \<Rightarrow> disk \<Rightarrow> string \<Rightarrow> unit result \<times> disk" where
  "mkdirSync fault d p =
     (case fault of
        Some e \<Rightarrow> (Inl e, d)
      | None \<Rightarrow>
          if has_nul p then (Inl nul_error, d)
          else if list_ex (\<lambda>q. file_text d q \<noteq> None) (prefixes_of p) then (Inl (''ENOTDIR: not a directory, mkdir '' @ p), d)
          else (Inr (), foldl add_dir d (prefixes_of p)))"

definition writeFileSync :: "write_outcome \<Rightarrow> disk \<Rightarrow> string \<Rightarrow> string \<Rightarrow> unit result \<times> disk" where
  "writeFileSync out d p t =
     (if has_nul p then (Inl nul_error, d)
      else if is_dir d p then (Inl (''EISDIR: illegal operation on a directory, open '' @ p), d)
      else if \<not> is_dir d (path_dirname p) then (Inl (''ENOENT: no such file or directory, open '' @ p), d)
      else case out of
        Not_opened e \<Rightarrow> (Inl e, d)
      | Broken_off n e \<Rightarrow> (Inl e, AList.update p (Regular (take n t)) d)
      | Written \<Rightarrow> (Inr (), AList.update p (Regular t) d))"

definition readFileSync :: "message option \<Rightarrow> disk \<Rightarrow> string \<Rightarrow> string result" where
  "readFileSync fault d p =
     (case fault of
        Some e \<Rightarrow> Inl e
      | None \<Rightarrow>
          (case file_text d p of
             Some t \<Rightarrow> Inr t
           | None \<Rightarrow> Inl (if is_dir d p then ''EISDIR: illegal operation on a directory, read''
                          else ''ENOENT: no such file or directory, open '' @ p)))"

definition readdirSync :: "message option \<Rightarrow> disk \<Rightarrow> string \<Rightarrow> string list result" where
  "readdirSync fault d p =
     (case fault of
        Some e \<Rightarrow> Inl e
      | None \<Rightarrow>
          if is_dir d p then
            Inr (map (\<lambda>q. last (segments (fst q)))
              (filter (\<lambda>q. segments (fst q) \<noteq> [] \<and> path_dirname (fst q) = of_segments (segments p)) d))
          else Inl (''ENOTDIR: not a directory, scandir '' @ p))"

subsection \<open>Facts\<close>

lemma segments_append_slash: "segments (p @ ''/'' @ q) = segments p @ segments q"
proof -
  have "split_on (CHR ''/'') (p @ CHR ''/'' # q) = split_on (CHR ''/'') p @ split_on (CHR ''/'') q"
  proof (induction p)
    case Nil
    then show ?case by simp
  next
    case (Cons c p)
    then show ?case
      by (cases "split_on (CHR ''/'') p") auto
  qed
  then show ?thesis by (simp add: segments_def)
qed

lemma segments_plain [simp]: "plain_name s \<Longrightarrow> segments s = [s]"
  by (simp add: segments_def plain_name_def)

lemma segments_Nil [simp]: "segments [] = []"
  by (simp add: segments_def)

lemma segments_Cons_slash [simp]: "segments (CHR ''/'' # q) = segments q"
  using segments_append_slash [of "[]" q] by simp

lemma segments_clean: "s \<in> set (segments p) \<Longrightarrow> s \<noteq> [] \<and> s \<noteq> ''.'' \<and> CHR ''/'' \<notin> set s"
proof -
  have "s \<in> set (split_on (CHR ''/'') p) \<Longrightarrow> CHR ''/'' \<notin> set s"
    by (induction p arbitrary: s) (auto split: if_splits list.splits)
  then show "s \<in> set (segments p) \<Longrightarrow> ?thesis" by (auto simp: segments_def)
qed

lemma segments_join:
  "list_all plain_name ss \<Longrightarrow> segments (join ''/'' ss) = ss"
  by (induction ss rule: induct_list012)
     (simp_all add: segments_append_slash [simplified])

lemma segments_of_segments [simp]: "list_all plain_name ss \<Longrightarrow> segments (of_segments ss) = ss"
  by (simp add: of_segments_def segments_join)

lemma climb_plain [simp]: "list_all plain_name ss \<Longrightarrow> climb up kept ss = rev kept @ ss"
  by (induction ss arbitrary: kept) (simp_all add: plain_name_def)

text \<open>An absolute path keeps no \<open>..\<close>: whatever it resolves to consists of ordinary names.\<close>

lemma climb_absolute:
  assumes "list_all plain_name kept" and "\<forall>s \<in> set ss. s \<noteq> [] \<and> s \<noteq> ''.'' \<and> CHR ''/'' \<notin> set s"
  shows "list_all plain_name (climb False kept ss)"
  using assms
proof (induction "False" kept ss rule: climb.induct)
  case (1 kept)
  then show ?case by (simp add: list_all_iff)
next
  case (2 kept s ss)
  then show ?case by (cases kept) (auto simp: plain_name_def)
qed

lemma climb_append: "climb up kept (as @ bs) = climb up (rev (climb up kept as)) bs"
  by (induction up kept as rule: climb.induct) (auto split: list.splits)

lemma path_resolve_plain:
  "list_all plain_name (climb False [] (segments p))"
  by (rule climb_absolute) (auto dest: segments_clean)

lemma file_text_update [simp]:
  "file_text (AList.update p (Regular t) d) q = (if q = p then Some t else file_text d q)"
  by (simp add: file_text_def)

lemma file_text_add_dir [simp]: "file_text (add_dir d p) q = file_text d q"
  by (auto simp: file_text_def add_dir_def map_add_def split: option.splits)

lemma file_text_add_dirs [simp]: "file_text (foldl add_dir d ps) q = file_text d q"
  by (induction ps arbitrary: d) simp_all

lemma mkdirSync_files [simp]: "file_text (snd (mkdirSync f d p)) q = file_text d q"
  by (simp add: mkdirSync_def split: option.split)

lemma mkdirSync_filesD: "mkdirSync f d p = (r, d') \<Longrightarrow> file_text d' q = file_text d q"
  by (metis mkdirSync_files snd_conv)

text \<open>A write touches one file, whatever its outcome.\<close>

lemma writeFileSync_frame: "q \<noteq> p \<Longrightarrow> file_text (snd (writeFileSync out d p t)) q = file_text d q"
  by (simp add: writeFileSync_def split: write_outcome.split)

lemma writeFileSync_frameD:
  "writeFileSync out d p t = (r, d') \<Longrightarrow> q \<noteq> p \<Longrightarrow> file_text d' q = file_text d q"
  by (metis writeFileSync_frame snd_conv)

lemma writeFileSync_written:
  "writeFileSync out d p t = (Inr u, d') \<Longrightarrow> file_text d' p = Some t"
  by (auto simp: writeFileSync_def split: if_splits write_outcome.splits)

lemma is_dir_add_dir: "is_dir d q \<Longrightarrow> is_dir (add_dir d p) q"
  by (auto simp: is_dir_def add_dir_def map_add_def split: option.splits)

lemma is_dir_add_dirs: "is_dir d q \<Longrightarrow> is_dir (foldl add_dir d ps) q"
  by (induction ps arbitrary: d) (simp_all add: is_dir_add_dir)

lemma last_join_plain:
  "ns \<noteq> [] \<Longrightarrow> list_all plain_name ns \<Longrightarrow>
     join ''/'' ns \<noteq> [] \<and> last (join ''/'' ns) \<noteq> CHR ''/''"
proof (induction ns rule: induct_list012)
  case (2 n)
  then have "n \<noteq> []" and "CHR ''/'' \<notin> set n" by (simp_all add: plain_name_def)
  then show ?case by (auto dest: last_in_set)
next
  case (3 n m ns)
  then show ?case by simp
qed simp

text \<open>Joining ordinary names to a directory goes down from it.\<close>

lemma path_joins_plain:
  assumes "list_all plain_name rs" and "list_all plain_name ns" and "ns \<noteq> []"
  shows "path_joins (of_segments rs # ns) = of_segments (rs @ ns)"
proof -
  have keep: "filter (\<lambda>p. p \<noteq> []) (of_segments rs # ns) = of_segments rs # ns"
    using assms(2) by (auto simp: of_segments_def filter_id_conv list_all_iff plain_name_def)
  have j: "join ''/'' (of_segments rs # ns) = of_segments rs @ ''/'' @ join ''/'' ns"
    using assms(3) by (cases ns) simp_all
  have seg: "segments (of_segments rs @ ''/'' @ join ''/'' ns) = rs @ ns"
    by (simp only: segments_append_slash segments_of_segments [OF assms(1)] segments_join [OF assms(2)])
  have all: "list_all plain_name (rs @ ns)" using assms by simp
  have last: "\<not> ends_in_slash (of_segments rs @ ''/'' @ join ''/'' ns)"
    using last_join_plain [OF assms(3,2)] by (simp add: ends_in_slash_def)
  have abs: "is_absolute (of_segments rs @ ''/'' @ join ''/'' ns)"
    by (simp add: is_absolute_def of_segments_def)
  have ne: "join ''/'' (rs @ ns) \<noteq> []"
    using last_join_plain [OF _ all] assms(3) by simp
  have nonempty: "of_segments rs @ ''/'' @ join ''/'' ns \<noteq> []" by (simp add: of_segments_def)
  show ?thesis
    by (simp only: path_joins_def keep j path_normalize_def seg last abs ne nonempty climb_plain [OF all] Let_def
        if_False if_True not_True_eq_False rev.simps append_Nil append_Nil2 of_segments_def [of "rs @ ns"])
qed

end
