(* ===== verification/Gold_Invoke.thy ===== *)
theory Gold_Invoke
  imports Node_Files JSON_Pretty SHA256 Kernel_Contracts Startup
begin

text \<open>
  The runner of one invocation, \<open>engine/gold_invoke.mjs\<close>: it reads an envelope from its standard input, runs
  the handler of the requested capability and prints one line. The disk is passed along; the environment,
  the processes that are started, the answers of the language model, the clock and the random identifier
  are fields of \<open>gold_host\<close>. A handler that throws ends the process without output, because the rejection of
  the asynchronous listener is not handled.
\<close>

subsection \<open>The host\<close>

record gold_env =
  OPENROUTER_API_KEY :: "string option"
  OPENAI_API_KEY :: "string option"
  ZAKAI_SYSTEM_PROMPT :: "string option"
  OPENROUTER_BASE_URL :: "string option"
  OPENROUTER_MODEL :: "string option"
  OPENAI_MODEL :: "string option"
  OPENROUTER_HTTP_REFERER :: "string option"
  OPENROUTER_APP_TITLE :: "string option"
  ZAKAI_GOLD :: "string option"

text \<open>
  The end of a process: its output when it succeeds; else what it wrote to the two streams, when the exception
  carries that, and the exception as a string.
\<close>

datatype process_end = Ended string | Broke "string option" "string option" string

record http_post =
  post_url :: string
  post_headers :: "(string \<times> string) list"
  post_body :: string

text \<open>An answer; the body is \<open>None\<close> when reading it fails.\<close>

record http_answer =
  answer_status :: nat
  answer_body :: "string option"

record gold_host =
  repoRoot :: string
  workdir :: string
  environment :: gold_env
  mkdir_fault :: "string \<Rightarrow> message option"
  write_outcome_of :: "string \<Rightarrow> write_outcome"
  read_fault :: "string \<Rightarrow> message option"
  execFileSync :: "string list \<Rightarrow> disk \<Rightarrow> process_end \<times> disk"
  fetch :: "http_post \<Rightarrow> http_answer result"
  date_now :: nat
  random_id :: string

type_synonym handler_end = "json result \<times> disk"

subsection \<open>Values\<close>

text \<open>
  \<open>JSON.stringify\<close> with a list of property names: it selects, and orders, the properties of every object in the
  value, not only of the outermost one.
\<close>

fun print_allowed :: "string list \<Rightarrow> json \<Rightarrow> string"
  and print_allowed_elems :: "string list \<Rightarrow> json list \<Rightarrow> string list"
  and allowed_members :: "string list \<Rightarrow> (string \<times> json) list \<Rightarrow> (string \<times> string) list" where
  "print_allowed ks (JArr xs) = ''['' @ join '','' (print_allowed_elems ks xs) @ '']''"
| "print_allowed ks (JObj kvs) =
     (let ms = allowed_members ks kvs
      in ''{'' @ join '','' (map (\<lambda>k. quote k @ '':'' @ the (map_of ms k)) (filter (\<lambda>k. map_of ms k \<noteq> None) ks))
         @ ''}'')"
| "print_allowed ks v = json_print v"
| "print_allowed_elems ks [] = []"
| "print_allowed_elems ks (x # xs) = (if x = JUndef then ''null'' else print_allowed ks x) # print_allowed_elems ks xs"
| "allowed_members ks [] = []"
| "allowed_members ks ((k, v) # kvs) =
     (if v = JUndef \<or> k \<notin> set ks then allowed_members ks kvs
      else (k, print_allowed ks v) # allowed_members ks kvs)"

definition gold_canonical :: "(string \<times> json) list \<Rightarrow> string" where
  "gold_canonical kvs = print_allowed (sort (map fst kvs)) (JObj kvs)"

definition deny :: "string \<Rightarrow> json" where
  "deny e = JObj [(''ok'', JBool False), (''error'', JStr e), (''outcome'', JStr ''denied'')]"

definition granted :: "json \<Rightarrow> json" where
  "granted out = JObj [(''ok'', JBool True), (''outcome'', JStr ''success''), (''output'', out)]"

definition num :: "nat \<Rightarrow> json" where
  "num n = JNum (norm_dec (int n) 0)"

text \<open>\<open>x && typeof x === "object" ? x.k : null\<close>, and \<open>typeof x === "string" ? x : null\<close>.\<close>

definition member_of :: "json \<Rightarrow> string \<Rightarrow> json" where
  "member_of v k = (if is_objectish v then fld v k else JNull)"

definition str_or_null :: "json \<Rightarrow> json" where
  "str_or_null v = (if is_str v then v else JNull)"

text \<open>A string that is more than white space; the check \<open>typeof x !== "string" || x.trim().length === 0\<close>.\<close>

definition filled :: "json \<Rightarrow> string option" where
  "filled v = (case v of JStr s \<Rightarrow> if trim s \<noteq> [] then Some s else None | _ \<Rightarrow> None)"

definition str_elems :: "json \<Rightarrow> string list option" where
  "str_elems v =
     (case v of JArr xs \<Rightarrow> if list_all is_str xs then Some (map the_str xs) else None | _ \<Rightarrow> None)"

definition request_input :: "json \<Rightarrow> json" where
  "request_input pl = member_of (member_of pl ''capability_request'') ''input''"

definition gold_path :: "gold_host \<Rightarrow> string list \<Rightarrow> string" where
  "gold_path h ps = path_joins (repoRoot h # ps)"

definition compilerCliPath :: "gold_host \<Rightarrow> string" where
  "compilerCliPath h = gold_path h [''capability-compiler'', ''dist'', ''cli.js'']"

definition vitestCliPath :: "gold_host \<Rightarrow> string" where
  "vitestCliPath h = gold_path h [''capability-compiler'', ''node_modules'', ''vitest'', ''vitest.mjs'']"

definition capabilityVersionDir :: "gold_host \<Rightarrow> string \<Rightarrow> string \<Rightarrow> string" where
  "capabilityVersionDir h cap ver = path_joins [gold_path h [''capabilities''], cap, ver]"

definition safeExec :: "gold_host \<Rightarrow> string list \<Rightarrow> disk \<Rightarrow> string result \<times> disk" where
  "safeExec h args d =
     (case execFileSync h args d of
        (Ended out, d') \<Rightarrow> (Inr out, d')
      | (Broke out err e, d') \<Rightarrow>
          (let t = trim ((case out of None \<Rightarrow> [] | Some o1 \<Rightarrow> o1) @ (case err of None \<Rightarrow> [] | Some o2 \<Rightarrow> o2))
           in (Inl (if t \<noteq> [] then t else e), d')))"

text \<open>The text parts of a message of the language model.\<close>

definition part_text :: "json \<Rightarrow> string" where
  "part_text p =
     (case p of JStr s \<Rightarrow> s
      | _ \<Rightarrow> (case member_of p ''text'' of JStr s \<Rightarrow> s | _ \<Rightarrow> []))"

definition extractChatContent :: "json \<Rightarrow> string" where
  "extractChatContent m =
     (case fld m ''content'' of
        JStr s \<Rightarrow> s
      | JArr ps \<Rightarrow> concat (map part_text ps)
      | _ \<Rightarrow> [])"

subsection \<open>Handlers that read the payload\<close>

definition executeSearchFiles :: "json \<Rightarrow> json" where
  "executeSearchFiles pl =
     (let req = member_of pl ''capability_request''; snap = member_of pl ''workspace_snapshot''
      in if \<not> is_objectish req then deny ''missing_capability_request''
         else if \<not> is_objectish snap then deny ''missing_workspace_snapshot''
         else case filled (member_of (fld req ''input'') ''query'') of
           None \<Rightarrow> deny ''invalid_search_query''
         | Some query \<Rightarrow>
             (case str_elems (fld snap ''files'') of
                None \<Rightarrow> deny ''invalid_workspace_files''
              | Some names \<Rightarrow>
                  (let needle = to_lower (trim query)
                   in granted (JObj
                     [(''capability'', JStr ''search_files''),
                      (''authorityContextId'', str_or_null (fld snap ''authority_context_id'')),
                      (''workspaceName'', str_or_null (fld snap ''workspace_name'')),
                      (''query'', JStr query),
                      (''matches'', JArr (map JStr (filter (\<lambda>p. includes_str needle (to_lower p)) names)))]))))"

definition executeReadFile :: "json \<Rightarrow> json" where
  "executeReadFile pl =
     (let req = member_of pl ''capability_request''; wf = member_of pl ''workspace_file''
      in if \<not> is_objectish req then deny ''missing_capability_request''
         else if \<not> is_objectish wf then deny ''missing_workspace_file''
         else case filled (member_of (fld req ''input'') ''path'') of
           None \<Rightarrow> deny ''invalid_read_path''
         | Some requested \<Rightarrow>
             if JStr requested \<noteq> str_or_null (fld wf ''path'') then deny ''workspace_file_path_mismatch''
             else if \<not> is_str (fld wf ''content'') then deny ''invalid_workspace_file_content''
             else granted (JObj
               [(''capability'', JStr ''read_file''),
                (''authorityContextId'', str_or_null (fld wf ''authority_context_id'')),
                (''workspaceName'', str_or_null (fld wf ''workspace_name'')),
                (''path'', JStr requested),
                (''content'', fld wf ''content'')]))"

definition executeListFiles :: "json \<Rightarrow> json" where
  "executeListFiles pl =
     (let req = member_of pl ''capability_request''; snap = member_of pl ''workspace_snapshot''
      in if \<not> is_objectish req then deny ''missing_capability_request''
         else if \<not> is_objectish snap then deny ''missing_workspace_snapshot''
         else case str_elems (fld snap ''files'') of
           None \<Rightarrow> deny ''invalid_workspace_files''
         | Some names \<Rightarrow> granted (JObj
             [(''capability'', JStr ''list_files''),
              (''authorityContextId'', str_or_null (fld snap ''authority_context_id'')),
              (''workspaceName'', str_or_null (fld snap ''workspace_name'')),
              (''files'', JArr (map JStr names))]))"

definition executeCommitEdit :: "gold_host \<Rightarrow> json \<Rightarrow> json" where
  "executeCommitEdit h pl =
     (let inp = request_input pl
      in case filled (member_of inp ''path'') of
           None \<Rightarrow> deny ''invalid_commit_path''
         | Some path \<Rightarrow>
             if \<not> is_str (member_of inp ''content'') then deny ''invalid_commit_content''
             else case filled (member_of inp ''surface_id'') of
               None \<Rightarrow> deny ''invalid_surface_id''
             | Some surface \<Rightarrow> granted (JObj
                 [(''capability'', JStr ''commit_edit''),
                  (''authorization'', JObj
                    [(''authorization_id'', JStr (''auth_'' @ show_nat (date_now h) @ ''_'' @ random_id h)),
                     (''execution_receipt_hash'', JStr []),
                     (''surface_id'', JStr surface),
                     (''capability'', JStr ''commit_edit''),
                     (''resource_ref'', JStr path),
                     (''payload_hash'', JStr (sha256Tagged (the_str (member_of inp ''content'')))),
                     (''issued_at'', num (date_now h)),
                     (''expires_at'', num (date_now h + 30000)),
                     (''signature'', JStr ''zakai-runtime-signature-pending'')])]))"

subsection \<open>Handlers that use the disk\<close>

definition bind_disk :: "'a result \<times> disk \<Rightarrow> ('a \<Rightarrow> disk \<Rightarrow> 'b result \<times> disk) \<Rightarrow> 'b result \<times> disk" where
  "bind_disk m k = (case m of (Inl e, d) \<Rightarrow> (Inl e, d) | (Inr x, d) \<Rightarrow> k x d)"

lemma bind_disk_simps [simp]:
  "bind_disk (Inl e, d) k = (Inl e, d)"
  "bind_disk (Inr x, d) k = k x d"
  by (simp_all add: bind_disk_def)

text \<open>\<open>mkdirSync\<close> and then \<open>writeFileSync\<close>, as both writing handlers call them.\<close>

definition write_new :: "gold_host \<Rightarrow> string \<Rightarrow> string \<Rightarrow> string \<Rightarrow> disk \<Rightarrow> unit result \<times> disk" where
  "write_new h dir path t d =
     bind_disk (mkdirSync (mkdir_fault h dir) d dir) (\<lambda>_ d1. writeFileSync (write_outcome_of h path) d1 path t)"

definition worksheet_text :: "json \<Rightarrow> string" where
  "worksheet_text v = json_pretty [] v @ newline []"

definition worksheet_answer :: "string \<Rightarrow> string \<Rightarrow> string \<Rightarrow> bool \<Rightarrow> json" where
  "worksheet_answer path cap ver over =
     granted (JObj [(''written_path'', JStr path), (''capability_id'', JStr cap), (''version'', JStr ver),
                    (''overwritten'', JBool over)])"

definition executeWriteWorksheet :: "gold_host \<Rightarrow> json \<Rightarrow> disk \<Rightarrow> handler_end" where
  "executeWriteWorksheet h pl d =
     (let inp = request_input pl
      in case filled (member_of inp ''capability_id'') of
           None \<Rightarrow> (Inr (deny ''invalid_capability_id''), d)
         | Some cap \<Rightarrow>
             (case filled (member_of inp ''version'') of
                None \<Rightarrow> (Inr (deny ''invalid_capability_version''), d)
              | Some ver \<Rightarrow>
                  if \<not> is_record (member_of inp ''worksheet_content'') then
                    (Inr (deny ''invalid_worksheet_content''), d)
                  else
                    let dir = capabilityVersionDir h cap ver;
                        path = path_joins [dir, ''worksheet.yaml''];
                        existed = existsSync d path
                    in if existed \<and> member_of inp ''overwrite'' \<noteq> JBool True then
                         (Inr (worksheet_answer path cap ver False), d)
                       else bind_disk (write_new h dir path (worksheet_text (member_of inp ''worksheet_content'')) d)
                         (\<lambda>_ d'. (Inr (worksheet_answer path cap ver existed), d'))))"

text \<open>The answers of the compile handler: \<open>granted\<close> wraps a failed compilation as well.\<close>

definition compile_failed :: "string \<Rightarrow> string \<Rightarrow> string \<Rightarrow> json" where
  "compile_failed cap ver e =
     granted (JObj [(''success'', JBool False), (''capability_id'', JStr cap), (''version'', JStr ver),
                    (''error'', JStr e)])"

definition compiled_answer :: "gold_host \<Rightarrow> string \<Rightarrow> string \<Rightarrow> string \<Rightarrow> disk \<Rightarrow> json result" where
  "compiled_answer h dir cap ver d =
     (let hash_path = path_joins [dir, ''definition.hash'']
      in bind_result
           (if existsSync d dir then
              bind_result (readdirSync (read_fault h dir) d dir) (\<lambda>names.
                Inr (map (\<lambda>n. path_joins [dir, n]) names))
            else Inr [])
           (\<lambda>emitted. bind_result
              (if existsSync d hash_path then
                 bind_result (readFileSync (read_fault h hash_path) d hash_path) (\<lambda>t. Inr (JStr (trim t)))
               else Inr JUndef)
              (\<lambda>hash. Inr (granted (JObj
                [(''success'', JBool True), (''capability_id'', JStr cap), (''version'', JStr ver),
                 (''definition_hash'', hash), (''emitted_files'', JArr (map JStr emitted))])))))"

definition executeCompileCapability :: "gold_host \<Rightarrow> json \<Rightarrow> disk \<Rightarrow> handler_end" where
  "executeCompileCapability h pl d =
     (let inp = request_input pl;
          nested = (member_of inp ''nested_version'' = JBool True);
          out_dir = (case member_of inp ''out_dir'' of JStr s \<Rightarrow> s | _ \<Rightarrow> ''../capabilities'')
      in case filled (member_of inp ''capability_id'') of
           None \<Rightarrow> (Inr (deny ''invalid_capability_id''), d)
         | Some cap \<Rightarrow>
             (case filled (member_of inp ''version'') of
                None \<Rightarrow> (Inr (deny ''invalid_capability_version''), d)
              | Some ver \<Rightarrow>
                  if \<not> existsSync d (compilerCliPath h) then (Inr (deny ''compiler_cli_missing''), d)
                  else
                    let sheet = path_joins [capabilityVersionDir h cap ver, ''worksheet.yaml''];
                        base = path_resolve (path_dirname (compilerCliPath h)) out_dir;
                        args = [compilerCliPath h, ''compile'', sheet, ''--out'', base]
                          @ (if nested then [''--nested-version''] else [])
                    in if \<not> existsSync d sheet then (Inr (compile_failed cap ver ''worksheet_missing''), d)
                       else case safeExec h args d of
                         (Inl e, d1) \<Rightarrow> (Inr (compile_failed cap ver e), d1)
                       | (Inr out, d1) \<Rightarrow>
                           (compiled_answer h (path_joins (if nested then [base, cap, ver] else [base, cap])) cap ver d1, d1)))"

text \<open>An attempt number that the test handler accepts, as a natural number.\<close>

definition attempt_of :: "json \<Rightarrow> nat option" where
  "attempt_of v =
     (case v of
        JNum n \<Rightarrow>
          if \<not> is_integer n \<or> num_below n 1 \<or> num_above n 3 then None
          else (case n of NumDec m e \<Rightarrow> Some (nat (m * 10 ^ nat e)) | _ \<Rightarrow> None)
      | _ \<Rightarrow> None)"

definition missing_spec_answer :: "string \<Rightarrow> string \<Rightarrow> nat \<Rightarrow> json" where
  "missing_spec_answer cap ver a =
     granted (JObj
       [(''passed'', JBool False), (''capability_id'', JStr cap), (''version'', JStr ver),
        (''attempt_number'', num a), (''definition_hash_verified'', JBool False),
        (''golden_input_validated'', JBool False), (''self_correction_possible'', JBool (a < 3)),
        (''halt'', JBool (3 \<le> a)), (''error_output'', JStr ''test_spec_missing'')])"

definition test_answer :: "string \<Rightarrow> string \<Rightarrow> nat \<Rightarrow> string result \<Rightarrow> json" where
  "test_answer cap ver a run =
     (let passed = (case run of Inl e \<Rightarrow> False | Inr out \<Rightarrow> True)
      in granted (JObj
        [(''passed'', JBool passed), (''capability_id'', JStr cap), (''version'', JStr ver),
         (''definition_hash_verified'', JBool passed), (''golden_input_validated'', JBool passed),
         (''attempt_number'', num a),
         (''error_output'', (case run of Inl e \<Rightarrow> JStr e | Inr out \<Rightarrow> JUndef)),
         (''self_correction_possible'', JBool (\<not> passed \<and> a < 3)),
         (''halt'', JBool (\<not> passed \<and> 3 \<le> a))]))"

definition executeCapabilityTest :: "gold_host \<Rightarrow> json \<Rightarrow> disk \<Rightarrow> handler_end" where
  "executeCapabilityTest h pl d =
     (let inp = request_input pl
      in case filled (member_of inp ''capability_id'') of
           None \<Rightarrow> (Inr (deny ''invalid_capability_id''), d)
         | Some cap \<Rightarrow>
             (case filled (member_of inp ''version'') of
                None \<Rightarrow> (Inr (deny ''invalid_capability_version''), d)
              | Some ver \<Rightarrow>
                  (case attempt_of (member_of inp ''attempt_number'') of
                     None \<Rightarrow> (Inr (deny ''invalid_attempt_number''), d)
                   | Some a \<Rightarrow>
                       if \<not> existsSync d (vitestCliPath h) then (Inr (deny ''vitest_cli_missing''), d)
                       else
                         let spec = path_joins [capabilityVersionDir h cap ver, ''test.spec.ts'']
                         in if \<not> existsSync d spec then (Inr (missing_spec_answer cap ver a), d)
                            else let (run, d1) = safeExec h [vitestCliPath h, ''run'', spec] d
                                 in (Inr (test_answer cap ver a run), d1))))"

text \<open>The six fields of a proposal, all required.\<close>

record proposal_input =
  pi_capability :: string
  pi_version :: string
  pi_hash :: string
  pi_test :: string
  pi_compile :: string
  pi_justification :: string

definition proposal_input_of :: "json \<Rightarrow> proposal_input option" where
  "proposal_input_of inp =
     (case (filled (member_of inp ''capability_id''), filled (member_of inp ''version''),
            filled (member_of inp ''definition_hash''), filled (member_of inp ''test_receipt_id''),
            filled (member_of inp ''compile_receipt_id''), filled (member_of inp ''justification'')) of
        (Some c, Some v, Some h, Some t, Some k, Some j) \<Rightarrow>
          Some \<lparr>pi_capability = c, pi_version = v, pi_hash = h, pi_test = t, pi_compile = k, pi_justification = j\<rparr>
      | _ \<Rightarrow> None)"

definition proposal_id :: "gold_host \<Rightarrow> string" where
  "proposal_id h = ''proposal_'' @ show_nat (date_now h) @ ''_'' @ random_id h"

definition signed_fields :: "gold_host \<Rightarrow> proposal_input \<Rightarrow> (string \<times> json) list" where
  "signed_fields h i =
     [(''capabilityId'', JStr (pi_capability i)), (''version'', JStr (pi_version i)),
      (''definitionHash'', JStr (pi_hash i)), (''testReceiptId'', JStr (pi_test i)),
      (''compileReceiptId'', JStr (pi_compile i)), (''justification'', JStr (pi_justification i)),
      (''proposedAt'', num (date_now h))]"

definition proposal_signature :: "gold_host \<Rightarrow> proposal_input \<Rightarrow> string" where
  "proposal_signature h i = sha256Hex (gold_canonical (signed_fields h i))"

definition proposal_record :: "gold_host \<Rightarrow> proposal_input \<Rightarrow> json" where
  "proposal_record h i = JObj
     [(''proposal_id'', JStr (proposal_id h)), (''capability_id'', JStr (pi_capability i)),
      (''version'', JStr (pi_version i)), (''definition_hash'', JStr (pi_hash i)),
      (''test_receipt_id'', JStr (pi_test i)), (''compile_receipt_id'', JStr (pi_compile i)),
      (''justification'', JStr (pi_justification i)), (''status'', JStr ''pending_human_seal''),
      (''proposed_at'', num (date_now h)), (''signature'', JStr (proposal_signature h i))]"

definition proposal_answer :: "gold_host \<Rightarrow> string \<Rightarrow> proposal_input \<Rightarrow> json" where
  "proposal_answer h path i = granted (JObj
     [(''proposal_id'', JStr (proposal_id h)), (''capability_id'', JStr (pi_capability i)),
      (''version'', JStr (pi_version i)), (''definition_hash'', JStr (pi_hash i)),
      (''proposal_receipt_path'', JStr path), (''status'', JStr ''pending_human_seal''),
      (''proposed_at'', num (date_now h))])"

definition executeProposeMembraneAdmission :: "gold_host \<Rightarrow> json \<Rightarrow> disk \<Rightarrow> handler_end" where
  "executeProposeMembraneAdmission h pl d =
     (case proposal_input_of (request_input pl) of
        None \<Rightarrow> (Inr (deny ''invalid_proposal_input''), d)
      | Some i \<Rightarrow>
          (let dir = gold_path h [''engine'', ''proposals''];
               path = path_joins [dir, proposal_id h @ ''.json'']
           in bind_disk (write_new h dir path (worksheet_text (proposal_record h i)) d)
                (\<lambda>_ d'. (Inr (proposal_answer h path i), d'))))"

subsection \<open>The conversation handler\<close>

definition trimmed_env :: "string option \<Rightarrow> string option" where
  "trimmed_env v = (case v of None \<Rightarrow> None | Some s \<Rightarrow> if trim s \<noteq> [] then Some (trim s) else None)"

definition or_default :: "string option \<Rightarrow> string \<Rightarrow> string" where
  "or_default v d = (case v of None \<Rightarrow> d | Some s \<Rightarrow> s)"

definition default_system_prompt :: string where
  "default_system_prompt =
     ''You are ZAKAI inside the governed runtime. Answer directly, conversationally, and concisely. Do not claim to have executed tools unless the runtime executed them.''"

definition chat_message :: "string \<Rightarrow> string \<Rightarrow> json" where
  "chat_message role content = JObj [(''role'', JStr role), (''content'', JStr content)]"

definition prior_messages :: "json \<Rightarrow> json list" where
  "prior_messages history =
     concat (map (\<lambda>entry.
        let content = (case fld entry ''content'' of JStr s \<Rightarrow> s | _ \<Rightarrow> [])
        in if trim content \<noteq> []
           then [chat_message (if fld entry ''role'' = JStr ''assistant'' then ''assistant'' else ''user'') content]
           else [])
       (filter is_objectish (elements history)))"

definition use_router :: "gold_env \<Rightarrow> bool" where
  "use_router env = (trimmed_env (OPENROUTER_API_KEY env) \<noteq> None)"

definition chat_model :: "gold_env \<Rightarrow> string" where
  "chat_model env =
     (if use_router env then or_default (OPENROUTER_MODEL env) ''openrouter/free''
      else or_default (OPENAI_MODEL env) ''gpt-4o-mini'')"

definition chat_post :: "gold_env \<Rightarrow> string \<Rightarrow> json \<Rightarrow> http_post" where
  "chat_post env prompt history =
     \<lparr>post_url = (if use_router env
        then or_default (OPENROUTER_BASE_URL env) ''https://openrouter.ai/api/v1'' @ ''/chat/completions''
        else ''https://api.openai.com/v1/chat/completions''),
      post_headers =
        [(''Content-Type'', ''application/json''),
         (''Authorization'', ''Bearer '' @ or_default (trimmed_env
            (if use_router env then OPENROUTER_API_KEY env else OPENAI_API_KEY env)) [])]
        @ (if use_router env then
             [(''HTTP-Referer'', or_default (OPENROUTER_HTTP_REFERER env) ''https://github.com/harmonicfutures/zak-ai''),
              (''X-Title'', or_default (OPENROUTER_APP_TITLE env) ''ZAKAI-runtime'')]
           else []),
      post_body = json_print (JObj
        [(''model'', JStr (chat_model env)),
         (''messages'', JArr ([chat_message ''system''
              (or_default (trimmed_env (ZAKAI_SYSTEM_PROMPT env)) default_system_prompt)]
            @ prior_messages history @ [chat_message ''user'' prompt])),
         (''temperature'', JNum (NumDec 2 (- 1)))])\<rparr>"

definition http_ok :: "http_answer \<Rightarrow> bool" where
  "http_ok a = (200 \<le> answer_status a \<and> answer_status a \<le> 299)"

text \<open>\<open>json?.choices?.[0]?.message\<close>.\<close>

definition first_of :: "json \<Rightarrow> json" where
  "first_of v = (case v of JArr (x # xs) \<Rightarrow> x | JObj kvs \<Rightarrow> fld v ''0'' | _ \<Rightarrow> JUndef)"

definition read_chat :: "gold_env \<Rightarrow> http_answer \<Rightarrow> json result" where
  "read_chat env a =
     (if \<not> http_ok a then
        (let t = (case answer_body a of None \<Rightarrow> [] | Some b \<Rightarrow> b)
         in Inr (deny (''llm_http_'' @ show_nat (answer_status a)
              @ (if t \<noteq> [] then '':'' @ take 160 t else []))))
      else case answer_body a of
        None \<Rightarrow> Inl ''terminated''
      | Some b \<Rightarrow>
          (case json_parse b of
             None \<Rightarrow> Inl ''Unexpected token in JSON''
           | Some j \<Rightarrow>
               (let t = extractChatContent (fld (first_of (fld j ''choices'')) ''message'')
                in if trim t = [] then Inr (deny ''empty_model_output'')
                   else Inr (granted (JObj
                     [(''capability'', JStr ''conversation.respond''), (''reply'', JStr (trim t)),
                      (''provider'', JStr (if use_router env then ''openrouter'' else ''openai'')),
                      (''model'', JStr (chat_model env))])))))"

definition executeConversationRespond :: "gold_host \<Rightarrow> json \<Rightarrow> json result" where
  "executeConversationRespond h pl =
     (let req = member_of pl ''capability_request''; env = environment h
      in if \<not> is_objectish req then Inr (deny ''missing_capability_request'')
         else case filled (member_of (fld req ''input'') ''prompt'') of
           None \<Rightarrow> Inr (deny ''invalid_prompt'')
         | Some prompt \<Rightarrow>
             if trimmed_env (OPENROUTER_API_KEY env) = None \<and> trimmed_env (OPENAI_API_KEY env) = None then
               Inr (deny ''llm_credentials_missing'')
             else bind_result (fetch h (chat_post env prompt (member_of (fld req ''input'') ''history'')))
               (read_chat env))"

subsection \<open>The process\<close>

text \<open>What the process leaves behind: a printed line and its exit status, or an exception.\<close>

datatype gold_end = Printed string nat | Crashed message

definition gold_line :: "json \<Rightarrow> string" where
  "gold_line v = json_print v @ newline []"

definition requestedCapability :: "json \<Rightarrow> string option" where
  "requestedCapability pl =
     (case member_of (member_of pl ''capability_request'') ''capability'' of JStr c \<Rightarrow> Some c | _ \<Rightarrow> None)"

definition nonceHash :: "string \<Rightarrow> json \<Rightarrow> string" where
  "nonceHash intent pl = sha256Hex (gold_canonical [(''intentId'', JStr intent), (''payload'', pl)])"

definition echo_answer :: "gold_host \<Rightarrow> json \<Rightarrow> string \<Rightarrow> json \<Rightarrow> disk \<Rightarrow> json" where
  "echo_answer h correlation intent pl d =
     granted (JObj
       [(''correlationId'', correlation), (''intentId'', JStr intent), (''receivedPayload'', pl),
        (''gold_dist_validator_present'', JBool (existsSync d (path_resolve (workdir h)
           (path_joins [or_default (ZAKAI_GOLD (environment h)) [], ''dist'', ''kernel'', ''validator.js''])))) ])"

definition run_handler :: "gold_host \<Rightarrow> json \<Rightarrow> string \<Rightarrow> json \<Rightarrow> disk \<Rightarrow> handler_end" where
  "run_handler h correlation intent pl d =
     (let c = requestedCapability pl
      in if c = Some ''search_files'' then (Inr (executeSearchFiles pl), d)
         else if c = Some ''list_files'' then (Inr (executeListFiles pl), d)
         else if c = Some ''zak.dev.write_worksheet'' then executeWriteWorksheet h pl d
         else if c = Some ''zak.dev.compile'' then executeCompileCapability h pl d
         else if c = Some ''zak.dev.test_runner'' then executeCapabilityTest h pl d
         else if c = Some ''zak.dev.propose_membrane_admission'' then executeProposeMembraneAdmission h pl d
         else if c = Some ''commit_edit'' then (Inr (executeCommitEdit h pl), d)
         else if c = Some ''read_file'' then (Inr (executeReadFile pl), d)
         else if c = Some ''conversation.respond'' then (executeConversationRespond h pl, d)
         else (Inr (echo_answer h correlation intent pl d), d))"

definition with_digest :: "string \<Rightarrow> json \<Rightarrow> json" where
  "with_digest nonce out =
     (if truthy (fld out ''ok'') then
        (case out of
           JObj kvs \<Rightarrow> JObj (obj_set ''digest'' (JObj [(''nonceHash'', JStr nonce), (''routePlanHash'', JStr nonce)]) kvs)
         | _ \<Rightarrow> out)
      else out)"

definition gold_main :: "gold_host \<Rightarrow> string \<Rightarrow> disk \<Rightarrow> gold_end \<times> disk" where
  "gold_main h stdin d =
     (case json_parse stdin of
        None \<Rightarrow> (Printed (gold_line (deny ''invalid_json'')) 1, d)
      | Some body \<Rightarrow>
          if body = JNull then (Crashed (''Cannot read properties of null (reading envelope)''), d)
          else
            let env = fld body ''envelope'';
                correlation = (if truthy (fld body ''correlationId'') then fld body ''correlationId'' else JStr ''proxy'')
            in case fld env ''intentId'' of
              JStr intent \<Rightarrow>
                (case run_handler h correlation intent (fld env ''payload'') d of
                   (Inl e, d') \<Rightarrow> (Crashed e, d')
                 | (Inr out, d') \<Rightarrow>
                     (Printed (gold_line (with_digest (nonceHash intent (fld env ''payload'')) out)) 0, d'))
            | _ \<Rightarrow> (Printed (gold_line (deny ''invalid_envelope'')) 1, d))"

end
