(* ===== verification/Gold_Properties.thy ===== *)
theory Gold_Properties
  imports Gold_Invoke Proxy_Frames JSON_Canon
begin

text \<open>
  What one run of \<open>engine/gold_invoke.mjs\<close> does: the shape of its answers, how the proxy client reads them,
  which files a run can change, where a worksheet lands, and what the nonce and the signature of a proposal
  depend on.
\<close>

subsection \<open>The shape of an answer\<close>

definition gold_answer :: "json \<Rightarrow> bool" where
  "gold_answer v = ((\<exists>e. v = deny e) \<or> (\<exists>out. v = granted out))"

lemma gold_answerI [simp]: "gold_answer (deny e)" "gold_answer (granted out)"
  by (auto simp: gold_answer_def)


lemma deny_granted [simp]: "deny e \<noteq> granted out" "granted out \<noteq> deny e"
  by (auto simp: deny_def granted_def)

lemma deny_inj [simp]: "deny e = deny e' \<longleftrightarrow> e = e'"
  by (auto simp: deny_def)

lemma granted_inj [simp]: "granted out = granted out' \<longleftrightarrow> out = out'"
  by (auto simp: granted_def)

lemma payload_answers [simp]:
  "gold_answer (executeSearchFiles pl)" "gold_answer (executeReadFile pl)"
  "gold_answer (executeListFiles pl)" "gold_answer (executeCommitEdit h pl)"
  by (simp_all add: executeSearchFiles_def executeReadFile_def executeListFiles_def executeCommitEdit_def
      Let_def split: option.split)

lemma bind_disk_Inr:
  "bind_disk m k = (Inr y, d') \<longleftrightarrow> (\<exists>x d1. m = (Inr x, d1) \<and> k x d1 = (Inr y, d'))"
  by (cases m; cases "fst m") (auto simp: bind_disk_def)



lemma test_answer: "executeCapabilityTest h pl d = (Inr out, d') \<Longrightarrow> gold_answer out"
  by (auto simp: executeCapabilityTest_def missing_spec_answer_def test_answer_def Let_def
      split: option.splits if_splits prod.splits)






subsection \<open>Which files a run changes\<close>

definition worksheet_path :: "gold_host \<Rightarrow> string \<Rightarrow> string \<Rightarrow> string" where
  "worksheet_path h cap ver = path_joins [capabilityVersionDir h cap ver, ''worksheet.yaml'']"

definition proposal_path :: "gold_host \<Rightarrow> string" where
  "proposal_path h = path_joins [gold_path h [''engine'', ''proposals''], proposal_id h @ ''.json'']"

text \<open>The file that the request names, for the two handlers that write one.\<close>

definition named_file :: "gold_host \<Rightarrow> json \<Rightarrow> string option" where
  "named_file h pl =
     (if requestedCapability pl = Some ''zak.dev.write_worksheet'' then
        (case (filled (member_of (request_input pl) ''capability_id''), filled (member_of (request_input pl) ''version'')) of
           (Some cap, Some ver) \<Rightarrow> Some (worksheet_path h cap ver)
         | _ \<Rightarrow> None)
      else if requestedCapability pl = Some ''zak.dev.propose_membrane_admission'' then Some (proposal_path h)
      else None)"

lemma write_new_frame: "write_new h dir path t d = (r, d') \<Longrightarrow> q \<noteq> path \<Longrightarrow> file_text d' q = file_text d q"
  by (auto simp: write_new_def bind_disk_def split: prod.splits sum.splits)
     (metis mkdirSync_filesD writeFileSync_frameD)+

lemma bind_write_frame:
  "bind_disk (write_new h dir path t d) (\<lambda>_ d1. (k, d1)) = (r, d') \<Longrightarrow> q \<noteq> path \<Longrightarrow>
     file_text d' q = file_text d q"
  by (auto simp: bind_disk_def dest: write_new_frame split: prod.splits sum.splits)

lemma write_frame:
  assumes "executeWriteWorksheet h pl d = (r, d')" and "file_text d' q \<noteq> file_text d q"
  shows "\<exists>cap ver. filled (member_of (request_input pl) ''capability_id'') = Some cap
    \<and> filled (member_of (request_input pl) ''version'') = Some ver \<and> q = worksheet_path h cap ver"
  using assms
  by (auto simp: executeWriteWorksheet_def worksheet_path_def Let_def dest: bind_write_frame
      split: option.splits if_splits)

lemma propose_frame:
  assumes "executeProposeMembraneAdmission h pl d = (r, d')" and "file_text d' q \<noteq> file_text d q"
  shows "q = proposal_path h"
  using assms
  by (auto simp: executeProposeMembraneAdmission_def proposal_path_def Let_def dest: bind_write_frame
      split: option.splits)

definition runs_process :: "json \<Rightarrow> bool" where
  "runs_process pl =
     (requestedCapability pl \<in> {Some ''zak.dev.compile'', Some ''zak.dev.test_runner''})"

lemma handler_frame:
  assumes "run_handler h c intent pl d = (r, d')" and "file_text d' q \<noteq> file_text d q"
  shows "runs_process pl \<or> named_file h pl = Some q"
  using assms
  by (auto simp: run_handler_def Let_def runs_process_def named_file_def dest: write_frame propose_frame split: if_splits)

text \<open>C34: A run of the gold gate leaves every file alone except the one it names: only a request to write a
  worksheet or to propose an admission changes a file by itself, and then exactly the worksheet of the
  requested capability and version, or the new proposal; the two capabilities that start a process apart, no
  other request, and no input that is rejected, changes any file.
\<close>

theorem gold_changes_named_file_only:
  assumes "gold_main h stdin d = (r, d')" and "file_text d' q \<noteq> file_text d q"
  shows "\<exists>body. json_parse stdin = Some body
    \<and> (runs_process (fld (fld body ''envelope'') ''payload'')
       \<or> named_file h (fld (fld body ''envelope'') ''payload'') = Some q)"
  using assms
  by (auto simp: gold_main_def Let_def dest: handler_frame
      split: option.splits if_splits json.splits prod.splits sum.splits)

subsection \<open>Success as the proxy client sees it\<close>


subsection \<open>The worksheet\<close>

text \<open>The directory of the repository, as a list of ordinary names.\<close>

lemma worksheet_path_plain:
  assumes "repoRoot h = of_segments rs" "list_all plain_name rs" "plain_name cap" "plain_name ver"
  shows "capabilityVersionDir h cap ver = of_segments (rs @ [''capabilities'', cap, ver])"
    and "worksheet_path h cap ver = of_segments (rs @ [''capabilities'', cap, ver, ''worksheet.yaml''])"
proof -
  have c: "plain_name ''capabilities''" "plain_name ''worksheet.yaml''" by (simp_all add: plain_name_def)
  have root: "gold_path h [''capabilities''] = of_segments (rs @ [''capabilities''])"
    unfolding gold_path_def assms(1) by (rule path_joins_plain) (use assms c in simp_all)
  have "path_joins [of_segments (rs @ [''capabilities'']), cap, ver]
      = of_segments ((rs @ [''capabilities'']) @ [cap, ver])"
    by (rule path_joins_plain) (use assms c in simp_all)
  then show dir: "capabilityVersionDir h cap ver = of_segments (rs @ [''capabilities'', cap, ver])"
    unfolding capabilityVersionDir_def root by simp
  have "path_joins [of_segments (rs @ [''capabilities'', cap, ver]), ''worksheet.yaml'']
      = of_segments ((rs @ [''capabilities'', cap, ver]) @ [''worksheet.yaml''])"
    by (rule path_joins_plain) (use assms c in simp_all)
  then show "worksheet_path h cap ver = of_segments (rs @ [''capabilities'', cap, ver, ''worksheet.yaml''])"
    unfolding worksheet_path_def dir by simp
qed

lemma write_new_content:
  "write_new h dir path t d = (Inr u, d') \<Longrightarrow> file_text d' path = Some t"
  by (auto simp: write_new_def bind_disk_Inr dest: writeFileSync_written)

lemma worksheet_granted:
  assumes "executeWriteWorksheet h pl d = (Inr (granted out), d')"
  shows "\<exists>cap ver. filled (member_of (request_input pl) ''capability_id'') = Some cap
    \<and> filled (member_of (request_input pl) ''version'') = Some ver
    \<and> fld out ''written_path'' = JStr (worksheet_path h cap ver)
    \<and> (if fld out ''overwritten'' = JBool True \<or> \<not> existsSync d (worksheet_path h cap ver)
       then file_text d' (worksheet_path h cap ver)
              = Some (worksheet_text (member_of (request_input pl) ''worksheet_content''))
       else d' = d)"
  using assms
  by (auto simp: executeWriteWorksheet_def worksheet_answer_def worksheet_path_def Let_def bind_disk_Inr
      dest: write_new_content split: option.splits if_splits)

lemma filled_JStr [simp]: "filled (JStr s) = (if trim s \<noteq> [] then Some s else None)"
  by (simp add: filled_def)

text \<open>A worksheet that the gold gate grants is on the disk: for a capability and a version that are ordinary
  names it lies at \<open>capabilities/<id>/<version>/worksheet.yaml\<close> of the repository and its text parses back
  to the content of the request; only when a file was there and the answer says that it was not overwritten,
  the disk is as before.
\<close>

theorem granted_worksheet_is_written:
  assumes "executeWriteWorksheet h pl d = (Inr (granted out), d')"
    and "repoRoot h = of_segments rs" "list_all plain_name rs"
    and "member_of (request_input pl) ''capability_id'' = JStr cap" "plain_name cap"
    and "member_of (request_input pl) ''version'' = JStr ver" "plain_name ver"
    and "member_of (request_input pl) ''worksheet_content'' = sheet" "json_plain sheet"
    and "path = of_segments (rs @ [''capabilities'', cap, ver, ''worksheet.yaml''])"
  shows "fld out ''written_path'' = JStr path
    \<and> (if fld out ''overwritten'' = JBool True \<or> \<not> existsSync d path
       then \<exists>t. file_text d' path = Some t \<and> json_parse t = Some (reorder sheet) else d' = d)"
proof -
  have p: "worksheet_path h cap ver = path"
    unfolding assms(10) using assms(2,3,5,7) by (rule worksheet_path_plain)
  have reads: "json_parse (worksheet_text sheet) = Some (reorder sheet)"
    unfolding worksheet_text_def using assms(9) by (rule json_parse_pretty) simp
  show ?thesis
    using worksheet_granted [OF assms(1)] p reads by (auto simp: assms(4,6,8) split: if_splits)
qed

subsection \<open>Test attempts\<close>

lemma attempt_of_bounds: "attempt_of v = Some a \<Longrightarrow> a = 1 \<or> a = 2 \<or> a = 3"
proof -
  have le: "1 \<le> m * 10 ^ nat e \<and> m * 10 ^ nat e \<le> 3"
    if "0 \<le> e" "\<not> dec_less m e 1 0" "\<not> dec_less 3 0 m e" for m e :: int
    using that by (simp add: dec_less_def)
  have "nat k = 1 \<or> nat k = 2 \<or> nat k = 3" if "1 \<le> k \<and> k \<le> 3" for k :: int
    using that by arith
  with le show "attempt_of v = Some a \<Longrightarrow> ?thesis"
    by (auto simp: attempt_of_def is_integer_def split: json.splits jsnum.splits if_splits)
qed

lemma small_nums: "norm_dec 1 0 = NumDec 1 0" "norm_dec 2 0 = NumDec 2 0" "norm_dec 3 0 = NumDec 3 0" "norm_dec 4 0 = NumDec 4 0"
  by (simp_all add: dec_normal_def)

lemma attempt_of_num:
  "attempt_of (num 1) = Some 1" "attempt_of (num 2) = Some 2" "attempt_of (num 3) = Some 3" "attempt_of (num 4) = None"
  by (simp_all add: attempt_of_def num_def small_nums is_integer_def dec_less_def)

lemma test_granted:
  assumes "executeCapabilityTest h pl d = (Inr (granted out), d')"
  shows "\<exists>a passed. attempt_of (member_of (request_input pl) ''attempt_number'') = Some a
    \<and> fld out ''passed'' = JBool passed \<and> fld out ''attempt_number'' = num a
    \<and> fld out ''self_correction_possible'' = JBool (\<not> passed \<and> a < 3)
    \<and> fld out ''halt'' = JBool (\<not> passed \<and> 3 \<le> a)"
  using assms
  by (auto simp: executeCapabilityTest_def missing_spec_answer_def test_answer_def Let_def
      split: option.splits if_splits prod.splits)

text \<open>
  The test runner allows at most three attempts: a granted answer reports one of the numbers 1, 2, 3,
  exactly one of passed, correction possible and halt holds, and the answer invites another correction
  exactly when the next number would still be accepted.
\<close>

theorem test_attempts_are_bounded:
  assumes "executeCapabilityTest h pl d = (Inr (granted out), d')" and "fld out ''passed'' = JBool False"
  shows "\<exists>a. a \<in> {1, 2, 3} \<and> fld out ''attempt_number'' = num a
    \<and> fld out ''self_correction_possible'' = JBool (attempt_of (num (a + 1)) \<noteq> None)
    \<and> fld out ''halt'' = JBool (attempt_of (num (a + 1)) = None)"
proof -
  obtain a where a: "attempt_of (member_of (request_input pl) ''attempt_number'') = Some a"
      "fld out ''attempt_number'' = num a" "fld out ''self_correction_possible'' = JBool (a < 3)"
      "fld out ''halt'' = JBool (3 \<le> a)"
    using test_granted [OF assms(1)] assms(2) by auto
  have small: "a \<in> {1, 2, 3}" using attempt_of_bounds [OF a(1)] by simp
  have "attempt_of (num (1 + 1)) \<noteq> None" "attempt_of (num (2 + 1)) \<noteq> None" "attempt_of (num (3 + 1)) = None"
    by (simp_all only: attempt_of_num one_add_one numeral_plus_one add_num_simps option.simps not_False_eq_True)
  with small have "attempt_of (num (a + 1)) \<noteq> None \<longleftrightarrow> a < 3" "attempt_of (num (a + 1)) = None \<longleftrightarrow> 3 \<le> a"
    by (elim insertE emptyE; simp only: ; simp)+
  with a small show ?thesis by (intro exI [of _ a]) auto
qed

subsection \<open>The nonce and the signature\<close>

lemma allowed_none: "fst ` set kvs \<inter> set ks = {} \<Longrightarrow> allowed_members ks kvs = []"
  by (induction kvs) auto

text \<open>
  The nonce hash of an invocation does not depend on what is asked: the list of property names that orders
  the two outer keys also filters the payload, so any two payloads that have no property named
  \<open>intentId\<close> or \<open>payload\<close> give the same digest under the same intent.
\<close>

theorem nonce_ignores_payload:
  assumes "{''intentId'', ''payload''} \<inter> fst ` set kvs = {}"
    and "{''intentId'', ''payload''} \<inter> fst ` set kvs' = {}"
  shows "nonceHash intent (JObj kvs) = nonceHash intent (JObj kvs')"
proof -
  have ks: "sort [''intentId'', ''payload''] = [''intentId'', ''payload'']"
    by simp
  have "print_allowed [''intentId'', ''payload''] (JObj kvs) = print_allowed [''intentId'', ''payload''] (JObj kvs')"
    using assms by (simp add: allowed_none Int_commute)
  then show ?thesis
    by (simp only: nonceHash_def gold_canonical_def list.map fst_conv ks) simp
qed

text \<open>On an object of atoms the list of its own names only orders the output.\<close>

fun atomic :: "json \<Rightarrow> bool" where
  "atomic (JArr xs) = False"
| "atomic (JObj kvs) = False"
| "atomic v = (v \<noteq> JUndef)"

lemma print_allowed_atomic: "atomic v \<Longrightarrow> print_allowed ks v = json_print v"
  by (cases v) simp_all

lemma allowed_atomic:
  "\<forall>p \<in> set kvs. atomic (snd p) \<and> fst p \<in> set ks \<Longrightarrow> allowed_members ks kvs = map_vals json_print kvs"
proof (induction kvs)
  case (Cons p kvs)
  then show ?case by (cases p) (auto simp: print_allowed_atomic)
qed simp

lemma print_members_atomic:
  "\<forall>p \<in> set kvs. atomic (snd p) \<Longrightarrow> print_members kvs = map (\<lambda>p. quote (fst p) @ '':'' @ json_print (snd p)) kvs"
proof (induction kvs)
  case (Cons p kvs)
  then show ?case by (cases p) (auto split: if_splits)
qed simp

lemma sort_map_fst: "sort (map fst kvs) = map fst (sort_key fst kvs)"
proof -
  have ins: "insort (fst p) (map fst xs) = map fst (insort_key fst p xs)" for p and xs :: "('a::linorder \<times> 'b) list"
    by (induction xs) simp_all
  show ?thesis by (induction kvs) (simp_all add: ins)
qed

lemma gold_canonical_atomic:
  assumes "distinct (map fst kvs)" and "\<forall>p \<in> set kvs. atomic (snd p)"
  shows "gold_canonical kvs = json_print (JObj (sort_key fst kvs))"
proof -
  let ?ks = "sort (map fst kvs)"
  have ms: "allowed_members ?ks kvs = map_vals json_print kvs"
    using assms(2) by (intro allowed_atomic) (auto simp: image_iff)
  have all: "filter (\<lambda>k. map_of (map_vals json_print kvs) k \<noteq> None) ?ks = ?ks"
    by (auto simp: filter_id_conv map_of_eq_None_iff)
  have val: "json_print (snd p) = the (map_of (map_vals json_print kvs) (fst p))" if "p \<in> set kvs" for p
    using that assms(1) by (metis eq_key_imp_eq_value map_of_is_SomeI map_of_map_vals option.map(2) option.sel prod.collapse)
  have "map (\<lambda>k. quote k @ '':'' @ the (map_of (map_vals json_print kvs) k)) ?ks
      = print_members (sort_key fst kvs)"
    unfolding sort_map_fst map_map o_def
    using assms(2) val by (subst print_members_atomic) auto
  then show ?thesis by (simp only: gold_canonical_def print_allowed.simps ms all Let_def json_print.simps)
qed

lemma canon_members_atomic: "\<forall>p \<in> set kvs. atomic (snd p) \<Longrightarrow> canon_members kvs = kvs"
proof (induction kvs)
  case (Cons p kvs)
  then show ?case by (cases p; cases "snd p") auto
qed simp

lemma num_plain [simp]: "json_plain (num n)" "atomic (num n)"
proof -
  have "\<exists>m e. norm_dec m0 e0 = NumDec m e \<and> dec_normal m e" for m0 e0
  proof (induction m0 e0 rule: norm_dec.induct)
    case (1 m e)
    then show ?case by (subst norm_dec.simps) (auto simp: dec_normal_def)
  qed
  then obtain m e where "norm_dec (int n) 0 = NumDec m e" "dec_normal m e" by blast
  then show "json_plain (num n)" "atomic (num n)" by (simp_all add: num_def)
qed

lemma norm_dec_value:
  "norm_dec m e = NumDec m' e' \<Longrightarrow> m \<noteq> 0 \<Longrightarrow> e \<le> e' \<and> m = m' * 10 ^ nat (e' - e)"
proof (induction m e rule: norm_dec.induct)
  case (1 m e)
  show ?case
  proof (cases "10 dvd m")
    case True
    then obtain k where m: "m = 10 * k" ..
    have "norm_dec m e = norm_dec k (e + 1)"
      using "1.prems"(2) by (subst norm_dec.simps) (simp add: m)
    with "1.IH" "1.prems" m True have "e + 1 \<le> e' \<and> k = m' * 10 ^ nat (e' - (e + 1))" by simp
    moreover have "10 * 10 ^ nat (e' - (e + 1)) = (10::int) ^ nat (e' - e)" if "e + 1 \<le> e'"
      using that by (subst power_Suc [symmetric], subst Suc_nat_eq_nat_zadd1) simp_all
    ultimately show ?thesis by (simp add: m algebra_simps)
  next
    case False
    with "1.prems" show ?thesis by (subst (asm) norm_dec.simps) simp
  qed
qed

lemma num_inj [simp]: "num a = num b \<longleftrightarrow> a = b"
proof
  assume eq: "num a = num b"
  obtain m e where a: "norm_dec (int a) 0 = NumDec m e" "dec_normal m e"
    using num_plain(1) [of a] by (auto simp: num_def split: jsnum.splits)
  then have b: "norm_dec (int b) 0 = NumDec m e" using eq by (simp add: num_def)
  have z: "norm_dec 0 0 = NumDec 0 0" by (simp add: norm_dec.simps)
  have zero: "x = 0 \<longleftrightarrow> m = 0" if "norm_dec (int x) 0 = NumDec m e" for x
  proof
    show "m = 0" if "x = 0" using that \<open>norm_dec (int x) 0 = NumDec m e\<close> z by simp
    show "x = 0" if "m = 0" using that norm_dec_value [OF \<open>norm_dec (int x) 0 = NumDec m e\<close>] by fastforce
  qed
  show "a = b"
  proof (cases "m = 0")
    case True
    then show ?thesis using zero [OF a(1)] zero [OF b] by simp
  next
    case False
    then have "int a \<noteq> 0" "int b \<noteq> 0" using zero [OF a(1)] zero [OF b] by simp_all
    then have "int a = int b" using norm_dec_value [OF a(1)] norm_dec_value [OF b] by simp
    then show ?thesis by simp
  qed
qed simp

lemma signed_fields_ok: "distinct (map fst (signed_fields h i))" "\<forall>p \<in> set (signed_fields h i). atomic (snd p)"
  "json_plain (JObj (sort_key fst (signed_fields h i)))"
proof -
  show d: "distinct (map fst (signed_fields h i))" and a: "\<forall>p \<in> set (signed_fields h i). atomic (snd p)"
    by (simp_all add: signed_fields_def)
  have "\<forall>p \<in> set (signed_fields h i). json_plain (snd p)" by (simp add: signed_fields_def)
  then show "json_plain (JObj (sort_key fst (signed_fields h i)))"
    using d by (simp add: plain_members_all distinct_map)
qed

lemma signed_text_inj:
  "gold_canonical (signed_fields h i) = gold_canonical (signed_fields h' j)
     \<longleftrightarrow> i = j \<and> date_now h = date_now h'"
proof
  assume eq: "gold_canonical (signed_fields h i) = gold_canonical (signed_fields h' j)"
  have "canon (JObj (sort_key fst (signed_fields h i))) = canon (JObj (sort_key fst (signed_fields h' j)))"
    using eq by (intro json_print_inj signed_fields_ok)
      (simp only: gold_canonical_atomic [OF signed_fields_ok(1,2)])
  then have canon: "sort_key fst (canon_members (sort_key fst (signed_fields h i)))
      = sort_key fst (canon_members (sort_key fst (signed_fields h' j)))" by simp
  have "set (canon_members (sort_key fst (signed_fields h i))) = set (signed_fields h i)" for h i
    using signed_fields_ok(2) by (subst canon_members_atomic) simp_all
  with canon have sets: "set (signed_fields h i) = set (signed_fields h' j)"
    by (metis set_sort)
  have "map_of (signed_fields h i) = map_of (signed_fields h' j)"
    using sets signed_fields_ok(1) by (metis map_of_inject_set)
  then have at: "map_of (signed_fields h i) k = map_of (signed_fields h' j) k" for k by simp
  show "i = j \<and> date_now h = date_now h'"
    using at [of "''capabilityId''"] at [of "''version''"] at [of "''definitionHash''"] at [of "''testReceiptId''"]
      at [of "''compileReceiptId''"] at [of "''justification''"] at [of "''proposedAt''"]
    by (cases i; cases j) (simp add: signed_fields_def)
next
  assume "i = j \<and> date_now h = date_now h'"
  then show "gold_canonical (signed_fields h i) = gold_canonical (signed_fields h' j)"
    by (simp add: signed_fields_def)
qed

text \<open>The members of the stored proposal that the hashed text determines: all but its identifier and the signature.\<close>

definition signed_members :: "string list" where
  "signed_members =
     [''capability_id'', ''version'', ''definition_hash'', ''test_receipt_id'', ''compile_receipt_id'', ''justification'',
      ''status'', ''proposed_at'']"

text \<open>C36: The signature of a stored proposal is the hash of a text that is the same for two proposals exactly when they agree
  on the capability, the version, the definition hash, both receipts, the justification, the status and the time.
  These are all the members of the stored record but two: the signature itself, and the identifier of the
  proposal, which is not covered.
\<close>

theorem proposal_signature_covers_fields:
  "(case proposal_record h i of JObj kvs \<Rightarrow> map fst kvs | _ \<Rightarrow> []) = ''proposal_id'' # signed_members @ [''signature'']
   \<and> fld (proposal_record h i) ''signature'' = JStr (sha256Hex (gold_canonical (signed_fields h i)))
   \<and> (gold_canonical (signed_fields h i) = gold_canonical (signed_fields h' j)
      \<longleftrightarrow> map (fld (proposal_record h i)) signed_members = map (fld (proposal_record h' j)) signed_members)"
proof -
  have "map (fld (proposal_record h i)) signed_members = map (fld (proposal_record h' j)) signed_members
      \<longleftrightarrow> i = j \<and> date_now h = date_now h'"
    by (cases i; cases j) (auto simp: proposal_record_def signed_members_def)
  then show ?thesis
    unfolding signed_text_inj by (simp add: proposal_record_def signed_members_def proposal_signature_def)
qed

text \<open>Two proposals with different identifiers can have the same signature.\<close>

lemma proposal_id_is_not_signed:
  assumes "a \<noteq> b"
  shows "proposal_record (h\<lparr>random_id := a\<rparr>) i \<noteq> proposal_record (h\<lparr>random_id := b\<rparr>) i"
    "fld (proposal_record (h\<lparr>random_id := a\<rparr>) i) ''signature'' = fld (proposal_record (h\<lparr>random_id := b\<rparr>) i) ''signature''"
  using assms by (simp_all add: proposal_record_def proposal_id_def proposal_signature_def signed_fields_def)

subsection \<open>Proposals\<close>

lemma proposal_record_parses:
  "json_plain (proposal_record h i)" "reorder (proposal_record h i) = proposal_record h i"
proof -
  show "json_plain (proposal_record h i)" by (simp add: proposal_record_def)
  have "reorder (num n) = num n" for n by (simp add: num_def)
  moreover have "set_all kvs = kvs" if "distinct (map fst kvs)" "\<forall>p \<in> set kvs. \<not> array_index (fst p)" for kvs
    using that by (simp add: set_all_same)
  ultimately show "reorder (proposal_record h i) = proposal_record h i"
    by (simp add: proposal_record_def is_digit_def)
qed

text \<open>The gold gate proposes an admission and never grants one: for a complete request the new file parses back
  as the proposal with the status \<open>pending_human_seal\<close> and the signature over its fields, and every other
  file, the snapshot of admitted capabilities included, is as before.
\<close>

theorem proposal_is_pending_and_alone:
  assumes "executeProposeMembraneAdmission h pl d = (Inr (granted out), d')"
  shows "\<exists>i t. proposal_input_of (request_input pl) = Some i
    \<and> file_text d' (proposal_path h) = Some t \<and> json_parse t = Some (proposal_record h i)
    \<and> fld (proposal_record h i) ''status'' = JStr ''pending_human_seal''
    \<and> fld (proposal_record h i) ''signature'' = JStr (sha256Hex (gold_canonical (signed_fields h i)))
    \<and> (q \<noteq> proposal_path h \<longrightarrow> file_text d' q = file_text d q)"
proof -
  obtain i d1 where i: "proposal_input_of (request_input pl) = Some i"
      and w: "write_new h (gold_path h [''engine'', ''proposals'']) (proposal_path h)
        (worksheet_text (proposal_record h i)) d = (Inr (), d')"
    using assms
    by (auto simp: executeProposeMembraneAdmission_def proposal_path_def Let_def bind_disk_Inr split: option.splits)
  have "json_parse (worksheet_text (proposal_record h i)) = Some (proposal_record h i)"
    unfolding worksheet_text_def
    by (subst json_parse_pretty) (simp_all only: proposal_record_parses blank_simps)
  moreover have "fld (proposal_record h i) ''status'' = JStr ''pending_human_seal''"
      "fld (proposal_record h i) ''signature'' = JStr (sha256Hex (gold_canonical (signed_fields h i)))"
    by (simp_all add: proposal_record_def proposal_signature_def)
  ultimately show ?thesis
    using i write_new_content [OF w] write_new_frame [OF w, of q] by blast
qed

subsection \<open>Concrete runs\<close>

definition gold_host_example :: gold_host where
  "gold_host_example =
     \<lparr>repoRoot = ''/r'', workdir = ''/r'',
      environment = \<lparr>OPENROUTER_API_KEY = None, OPENAI_API_KEY = None, ZAKAI_SYSTEM_PROMPT = None,
        OPENROUTER_BASE_URL = None, OPENROUTER_MODEL = None, OPENAI_MODEL = None,
        OPENROUTER_HTTP_REFERER = None, OPENROUTER_APP_TITLE = None, ZAKAI_GOLD = None\<rparr>,
      mkdir_fault = (\<lambda>_. None), write_outcome_of = (\<lambda>_. Written), read_fault = (\<lambda>_. None),
      execFileSync = (\<lambda>args d. (Broke None None ''failed'', d)), fetch = (\<lambda>_. Inl ''offline''),
      date_now = 0, random_id = ''x''\<rparr>"

definition sheet_request :: "string \<Rightarrow> string \<Rightarrow> json" where
  "sheet_request cap ver =
     JObj [(''capability_request'', JObj
       [(''capability'', JStr ''zak.dev.write_worksheet''),
        (''input'', JObj [(''capability_id'', JStr cap), (''version'', JStr ver),
                          (''worksheet_content'', JObj [(''a'', JBool True)])])])]"

lemmas path_eval = path_joins_def path_normalize_def segments_def is_absolute_def ends_in_slash_def
  path_dirname_def of_segments_def path_resolve_def Let_def

lemmas disk_eval = existsSync_def is_dir_def file_text_def mkdirSync_def writeFileSync_def prefixes_of_def
  add_dir_def no_slash_def has_nul_def write_new_def bind_disk_def upt_rec [of "Suc 0"] upt_rec

lemmas sheet_eval = executeWriteWorksheet_def sheet_request_def request_input_def member_of_def is_objectish_def
  capabilityVersionDir_def gold_path_def gold_host_example_def is_record_def trim_def is_ws_def

text \<open>
  The runner does not check the pattern that the capability's input schema sets for the identifier and the
  version, so a name with \<open>..\<close> leaves the repository.
\<close>

lemma worksheet_leaves_repository:
  "file_text (snd (executeWriteWorksheet gold_host_example (sheet_request ''..'' ''../..'') [])) ''/worksheet.yaml''
     = Some (worksheet_text (JObj [(''a'', JBool True)]))"
  by (simp add: sheet_eval path_eval disk_eval)

definition sheet_body :: json where
  "sheet_body =
     JObj [(''envelope'', JObj [(''intentId'', JStr ''i''), (''payload'', sheet_request ''c'' ''1'')])]"

lemma sheet_body_parses: "json_parse (json_print sheet_body) = Some sheet_body"
proof -
  have "json_plain sheet_body" by (simp add: sheet_body_def sheet_request_def)
  moreover have "reorder sheet_body = sheet_body"
    by (simp add: sheet_body_def sheet_request_def set_all_same is_digit_def)
  ultimately show ?thesis by (simp only: json_parse_print)
qed

lemma sheet_written:
  "executeWriteWorksheet gold_host_example (sheet_request ''c'' ''1'') [] =
     (Inr (granted (JObj [(''written_path'', JStr ''/r/capabilities/c/1/worksheet.yaml''),
        (''capability_id'', JStr ''c''), (''version'', JStr ''1''), (''overwritten'', JBool False)])),
      [(''/r'', Directory), (''/r/capabilities'', Directory), (''/r/capabilities/c'', Directory),
       (''/r/capabilities/c/1'', Directory),
       (''/r/capabilities/c/1/worksheet.yaml'', Regular (worksheet_text (JObj [(''a'', JBool True)])))])"
  by (simp add: sheet_eval path_eval disk_eval worksheet_answer_def)

lemma sheet_run:
  "snd (gold_main gold_host_example (json_print sheet_body) []) =
     snd (executeWriteWorksheet gold_host_example (sheet_request ''c'' ''1'') [])"
proof -
  have "fld sheet_body ''envelope'' = JObj [(''intentId'', JStr ''i''), (''payload'', sheet_request ''c'' ''1'')]"
    and "sheet_body \<noteq> JNull"
    by (simp_all add: sheet_body_def)
  moreover have "requestedCapability (sheet_request ''c'' ''1'') = Some ''zak.dev.write_worksheet''"
    by (simp add: requestedCapability_def sheet_request_def member_of_def is_objectish_def)
  ultimately show ?thesis
    by (simp add: gold_main_def sheet_body_parses run_handler_def Let_def split: prod.split sum.split)
qed

theorem gold_changes_witness:
  "\<exists>body. json_parse (json_print sheet_body) = Some body
    \<and> (runs_process (fld (fld body ''envelope'') ''payload'')
       \<or> named_file gold_host_example (fld (fld body ''envelope'') ''payload'')
           = Some ''/r/capabilities/c/1/worksheet.yaml'')"
proof (rule gold_changes_named_file_only)
  show "gold_main gold_host_example (json_print sheet_body) [] =
      (fst (gold_main gold_host_example (json_print sheet_body) []),
       snd (gold_main gold_host_example (json_print sheet_body) []))" by simp
  show "file_text (snd (gold_main gold_host_example (json_print sheet_body) [])) ''/r/capabilities/c/1/worksheet.yaml''
      \<noteq> file_text [] ''/r/capabilities/c/1/worksheet.yaml''"
    by (simp only: sheet_run sheet_written) (simp add: file_text_def)
qed

definition read_request :: json where
  "read_request = JObj [(''capability_request'', JObj [(''capability'', JStr ''read_file'')])]"


lemma sheet_request_fields:
  "member_of (request_input (sheet_request cap ver)) ''capability_id'' = JStr cap"
  "member_of (request_input (sheet_request cap ver)) ''version'' = JStr ver"
  "member_of (request_input (sheet_request cap ver)) ''worksheet_content'' = JObj [(''a'', JBool True)]"
  by (simp_all add: sheet_request_def request_input_def member_of_def is_objectish_def)

theorem granted_worksheet_witness:
  "\<exists>out d'. executeWriteWorksheet gold_host_example (sheet_request ''c'' ''1'') [] = (Inr (granted out), d')
    \<and> fld out ''written_path'' = JStr ''/r/capabilities/c/1/worksheet.yaml''
    \<and> (\<exists>t. file_text d' ''/r/capabilities/c/1/worksheet.yaml'' = Some t
        \<and> json_parse t = Some (reorder (JObj [(''a'', JBool True)])))"
proof -
  have "repoRoot gold_host_example = of_segments [''r'']" "list_all plain_name [''r'']" "plain_name ''c''" "plain_name ''1''"
    "json_plain (JObj [(''a'', JBool True)])"
    "''/r/capabilities/c/1/worksheet.yaml'' = of_segments ([''r''] @ [''capabilities'', ''c'', ''1'', ''worksheet.yaml''])"
    by (simp_all add: gold_host_example_def of_segments_def plain_name_def)
  note facts = this
  obtain out d' where run:
      "executeWriteWorksheet gold_host_example (sheet_request ''c'' ''1'') [] = (Inr (granted out), d')"
    using sheet_written by blast
  have "\<not> existsSync [] ''/r/capabilities/c/1/worksheet.yaml''"
    by (simp add: existsSync_def is_dir_def file_text_def no_slash_def ends_in_slash_def)
  with granted_worksheet_is_written [OF run facts(1,2) sheet_request_fields(1) facts(3) sheet_request_fields(2) facts(4)
      sheet_request_fields(3) facts(5,6)]
  have "fld out ''written_path'' = JStr ''/r/capabilities/c/1/worksheet.yaml''
    \<and> (\<exists>t. file_text d' ''/r/capabilities/c/1/worksheet.yaml'' = Some t
        \<and> json_parse t = Some (reorder (JObj [(''a'', JBool True)])))"
    by (simp only: simp_thms if_True)
  with run show ?thesis by blast
qed

definition test_request :: "nat \<Rightarrow> json" where
  "test_request n =
     JObj [(''capability_request'', JObj
       [(''input'', JObj [(''capability_id'', JStr ''c''), (''version'', JStr ''1''), (''attempt_number'', num n)])])]"

theorem test_attempts_witness:
  "\<exists>out. executeCapabilityTest gold_host_example (test_request 3)
      [(''/r/capability-compiler/node_modules/vitest/vitest.mjs'', Regular [])] =
      (Inr (granted out), [(''/r/capability-compiler/node_modules/vitest/vitest.mjs'', Regular [])])
    \<and> (\<exists>a. a \<in> {1, 2, 3} \<and> fld out ''attempt_number'' = num a
      \<and> fld out ''self_correction_possible'' = JBool (attempt_of (num (a + 1)) \<noteq> None)
      \<and> fld out ''halt'' = JBool (attempt_of (num (a + 1)) = None))"
proof -
  let ?d = "[(''/r/capability-compiler/node_modules/vitest/vitest.mjs'', Regular [])]"
  have run: "executeCapabilityTest gold_host_example (test_request 3) ?d = (Inr (missing_spec_answer ''c'' ''1'' 3), ?d)"
    by (simp add: executeCapabilityTest_def test_request_def request_input_def member_of_def is_objectish_def
        attempt_of_num trim_def is_ws_def vitestCliPath_def gold_path_def gold_host_example_def
        capabilityVersionDir_def path_eval disk_eval)
  then obtain out where out: "executeCapabilityTest gold_host_example (test_request 3) ?d = (Inr (granted out), ?d)"
      and "fld out ''passed'' = JBool False"
    unfolding missing_spec_answer_def by fastforce
  from test_attempts_are_bounded [OF this] out show ?thesis by blast
qed

theorem nonce_witness:
  "nonceHash ''i'' (sheet_request ''c'' ''1'') = nonceHash ''i'' read_request"
  unfolding sheet_request_def read_request_def by (rule nonce_ignores_payload) simp_all

definition proposal_request :: json where
  "proposal_request =
     JObj [(''capability_request'', JObj
       [(''input'', JObj [(''capability_id'', JStr ''c''), (''version'', JStr ''1''), (''definition_hash'', JStr ''h''),
          (''test_receipt_id'', JStr ''t''), (''compile_receipt_id'', JStr ''k''), (''justification'', JStr ''j'')])])]"

lemma proposal_written:
  "\<exists>out d'. executeProposeMembraneAdmission gold_host_example proposal_request [] = (Inr (granted out), d')"
proof -
  have i: "proposal_input_of (request_input proposal_request) =
      Some \<lparr>pi_capability = ''c'', pi_version = ''1'', pi_hash = ''h'', pi_test = ''t'', pi_compile = ''k'',
            pi_justification = ''j''\<rparr>"
    by (simp add: proposal_input_of_def proposal_request_def request_input_def member_of_def is_objectish_def
        trim_def is_ws_def)
  have id: "proposal_id gold_host_example = ''proposal_0_x''"
    by (simp add: proposal_id_def gold_host_example_def)
  have dir: "gold_path gold_host_example [''engine'', ''proposals''] = ''/r/engine/proposals''"
    by (simp add: gold_path_def gold_host_example_def path_eval)
  have path: "path_joins [''/r/engine/proposals'', ''proposal_0_x.json''] = ''/r/engine/proposals/proposal_0_x.json''"
    by (simp add: path_eval)
  have host: "mkdir_fault gold_host_example = (\<lambda>_. None)" "write_outcome_of gold_host_example = (\<lambda>_. Written)"
    by (simp_all add: gold_host_example_def)
  have w: "fst (write_new gold_host_example ''/r/engine/proposals'' ''/r/engine/proposals/proposal_0_x.json'' t []) = Inr ()" for t
    by (simp add: host path_eval disk_eval)
  then show ?thesis
    by (simp add: executeProposeMembraneAdmission_def i id dir path Let_def proposal_answer_def)
       (metis bind_disk_simps(2) prod.collapse)
qed

theorem proposal_witness:
  "\<exists>out d'. executeProposeMembraneAdmission gold_host_example proposal_request [] = (Inr (granted out), d')
    \<and> (\<exists>i t. file_text d' (proposal_path gold_host_example) = Some t
        \<and> json_parse t = Some (proposal_record gold_host_example i)
        \<and> fld (proposal_record gold_host_example i) ''status'' = JStr ''pending_human_seal'')"
  using proposal_written proposal_is_pending_and_alone [of gold_host_example proposal_request "[]"] by blast

end
