(* ===== verification/JS_Regex.thy ===== *)
theory JS_Regex
  imports Prelude
begin

text \<open>
  The regular expressions of JavaScript that the draft harness uses, as a datatype with one constructor per
  construct and the backtracking matcher of the language: a match of a pattern at a position is the list of
  the positions where it can end, in the order in which the matcher tries them. No pattern of the harness
  has a group inside a repetition, so a capture is never reset.
\<close>

datatype rx =
    Chars "char \<Rightarrow> bool"
  | Bound
  | AtStart
  | Eps
  | Seq rx rx
  | Alt rx rx
  | Star rx
  | Lazy rx
  | Group nat rx

type_synonym captures = "(nat \<times> string) list"
type_synonym rx_state = "nat \<times> captures"

definition word_char :: "char \<Rightarrow> bool" where
  "word_char c =
     (48 \<le> code c \<and> code c \<le> 57 \<or> 65 \<le> code c \<and> code c \<le> 90 \<or> code c = 95 \<or> 97 \<le> code c \<and> code c \<le> 122)"

definition word_at :: "string \<Rightarrow> nat \<Rightarrow> bool" where
  "word_at s i = (i < length s \<and> word_char (s ! i))"

definition boundary :: "string \<Rightarrow> nat \<Rightarrow> bool" where
  "boundary s i = ((0 < i \<and> word_at s (i - 1)) \<noteq> word_at s i)"

text \<open>A repetition goes on only after a round that consumed something.\<close>

function rx_match :: "rx \<Rightarrow> string \<Rightarrow> rx_state \<Rightarrow> rx_state list" where
  "rx_match (Chars p) s st = (if fst st < length s \<and> p (s ! fst st) then [(Suc (fst st), snd st)] else [])"
| "rx_match Bound s st = (if boundary s (fst st) then [st] else [])"
| "rx_match AtStart s st = (if fst st = 0 then [st] else [])"
| "rx_match Eps s st = [st]"
| "rx_match (Seq a b) s st = concat (map (rx_match b s) (rx_match a s st))"
| "rx_match (Alt a b) s st = rx_match a s st @ rx_match b s st"
| "rx_match (Star r) s st =
     concat (map (rx_match (Star r) s)
       (filter (\<lambda>st'. fst st < fst st' \<and> fst st' \<le> length s) (rx_match r s st))) @ [st]"
| "rx_match (Lazy r) s st =
     st # concat (map (rx_match (Lazy r) s)
       (filter (\<lambda>st'. fst st < fst st' \<and> fst st' \<le> length s) (rx_match r s st)))"
| "rx_match (Group n r) s st =
     map (\<lambda>st'. (fst st', (n, take (fst st' - fst st) (drop (fst st) s)) # snd st')) (rx_match r s st)"
  by pat_completeness auto
termination
  by (relation "measures [\<lambda>(r, s, st). size r, \<lambda>(r, s, st). length s - fst st]") auto

declare rx_match.simps(7,8) [simp del]

text \<open>\<open>exec\<close> from an index on: the first position with a match, its end and its captures.\<close>

definition first_match :: "rx \<Rightarrow> string \<Rightarrow> nat \<Rightarrow> nat option" where
  "first_match r s i = List.find (\<lambda>k. rx_match r s (k, []) \<noteq> []) [i..<Suc (length s)]"

definition re_exec :: "rx \<Rightarrow> string \<Rightarrow> nat \<Rightarrow> (nat \<times> rx_state) option" where
  "re_exec r s i =
     (case first_match r s i of None \<Rightarrow> None | Some k \<Rightarrow> Some (k, hd (rx_match r s (k, []))))"

definition re_test :: "rx \<Rightarrow> string \<Rightarrow> bool" where
  "re_test r s = list_ex (\<lambda>k. rx_match r s (k, []) \<noteq> []) [0..<Suc (length s)]"

subsection \<open>Patterns\<close>

definition same_letter :: "char \<Rightarrow> char \<Rightarrow> bool" where
  "same_letter a b = (lower_char a = lower_char b)"

text \<open>A text without regard to case (the flag \<open>i\<close>; the letters of the patterns are ASCII).\<close>

fun lit :: "string \<Rightarrow> rx" where
  "lit [] = Eps"
| "lit (c # cs) = Seq (Chars (same_letter c)) (lit cs)"

definition plus :: "rx \<Rightarrow> rx" where
  "plus r = Seq r (Star r)"

definition opt :: "rx \<Rightarrow> rx" where
  "opt r = Alt r Eps"

definition spaces :: rx where
  "spaces = plus (Chars is_ws)"

definition blanks :: rx where
  "blanks = Star (Chars is_ws)"

definition any_of :: "string \<Rightarrow> rx" where
  "any_of cs = Chars (\<lambda>c. c \<in> set cs)"

fun seq :: "rx list \<Rightarrow> rx" where
  "seq [] = Eps"
| "seq [r] = r"
| "seq (r # q # rs) = Seq r (seq (q # rs))"

text \<open>\<open>\bw1\s+w2\s+...\b\<close>.\<close>

fun spaced :: "string list \<Rightarrow> rx" where
  "spaced [] = Eps"
| "spaced [w] = lit w"
| "spaced (w # v # ws) = Seq (lit w) (Seq spaces (spaced (v # ws)))"

definition phrase :: "string list \<Rightarrow> rx" where
  "phrase ws = Seq Bound (Seq (spaced ws) Bound)"

subsection \<open>Facts\<close>

lemma star_steps:
  "st' \<in> set (rx_match (Star r) s st) \<longleftrightarrow> st' = st \<or> (\<exists>m \<in> set (rx_match r s st).
     fst st < fst m \<and> fst m \<le> length s \<and> st' \<in> set (rx_match (Star r) s m))"
  by (subst rx_match.simps(7)) auto

lemma lazy_steps:
  "st' \<in> set (rx_match (Lazy r) s st) \<longleftrightarrow> st' = st \<or> (\<exists>m \<in> set (rx_match r s st).
     fst st < fst m \<and> fst m \<le> length s \<and> st' \<in> set (rx_match (Lazy r) s m))"
  by (subst rx_match.simps(8)) auto

lemma rx_match_bounds:
  "st' \<in> set (rx_match r s st) \<Longrightarrow> fst st \<le> length s \<Longrightarrow> fst st \<le> fst st' \<and> fst st' \<le> length s"
proof (induction r s st arbitrary: st' rule: rx_match.induct)
  case (5 a b s st)
  from "5.prems" obtain m where m: "m \<in> set (rx_match a s st)" "st' \<in> set (rx_match b s m)" by auto
  have "fst st \<le> fst m \<and> fst m \<le> length s" using "5.IH"(1) m(1) "5.prems"(2) by blast
  with "5.IH"(2) [OF m(1) m(2)] show ?case by simp
next
  case (7 r s st)
  from "7.prems"(1)[unfolded star_steps [of st' r s st]] show ?case
  proof (elim disjE bexE conjE)
    fix m assume m: "m \<in> set (rx_match r s st)" "fst st < fst m" "fst m \<le> length s"
      "st' \<in> set (rx_match (Star r) s m)"
    then have "m \<in> set (filter (\<lambda>st'. fst st < fst st' \<and> fst st' \<le> length s) (rx_match r s st))" by simp
    from "7.IH"(2) [OF this m(4,3)] m(2) show ?case by simp
  qed (use "7.prems" in simp)
next
  case (8 r s st)
  from "8.prems"(1)[unfolded lazy_steps [of st' r s st]] show ?case
  proof (elim disjE bexE conjE)
    fix m assume m: "m \<in> set (rx_match r s st)" "fst st < fst m" "fst m \<le> length s"
      "st' \<in> set (rx_match (Lazy r) s m)"
    then have "m \<in> set (filter (\<lambda>st'. fst st < fst st' \<and> fst st' \<le> length s) (rx_match r s st))" by simp
    from "8.IH"(2) [OF this m(4,3)] m(2) show ?case by simp
  qed (use "8.prems" in simp)
qed (auto split: if_splits)

lemma first_match_Some:
  assumes "first_match r s i = Some k"
  shows "i \<le> k" "k \<le> length s" "rx_match r s (k, []) \<noteq> []"
    "\<And>j. i \<le> j \<Longrightarrow> j < k \<Longrightarrow> rx_match r s (j, []) = []"
proof -
  obtain n where n: "n < length [i..<Suc (length s)]" "k = [i..<Suc (length s)] ! n"
      "rx_match r s (k, []) \<noteq> []" "\<forall>m < n. \<not> rx_match r s ([i..<Suc (length s)] ! m, []) \<noteq> []"
    using assms by (auto simp: first_match_def find_Some_iff)
  then have k: "k = i + n" "i + n < Suc (length s)" by (simp_all del: upt_Suc)
  then show "i \<le> k" "k \<le> length s" "rx_match r s (k, []) \<noteq> []" using n(3) by simp_all
  fix j assume "i \<le> j" "j < k"
  then have "j - i < n" "[i..<Suc (length s)] ! (j - i) = j" using k by (simp_all del: upt_Suc)
  then show "rx_match r s (j, []) = []" using n(4) by metis
qed

lemma first_match_None:
  "first_match r s i = None \<longleftrightarrow> (\<forall>k. i \<le> k \<and> k \<le> length s \<longrightarrow> rx_match r s (k, []) = [])"
  by (auto simp: first_match_def find_None_iff simp del: upt_Suc)

lemma rx_match_lit:
  "i \<le> length s \<Longrightarrow> rx_match (lit w) s (i, c) =
     (if i + length w \<le> length s \<and> (\<forall>k < length w. same_letter (w ! k) (s ! (i + k)))
      then [(i + length w, c)] else [])"
proof (induction w arbitrary: i)
  case Nil
  then show ?case by auto
next
  case (Cons a w)
  have all: "(\<forall>k < length (a # w). same_letter ((a # w) ! k) (s ! (i + k))) \<longleftrightarrow>
      same_letter a (s ! i) \<and> (\<forall>k < length w. same_letter (w ! k) (s ! (Suc i + k)))"
    by (simp add: All_less_Suc2)
  show ?case
    unfolding all by (auto simp: Cons.IH)
qed

end
