(* ===== verification/Intent_Classify.thy ===== *)
theory Intent_Classify
  imports JS_Regex
begin

text \<open>
  Routing of a prompt without a model: \<open>draft-test-harness/lib/intent-classify.mjs\<close>. The typographic
  apostrophe that one pattern also accepts lies outside the modelled characters.
\<close>

definition word_rx :: "string \<Rightarrow> rx" where
  "word_rx w = Seq Bound (Seq (lit w) Bound)"

text \<open>
  The loop of \<open>hasWord\<close>: \<open>exec\<close> with the flag \<open>g\<close> goes on at the end of the last match. \<open>None\<close> would be a loop
  that never ends.
\<close>

partial_function (option) has_word_from :: "string \<Rightarrow> string \<Rightarrow> bool \<Rightarrow> nat \<Rightarrow> bool option" where
  "has_word_from s w skipIfPrevDot last_index =
     (case re_exec (word_rx w) s last_index of
        None \<Rightarrow> Some False
      | Some m \<Rightarrow>
          if skipIfPrevDot \<and> 0 < fst m \<and> s ! (fst m - 1) = CHR ''.''
          then has_word_from s w skipIfPrevDot (fst (snd m)) else Some True)"

declare has_word_from.simps [code]

definition hasWord :: "string \<Rightarrow> string \<Rightarrow> bool \<Rightarrow> bool" where
  "hasWord s w skipIfPrevDot = (has_word_from s w skipIfPrevDot 0 = Some True)"

definition lastLineLooksLikeDraftInstruction :: "string \<Rightarrow> bool" where
  "lastLineLooksLikeDraftInstruction line =
     (let s = trim line; quotes = any_of [CHR 0x22, CHR 0x27]
      in s = []
         \<or> re_test (lit ''hai.particle.'') s
         \<or> re_test (seq [AtStart, blanks, any_of ''-*'', Chars is_ws]) s
         \<or> re_test (phrase [''Output'', ''ONLY'', ''JSON'']) s
         \<or> re_test (phrase [''capability'', ''request'']) s
         \<or> re_test (phrase [''generating'', ''a'', ''capability'']) s
         \<or> re_test (seq [any_of ''{'', blanks, opt quotes,
              Group 1 (Alt (lit ''revision'') (Alt (lit ''capability'') (lit ''input''))),
              opt quotes, blanks, any_of '':'']) s
         \<or> re_test (seq [AtStart, blanks, any_of ''{'']) s
           \<and> re_test (seq [any_of [CHR 0x22], plus (Chars (\<lambda>c. c \<noteq> CHR 0x22)), any_of [CHR 0x22], blanks, any_of '':'']) s)"

definition isTimeQuestionPrompt :: "string \<Rightarrow> bool" where
  "isTimeQuestionPrompt input =
     (let s = trim input
      in s \<noteq> [] \<and>
         (re_test (phrase [''what'', ''time'', ''is'', ''it'']) s
          \<or> re_test (phrase [''what'', ''time'', ''it'', ''is'']) s
          \<or> re_test (phrase [''what'' @ [CHR 0x27] @ ''s'', ''the'', ''time'']) s
          \<or> re_test (phrase [''current'', ''time'']) s
          \<or> re_test (phrase [''time'', ''right'', ''now'']) s
          \<or> re_test (phrase [''tell'', ''me'', ''the'', ''time'']) s))"

datatype intent = Conversation | Execution

definition classifyIntent :: "string \<Rightarrow> intent" where
  "classifyIntent input =
     (let s = trim input
      in if s = [] then Conversation
         else if re_test (phrase [''capability'', ''request'']) s then Execution
         else if re_test (phrase [''generating'', ''a'', ''capability'']) s then Execution
         else if re_test (phrase [''generate'', ''capability'']) s then Execution
         else if list_ex (\<lambda>w. hasWord s w False) [''call'', ''set'', ''write'', ''execute''] then Execution
         else if hasWord s ''update'' True then Execution
         else if isTimeQuestionPrompt s then Execution
         else Conversation)"

text \<open>\<open>split(/\r?\n/)\<close>: a carriage return before a line feed belongs to the separator.\<close>

definition drop_cr :: "string \<Rightarrow> string" where
  "drop_cr l = (if l \<noteq> [] \<and> last l = CHR 0x0D then butlast l else l)"

definition split_lines :: "string \<Rightarrow> string list" where
  "split_lines t = (let ls = split_on (CHR 0x0A) t in map drop_cr (butlast ls) @ [last ls])"

datatype reply_scope = Full | Last_line

record routed =
  route_of :: intent
  replyTo :: string
  scope_of :: reply_scope

definition classifyGeneratePrompt :: "string \<Rightarrow> routed" where
  "classifyGeneratePrompt trimmed =
     (let lines = filter (\<lambda>l. l \<noteq> []) (map trim (split_lines trimmed));
          lastLine = (if lines = [] then [] else last lines)
      in if lastLine \<noteq> [] \<and> \<not> lastLineLooksLikeDraftInstruction lastLine \<and> classifyIntent lastLine = Conversation then
           \<lparr>route_of = Conversation, replyTo = lastLine,
            scope_of = (if 2 \<le> length lines \<and> lastLine \<noteq> trimmed then Last_line else Full)\<rparr>
         else if classifyIntent trimmed = Conversation then
           \<lparr>route_of = Conversation, replyTo = trimmed, scope_of = Full\<rparr>
         else \<lparr>route_of = Execution, replyTo = trimmed, scope_of = Full\<rparr>)"

subsection \<open>The word loop\<close>

text \<open>Where a word occurs: as a whole word, in any case of letters.\<close>

definition word_occurs :: "string \<Rightarrow> string \<Rightarrow> nat \<Rightarrow> bool" where
  "word_occurs s w i =
     (i + length w \<le> length s \<and> (\<forall>k < length w. same_letter (w ! k) (s ! (i + k)))
      \<and> boundary s i \<and> boundary s (i + length w))"

lemma word_rx_match:
  "i \<le> length s \<Longrightarrow> rx_match (word_rx w) s (i, []) = (if word_occurs s w i then [(i + length w, [])] else [])"
  by (auto simp: word_rx_def word_occurs_def rx_match_lit)

lemma code_lower: "code (lower_char c) = (if 65 \<le> code c \<and> code c \<le> 90 \<or> 192 \<le> code c \<and> code c \<le> 222 \<and> code c \<noteq> 215
    then code c + 32 else code c)"
  by (auto simp: lower_char_def)

lemma same_letter_word_char: "same_letter a b \<Longrightarrow> word_char a \<Longrightarrow> word_char b"
proof -
  assume "same_letter a b" "word_char a"
  then have "code (lower_char a) = code (lower_char b)" by (simp add: same_letter_def)
  then show "word_char b"
    using \<open>word_char a\<close> unfolding code_lower word_char_def by (auto split: if_splits)
qed

text \<open>Occurrences of a word do not overlap: inside a word there is no boundary.\<close>

lemma occurrences_apart:
  assumes "list_all word_char w" "word_occurs s w k" "word_occurs s w i" "k < i"
  shows "k + length w \<le> i"
proof (rule ccontr)
  assume "\<not> k + length w \<le> i"
  then have inside: "i - k < length w" "i - 1 - k < length w" "i - 1 < length s" "i < length s"
    using assms(2,4) by (auto simp: word_occurs_def)
  have "word_char (s ! j)" if "k \<le> j" "j - k < length w" for j
  proof -
    have "\<forall>n < length w. same_letter (w ! n) (s ! (k + n))" using assms(2) by (simp add: word_occurs_def)
    then have "same_letter (w ! (j - k)) (s ! (k + (j - k)))" using that(2) by blast
    then show ?thesis
      using that assms(1) same_letter_word_char by (simp add: list_all_length)
  qed
  then have "word_at s (i - 1)" "word_at s i"
    using inside assms(4) by (simp_all add: word_at_def)
  then have "\<not> boundary s i" using assms(4) by (simp add: boundary_def)
  with assms(3) show False by (simp add: word_occurs_def)
qed

lemma re_exec_word:
  assumes "w \<noteq> []"
  shows "(case re_exec (word_rx w) s l of
      None \<Rightarrow> \<forall>i \<ge> l. \<not> word_occurs s w i
    | Some m \<Rightarrow> l \<le> fst m \<and> word_occurs s w (fst m) \<and> fst (snd m) = fst m + length w
        \<and> (\<forall>i. l \<le> i \<and> i < fst m \<longrightarrow> \<not> word_occurs s w i))"
proof (cases "first_match (word_rx w) s l")
  case None
  then have "\<not> word_occurs s w i" if "l \<le> i" for i
    using that word_rx_match [of i s w] unfolding first_match_None
    by (cases "i \<le> length s") (auto simp: word_occurs_def split: if_splits)
  with None show ?thesis by (simp add: re_exec_def)
next
  case (Some k)
  note f = first_match_Some [OF Some]
  have "word_occurs s w k" using f(2,3) word_rx_match [of k s w] by (auto split: if_splits)
  moreover have "\<not> word_occurs s w i" if "l \<le> i" "i < k" for i
    using f(2) f(4) [OF that] that word_rx_match [of i s w] by (auto split: if_splits)
  ultimately show ?thesis
    using Some f(1,2) word_rx_match [of k s w] by (simp add: re_exec_def)
qed

definition good_occurrence :: "string \<Rightarrow> string \<Rightarrow> bool \<Rightarrow> nat \<Rightarrow> bool" where
  "good_occurrence s w skip i = (word_occurs s w i \<and> (skip \<longrightarrow> i = 0 \<or> s ! (i - 1) \<noteq> CHR ''.''))"

lemma has_word_from_spec:
  assumes "w \<noteq> []" "list_all word_char w"
  shows "has_word_from s w skip l = Some (\<exists>i \<ge> l. good_occurrence s w skip i)"
proof (induction "length s - l" arbitrary: l rule: less_induct)
  case less
  show ?case
  proof (cases "re_exec (word_rx w) s l")
    case None
    then show ?thesis
      using re_exec_word [OF assms(1), where s = s and l = l]
      by (subst has_word_from.simps) (auto simp: good_occurrence_def)
  next
    case (Some m)
    then have m: "l \<le> fst m" "word_occurs s w (fst m)" "fst (snd m) = fst m + length w"
        "\<forall>i. l \<le> i \<and> i < fst m \<longrightarrow> \<not> word_occurs s w i"
      using re_exec_word [OF assms(1), where s = s and l = l] by simp_all
    show ?thesis
    proof (cases "skip \<and> 0 < fst m \<and> s ! (fst m - 1) = CHR ''.''")
      case True
      have "fst m + length w \<le> length s" "0 < length w" using m(2) assms(1) by (simp_all add: word_occurs_def)
      then have "l < fst m + length w" "l < length s" using m(1) by linarith+
      then have "has_word_from s w skip (fst m + length w) = Some (\<exists>i \<ge> fst m + length w. good_occurrence s w skip i)"
        by (intro less diff_less_mono2)
      moreover have "fst m + length w \<le> i" if "l \<le> i" "good_occurrence s w skip i" for i
        using that True m(2,4) occurrences_apart [OF assms(2) m(2), of i]
        by (cases i "fst m" rule: linorder_cases) (auto simp: good_occurrence_def)
      then have "(\<exists>i \<ge> fst m + length w. good_occurrence s w skip i) = (\<exists>i \<ge> l. good_occurrence s w skip i)"
        using \<open>l < fst m + length w\<close> by (meson less_imp_le order_trans)
      moreover have "has_word_from s w skip l = has_word_from s w skip (fst m + length w)"
        using Some True m(3) by (subst has_word_from.simps) simp
      ultimately show ?thesis by simp
    next
      case False
      then have "good_occurrence s w skip (fst m)" using m(2) by (auto simp: good_occurrence_def)
      then show ?thesis using Some False m(1) by (subst has_word_from.simps) auto
    qed
  qed
qed

end
