(* ===== verification/Harness_Lib.thy ===== *)
theory Harness_Lib
  imports Governed_Execution Startup
begin

text \<open>
  The helpers of the draft harness: \<open>draft-test-harness/lib/agent-loop.mjs\<close> (the decision of a model and the
  one tool), \<open>lib/governed-response.mjs\<close> (the bodies of answers about an execution) and \<open>lib/llm.mjs\<close> (the two
  ways to ask a model). The OpenAI package is not in the repository: a client is a pair of functions that may
  change a state, the network of the harness.
\<close>

subsection \<open>Decisions\<close>

definition decision_keys :: "string list" where
  "decision_keys = [''intent'', ''decision'', ''tool'', ''arguments'', ''message'']"

definition keys_of :: "json \<Rightarrow> string list" where
  "keys_of v = (case v of JObj kvs \<Rightarrow> map fst kvs | _ \<Rightarrow> [])"

text \<open>The first error, or \<open>None\<close> for a valid decision.\<close>

definition validateDecision :: "json \<Rightarrow> string option" where
  "validateDecision d =
     (if \<not> is_record d then Some ''decision_not_object''
      else case List.find (\<lambda>k. k \<notin> set decision_keys) (keys_of d) of
        Some k \<Rightarrow> Some (''extra_field:'' @ k)
      | None \<Rightarrow>
          (case List.find (\<lambda>k. \<not> has_own d k) decision_keys of
             Some k \<Rightarrow> Some (''missing_field:'' @ k)
           | None \<Rightarrow>
               let how = fld d ''decision''; tool = fld d ''tool''; args = fld d ''arguments''; msg = fld d ''message''
               in if \<not> is_str (fld d ''intent'') then Some ''intent_type''
                  else if how \<noteq> JStr ''respond_directly'' \<and> how \<noteq> JStr ''call_tool'' then Some ''decision_enum''
                  else if tool \<noteq> JNull \<and> \<not> is_str tool then Some ''tool_type''
                  else if \<not> is_record args then Some ''arguments_type''
                  else if msg \<noteq> JNull \<and> \<not> is_str msg then Some ''message_type''
                  else if how = JStr ''respond_directly'' \<and> tool \<noteq> JNull then
                    Some ''respond_directly_requires_tool_null''
                  else if how = JStr ''respond_directly'' \<and> keys_of args \<noteq> [] then
                    Some ''respond_directly_requires_empty_arguments''
                  else if how = JStr ''respond_directly'' \<and> trim (js_string msg) = [] then
                    Some ''respond_directly_requires_message''
                  else if how = JStr ''call_tool'' \<and> tool \<noteq> JStr ''echo'' then Some ''call_tool_requires_echo''
                  else if how = JStr ''call_tool'' \<and> \<not> is_str (fld args ''text'') then
                    Some ''echo_requires_arguments.text_string''
                  else if how = JStr ''call_tool'' \<and> msg \<noteq> JNull then
                    Some ''call_tool_requires_message_null''
                  else None))"

definition runToolEcho :: "json \<Rightarrow> json" where
  "runToolEcho args =
     JObj [(''tool'', JStr ''echo''), (''input'', JObj [(''text'', fld args ''text'')]),
           (''output'', JObj [(''text'', fld args ''text'')])]"

subsection \<open>Bodies about an execution\<close>

definition request_json :: "bridge_request \<Rightarrow> json" where
  "request_json r =
     JObj ([(''capability'', JStr (req_capability r)), (''input'', req_input r), (''context'', req_context r),
            (''capability_version'', JStr (req_version r))]
       @ opt_part ''capability_definition_hash'' (map_option JStr (req_definition_hash r)))"

definition adapter_json :: "adapter_binding \<Rightarrow> json" where
  "adapter_json a = JObj [(''key'', JStr (adapter_key a)), (''route'', JStr (adapter_route a))]"

text \<open>The object that \<open>executeGovernedCapability\<close> returns.\<close>

definition exec_json :: "execution_result \<Rightarrow> json" where
  "exec_json x =
     (case x of
        Success out receipt req ad \<Rightarrow>
          JObj [(''ok'', JBool True), (''stage'', JStr ''executed''), (''output'', out), (''receipt'', receipt),
                (''request'', request_json req), (''adapter'', adapter_json ad)]
      | Failure stage errors receipt req ad \<Rightarrow>
          JObj ([(''ok'', JBool False), (''stage'', JStr stage), (''errors'', JArr (map error_json errors))]
            @ opt_part ''request'' (map_option request_json req)
            @ opt_part ''adapter'' (map_option adapter_json ad)
            @ opt_part ''receipt'' receipt))"

definition assertValidatedExecutionSuccess :: "json \<Rightarrow> unit result" where
  "assertValidatedExecutionSuccess x =
     (if fld x ''ok'' \<noteq> JBool True then Inl ''governed success body requires ok=true execution result''
      else if fld x ''stage'' \<noteq> JStr ''executed'' then
        Inl (''governed success body requires terminal executed stage, got '' @ js_string (fld x ''stage''))
      else if fld (fld x ''receipt'') ''output_validation_passed'' \<noteq> JBool True then
        Inl ''governed success body requires output_validation_passed=true receipt''
      else Inr ())"

definition buildExecutionSuccessBody :: "json \<Rightarrow> json result" where
  "buildExecutionSuccessBody x =
     bind_result (assertValidatedExecutionSuccess x) (\<lambda>_.
       Inr (JObj [(''ok'', JBool True), (''mode'', JStr ''execution''), (''stage'', fld x ''stage''),
                  (''request'', fld x ''request''), (''adapter'', fld x ''adapter''),
                  (''receipt'', fld x ''receipt''), (''output'', fld x ''output'')]))"

definition buildExecutionFailureBody :: "json \<Rightarrow> json \<Rightarrow> json" where
  "buildExecutionFailureBody x draft =
     JObj ([(''ok'', JBool False), (''mode'', JStr ''execution''), (''stage'', fld x ''stage''),
            (''errors'', fld x ''errors'')]
       @ (if truthy (fld x ''request'') then
            [(''request'', fld x ''request''), (''adapter'', fld x ''adapter'')] else [])
       @ (if truthy (fld x ''receipt'') then [(''receipt'', fld x ''receipt'')] else [])
       @ [(''draft'', draft)])"

subsection \<open>The model\<close>

record llm_env =
  openrouter_key :: "string option"
  openrouter_model :: "string option"
  openrouter_base :: "string option"
  openrouter_referer :: "string option"
  openrouter_title :: "string option"
  openai_key :: "string option"
  openai_model :: "string option"

definition trimmed_key :: "string option \<Rightarrow> bool" where
  "trimmed_key k = (case k of None \<Rightarrow> False | Some s \<Rightarrow> trim s \<noteq> [])"

text \<open>The model name, the choice of the provider, and the options that the client is made with.\<close>

record llm_ctx =
  llm_model :: string
  useOpenRouter :: bool
  client_options :: json

definition createHarnessLlm :: "llm_env \<Rightarrow> llm_ctx" where
  "createHarnessLlm env =
     (if trimmed_key (openrouter_key env) then
        \<lparr>llm_model = or_else (openrouter_model env) ''openrouter/free'', useOpenRouter = True,
         client_options = JObj
           [(''apiKey'', JStr (trim (or_else (openrouter_key env) []))),
            (''baseURL'', JStr (or_else (openrouter_base env) ''https://openrouter.ai/api/v1'')),
            (''defaultHeaders'', JObj
              [(''HTTP-Referer'', JStr (or_else (openrouter_referer env) ''https://github.com/harmonicfutures/zak-ai'')),
               (''X-Title'', JStr (or_else (openrouter_title env) ''ZAKAI-draft-test-harness''))])]\<rparr>
      else
        \<lparr>llm_model = or_else (openai_model env) ''gpt-4o'', useOpenRouter = False,
         client_options = JObj
           [(''apiKey'', (case openai_key env of None \<Rightarrow> JUndef | Some k \<Rightarrow> JStr k))]\<rparr>)"

definition hasLlmCredentials :: "llm_env \<Rightarrow> llm_ctx \<Rightarrow> bool" where
  "hasLlmCredentials env ctx =
     (if useOpenRouter ctx then trimmed_key (openrouter_key env) else trimmed_key (openai_key env))"

definition nonempty_text :: "json \<Rightarrow> string option" where
  "nonempty_text v = (case v of JStr s \<Rightarrow> if s \<noteq> [] then Some s else None | _ \<Rightarrow> None)"

text \<open>\<open>v?.[0]\<close>.\<close>

definition item0 :: "json \<Rightarrow> json" where
  "item0 v = (case v of JArr (x # xs) \<Rightarrow> x | JObj kvs \<Rightarrow> fld v ''0'' | _ \<Rightarrow> JUndef)"

definition extractResponsesApiText :: "json \<Rightarrow> string option" where
  "extractResponsesApiText response =
     (case nonempty_text (fld response ''output_text'') of
        Some t \<Rightarrow> Some t
      | None \<Rightarrow>
          (case fld (item0 (fld (item0 (fld response ''output'')) ''content'')) ''text'' of
             JStr t \<Rightarrow> Some t
           | _ \<Rightarrow> None))"

definition content_part :: "json \<Rightarrow> string" where
  "content_part p =
     (case p of JStr s \<Rightarrow> s | _ \<Rightarrow> (case fld p ''text'' of JStr t \<Rightarrow> t | _ \<Rightarrow> []))"

definition extractChatCompletionContent :: "json \<Rightarrow> string option" where
  "extractChatCompletionContent m =
     (case fld m ''content'' of
        JStr s \<Rightarrow> nonempty_text (JStr s)
      | JArr ps \<Rightarrow> nonempty_text (JStr (concat (map content_part ps)))
      | _ \<Rightarrow> None)"

text \<open>A client: the two calls of the OpenAI package that the harness makes.\<close>

record 's llm_client =
  chat_create :: "json \<Rightarrow> 's \<Rightarrow> json result \<times> 's"
  responses_create :: "json \<Rightarrow> 's \<Rightarrow> json result \<times> 's"

text \<open>Reading a property of a response that is \<open>null\<close> or \<open>undefined\<close> throws.\<close>

definition read_response :: "(json \<Rightarrow> 'a) \<Rightarrow> json result \<times> 's \<Rightarrow> 'a result \<times> 's" where
  "read_response f r =
     (case r of
        (Inl e, s) \<Rightarrow> (Inl e, s)
      | (Inr v, s) \<Rightarrow>
          (if is_null_or_undef v then Inl ''Cannot read properties of undefined'' else Inr (f v), s))"

definition user_messages :: "string \<Rightarrow> json" where
  "user_messages prompt = JArr [JObj [(''role'', JStr ''user''), (''content'', JStr prompt)]]"

definition json_mode :: "(string \<times> json) list" where
  "json_mode = [(''response_format'', JObj [(''type'', JStr ''json_object'')])]"

definition openRouterChatCompletionJson ::
  "'s llm_client \<Rightarrow> llm_ctx \<Rightarrow> string \<Rightarrow> bool \<Rightarrow> 's \<Rightarrow> string option result \<times> 's" where
  "openRouterChatCompletionJson client ctx prompt useJsonObjectMode s =
     read_response
       (\<lambda>res. case extractChatCompletionContent (fld (item0 (fld res ''choices'')) ''message'') of
                None \<Rightarrow> None | Some raw \<Rightarrow> nonempty_text (JStr (trim raw)))
       (chat_create client
          (JObj ([(''model'', JStr (llm_model ctx)), (''messages'', user_messages prompt)]
                 @ (if useJsonObjectMode then json_mode else []))) s)"

definition llmJsonObject ::
  "'s llm_client \<Rightarrow> llm_ctx \<Rightarrow> string \<Rightarrow> 's \<Rightarrow> string option result \<times> 's" where
  "llmJsonObject client ctx prompt s =
     (if useOpenRouter ctx then
        (case openRouterChatCompletionJson client ctx prompt True s of
           (Inr None, s1) \<Rightarrow> openRouterChatCompletionJson client ctx prompt False s1
         | r \<Rightarrow> r)
      else read_response extractResponsesApiText
        (responses_create client
          (JObj [(''model'', JStr (llm_model ctx)), (''input'', JStr prompt),
                 (''text'', JObj [(''format'', JObj [(''type'', JStr ''json_object'')])])]) s))"

definition llmText ::
  "'s llm_client \<Rightarrow> llm_ctx \<Rightarrow> string \<Rightarrow> 's \<Rightarrow> string option result \<times> 's" where
  "llmText client ctx prompt s =
     (if useOpenRouter ctx then
        read_response (\<lambda>res. extractChatCompletionContent (fld (item0 (fld res ''choices'')) ''message''))
          (chat_create client
            (JObj [(''model'', JStr (llm_model ctx)), (''messages'', user_messages prompt)]) s)
      else read_response extractResponsesApiText
        (responses_create client (JObj [(''model'', JStr (llm_model ctx)), (''input'', JStr prompt)]) s))"

end
