(* ===== verification/Harness_Draft.thy ===== *)
theory Harness_Draft
  imports Intent_Classify Harness_Lib
begin

text \<open>
  What the draft harness makes of the output of a model before it is executed, and its local adapters:
  \<open>sanitizeClientTimezone\<close>, \<open>harnessSimulateTimeGet\<close>, \<open>harnessInvokeAdapter\<close>, \<open>strictDraftShape\<close>,
  \<open>tryRecoverDraftFromToolCallMarkup\<close> and \<open>normalizeHostileDraftJson\<close> of \<open>draft-test-harness/server.js\<close>.
\<close>

subsection \<open>Time zones and local adapters\<close>

definition zone_char :: "char \<Rightarrow> bool" where
  "zone_char c = (word_char c \<or> c \<in> set ''/+-'')"

definition sanitizeClientTimezone :: "json \<Rightarrow> string option" where
  "sanitizeClientTimezone raw =
     (case raw of
        JStr r \<Rightarrow> (let s = trim r in if s = [] \<or> 120 < length s \<or> \<not> list_all zone_char s then None else Some s)
      | _ \<Rightarrow> None)"

text \<open>
  The moment of a request: the ISO time, and the local display of a zone by \<open>Intl.DateTimeFormat\<close>, which throws
  for a zone that it does not know.
\<close>

record moment =
  utc_iso :: string
  display_in :: "string \<Rightarrow> string result"

definition harnessSimulateTimeGet :: "moment \<Rightarrow> json \<Rightarrow> json" where
  "harnessSimulateTimeGet t input =
     (let zone = (case fld input ''timezone'' of JStr z \<Rightarrow> if trim z \<noteq> [] then trim z else ''UTC'' | _ \<Rightarrow> ''UTC'')
      in case display_in t zone of
           Inr d \<Rightarrow> JObj [(''timezone'', JStr zone), (''utc_iso'', JStr (utc_iso t)), (''local_display'', JStr d)]
         | Inl e \<Rightarrow> JObj [(''timezone'', JStr zone), (''utc_iso'', JStr (utc_iso t)),
                        (''error'', JStr ''invalid_timezone''), (''detail'', JStr e)])"

definition harnessInvokeAdapter :: "moment \<Rightarrow> bridge_request \<Rightarrow> adapter_binding \<Rightarrow> json result" where
  "harnessInvokeAdapter t req ad =
     (if adapter_route ad = ''time.get'' then Inr (harnessSimulateTimeGet t (req_input req))
      else if adapter_route ad = ''particle.update'' then Inr (JObj [(''ok'', JStr ''harness_stub'')])
      else if adapter_route ad = ''context.snapshot'' then
        Inr (JObj [(''scope'', JStr (if has_own (req_input req) ''scope''
                     then js_string (fld (req_input req) ''scope'') else [])), (''snapshot'', JObj [])])
      else Inl (''harness: no local adapter for route '' @ adapter_route ad))"

subsection \<open>The shape of a draft\<close>

text \<open>The last test asks again whether the whole value is an array, not whether its input is.\<close>

definition strictDraftShape :: "json \<Rightarrow> json result" where
  "strictDraftShape parsed =
     (if \<not> is_record parsed then Inl ''parsed JSON must be a plain object''
      else if length (keys_of parsed) \<noteq> 2 \<or> \<not> has_own parsed ''capability'' \<or> \<not> has_own parsed ''input'' then
        Inl ''model output must be exactly { \"capability\", \"input\" }''
      else if \<not> is_str (fld parsed ''capability'') then Inl ''capability must be a string''
      else if \<not> is_objectish (fld parsed ''input'') then Inl ''input must be an object''
      else Inr parsed)"

subsection \<open>Tool calls written as markup\<close>

definition a_quote :: rx where
  "a_quote = any_of [CHR 0x22, CHR 0x27]"

definition invoke_rx :: rx where
  "invoke_rx = seq
     [lit ''<invoke'', spaces, lit ''name='', a_quote,
      Group 1 (plus (Chars (\<lambda>c. c \<notin> {CHR 0x22, CHR 0x27}))), a_quote,
      Star (Chars (\<lambda>c. c \<noteq> CHR ''>'')), lit ''>'',
      Group 2 (Lazy (Chars (\<lambda>c. True))), lit ''</invoke>'']"

definition timezone_rx :: rx where
  "timezone_rx = seq
     [lit ''<parameter'', spaces, lit ''name='', a_quote, lit ''timezone'', a_quote, lit ''>'',
      Group 1 (Star (Chars (\<lambda>c. c \<noteq> CHR ''<''))), lit ''</parameter>'']"

definition capture :: "captures \<Rightarrow> nat \<Rightarrow> string" where
  "capture cs n = (case map_of cs n of None \<Rightarrow> [] | Some t \<Rightarrow> t)"

definition TIME_GET :: string where
  "TIME_GET = ''hai.time.get''"

text \<open>
  The loop over the matches: \<open>Some (Some inner)\<close> is the text inside the first call of the clock, \<open>Some None\<close>
  says that there is none, and \<open>None\<close> would be a loop that never ends.
\<close>

partial_function (option) clock_call_from :: "string \<Rightarrow> nat \<Rightarrow> string option option" where
  "clock_call_from raw last_index =
     (case re_exec invoke_rx raw last_index of
        None \<Rightarrow> Some None
      | Some m \<Rightarrow>
          (let cap = trim (capture (snd (snd m)) 1)
           in if cap = ''get_time'' \<or> cap = TIME_GET then Some (Some (capture (snd (snd m)) 2))
              else clock_call_from raw (fst (snd m))))"

declare clock_call_from.simps [code]

definition timezone_of_call :: "string \<Rightarrow> string" where
  "timezone_of_call inner =
     (case re_exec timezone_rx inner 0 of None \<Rightarrow> [] | Some m \<Rightarrow> trim (capture (snd (snd m)) 1))"

definition time_draft :: "string \<Rightarrow> json" where
  "time_draft tz =
     JObj [(''capability'', JStr TIME_GET), (''input'', JObj (if tz \<noteq> [] then [(''timezone'', JStr tz)] else []))]"

definition tryRecoverDraftFromToolCallMarkup :: "string \<Rightarrow> string \<Rightarrow> string option \<Rightarrow> json option" where
  "tryRecoverDraftFromToolCallMarkup raw trimmed tz =
     (if \<not> isTimeQuestionPrompt trimmed then None
      else case clock_call_from raw 0 of
        Some (Some inner) \<Rightarrow>
          (let t = timezone_of_call inner in Some (time_draft (if t \<noteq> [] then t else or_else tz [])))
      | _ \<Rightarrow> None)"

subsection \<open>Shapes that models emit\<close>

definition hai_name_rx :: "string \<Rightarrow> bool" where
  "hai_name_rx s =
     (starts_with ''hai.'' (to_lower (take 4 s)) \<and> drop 4 s \<noteq> []
      \<and> list_all (\<lambda>c. word_char c \<or> c \<in> set ''-.'') (drop 4 s))"

text \<open>
  The table of aliases is an object literal, so a name that every object inherits is found as well; its value is a
  function, which no JSON holds and which is \<open>JUndef\<close> here, or for \<open>__proto__\<close> an object.
\<close>

definition inherited_names :: "string list" where
  "inherited_names =
     [''constructor'', ''__defineGetter__'', ''__defineSetter__'', ''hasOwnProperty'', ''__lookupGetter__'',
      ''__lookupSetter__'', ''isPrototypeOf'', ''propertyIsEnumerable'', ''toString'', ''valueOf'', ''toLocaleString'']"

definition alias_of :: "string \<Rightarrow> json option" where
  "alias_of name =
     (if name \<in> {''get_time'', ''getTime'', ''time_get''} then Some (JStr TIME_GET)
      else if name = proto_key then Some (JObj [])
      else if name \<in> set inherited_names then Some JUndef
      else if hai_name_rx name then Some (JStr name) else None)"

definition record_fields :: "json \<Rightarrow> (string \<times> json) list" where
  "record_fields v = (case v of JObj kvs \<Rightarrow> kvs | _ \<Rightarrow> [])"

text \<open>Add the zone of the client to an input for the clock that names none.\<close>

definition with_zone :: "json \<Rightarrow> string option \<Rightarrow> (string \<times> json) list \<Rightarrow> json" where
  "with_zone cap tz kvs =
     (case tz of
        Some z \<Rightarrow>
          (let old = fld (JObj kvs) ''timezone''
           in if cap = JStr TIME_GET \<and> (is_null_or_undef old \<or> trim (js_string old) = [])
              then JObj (obj_set ''timezone'' (JStr z) kvs) else JObj kvs)
      | None \<Rightarrow> JObj kvs)"

definition draft_of :: "json \<Rightarrow> json \<Rightarrow> json" where
  "draft_of cap input = JObj [(''capability'', cap), (''input'', input)]"

definition normalizeHostileDraftJson :: "json \<Rightarrow> string \<Rightarrow> string option \<Rightarrow> json" where
  "normalizeHostileDraftJson parsed trimmed tz =
     (if \<not> is_record parsed then parsed
      else if fld parsed ''type'' = JStr ''tool_use'' \<and> is_str (fld parsed ''name'') then
        (case alias_of (trim (the_str (fld parsed ''name''))) of
           None \<Rightarrow> parsed
         | Some cap \<Rightarrow> draft_of cap (with_zone cap tz (record_fields (fld parsed ''input''))))
      else if fld parsed ''type'' = JStr ''text'' \<and> is_str (fld parsed ''text'') \<and> isTimeQuestionPrompt trimmed then
        time_draft (or_else tz [])
      else if fld parsed ''type'' = JStr ''capability'' \<and> is_str (fld parsed ''name'') \<and> is_record (fld parsed ''input'') then
        (let cap = JStr (trim (the_str (fld parsed ''name'')))
         in draft_of cap (with_zone cap tz (record_fields (fld parsed ''input''))))
      else if is_str (fld parsed ''response'') \<and> \<not> has_own parsed ''capability'' \<and> isTimeQuestionPrompt trimmed then
        time_draft (or_else tz [])
      else if is_str (fld parsed ''capability_name'') \<and> is_record (fld parsed ''input_parameters'') then
        (let cap = JStr (trim (the_str (fld parsed ''capability_name'')))
         in draft_of cap (with_zone cap tz (record_fields (fld parsed ''input_parameters''))))
      else parsed)"

text \<open>The zone that the handler adds after the shape is checked.\<close>

definition fill_client_zone :: "string option \<Rightarrow> json \<Rightarrow> json" where
  "fill_client_zone tz shaped =
     (case (tz, fld shaped ''input'') of
        (Some z, JObj kvs) \<Rightarrow>
          (let old = fld (JObj kvs) ''timezone''
           in if fld shaped ''capability'' = JStr TIME_GET
                \<and> (is_null_or_undef old \<or> is_str old \<and> trim (the_str old) = [])
              then draft_of (fld shaped ''capability'') (JObj (obj_set ''timezone'' (JStr z) kvs)) else shaped)
      | _ \<Rightarrow> shaped)"

end
