(* ===== verification/Harness_Server.thy ===== *)
theory Harness_Server
  imports Harness_Draft
begin

text \<open>
  The routes of the draft harness, \<open>draft-test-harness/server.js\<close>. The state is the process of the governed
  execution and the network behind the client of the model. A route answers with a status and a body; an
  exception inside it becomes an answer with status 500, as its \<open>catch\<close> does.
\<close>

subsection \<open>State and requests\<close>

record 's harness_state =
  process :: proc
  network :: 's

record ('v, 's) harness =
  governed_host :: "'v host"
  client :: "'s llm_client"
  llm :: llm_ctx
  llm_vars :: llm_env
  CONSTITUTION_ID :: string
  ZAK_ADMISSION_AUTHORITY :: "string option"

record web_request =
  body :: json
  ip :: "string option"
  session_header :: "string option"
  at_moment :: moment
  receipt_outcome :: io_outcome

record web_answer =
  status :: nat
  content :: json

definition answer :: "json \<Rightarrow> web_answer" where
  "answer v = \<lparr>status = 200, content = v\<rparr>"

definition server_error :: "message \<Rightarrow> web_answer" where
  "server_error e =
     \<lparr>status = 500, content = JObj [(''ok'', JBool False), (''stage'', JStr ''server''), (''error'', JStr e)]\<rparr>"

type_synonym ('a, 's) action = "'s harness_state \<Rightarrow> 'a result \<times> 's harness_state"

definition and_then :: "'a result \<times> 's harness_state \<Rightarrow> ('a \<Rightarrow> ('b, 's) action) \<Rightarrow> 'b result \<times> 's harness_state" where
  "and_then m k = (case m of (Inl e, s) \<Rightarrow> (Inl e, s) | (Inr x, s) \<Rightarrow> k x s)"

lemma and_then_simps [simp]:
  "and_then (Inl e, s) k = (Inl e, s)"
  "and_then (Inr x, s) k = k x s"
  by (simp_all add: and_then_def)

definition caught :: "web_answer result \<times> 's harness_state \<Rightarrow> web_answer \<times> 's harness_state" where
  "caught m = (case m of (Inl e, s) \<Rightarrow> (server_error e, s) | (Inr a, s) \<Rightarrow> (a, s))"

definition ask_text :: "('v, 's) harness \<Rightarrow> string \<Rightarrow> (string option, 's) action" where
  "ask_text hx prompt s =
     (case llmText (client hx) (llm hx) prompt (network s) of (r, n) \<Rightarrow> (r, s\<lparr>network := n\<rparr>))"

definition ask_json :: "('v, 's) harness \<Rightarrow> string \<Rightarrow> (string option, 's) action" where
  "ask_json hx prompt s =
     (case llmJsonObject (client hx) (llm hx) prompt (network s) of (r, n) \<Rightarrow> (r, s\<lparr>network := n\<rparr>))"

subsection \<open>Authority\<close>

definition resolveAdmissionAuthorityLevel :: "('v, 's) harness \<Rightarrow> string" where
  "resolveAdmissionAuthorityLevel hx =
     (case ZAK_ADMISSION_AUTHORITY hx of
        Some v \<Rightarrow> if v \<in> {''standard'', ''elevated'', ''continuous_resonance''} then v else ''none''
      | None \<Rightarrow> ''none'')"

definition resolveAuthorityContextForRequest ::
  "('v, 's) harness \<Rightarrow> web_request \<Rightarrow> runtime \<Rightarrow> authority_context \<times> runtime" where
  "resolveAuthorityContextForRequest hx req rt =
     (let subject = (case ip req of Some i \<Rightarrow> if i \<noteq> [] then i else ''draft-test-user'' | None \<Rightarrow> ''draft-test-user'');
          session = (case session_header req of Some x \<Rightarrow> if x \<noteq> [] then x else ''draft-test-session''
                     | None \<Rightarrow> ''draft-test-session'');
          (t, rt') = now rt
      in (resolveAuthorityContext t (resolveAdmissionAuthorityLevel hx)
            (Some \<lparr>in_source = Some ''draft-test-harness-env'', in_evaluated_at = Some t,
                   in_session_id = Some session, in_subject_id = Some subject, in_authority_context_id = None\<rparr>), rt'))"

subsection \<open>\<open>POST /generate\<close>\<close>

definition intent_text :: "intent \<Rightarrow> string" where
  "intent_text i = (case i of Conversation \<Rightarrow> ''conversation'' | Execution \<Rightarrow> ''execution'')"

definition scope_text :: "reply_scope \<Rightarrow> string" where
  "scope_text x = (case x of Full \<Rightarrow> ''full'' | Last_line \<Rightarrow> ''last_line'')"

definition config_error :: "('v, 's) harness \<Rightarrow> json" where
  "config_error hx =
     JStr (if useOpenRouter (llm hx) then ''OPENROUTER_API_KEY is not set'' else ''OPENAI_API_KEY is not set'')"

definition rejected :: "string \<Rightarrow> json \<Rightarrow> (string \<times> json) list \<Rightarrow> web_answer" where
  "rejected stage e more_fields =
     answer (JObj ([(''ok'', JBool False), (''mode'', JStr ''execution''), (''stage'', JStr stage), (''error'', e)]
                   @ more_fields))"

text \<open>The conversation path; \<open>final\<close> is the trimmed reply.\<close>

definition answer_conversation :: "('v, 's) harness \<Rightarrow> routed \<Rightarrow> string \<Rightarrow> (web_answer, 's) action" where
  "answer_conversation hx i trimmed s =
     and_then (ask_text hx (if replyTo i \<noteq> [] then replyTo i else trimmed) s) (\<lambda>raw s1.
       let final = trim (or_else raw []);
           trace = JArr [JObj [(''step'', JStr ''intent''), (''mode'', JStr (intent_text (route_of i))),
                               (''scope'', JStr (scope_text (scope_of i)))]]
       in (Inr (answer
             (if final = [] then
                JObj [(''ok'', JBool False), (''mode'', JStr ''conversation''), (''stage'', JStr ''conversation_empty''),
                      (''error'', JStr ''model_returned_no_text''), (''trace'', trace)]
              else
                JObj [(''ok'', JBool True), (''mode'', JStr ''conversation''), (''stage'', JStr ''done''),
                      (''final'', JStr final), (''trace'', trace)])), s1))"

definition line_feed :: string where
  "line_feed = [CHR 0x0A]"

definition execution_prompt :: "string \<Rightarrow> string option \<Rightarrow> string" where
  "execution_prompt trimmed tz =
     (case tz of
        Some z \<Rightarrow>
          if isTimeQuestionPrompt trimmed then
            trimmed @ line_feed @ line_feed @ ''(Use capability \"hai.time.get\" with input.timezone ''
            @ quote z @ '' so the host shows the user'' @ [CHR 0x27] @ ''s local time.)''
          else trimmed
      | None \<Rightarrow> trimmed)"

text \<open>From the text of the model to a draft, or the answer that rejects it.\<close>

definition shape_draft :: "string \<Rightarrow> string \<Rightarrow> string option \<Rightarrow> web_answer + json" where
  "shape_draft raw trimmed tz =
     (case (case json_parse raw of
              Some j \<Rightarrow> Some j
            | None \<Rightarrow> tryRecoverDraftFromToolCallMarkup raw trimmed tz) of
        None \<Rightarrow> Inl (rejected ''parse'' (JStr ''invalid_json'') [(''raw'', JStr raw)])
      | Some j \<Rightarrow>
          (let parsed = normalizeHostileDraftJson j trimmed tz
           in case strictDraftShape parsed of
                Inl e \<Rightarrow> Inl (rejected ''shape'' (JStr e) [(''draft'', parsed)])
              | Inr shaped \<Rightarrow> Inr (fill_client_zone tz shaped)))"

definition bridge_draft_of :: "('v, 's) harness \<Rightarrow> json \<Rightarrow> bridge_draft" where
  "bridge_draft_of hx shaped =
     \<lparr>draft_capability = the_str (fld shaped ''capability''), draft_input = fld shaped ''input'',
      draft_context = JObj [(''constitution_id'', JStr (CONSTITUTION_ID hx))], draft_version = None\<rparr>"

definition execute_draft :: "('v, 's) harness \<Rightarrow> web_request \<Rightarrow> json \<Rightarrow> (execution_result, 's) action" where
  "execute_draft hx req shaped s =
     (let (authority, rt) = resolveAuthorityContextForRequest hx req (gov (process s));
          (r, p) = executeGovernedCapability (governed_host hx) (receipt_outcome req)
            (harnessInvokeAdapter (at_moment req)) (bridge_draft_of hx shaped)
            \<lparr>exec_authority = authority, exec_class_policy = None\<rparr> ((process s)\<lparr>gov := rt\<rparr>)
      in (r, s\<lparr>process := p\<rparr>))"

definition is_clock :: "json \<Rightarrow> bool" where
  "is_clock x = (fld (fld x ''request'') ''capability'' = JStr TIME_GET)"

text \<open>Whether the output of the clock is told to the user in words.\<close>

definition worth_telling :: "json \<Rightarrow> bool" where
  "worth_telling t =
     (is_record t \<and> \<not> truthy (fld t ''error'') \<and> nonempty_text (fld t ''local_display'') \<noteq> None)"

definition fuse_prompt :: "string \<Rightarrow> json \<Rightarrow> string" where
  "fuse_prompt trimmed t =
     ''The user said:'' @ line_feed @ trimmed @ line_feed @ line_feed
     @ ''Verified clock (use only this for the time; do not invent another):'' @ line_feed
     @ ''- Time zone: '' @ js_string (fld t ''timezone'') @ line_feed
     @ ''- Local: '' @ the_str (fld t ''local_display'') @ line_feed
     @ ''- UTC: '' @ js_string (fld t ''utc_iso'') @ line_feed @ line_feed
     @ ''Write one short plain-text reply (no JSON, no markdown fences). Acknowledge any casual part of their message, then state the local time naturally.''"

definition tell_time :: "('v, 's) harness \<Rightarrow> string \<Rightarrow> json \<Rightarrow> (string \<times> json) list \<Rightarrow> (web_answer, 's) action" where
  "tell_time hx trimmed x b s =
     (let t = fld x ''output'';
          with_time = (if is_clock x \<and> t \<noteq> JNull then obj_set ''time'' t b else b)
      in if is_clock x \<and> worth_telling t then
           and_then (ask_text hx (fuse_prompt trimmed t) s) (\<lambda>raw s1.
             let fused = trim (or_else raw [])
             in (Inr (answer (JObj (if fused \<noteq> [] then obj_set ''final'' (JStr fused) with_time else with_time))), s1))
         else (Inr (answer (JObj with_time)), s))"

definition report_execution ::
  "('v, 's) harness \<Rightarrow> string \<Rightarrow> json \<Rightarrow> execution_result \<Rightarrow> (web_answer, 's) action" where
  "report_execution hx trimmed shaped r s =
     (let x = exec_json r
      in if \<not> truthy (fld x ''ok'') then (Inr (answer (buildExecutionFailureBody x shaped)), s)
         else case buildExecutionSuccessBody x of
           Inl e \<Rightarrow> (Inl e, s)
         | Inr b \<Rightarrow> tell_time hx trimmed x (record_fields b) s)"

definition execute_prompt :: "('v, 's) harness \<Rightarrow> web_request \<Rightarrow> string \<Rightarrow> string option \<Rightarrow> (web_answer, 's) action" where
  "execute_prompt hx req trimmed tz s =
     and_then (ask_json hx (execution_prompt trimmed tz) s) (\<lambda>raw s1.
       case (case raw of None \<Rightarrow> None | Some t \<Rightarrow> nonempty_text (JStr t)) of
         None \<Rightarrow> (Inr (rejected ''model'' (JStr ''empty_model_output'') []), s1)
       | Some t \<Rightarrow>
           (case shape_draft t trimmed tz of
              Inl a \<Rightarrow> (Inr a, s1)
            | Inr shaped \<Rightarrow>
                and_then (execute_draft hx req shaped s1) (\<lambda>r. report_execution hx trimmed shaped r)))"

text \<open>A prompt that is a string with more than white space, trimmed.\<close>

definition trimmed_of :: "json \<Rightarrow> string option" where
  "trimmed_of v = (case v of JStr p \<Rightarrow> if trim p \<noteq> [] then Some (trim p) else None | _ \<Rightarrow> None)"

definition destructure_error :: message where
  "destructure_error = ''Cannot destructure property '' @ [CHR 0x27] @ ''prompt'' @ [CHR 0x27] @ '' of '' @ [CHR 0x27] @ ''req.body''
     @ [CHR 0x27] @ '' as it is undefined.''"

definition generate_body :: "('v, 's) harness \<Rightarrow> web_request \<Rightarrow> (web_answer, 's) action" where
  "generate_body hx req s =
     (if \<not> hasLlmCredentials (llm_vars hx) (llm hx) then
        (Inr \<lparr>status = 500, content = JObj [(''ok'', JBool False), (''stage'', JStr ''config''), (''error'', config_error hx)]\<rparr>, s)
      else if is_null_or_undef (body req) then (Inl destructure_error, s)
      else case trimmed_of (fld (body req) ''prompt'') of
        None \<Rightarrow>
          (Inr \<lparr>status = 400, content = JObj [(''ok'', JBool False), (''stage'', JStr ''request''),
                (''error'', JStr ''prompt_required'')]\<rparr>, s)
      | Some trimmed \<Rightarrow>
          (let tz = sanitizeClientTimezone (fld (body req) ''client_timezone'');
               i = classifyGeneratePrompt trimmed
           in if route_of i = Conversation then answer_conversation hx i trimmed s
              else execute_prompt hx req trimmed tz s))"

definition generate :: "('v, 's) harness \<Rightarrow> web_request \<Rightarrow> 's harness_state \<Rightarrow> web_answer \<times> 's harness_state" where
  "generate hx req s = caught (generate_body hx req s)"

subsection \<open>\<open>POST /agent/run\<close>\<close>

text \<open>The template \<open>AGENT_DECISION_INSTRUCTIONS\<close> is a constant text and an argument here.\<close>

definition step :: "string \<Rightarrow> (string \<times> json) list \<Rightarrow> json" where
  "step name more_fields = JObj ((''step'', JStr name) # more_fields)"

definition agent_answer :: "bool \<Rightarrow> string \<Rightarrow> string \<Rightarrow> (string \<times> json) list \<Rightarrow> json list \<Rightarrow> (string \<times> json) list \<Rightarrow> web_answer" where
  "agent_answer ok mode stage before trace after =
     answer (JObj ([(''ok'', JBool ok), (''mode'', JStr mode), (''stage'', JStr stage)] @ before
                   @ [(''trace'', JArr trace)] @ after))"

definition agent_failure :: "json list \<Rightarrow> message \<Rightarrow> web_answer" where
  "agent_failure trace e =
     \<lparr>status = 500, content = JObj [(''ok'', JBool False), (''stage'', JStr ''server''), (''error'', JStr e),
       (''trace'', JArr (trace @ [step ''server_error'' [(''error'', JStr e)]]))]\<rparr>"

text \<open>Ask the model; an exception ends the run with the trace so far.\<close>

definition asked ::
  "json list \<Rightarrow> 'a result \<times> 's harness_state \<Rightarrow> ('a \<Rightarrow> 's harness_state \<Rightarrow> web_answer \<times> 's harness_state)
   \<Rightarrow> web_answer \<times> 's harness_state" where
  "asked trace m k = (case m of (Inl e, s) \<Rightarrow> (agent_failure trace e, s) | (Inr x, s) \<Rightarrow> k x s)"

definition conversation_prompt :: "string \<Rightarrow> string" where
  "conversation_prompt trimmed =
     ''You are a helpful assistant. Reply with plain text only (no JSON, no markdown code fences unless the user asks for code). Be concise.''
     @ line_feed @ line_feed @ ''User:'' @ line_feed @ trimmed"

definition agent_converse :: "('v, 's) harness \<Rightarrow> string \<Rightarrow> json list \<Rightarrow> 's harness_state \<Rightarrow> web_answer \<times> 's harness_state" where
  "agent_converse hx trimmed trace s =
     asked trace (ask_text hx (conversation_prompt trimmed) s) (\<lambda>raw s1.
       let final = trim (or_else raw []);
           t1 = trace @ [step ''conversation_model'' [(''ok'', JBool (final \<noteq> [])), (''model'', JStr (llm_model (llm hx)))]]
       in (if final = [] then
             agent_answer False ''conversation'' ''conversation_empty'' [(''error'', JStr ''model_returned_no_text'')] t1 []
           else agent_answer True ''conversation'' ''done'' [(''final'', JStr final)]
             (t1 @ [step ''conversation_return'' [(''ok'', JBool True)]]) [], s1))"

definition finalize_prompt :: "string \<Rightarrow> json \<Rightarrow> string" where
  "finalize_prompt trimmed tool_result =
     ''The user asked:'' @ line_feed @ trimmed @ line_feed @ line_feed
     @ ''The echo tool was invoked and returned this JSON:'' @ line_feed @ json_print (fld tool_result ''output'')
     @ line_feed @ line_feed
     @ ''Write a single short plain-text reply to the user that incorporates this result. No JSON, no bullet meta-commentary.''"

definition run_tool :: "('v, 's) harness \<Rightarrow> string \<Rightarrow> json \<Rightarrow> json list \<Rightarrow> 's harness_state \<Rightarrow> web_answer \<times> 's harness_state" where
  "run_tool hx trimmed decision trace s =
     (let tool_result = runToolEcho (fld decision ''arguments'');
          t1 = trace @ [step ''tool'' (record_fields tool_result)]
      in asked t1 (ask_text hx (finalize_prompt trimmed tool_result) s) (\<lambda>raw s1.
           let final = trim (or_else raw []);
               t2 = t1 @ [step ''finalize_model'' [(''ok'', JBool (final \<noteq> []))]]
           in (if final = [] then
                 agent_answer False ''execution'' ''finalize_empty''
                   [(''error'', JStr ''model_returned_no_final_text''), (''decision'', decision),
                    (''tool_result'', tool_result)] t2 []
               else agent_answer True ''execution'' ''done'' [(''final'', JStr final)] t2
                 [(''raw'', JObj [(''decision'', decision), (''tool_result'', tool_result)])], s1)))"

definition act_on :: "('v, 's) harness \<Rightarrow> string \<Rightarrow> json \<Rightarrow> json list \<Rightarrow> 's harness_state \<Rightarrow> web_answer \<times> 's harness_state" where
  "act_on hx trimmed decision trace s =
     (let err = validateDecision decision;
          t1 = trace @ [step ''decision_validated'' [(''ok'', JBool (err = None)), (''decision'', decision)]]
      in case err of
           Some e \<Rightarrow>
             (agent_answer False ''execution'' ''decision_rejected'' [(''error'', JStr e), (''decision'', decision)] t1 [], s)
         | None \<Rightarrow>
             if fld decision ''decision'' = JStr ''respond_directly'' then
               (agent_answer True ''execution'' ''done'' [(''final'', fld decision ''message'')]
                  (t1 @ [step ''final'' [(''path'', JStr ''respond_directly''), (''text'', fld decision ''message'')]])
                  [(''raw'', JObj [(''decision'', decision), (''tool_result'', JNull)])], s)
             else run_tool hx trimmed decision t1 s)"

definition decide :: "('v, 's) harness \<Rightarrow> string \<Rightarrow> string \<Rightarrow> json list \<Rightarrow> 's harness_state \<Rightarrow> web_answer \<times> 's harness_state" where
  "decide hx instructions trimmed trace s =
     asked trace (ask_json hx (instructions @ line_feed @ line_feed @ ''User request:'' @ line_feed @ trimmed) s)
       (\<lambda>raw s1.
         let given = (case raw of None \<Rightarrow> None | Some t \<Rightarrow> nonempty_text (JStr t));
             t1 = trace @ [step ''decision_raw''
               [(''ok'', JBool (given \<noteq> None)), (''model'', JStr (llm_model (llm hx))),
                (''provider'', JStr (if useOpenRouter (llm hx) then ''openrouter'' else ''openai''))]]
         in case given of
              None \<Rightarrow>
                (agent_answer False ''execution'' ''decision_empty'' [(''error'', JStr ''model_returned_no_text'')] t1 [], s1)
            | Some t \<Rightarrow>
                (case json_parse t of
                   None \<Rightarrow>
                     (agent_answer False ''execution'' ''decision_parse''
                        [(''error'', JStr ''invalid_json''), (''raw'', JStr t)] t1 [], s1)
                 | Some decision \<Rightarrow> act_on hx trimmed decision t1 s1))"

definition agent_run :: "('v, 's) harness \<Rightarrow> string \<Rightarrow> web_request \<Rightarrow> 's harness_state \<Rightarrow> web_answer \<times> 's harness_state" where
  "agent_run hx instructions req s =
     (if \<not> hasLlmCredentials (llm_vars hx) (llm hx) then
        (\<lparr>status = 500, content = JObj [(''ok'', JBool False), (''stage'', JStr ''config''),
           (''error'', config_error hx), (''trace'', JArr [])]\<rparr>, s)
      else if is_null_or_undef (body req) then (agent_failure [] destructure_error, s)
      else case trimmed_of (fld (body req) ''prompt'') of
        None \<Rightarrow>
          (\<lparr>status = 400, content = JObj [(''ok'', JBool False), (''stage'', JStr ''request''),
             (''error'', JStr ''prompt_required''), (''trace'', JArr [])]\<rparr>, s)
      | Some trimmed \<Rightarrow>
          (let route = classifyIntent trimmed;
               trace = [step ''intent'' [(''mode'', JStr (intent_text route))]]
           in if route = Conversation then agent_converse hx trimmed trace s
              else decide hx instructions trimmed trace s))"

definition admit_route :: "web_answer" where
  "admit_route =
     \<lparr>status = 501, content = JObj [(''ok'', JBool False), (''stage'', JStr ''admit''), (''error'', JStr ''not_wired''),
        (''detail'', JStr ''Membrane uses register + admit + execute over the engine proxy; wire a client or set a gateway. This harness does not implement /admit here.'')]\<rparr>"

end
