(* ===== verification/Harness_Routes.thy ===== *)
theory Harness_Routes
  imports Proxy_Frames Harness_Server
begin

text \<open>
  The read-only routes under \<open>/governance\<close> and the start of the draft harness, \<open>draft-test-harness/server.js\<close>.
  A route that throws is an exception here; the server answers it with its standard error page.
\<close>

subsection \<open>The governance routes\<close>

definition capability_row :: "registry \<Rightarrow> capability_definition \<Rightarrow> json" where
  "capability_row r d =
     (let m = getCapabilityMeta r (capability d) (version d);
          field = (\<lambda>f. case m of None \<Rightarrow> JNull | Some x \<Rightarrow> JStr (f x))
      in JObj [(''capability'', JStr (capability d)), (''version'', JStr (version d)),
               (''execution_class'', field execution_class),
               (''authority_requirements'', field authority_requirements)])"

definition governance_capabilities :: "registry \<Rightarrow> json" where
  "governance_capabilities r =
     JObj [(''ok'', JBool True), (''capabilities'', JArr (map (capability_row r) (listCapabilities r)))]"

text \<open>
  \<open>Number(limit) || fallback\<close> as the whole number that \<open>slice\<close> makes of it; \<open>many\<close> stands for an infinite one.
\<close>

definition whole :: "nat \<Rightarrow> jsnum \<Rightarrow> int" where
  "whole many n =
     (case n of
        NumDec m e \<Rightarrow> if 0 \<le> e then m * 10 ^ nat e else sgn m * (\<bar>m\<bar> div 10 ^ nat (- e))
      | NumInf neg \<Rightarrow> if neg then - int many else int many
      | _ \<Rightarrow> 0)"

definition query_limit :: "nat \<Rightarrow> string option \<Rightarrow> int \<Rightarrow> int" where
  "query_limit many q fallback =
     (case q of
        None \<Rightarrow> fallback
      | Some t \<Rightarrow> if truthy (JNum (js_number t)) then whole many (js_number t) else fallback)"

definition governance_receipts :: "runtime \<Rightarrow> string option \<Rightarrow> json" where
  "governance_receipts rt q =
     JObj [(''ok'', JBool True),
           (''receipts'', JArr (listRecentReceipts rt (query_limit (length (receipts rt)) q 20)))]"

definition count_json :: "nat \<Rightarrow> json" where
  "count_json n = JNum (norm_dec (int n) 0)"

definition verification_fields :: "bool \<Rightarrow> nat \<Rightarrow> string list \<Rightarrow> (string \<times> json) list \<Rightarrow> json" where
  "verification_fields ok n errors heads =
     JObj ([(''ok'', JBool ok), (''checked'', count_json n)] @ heads @ [(''errors'', JArr (map JStr errors))])"

definition chain_json :: "chain_verification \<Rightarrow> json" where
  "chain_json c = verification_fields (ver_ok c) (checked c) (ver_errors c) [(''chain_heads'', count_json (chain_heads c))]"

definition verification_json :: "verification \<Rightarrow> json" where
  "verification_json v = verification_fields (ver_ok v) (checked v) (ver_errors v) []"

definition governance_chain_health :: "runtime \<Rightarrow> json" where
  "governance_chain_health rt = JObj [(''ok'', JBool True), (''chain'', chain_json (verifyReceiptChain rt))]"

definition replay_entry_json :: "replay_entry \<Rightarrow> json" where
  "replay_entry_json e =
     JObj ([(''replay_key'', JStr (replay_key e)), (''capability'', JStr (re_capability e)),
            (''version'', JStr (re_version e)), (''normalized_input'', JStr (normalized_input e)),
            (''recorded_at'', recorded_at e), (''receipt_hash'', re_receipt_hash e)]
       @ (if re_idempotency_key e \<noteq> JUndef then [(''idempotency_key'', re_idempotency_key e)] else []))"

definition governance_replays :: "(string \<Rightarrow> string \<Rightarrow> int) \<Rightarrow> runtime \<Rightarrow> string option \<Rightarrow> json" where
  "governance_replays locale_compare rt q =
     (let es = listReplayEntries locale_compare rt (query_limit (length (blockedReplay rt)) q 50)
      in JObj [(''ok'', JBool True), (''count'', count_json (length es)), (''entries'', JArr (map replay_entry_json es))])"

definition invariant_json :: "governance_invariant \<Rightarrow> json" where
  "invariant_json i =
     JObj [(''scope'', JStr ''startup''), (''ok'', JBool (inv_ok i)), (''target'', JStr (target_name (target i))),
           (''message'', JStr (inv_message i))]"

definition governance_invariants :: "registry \<Rightarrow> runtime \<Rightarrow> json result" where
  "governance_invariants r rt =
     bind_result (collectGovernanceStartupInvariants r rt) (\<lambda>is.
       Inr (JObj [(''ok'', JBool True), (''invariants'', JArr (map invariant_json is))]))"

definition governance_health :: "registry \<Rightarrow> runtime \<Rightarrow> json result" where
  "governance_health r rt =
     bind_result (getGovernanceHealthStatus r rt) (\<lambda>x.
       Inr (JObj
         [(''ok'', JBool (health_ok x)),
          (''health'', JObj
            [(''ok'', JBool (health_ok x)), (''reasons'', JArr (map JStr (reasons x))),
             (''invariants'', JArr (map invariant_json (invariants x))),
             (''receipt_chain'', chain_json (receipt_chain_status x)),
             (''receipt_anchors'', verification_json (receipt_anchors_status x)),
             (''replay_ledger'', verification_json (replay_ledger_status x))])]))"

subsection \<open>The start\<close>

record server_env =
  ZAK_CAPABILITIES_DIR :: "string option"
  ZAK_GOVERNANCE_DIR :: "string option"
  ZAK_ENVIRONMENT_ID :: "string option"
  ZAK_RUNTIME_ID :: "string option"

definition resolveCapabilitiesRoot :: "(string \<Rightarrow> string) \<Rightarrow> string \<Rightarrow> server_env \<Rightarrow> string" where
  "resolveCapabilitiesRoot resolve_path default_dir env =
     (case ZAK_CAPABILITIES_DIR env of
        Some d \<Rightarrow> if d \<noteq> [] then resolve_path d else default_dir
      | None \<Rightarrow> default_dir)"

definition governanceRoot :: "(string \<Rightarrow> string) \<Rightarrow> string \<Rightarrow> server_env \<Rightarrow> string" where
  "governanceRoot resolve_path default_dir env =
     (case ZAK_GOVERNANCE_DIR env of
        Some d \<Rightarrow> if d \<noteq> [] then resolve_path d else default_dir
      | None \<Rightarrow> default_dir)"

text \<open>
  \<open>disk\<close> gives the tree of a directory and \<open>gov_disk\<close> the journals in it; the two defaults are the directories
  beside the harness. The result is the process that the routes work on.
\<close>

definition start_harness ::
  "schema_compiler \<Rightarrow> (string \<Rightarrow> bool) \<Rightarrow> (string \<Rightarrow> string) \<Rightarrow> string \<Rightarrow> string \<Rightarrow> server_env
   \<Rightarrow> (string \<Rightarrow> node option) \<Rightarrow> (string \<Rightarrow> file_system) \<Rightarrow> (nat \<Rightarrow> string) \<Rightarrow> proc result" where
  "start_harness ajv semver_valid resolve_path caps_default gov_default env disk gov_disk clk =
     (let dir = resolveCapabilitiesRoot resolve_path caps_default env;
          gdir = governanceRoot resolve_path gov_default env
      in if disk dir = None then
           Inl (''[harness] Compiled capabilities missing: '' @ dir @ ''. Run cap-compile or set ZAK_CAPABILITIES_DIR.'')
         else case createRegistryFromCompiledCapabilities ajv semver_valid dir (disk dir)
                \<lparr>verifyDefinitionHashFile = None, registerSemanticValidators = None\<rparr> [] of
           (ls, Inl e, c) \<Rightarrow> Inl e
         | (ls, Inr r, c) \<Rightarrow>
             bind_result (fst (createFileGovernanceRuntime
                 \<lparr>rootDir = gdir, environmentId = or_else (ZAK_ENVIRONMENT_ID env) ''draft-test-harness'',
                  runtimeId = or_else (ZAK_RUNTIME_ID env) ''draft-test-harness''\<rparr> clk 0 (gov_disk gdir))) (\<lambda>rt.
             bind_result (assertGovernanceStartupInvariants r rt) (\<lambda>_.
               Inr \<lparr>reg = r, in_cache = c, out_cache = [], gov = rt\<rparr>)))"

end
