(* ===== verification/Harness_Properties.thy ===== *)
theory Harness_Properties
  imports Harness_Routes Execution_Properties
begin

text \<open>
  What makes the draft harness safe: its loops return, its router finds whole words, untrusted text reaches a
  governed execution only as a draft of the strict shape, a success that it reports is backed by a receipt in
  the journal, and neither a conversation nor the agent sandbox changes the governed process.
\<close>

subsection \<open>Loops over matches\<close>

text \<open>Looking for a whole word always ends and is exact: the loop of \<open>hasWord\<close>, started anywhere in any text,
  returns, and it returns true exactly when the word occurs at or after the start, in any case of letters,
  between two word boundaries, and, where that is asked for, not right after a dot.
\<close>

theorem has_word_returns_whole_words:
  assumes "w \<in> {''call'', ''set'', ''write'', ''execute'', ''update''}"
  shows "has_word_from s w skip l = Some (\<exists>i \<ge> l. word_occurs s w i \<and> (skip \<longrightarrow> i = 0 \<or> s ! (i - 1) \<noteq> CHR ''.''))"
proof -
  have "w \<noteq> [] \<and> list_all word_char w" using assms by (auto simp: word_char_def)
  then show ?thesis using has_word_from_spec [of w s skip l] by (simp add: good_occurrence_def)
qed

theorem has_word_witness:
  "\<exists>b. has_word_from ''please call'' ''call'' True 0 = Some b"
  using has_word_returns_whole_words [of "''call''" "''please call''" True 0] by simp

text \<open>A pattern that consumes: how many characters a match takes at least.\<close>

fun least_length :: "rx \<Rightarrow> nat" where
  "least_length (Chars p) = 1"
| "least_length (Seq a b) = least_length a + least_length b"
| "least_length (Alt a b) = min (least_length a) (least_length b)"
| "least_length (Group n r) = least_length r"
| "least_length r = 0"

lemma rx_match_consumes:
  "st' \<in> set (rx_match r s st) \<Longrightarrow> fst st \<le> length s \<Longrightarrow> fst st + least_length r \<le> fst st'"
proof (induction r arbitrary: st st')
  case (Seq a b)
  then obtain m where m: "m \<in> set (rx_match a s st)" "st' \<in> set (rx_match b s m)" by auto
  with Seq show ?case using rx_match_bounds [OF m(1)] by fastforce
next
  case (Alt a b)
  from Alt.prems(1) have "st' \<in> set (rx_match a s st) \<or> st' \<in> set (rx_match b s st)" by simp
  then have "fst st + least_length a \<le> fst st' \<or> fst st + least_length b \<le> fst st'"
    using Alt.IH [OF _ Alt.prems(2)] by blast
  then show ?case by auto
next
  case (Star r)
  then show ?case using rx_match_bounds [OF Star.prems] by simp
next
  case (Lazy r)
  then show ?case using rx_match_bounds [OF Lazy.prems] by simp
qed (auto split: if_splits)

lemma re_exec_progress:
  assumes "re_exec r s l = Some m" "0 < least_length r"
  shows "l < fst (snd m)" "fst (snd m) \<le> length s"
proof -
  obtain k where k: "first_match r s l = Some k" "m = (k, hd (rx_match r s (k, [])))"
    using assms(1) by (auto simp: re_exec_def split: option.splits)
  note f = first_match_Some [OF k(1)]
  have m: "snd m \<in> set (rx_match r s (k, []))" using f(3) k(2) by simp
  show "l < fst (snd m)" using rx_match_consumes [OF m] f(1,2) assms(2) by simp
  show "fst (snd m) \<le> length s" using rx_match_bounds [OF m] f(2) by simp
qed

lemma invoke_consumes: "0 < least_length invoke_rx"
  by (simp add: invoke_rx_def)

text \<open>C37: The search for a tool call in the raw text of a model ends for every text, well formed or not, and from
  every position: each round goes on behind a match that took at least one character.
\<close>

theorem clock_call_search_terminates:
  "\<exists>r. clock_call_from raw l = Some r"
proof (induction "length raw - l" arbitrary: l rule: less_induct)
  case less
  show ?case
  proof (cases "re_exec invoke_rx raw l")
    case None
    then show ?thesis by (subst clock_call_from.simps) simp
  next
    case (Some m)
    have "length raw - fst (snd m) < length raw - l"
      using re_exec_progress [OF Some invoke_consumes] by (intro diff_less_mono2) linarith+
    from less [OF this] Some show ?thesis
      by (subst clock_call_from.simps) (simp add: Let_def)
  qed
qed

subsection \<open>A conversation executes nothing\<close>

lemma ask_process [simp]:
  "process (snd (ask_text hx p s)) = process s" "process (snd (ask_json hx p s)) = process s"
  by (simp_all add: ask_text_def ask_json_def split: prod.split)

lemma ask_processD:
  "ask_text hx p s = (r, s') \<Longrightarrow> process s' = process s"
  "ask_json hx p s = (r, s') \<Longrightarrow> process s' = process s"
  by (metis ask_process snd_conv)+

lemma and_then_cases:
  assumes "and_then m k = (r, s')"
  obtains (failed) e where "m = (Inl e, s')" "r = Inl e"
    | (went_on) x s1 where "m = (Inr x, s1)" "k x s1 = (r, s')"
  using assms by (cases m; cases "fst m") (auto simp: and_then_def)

lemma converse_process: "answer_conversation hx i t s = (r, s') \<Longrightarrow> process s' = process s"
  unfolding answer_conversation_def by (erule and_then_cases) (auto simp: Let_def dest: ask_processD)

lemma tell_time_process: "tell_time hx t x b s = (r, s') \<Longrightarrow> process s' = process s"
  by (auto simp: tell_time_def Let_def elim!: and_then_cases dest: ask_processD split: if_splits)

lemma report_process: "report_execution hx t shaped x s = (r, s') \<Longrightarrow> process s' = process s"
  by (auto simp: report_execution_def Let_def dest: tell_time_process split: if_splits sum.splits)

text \<open>A draft that reaches the execution has the strict shape.\<close>

definition well_shaped :: "json \<Rightarrow> bool" where
  "well_shaped v =
     (is_record v \<and> length (keys_of v) = 2 \<and> is_str (fld v ''capability'') \<and> is_objectish (fld v ''input''))"

lemma strictDraftShape_ok: "strictDraftShape v = Inr w \<Longrightarrow> w = v \<and> well_shaped v"
  by (auto simp: strictDraftShape_def well_shaped_def split: if_splits)

lemma draft_of_shape: "is_str c \<Longrightarrow> is_objectish i \<Longrightarrow> well_shaped (draft_of c i)"
  by (simp add: well_shaped_def draft_of_def is_record_def keys_of_def)

lemma fill_client_zone_shape: "well_shaped v \<Longrightarrow> well_shaped (fill_client_zone tz v)"
proof -
  assume v: "well_shaped v"
  have "fill_client_zone tz v = v
      \<or> (\<exists>kvs. fill_client_zone tz v = draft_of (fld v ''capability'') (JObj kvs))"
    by (cases tz; cases "fld v ''input''") (auto simp: fill_client_zone_def Let_def)
  moreover have "well_shaped (draft_of (fld v ''capability'') (JObj kvs))" for kvs
    using v by (intro draft_of_shape) (simp_all add: well_shaped_def is_objectish_def)
  ultimately show "well_shaped (fill_client_zone tz v)" using v by metis
qed

lemma shape_draft_ok: "shape_draft raw t tz = Inr shaped \<Longrightarrow> well_shaped shaped"
  by (auto simp: shape_draft_def Let_def split: option.splits sum.splits
      dest!: strictDraftShape_ok intro: fill_client_zone_shape)

lemma execute_draft_process:
  assumes "execute_draft hx req shaped s = (r, s')"
  shows "executeGovernedCapability (governed_host hx) (receipt_outcome req) (harnessInvokeAdapter (at_moment req))
      (bridge_draft_of hx shaped)
      \<lparr>exec_authority = fst (resolveAuthorityContextForRequest hx req (gov (process s))), exec_class_policy = None\<rparr>
      ((process s)\<lparr>gov := snd (resolveAuthorityContextForRequest hx req (gov (process s)))\<rparr>) = (r, process s')"
  using assms by (auto simp: execute_draft_def Let_def split: prod.splits)

lemma execute_prompt_cases:
  assumes "execute_prompt hx req t tz s = (r, s')"
  shows "process s' = process s \<or> (\<exists>raw shaped x s1 s2. ask_json hx (execution_prompt t tz) s = (Inr (Some raw), s1)
    \<and> shape_draft raw t tz = Inr shaped \<and> process s1 = process s \<and> execute_draft hx req shaped s1 = (x, s2) \<and> process s' = process s2)"
  using assms unfolding execute_prompt_def
proof (cases rule: and_then_cases)
  case (failed e)
  then show ?thesis by (simp add: ask_processD)
next
  case (went_on raw s1)
  then have s1: "process s1 = process s" by (simp add: ask_processD)
  note asked = went_on(1)
  show ?thesis
  proof (cases "case raw of None \<Rightarrow> None | Some t \<Rightarrow> nonempty_text (JStr t)")
    case None
    then show ?thesis using went_on(2) s1 by simp
  next
    case (Some text1)
    then have raw: "raw = Some text1" by (auto simp: nonempty_text_def split: option.splits if_splits)
    show ?thesis
    proof (cases "shape_draft text1 t tz")
      case (Inl a)
      then show ?thesis using went_on(2) s1 Some by simp
    next
      case (Inr shaped)
      then have "and_then (execute_draft hx req shaped s1) (\<lambda>r. report_execution hx t shaped r) = (r, s')"
        using went_on(2) Some by simp
      then show ?thesis
      proof (cases rule: and_then_cases)
        case (failed e)
        then show ?thesis using Inr s1 raw asked by blast
      next
        case (went_on x s2)
        then show ?thesis using Inr s1 raw asked report_process by metis
      qed
    qed
  qed
qed

lemma caught_state: "snd (caught m) = snd m"
  by (cases m; cases "fst m") (simp_all add: caught_def)

text \<open>
  The draft of a request: the prompt of the body is routed to execution, the model is asked for JSON with that prompt,
  in the state in which the request arrives, and the text that it answers gives the draft.
\<close>

definition zone_of :: "web_request \<Rightarrow> string option" where
  "zone_of req = sanitizeClientTimezone (fld (body req) ''client_timezone'')"

definition drafted :: "('v, 's) harness \<Rightarrow> web_request \<Rightarrow> 's harness_state \<Rightarrow> string \<Rightarrow> string \<Rightarrow> json \<Rightarrow> bool" where
  "drafted hx req s trimmed raw shaped =
     (trimmed_of (fld (body req) ''prompt'') = Some trimmed
      \<and> route_of (classifyGeneratePrompt trimmed) = Execution
      \<and> fst (ask_json hx (execution_prompt trimmed (zone_of req)) s) = Inr (Some raw)
      \<and> shape_draft raw trimmed (zone_of req) = Inr shaped)"

text \<open>The authority of the host, which reads the clock of the runtime once, and the process after this reading.\<close>

definition host_options :: "('v, 's) harness \<Rightarrow> web_request \<Rightarrow> proc \<Rightarrow> execution_options" where
  "host_options hx req p =
     \<lparr>exec_authority = fst (resolveAuthorityContextForRequest hx req (gov p)), exec_class_policy = None\<rparr>"

definition stamped :: "proc \<Rightarrow> proc" where
  "stamped p = p\<lparr>gov := (gov p)\<lparr>ticks := ticks (gov p) + 1\<rparr>\<rparr>"

lemma stamped_process: "p\<lparr>gov := snd (resolveAuthorityContextForRequest hx req (gov p))\<rparr> = stamped p"
  by (simp add: stamped_def resolveAuthorityContextForRequest_def now_def Let_def)

lemma host_level: "resolved_authority_level (exec_authority (host_options hx req p)) = resolveAdmissionAuthorityLevel hx"
  by (simp add: host_options_def resolveAuthorityContextForRequest_def resolveAuthorityContext_def Let_def split: prod.split)

lemma execute_draft_governed:
  assumes "execute_draft hx req shaped s = (r, s')"
  shows "executeGovernedCapability (governed_host hx) (receipt_outcome req) (harnessInvokeAdapter (at_moment req))
      (bridge_draft_of hx shaped) (host_options hx req (process s)) (stamped (process s)) = (r, process s')"
  using execute_draft_process [OF assms] by (simp add: host_options_def stamped_process)

lemma generate_body_executes:
  assumes "generate_body hx req s = (r, s')"
  shows "process s' = process s \<or> (\<exists>t. trimmed_of (fld (body req) ''prompt'') = Some t
    \<and> route_of (classifyGeneratePrompt t) = Execution \<and> execute_prompt hx req t (zone_of req) s = (r, s'))"
  using assms by (auto simp: generate_body_def zone_of_def Let_def split: if_splits option.splits
      dest: converse_process intro: intent.exhaust)

text \<open>C7: The text of a model reaches the governed process in one way only. When \<open>/generate\<close> changes the process, then the
  prompt of this request was routed to execution, the text that the model answered to this prompt gave a draft
  with exactly a string \<open>capability\<close> and an object \<open>input\<close>, and the new process is the result of exactly one
  governed execution of this draft, with the options and the authority level of the host, on the old process after
  one reading of the clock.
\<close>

theorem process_changes_only_by_governed_execution:
  assumes "generate hx req s = (a, s')" and "process s' \<noteq> process s"
  shows "\<exists>trimmed raw shaped x. drafted hx req s trimmed raw shaped
    \<and> is_str (fld shaped ''capability'') \<and> is_objectish (fld shaped ''input'') \<and> length (keys_of shaped) = 2
    \<and> resolved_authority_level (exec_authority (host_options hx req (process s))) = resolveAdmissionAuthorityLevel hx
    \<and> executeGovernedCapability (governed_host hx) (receipt_outcome req) (harnessInvokeAdapter (at_moment req))
        (bridge_draft_of hx shaped) (host_options hx req (process s)) (stamped (process s)) = (x, process s')"
proof -
  obtain r where r: "generate_body hx req s = (r, s')"
    using assms(1) caught_state [of "generate_body hx req s"] by (metis generate_def prod.collapse snd_conv)
  from generate_body_executes [OF r] assms(2) obtain t where
    t: "trimmed_of (fld (body req) ''prompt'') = Some t" "route_of (classifyGeneratePrompt t) = Execution"
      "execute_prompt hx req t (zone_of req) s = (r, s')" by blast
  from execute_prompt_cases [OF t(3)] assms(2) obtain raw shaped x s1 s2 where
      e: "ask_json hx (execution_prompt t (zone_of req)) s = (Inr (Some raw), s1)"
        "shape_draft raw t (zone_of req) = Inr shaped" "process s1 = process s"
        "execute_draft hx req shaped s1 = (x, s2)" "process s' = process s2"
    by auto
  have "drafted hx req s t raw shaped" using t(1,2) e(1,2) by (simp add: drafted_def)
  then show ?thesis
    using execute_draft_governed [OF e(4)] e(3,5) shape_draft_ok [OF e(2)] host_level
    unfolding well_shaped_def by metis
qed

subsection \<open>A reported success has a receipt\<close>

lemma success_body:
  assumes "buildExecutionSuccessBody (exec_json (Governed_Execution.Success out r rq ad)) = Inr b"
  shows "b = JObj (record_fields b)" "fld b ''receipt'' = r" "fld b ''output'' = out"
    "fld r ''output_validation_passed'' = JBool True"
  using assms
  by (auto simp: buildExecutionSuccessBody_def assertValidatedExecutionSuccess_def exec_json_def
      record_fields_def split: if_splits)

lemma failure_body_ok: "fld (buildExecutionFailureBody x draft) ''ok'' = JBool False"
  by (simp add: buildExecutionFailureBody_def)

lemma tell_time_content:
  assumes "tell_time hx t x b s = (Inr a, s')" "k \<noteq> ''time''" "k \<noteq> ''final''"
  shows "fld (content a) k = fld (JObj b) k"
  using assms
  by (auto simp: tell_time_def Let_def answer_def fld_obj_set elim!: and_then_cases split: if_splits)

lemma report_success:
  assumes "report_execution hx t shaped x s = (Inr a, s')" and "fld (content a) ''ok'' = JBool True"
  obtains out r rq ad where "x = Governed_Execution.Success out r rq ad"
    "fld (content a) ''receipt'' = r" "fld (content a) ''output'' = out"
proof (cases x)
  case (Failure stage errors receipt req ad)
  then have "fld (content a) ''ok'' = JBool False"
    using assms(1) by (auto simp: report_execution_def exec_json_def answer_def failure_body_ok Let_def)
  with assms(2) show ?thesis by simp
next
  case (Success out r rq ad)
  then obtain b where b: "buildExecutionSuccessBody (exec_json x) = Inr b"
      "tell_time hx t (exec_json x) (record_fields b) s = (Inr a, s')"
    using assms(1) by (auto simp: report_execution_def exec_json_def Let_def split: sum.splits)
  note body = success_body [OF b(1)[unfolded Success]]
  have "fld (content a) k = fld b k" if "k \<noteq> ''time''" "k \<noteq> ''final''" for k
    using tell_time_content [OF b(2) that] body(1) by metis
  with body that [OF Success] show ?thesis by simp
qed

lemma rejected_ok [simp]: "fld (content (rejected stage e fs1)) ''ok'' = JBool False"
  by (simp add: rejected_def answer_def)

lemma execute_prompt_success:
  assumes "execute_prompt hx req t tz s = (Inr a, s')" and "fld (content a) ''ok'' = JBool True"
  obtains raw shaped s1 s2 out r rq ad where "ask_json hx (execution_prompt t tz) s = (Inr (Some raw), s1)"
    "shape_draft raw t tz = Inr shaped" "process s1 = process s"
    "execute_draft hx req shaped s1 = (Inr (Governed_Execution.Success out r rq ad), s2)" "process s' = process s2"
    "fld (content a) ''receipt'' = r" "fld (content a) ''output'' = out"
  using assms(1) unfolding execute_prompt_def
proof (cases rule: and_then_cases)
  case (failed e)
  then show ?thesis by simp
next
  case (went_on raw s1)
  then have s1: "process s1 = process s" by (simp add: ask_processD)
  note asked = went_on(1)
  show ?thesis
  proof (cases "case raw of None \<Rightarrow> None | Some t \<Rightarrow> nonempty_text (JStr t)")
    case None
    then show ?thesis using went_on(2) assms(2) by auto
  next
    case (Some text1)
    then have raw: "raw = Some text1" by (auto simp: nonempty_text_def split: option.splits if_splits)
    show ?thesis
    proof (cases "shape_draft text1 t tz")
      case (Inl a')
      then have "fld (content a') ''ok'' = JBool False"
        by (auto simp: shape_draft_def Let_def split: option.splits sum.splits)
      then show ?thesis using went_on(2) Some Inl assms(2) by auto
    next
      case (Inr shaped)
      then have "and_then (execute_draft hx req shaped s1) (\<lambda>r. report_execution hx t shaped r) = (Inr a, s')"
        using went_on(2) Some by simp
      then show ?thesis
      proof (cases rule: and_then_cases)
        case (failed e)
        then show ?thesis by simp
      next
        case (went_on x s2)
        from report_success [OF went_on(2) assms(2)] obtain out r rq ad where
          "x = Governed_Execution.Success out r rq ad" "fld (content a) ''receipt'' = r" "fld (content a) ''output'' = out" .
        then show ?thesis using that [OF asked [unfolded raw] Inr s1] went_on report_process [OF went_on(2)] by metis
      qed
    qed
  qed
qed

lemma converse_mode: "answer_conversation hx i t s = (Inr a, s') \<Longrightarrow> fld (content a) ''mode'' = JStr ''conversation''"
  unfolding answer_conversation_def by (erule and_then_cases) (auto simp: Let_def answer_def split: if_splits)

lemma generate_execution:
  assumes "generate hx req s = (a, s')" "fld (content a) ''ok'' = JBool True" "fld (content a) ''mode'' = JStr ''execution''"
  obtains t where "trimmed_of (fld (body req) ''prompt'') = Some t" "route_of (classifyGeneratePrompt t) = Execution"
    "execute_prompt hx req t (zone_of req) s = (Inr a, s')"
proof -
  obtain r where r: "generate_body hx req s = (r, s')"
    using assms(1) caught_state [of "generate_body hx req s"] by (metis generate_def prod.collapse snd_conv)
  then have "r = Inr a"
    using assms(1,2) by (cases r) (auto simp: generate_def caught_def server_error_def)
  with r assms(2,3) show ?thesis
    by (auto simp: generate_body_def zone_of_def Let_def split: if_splits option.splits dest!: converse_mode
        intro: that intent.exhaust)
qed

text \<open>C6: When \<open>/generate\<close> reports a success of an execution, the execution took place under governance, gate by gate, on the
  draft that the model wrote for the prompt of this request: the draft had a registered definition and its input
  passed the schema of that definition; the admission policy admitted it under the authority level of the host, and
  the replay gate let it pass; the local adapter returned exactly the reported output, which passed the output
  schema; and the reported receipt is the one receipt that was appended to the journal, for a terminal stage and
  with the hash of the definition.
\<close>

theorem generate_success_is_governed:
  assumes "runtime_ok (gov (process s))" and "generate hx req s = (a, s')"
    and "fld (content a) ''ok'' = JBool True" "fld (content a) ''mode'' = JStr ''execution''"
  shows "\<exists>trimmed raw shaped d h opts p def m hash out r. drafted hx req s trimmed raw shaped
    \<and> d = bridge_draft_of hx shaped \<and> h = governed_host hx \<and> opts = host_options hx req (process s) \<and> p = stamped (process s)
    \<and> getCapability (versions h) (reg p) (draft_capability d) None = Some def
    \<and> validateInput (versions h) (in_cache p) (reg p) (draft_capability d) (draft_input d) (Some (version def)) = None
    \<and> getCapabilityMeta (reg p) (draft_capability d) (version def) = Some m
    \<and> resolved_authority_level (admission_authority d opts (gov p)) = resolveAdmissionAuthorityLevel hx
    \<and> checkAdmissionPolicy m (admission_authority d opts (gov p)) None = []
    \<and> assertReplayAllowed m (draft_capability d) (version def) (draft_input d) (Some (gov p)) = None
    \<and> computeCapabilityDefinitionHash def = Inr hash
    \<and> harnessInvokeAdapter (at_moment req) (request_for d def hash) (adapter def) = Inr out
    \<and> fst (validateAdapterOutput (ajv_out h) (draft_capability d) (version def) m out (out_cache p)) = None
    \<and> fld (content a) ''output'' = out \<and> fld (content a) ''receipt'' = r
    \<and> receipts (gov (process s')) = receipts (gov (process s)) @ [r]
    \<and> fld r ''stage'' = JStr ''executed'' \<and> fld r ''capability_definition_hash'' = JStr hash
    \<and> fld r ''output_validation_passed'' = JBool True"
proof -
  from assms(2-4) obtain t where t: "trimmed_of (fld (body req) ''prompt'') = Some t"
      "route_of (classifyGeneratePrompt t) = Execution" "execute_prompt hx req t (zone_of req) s = (Inr a, s')"
    by (rule generate_execution)
  from execute_prompt_success [OF t(3) assms(3)] obtain raw shaped s1 s2 out r rq ad where
    e: "ask_json hx (execution_prompt t (zone_of req)) s = (Inr (Some raw), s1)" "shape_draft raw t (zone_of req) = Inr shaped"
      "process s1 = process s" "execute_draft hx req shaped s1 = (Inr (Governed_Execution.Success out r rq ad), s2)"
      "process s' = process s2" "fld (content a) ''receipt'' = r" "fld (content a) ''output'' = out" .
  let ?d = "bridge_draft_of hx shaped" and ?opts = "host_options hx req (process s)" and ?p = "stamped (process s)"
  have drafted: "drafted hx req s t raw shaped" using t(1,2) e(1,2) by (simp add: drafted_def)
  have ok: "runtime_ok (gov ?p)" using assms(1) by (simp add: stamped_def runtime_ok_tick)
  have same: "receipts (gov ?p) = receipts (gov (process s))" by (simp add: stamped_def)
  have run: "executeGovernedCapability (governed_host hx) (receipt_outcome req) (harnessInvokeAdapter (at_moment req))
      ?d ?opts ?p = (Inr (Governed_Execution.Success out r rq ad), process s')"
    using execute_draft_governed [OF e(4)] e(3,5) by simp
  have level: "resolved_authority_level (admission_authority ?d ?opts rt) = resolveAdmissionAuthorityLevel hx" for rt
    by (simp add: admission_authority_def resolveExecutionAuthorityContext_def host_level Let_def split: prod.split)
  have plain: "exec_class_policy ?opts = None" "draft_version ?d = None"
    by (simp_all add: host_options_def bridge_draft_of_def)
  from success_gates [OF ok run, unfolded plain same] drafted level e(6,7) show ?thesis by metis
qed

subsection \<open>The agent sandbox\<close>

lemma asked_process:
  assumes "asked trace (ask_text hx p s) k = (a, s')" "\<And>x s1. process s1 = process s \<Longrightarrow> process (snd (k x s1)) = process s"
  shows "process s' = process s"
  using assms by (auto simp: asked_def dest: ask_processD split: prod.splits sum.splits) (metis ask_processD(1) snd_conv)

lemma agent_converse_process: "process (snd (agent_converse hx t tr s)) = process s"
proof -
  obtain a s' where r: "agent_converse hx t tr s = (a, s')" by fastforce
  then have "process s' = process s" unfolding agent_converse_def
    by (rule asked_process) (simp add: Let_def)
  with r show ?thesis by simp
qed

lemma run_tool_process: "process (snd (run_tool hx t d tr s)) = process s"
proof -
  obtain a s' where r: "run_tool hx t d tr s = (a, s')" by fastforce
  then have "process s' = process s" unfolding run_tool_def Let_def
    by (rule asked_process) simp
  with r show ?thesis by simp
qed

lemma act_on_process: "process (snd (act_on hx t d tr s)) = process s"
  by (simp add: act_on_def Let_def run_tool_process split: option.split)

lemma decide_process: "process (snd (decide hx ins t tr s)) = process s"
  by (auto simp: decide_def asked_def Let_def act_on_process dest: ask_processD split: prod.split sum.split option.split)

text \<open>
  The agent sandbox has no hands: whatever the prompt is and whatever the model answers, a run of
  \<open>/agent/run\<close> leaves the governed process, its registry, caches and journals, exactly as it was.
\<close>

theorem agent_run_never_executes: "process (snd (agent_run hx instructions req s)) = process s"
  by (simp add: agent_run_def Let_def agent_converse_process decide_process split: option.split)

text \<open>
  What a valid decision is. The check \<open>!String(d.message).trim()\<close> lets \<open>null\<close> through, whose text is not blank.
\<close>

definition direct_reply :: "json \<Rightarrow> bool" where
  "direct_reply d =
     (fld d ''decision'' = JStr ''respond_directly'' \<and> fld d ''tool'' = JNull \<and> fld d ''arguments'' = JObj []
      \<and> (fld d ''message'' = JNull \<or> (\<exists>m. fld d ''message'' = JStr m \<and> trim m \<noteq> [])))"

definition echo_call :: "json \<Rightarrow> bool" where
  "echo_call d =
     (fld d ''decision'' = JStr ''call_tool'' \<and> fld d ''tool'' = JStr ''echo'' \<and> fld d ''message'' = JNull
      \<and> is_record (fld d ''arguments'') \<and> is_str (fld (fld d ''arguments'') ''text''))"

lemma record_keys: "is_record d \<Longrightarrow> has_own d k \<longleftrightarrow> k \<in> set (keys_of d)"
  by (cases d) (auto simp: is_record_def has_own_def keys_of_def)

lemma empty_record: "is_record v \<and> keys_of v = [] \<longleftrightarrow> v = JObj []"
  by (cases v) (auto simp: is_record_def keys_of_def)

lemma message_cases:
  assumes "v = JNull \<or> is_str v"
  shows "trim (js_string v) \<noteq> [] \<longleftrightarrow> v = JNull \<or> (\<exists>m. v = JStr m \<and> trim m \<noteq> [])"
proof (cases v)
  case JNull
  then show ?thesis by (simp add: trim_def is_ws_def)
qed (use assms in \<open>simp_all add: is_str_def\<close>)

text \<open>The validator of the agent's decisions accepts exactly two kinds of objects, both with exactly the five keys
  and a string intent: a direct reply with no tool, no arguments and a message that is not blank or is
  \<open>null\<close>, and a call of \<open>echo\<close> with a text and no message. Everything else is rejected with an error.
\<close>

theorem decision_validator_is_exact:
  "validateDecision d = None \<longleftrightarrow>
     is_record d \<and> set (keys_of d) = set decision_keys \<and> is_str (fld d ''intent'') \<and> (direct_reply d \<or> echo_call d)"
proof (cases "is_record d \<and> set (keys_of d) = set decision_keys \<and> is_str (fld d ''intent'')")
  case False
  have "validateDecision d \<noteq> None"
  proof (cases "is_record d")
    case True
    show ?thesis
    proof (cases "List.find (\<lambda>k. k \<notin> set decision_keys) (keys_of d) = None
        \<and> List.find (\<lambda>k. \<not> has_own d k) decision_keys = None")
      case same: True
      then have "set (keys_of d) = set decision_keys"
        using True by (auto simp: find_None_iff record_keys)
      then show ?thesis using False True same by (simp add: validateDecision_def Let_def)
    next
      case other: False
      then show ?thesis using True by (auto simp: validateDecision_def split: option.split)
    qed
  qed (simp add: validateDecision_def)
  with False show ?thesis by blast
next
  case True
  then have "List.find (\<lambda>k. k \<notin> set decision_keys) (keys_of d) = None"
      "List.find (\<lambda>k. \<not> has_own d k) decision_keys = None"
    by (auto simp: find_None_iff record_keys)
  then have v: "validateDecision d = None \<longleftrightarrow>
      (fld d ''decision'' = JStr ''respond_directly'' \<or> fld d ''decision'' = JStr ''call_tool'')
      \<and> (fld d ''tool'' = JNull \<or> is_str (fld d ''tool'')) \<and> is_record (fld d ''arguments'')
      \<and> (fld d ''message'' = JNull \<or> is_str (fld d ''message''))
      \<and> (fld d ''decision'' = JStr ''respond_directly'' \<longrightarrow>
           fld d ''tool'' = JNull \<and> keys_of (fld d ''arguments'') = [] \<and> trim (js_string (fld d ''message'')) \<noteq> [])
      \<and> (fld d ''decision'' = JStr ''call_tool'' \<longrightarrow>
           fld d ''tool'' = JStr ''echo'' \<and> is_str (fld (fld d ''arguments'') ''text'') \<and> fld d ''message'' = JNull)"
    using True by (simp add: validateDecision_def Let_def)
  have str: "is_str (JStr t)" for t by (simp add: is_str_def)
  show ?thesis
    unfolding v direct_reply_def echo_call_def
    using True message_cases [of "fld d ''message''"] empty_record [of "fld d ''arguments''"] by (auto simp: str)
qed

text \<open>A direct reply without a message passes, although the instructions ask for a string that is not empty.\<close>

lemma null_message_accepted:
  "validateDecision (JObj [(''intent'', JStr ''i''), (''decision'', JStr ''respond_directly''), (''tool'', JNull),
     (''arguments'', JObj []), (''message'', JNull)]) = None"
  by (simp add: validateDecision_def decision_keys_def keys_of_def is_record_def has_own_def is_str_def Let_def
      trim_def is_ws_def)

text \<open>An array as the input of a draft has the strict shape, although the message of the check says an object.\<close>

lemma array_input_accepted:
  "strictDraftShape (draft_of (JStr ''a'') (JArr [])) = Inr (draft_of (JStr ''a'') (JArr []))"
  by (simp add: strictDraftShape_def draft_of_def is_record_def keys_of_def has_own_def is_str_def is_objectish_def)

subsection \<open>What a draft can name\<close>

lemma time_draft_capability: "fld (time_draft tz) ''capability'' = JStr TIME_GET"
  by (simp add: time_draft_def)

lemma alias_of_name:
  "alias_of n = Some (JStr c) \<Longrightarrow> c = TIME_GET \<or> c = n"
  by (auto simp: alias_of_def split: if_splits)

lemma is_strD: "is_str v \<Longrightarrow> \<exists>n. v = JStr n"
  by (cases v) (simp_all add: is_str_def)

lemma normalize_capability:
  assumes "fld (normalizeHostileDraftJson j trimmed tz) ''capability'' = JStr c"
  shows "c = TIME_GET \<or> (\<exists>k n. k \<in> {''capability'', ''name'', ''capability_name''} \<and> fld j k = JStr n \<and> (c = n \<or> c = trim n))"
proof -
  let ?own = "\<lambda>k. \<exists>n. fld j k = JStr n \<and> (c = n \<or> c = trim n)"
  have "c = TIME_GET \<or> ?own ''capability'' \<or> ?own ''name'' \<or> ?own ''capability_name''"
  proof (cases "fld j ''type'' = JStr ''tool_use'' \<and> is_str (fld j ''name'') \<and> is_record j")
    case True
    then obtain n where n: "fld j ''name'' = JStr n" using is_strD by blast
    show ?thesis
      using assms True n alias_of_name [of "trim n" c]
      by (cases "alias_of (trim n)") (auto simp: normalizeHostileDraftJson_def the_str_def draft_of_def)
  next
    case False
    have str: "is_str (fld j k) \<Longrightarrow> c = trim (the_str (fld j k)) \<Longrightarrow> ?own k" for k
      using is_strD [of "fld j k"] by (auto simp: the_str_def)
    show ?thesis
      using assms False str [of "''name''"] str [of "''capability_name''"]
      unfolding normalizeHostileDraftJson_def Let_def
      by (simp add: draft_of_def time_draft_capability split: if_splits)
  qed
  then show ?thesis by blast
qed

text \<open>C33: The repair of what a model emits never invents a capability: a draft that reaches the execution names the
  clock \<open>hai.time.get\<close>, or exactly a name that the model wrote in its JSON, up to surrounding blanks; text
  that is not JSON can become a call of the clock only, and only when the user asked for the time.
\<close>

theorem repaired_draft_names_no_other_capability:
  assumes "shape_draft raw trimmed tz = Inr shaped" and "fld shaped ''capability'' = JStr c"
  shows "c = TIME_GET \<and> (json_parse raw = None \<longrightarrow> isTimeQuestionPrompt trimmed)
    \<or> (\<exists>j k n. json_parse raw = Some j \<and> k \<in> {''capability'', ''name'', ''capability_name''}
        \<and> fld j k = JStr n \<and> (c = n \<or> c = trim n))"
proof -
  obtain j where j: "json_parse raw = Some j \<or> json_parse raw = None \<and> tryRecoverDraftFromToolCallMarkup raw trimmed tz = Some j"
      and s: "strictDraftShape (normalizeHostileDraftJson j trimmed tz) = Inr (normalizeHostileDraftJson j trimmed tz)"
        "shaped = fill_client_zone tz (normalizeHostileDraftJson j trimmed tz)"
    using assms(1) by (auto simp: shape_draft_def Let_def split: option.splits sum.splits dest: strictDraftShape_ok)
  have cap: "fld (fill_client_zone tz v) ''capability'' = fld v ''capability''" for v
    by (cases tz; cases "fld v ''input''") (auto simp: fill_client_zone_def draft_of_def Let_def)
  have c: "fld (normalizeHostileDraftJson j trimmed tz) ''capability'' = JStr c"
    using assms(2) s(2) cap by simp
  have names: "c = TIME_GET \<or> (\<exists>k n. k \<in> {''capability'', ''name'', ''capability_name''} \<and> fld j k = JStr n \<and> (c = n \<or> c = trim n))"
    using c by (rule normalize_capability)
  show ?thesis
  proof (cases "json_parse raw")
    case (Some j')
    then show ?thesis using j names by auto
  next
    case None
    then have r: "tryRecoverDraftFromToolCallMarkup raw trimmed tz = Some j" using j by simp
    then have t: "isTimeQuestionPrompt trimmed" and "\<exists>z. j = time_draft z"
      by (auto simp: tryRecoverDraftFromToolCallMarkup_def Let_def split: if_splits option.splits)
    then have "normalizeHostileDraftJson j trimmed tz = j"
      by (auto simp: time_draft_def normalizeHostileDraftJson_def is_record_def is_str_def)
    then have "c = TIME_GET" using c \<open>\<exists>z. j = time_draft z\<close> time_draft_capability by auto
    with t show ?thesis by simp
  qed
qed

subsection \<open>A concrete harness\<close>

text \<open>A capability whose route has a local adapter, a host with the authority it asks for, and a model that answers
  one fixed text.\<close>

definition harness_def :: capability_definition where
  "harness_def = example_def\<lparr>adapter := \<lparr>adapter_key = ''k'', adapter_route = ''particle.update''\<rparr>\<rparr>"

definition harness_proc :: proc where
  "harness_proc = example_proc\<lparr>reg := (reg example_proc)\<lparr>byKey := [(''a@1'', harness_def)]\<rparr>\<rparr>"

definition harness_state_example :: "unit harness_state" where
  "harness_state_example = \<lparr>process = harness_proc, network = ()\<rparr>"

definition model_text :: json where
  "model_text = draft_of (JStr ''a'') (JObj [(''idempotency_key'', JStr ''k'')])"

definition harness_example :: "(nat, unit) harness" where
  "harness_example =
     \<lparr>governed_host = example_host,
      client = \<lparr>chat_create = (\<lambda>q s. (Inl ''offline'', s)),
                responses_create = (\<lambda>q s. (Inr (JObj [(''output_text'', JStr (json_print model_text))]), s))\<rparr>,
      llm = \<lparr>llm_model = ''m'', useOpenRouter = False, client_options = JNull\<rparr>,
      llm_vars = \<lparr>openrouter_key = None, openrouter_model = None, openrouter_base = None, openrouter_referer = None,
                  openrouter_title = None, openai_key = Some ''k'', openai_model = None\<rparr>,
      CONSTITUTION_ID = ''zak-default'', ZAK_ADMISSION_AUTHORITY = Some ''standard''\<rparr>"

definition request_example :: web_request where
  "request_example =
     \<lparr>body = JObj [(''prompt'', JStr ''call it'')], ip = None, session_header = None,
      at_moment = \<lparr>utc_iso = ''t'', display_in = (\<lambda>z. Inl ''unknown zone'')\<rparr>, receipt_outcome = no_failure\<rparr>"

lemma model_text_parses: "json_parse (json_print model_text) = Some model_text"
proof -
  have "json_plain model_text" "reorder model_text = model_text"
    by (simp_all add: model_text_def draft_of_def set_all_same is_digit_def)
  then show ?thesis by (simp only: json_parse_print)
qed

lemma harness_shape: "shape_draft (json_print model_text) t None = Inr model_text"
  by (simp add: shape_draft_def model_text_parses)
     (simp add: model_text_def draft_of_def normalizeHostileDraftJson_def is_record_def is_str_def
       strictDraftShape_def keys_of_def has_own_def is_objectish_def fill_client_zone_def)

lemma harness_route: "route_of (classifyGeneratePrompt ''call it'') = Execution"
  by code_simp

definition harness_authority :: authority_context where
  "harness_authority = fst (resolveAuthorityContextForRequest harness_example request_example (gov harness_proc))"

definition harness_options :: execution_options where
  "harness_options = \<lparr>exec_authority = harness_authority, exec_class_policy = None\<rparr>"

definition harness_started :: proc where
  "harness_started = harness_proc\<lparr>gov := snd (resolveAuthorityContextForRequest harness_example request_example (gov harness_proc))\<rparr>"

lemma harness_tick: "gov harness_started = (gov example_proc)\<lparr>ticks := ticks (gov example_proc) + 1\<rparr>"
  by (simp add: harness_started_def harness_proc_def resolveAuthorityContextForRequest_def now_def Let_def)

lemma harness_gov_ok: "runtime_ok (gov harness_started)" "runtime_ok (gov harness_proc)"
  using example_gov_ok by (simp_all add: harness_tick runtime_ok_tick harness_proc_def)

lemma harness_admissible:
  "admissible_now example_host (bridge_draft_of harness_example model_text) harness_options harness_started harness_def meta_of_example"
proof -
  let ?rt = "gov harness_started" and ?d = "bridge_draft_of harness_example model_text"
  let ?a = "admission_authority ?d harness_options ?rt"
  have d: "draft_capability ?d = ''a''" "draft_version ?d = None"
      "draft_input ?d = JObj [(''idempotency_key'', JStr ''k'')]"
      "draft_context ?d = JObj [(''constitution_id'', JStr ''zak-default'')]"
    by (simp_all add: bridge_draft_of_def model_text_def draft_of_def the_str_def harness_example_def)
  have r: "reg harness_started = \<lparr>byKey = [(''a@1'', harness_def)], versionsByCapability = [(''a'', [''1''])],
      semanticByKey = [], metaByKey = [(''a@1'', meta_of_example)]\<rparr>"
    "in_cache harness_started = [(''a@1'', \<lambda>input. (is_record input, None))]"
    by (simp_all add: harness_started_def harness_proc_def example_registry)
  have ver: "version harness_def = ''1''" by (simp add: harness_def_def)
  have "pickLatestVersion number_versions [''1''] = Some ''1''"
    by (simp add: pickLatestVersion_def)
  then have "getCapability number_versions (reg harness_started) ''a'' None = Some harness_def"
    by (simp add: r getCapability_def reg_key_def)
  moreover have "validateInput number_versions (in_cache harness_started) (reg harness_started) ''a'' (draft_input ?d) (Some ''1'') = None"
    by (simp add: r d validateInput_def getCapability_def validateAgainstSchema_def schemaKey_def reg_key_def
        is_record_def ver)
  moreover have "getCapabilityMeta (reg harness_started) ''a'' ''1'' = Some meta_of_example"
    by (simp add: r getCapabilityMeta_def reg_key_def)
  moreover have "assertReplayAllowed meta_of_example ''a'' ''1'' (draft_input ?d) (Some ?rt) = None"
    by (simp add: d assertReplayAllowed_def meta_of_example_def Let_def idempotencyKeyFromInput_def is_record_def
        trim_def is_ws_def hasBlockedReplay_def harness_tick example_proc_def example_runtime_def fresh_runtime_def)
  moreover have "checkAdmissionPolicy meta_of_example ?a None = []"
  proof -
    have h: "resolved_authority_level harness_authority = ''standard''"
        "auth_source harness_authority = ''draft-test-harness-env''" "authority_context_id harness_authority = None"
      by (simp_all add: harness_authority_def resolveAuthorityContextForRequest_def resolveAuthorityContext_def
        resolveAdmissionAuthorityLevel_def harness_example_def now_def Let_def or_else_def truthy_trim_def truthy_opt_def)
    have a: "resolved_authority_level ?a = ''standard''" "auth_source ?a = ''resolved:draft-test-harness-env''"
        "authority_context_id ?a = None" "evaluated_at ?a = show_nat (Suc (ticks ?rt))"
      by (simp_all add: admission_authority_def resolveExecutionAuthorityContext_def Let_def now_def harness_options_def
        h d context_string_def truthy_trim_def truthy_opt_def harness_tick example_proc_def example_runtime_def
        fresh_runtime_def)
    have "trim (show_nat n) \<noteq> []" for n
    proof -
      have ne: "show_nat n \<noteq> []" by simp
      have "\<not> is_ws c" if "c \<in> set (show_nat n)" for c
        using show_nat_digits [OF that] by (auto simp: is_ws_def is_digit_def)
      with ne show ?thesis using trim_id [of "show_nat n"] by simp
    qed
    moreover have "authority_requirements meta_of_example = ''standard''" by (simp add: meta_of_example_def)
    moreover have "trim ''resolved:draft-test-harness-env'' \<noteq> []" by (simp add: trim_def is_ws_def)
    ultimately show ?thesis
      by (simp add: checkAdmissionPolicy_def or_else_def defaultClassPolicyHook_def a
        well_formed_no_violations [OF meta_example_wf] validateAuthorityContext_def push_if_def
        less_rank_def ADMISSION_RANK_def REQUIREMENT_RANK_def)
  qed
  ultimately show ?thesis
    by (simp add: admissible_now_def admissible_def example_host_def harness_options_def d ver)
qed

lemma harness_run:
  "\<exists>r hash p. executeGovernedCapability example_host no_failure (harnessInvokeAdapter (at_moment request_example))
      (bridge_draft_of harness_example model_text) harness_options harness_started =
    (Inr (Governed_Execution.Success (JObj [(''ok'', JStr ''harness_stub'')]) r
       (request_for (bridge_draft_of harness_example model_text) harness_def hash) (adapter harness_def)), p)"
proof -
  have "\<exists>hash. computeCapabilityDefinitionHash harness_def = Inr hash"
    by (simp add: computeCapabilityDefinitionHash_def stable_stringify_def harness_def_def example_def_def toy_definition_def)
  then obtain hash where hash: "computeCapabilityDefinitionHash harness_def = Inr hash" by blast
  have ad: "harnessInvokeAdapter t rq (adapter harness_def) = Inr (JObj [(''ok'', JStr ''harness_stub'')])" for t rq
    by (simp add: harnessInvokeAdapter_def harness_def_def)
  have out: "fst (validateAdapterOutput (ajv_out example_host) cap ver meta_of_example (JObj kvs) (out_cache harness_started)) = None"
    for cap ver kvs
    by (simp add: validateAdapterOutput_def example_host_def toy_ajv_def meta_of_example_def is_record_def
        harness_started_def harness_proc_def example_proc_def)
  from admissible_execution_run [where invoke = "harnessInvokeAdapter (at_moment request_example)",
      OF harness_gov_ok(1) no_failure_sel harness_admissible hash ad out]
  show ?thesis by blast
qed

lemma harness_grown:
  assumes "executeGovernedCapability example_host no_failure invoke d opts harness_started =
    (Inr (Governed_Execution.Success out r rq ad), p)"
  shows "receipts (gov p) = receipts (gov harness_proc) @ [r]" "fld r ''output_validation_passed'' = JBool True"
proof -
  have ok: "runtime_ok (gov (ticked harness_started))" using harness_gov_ok by (simp add: runtime_ok_tick)
  have same: "receipts (gov (ticked harness_started)) = receipts (gov harness_proc)"
    by (simp add: harness_tick harness_proc_def)
  from assms show "receipts (gov p) = receipts (gov harness_proc) @ [r]"
  proof (rule execute_success)
    fix m
    assume "persistReceipt no_failure (success_draft m) (gov (ticked harness_started)) = (Inr r, gov p)"
    from persist_recorded [OF ok success_draft_ok this no_failure_sel(1)]
    show ?thesis using same by auto
  qed
  from assms show "fld r ''output_validation_passed'' = JBool True" by (rule execute_success)
qed

lemma harness_generates:
  obtains a s' where "generate harness_example request_example harness_state_example = (a, s')"
    "fld (content a) ''ok'' = JBool True" "fld (content a) ''mode'' = JStr ''execution''"
    "process s' \<noteq> harness_proc"
proof -
  obtain r hash p where run: "executeGovernedCapability example_host no_failure (harnessInvokeAdapter (at_moment request_example))
      (bridge_draft_of harness_example model_text) harness_options harness_started =
    (Inr (Governed_Execution.Success (JObj [(''ok'', JStr ''harness_stub'')]) r
       (request_for (bridge_draft_of harness_example model_text) harness_def hash) (adapter harness_def)), p)"
    using harness_run by blast
  let ?rq = "request_for (bridge_draft_of harness_example model_text) harness_def hash"
  let ?x = "Governed_Execution.Success (JObj [(''ok'', JStr ''harness_stub'')]) r ?rq (adapter harness_def)"
  let ?s = "harness_state_example\<lparr>process := p\<rparr>"
  note grown = harness_grown [OF run]
  have "execute_draft harness_example request_example model_text harness_state_example = (Inr ?x, ?s)"
    using run by (simp add: execute_draft_def harness_options_def harness_authority_def harness_started_def
        harness_state_example_def harness_example_def request_example_def split_beta Let_def)
  moreover have "fld (fld (exec_json ?x) ''request'') ''capability'' = JStr ''a''"
    by (simp add: exec_json_def request_json_def request_for_def bridge_draft_of_def model_text_def draft_of_def the_str_def)
  then have "\<not> is_clock (exec_json ?x)" by (simp add: is_clock_def TIME_GET_def)
  then have "report_execution harness_example ''call it'' model_text ?x ?s =
      (Inr (answer (JObj (record_fields (JObj [(''ok'', JBool True), (''mode'', JStr ''execution''),
        (''stage'', JStr ''executed''), (''request'', request_json ?rq), (''adapter'', adapter_json (adapter harness_def)),
        (''receipt'', r), (''output'', JObj [(''ok'', JStr ''harness_stub'')])])))), ?s)"
    using grown(2) by (simp add: report_execution_def tell_time_def Let_def buildExecutionSuccessBody_def
        assertValidatedExecutionSuccess_def) (simp add: exec_json_def)
  moreover have "ask_json harness_example (execution_prompt ''call it'' None) harness_state_example =
      (Inr (Some (json_print model_text)), harness_state_example)"
    by (simp add: ask_json_def llmJsonObject_def harness_example_def read_response_def is_null_or_undef_def
        extractResponsesApiText_def nonempty_text_def model_text_def draft_of_def harness_state_example_def)
  moreover have "json_print model_text \<noteq> []" by (simp add: model_text_def draft_of_def)
  ultimately have "execute_prompt harness_example request_example ''call it'' None harness_state_example =
      (Inr (answer (JObj (record_fields (JObj [(''ok'', JBool True), (''mode'', JStr ''execution''),
        (''stage'', JStr ''executed''), (''request'', request_json ?rq), (''adapter'', adapter_json (adapter harness_def)),
        (''receipt'', r), (''output'', JObj [(''ok'', JStr ''harness_stub'')])])))), ?s)"
    by (simp add: execute_prompt_def nonempty_text_def harness_shape)
  moreover have "generate_body harness_example request_example harness_state_example =
      execute_prompt harness_example request_example ''call it'' None harness_state_example"
  proof -
    have cred: "hasLlmCredentials (llm_vars harness_example) (Harness_Server.llm harness_example)"
      by (simp add: hasLlmCredentials_def harness_example_def trimmed_key_def trim_def is_ws_def)
    have b: "body request_example = JObj [(''prompt'', JStr ''call it'')]" by (simp add: request_example_def)
    have t: "trimmed_of (JStr ''call it'') = Some ''call it''" by (simp add: trimmed_of_def trim_def is_ws_def)
    show ?thesis
      by (simp add: generate_body_def cred b t harness_route sanitizeClientTimezone_def is_null_or_undef_def)
  qed
  ultimately have "generate harness_example request_example harness_state_example =
      (answer (JObj [(''ok'', JBool True), (''mode'', JStr ''execution''),
        (''stage'', JStr ''executed''), (''request'', request_json ?rq), (''adapter'', adapter_json (adapter harness_def)),
        (''receipt'', r), (''output'', JObj [(''ok'', JStr ''harness_stub'')])]), ?s)"
    by (simp add: generate_def caught_def record_fields_def)
  moreover have "p \<noteq> harness_proc" using grown(1) by auto
  ultimately show ?thesis using that by (simp add: answer_def)
qed

theorem process_changes_witness:
  "\<exists>trimmed raw shaped s' x. drafted harness_example request_example harness_state_example trimmed raw shaped
    \<and> is_str (fld shaped ''capability'')
    \<and> executeGovernedCapability example_host no_failure (harnessInvokeAdapter (at_moment request_example))
        (bridge_draft_of harness_example shaped) (host_options harness_example request_example harness_proc)
        (stamped harness_proc) = (x, process (s' :: unit harness_state))"
proof -
  obtain a s' where g: "generate harness_example request_example harness_state_example = (a, s')" "process s' \<noteq> harness_proc"
    using harness_generates by blast
  have p: "process harness_state_example = harness_proc" by (simp add: harness_state_example_def)
  have h: "governed_host harness_example = example_host" "receipt_outcome request_example = no_failure"
    by (simp_all add: harness_example_def request_example_def)
  from g(2) p have "process s' \<noteq> process harness_state_example" by simp
  from process_changes_only_by_governed_execution [OF g(1) this, unfolded p h] show ?thesis by blast
qed

theorem generate_success_witness:
  "\<exists>a s' r m au. generate harness_example request_example harness_state_example = (a, s')
    \<and> fld (content a) ''receipt'' = r \<and> receipts (gov (process s')) = receipts (gov harness_proc) @ [r]
    \<and> fld r ''stage'' = JStr ''executed'' \<and> checkAdmissionPolicy m au None = []
    \<and> resolved_authority_level au = resolveAdmissionAuthorityLevel harness_example"
proof -
  have p: "process harness_state_example = harness_proc" by (simp add: harness_state_example_def)
  obtain a s' where g: "generate harness_example request_example harness_state_example = (a, s')"
      "fld (content a) ''ok'' = JBool True" "fld (content a) ''mode'' = JStr ''execution''"
    using harness_generates by blast
  have "runtime_ok (gov (process harness_state_example))" using harness_gov_ok(2) p by simp
  from generate_success_is_governed [OF this g, unfolded p] g(1) show ?thesis by blast
qed

theorem repaired_draft_witness:
  "\<exists>j k n. json_parse (json_print model_text) = Some j \<and> k \<in> {''capability'', ''name'', ''capability_name''}
     \<and> fld j k = JStr n \<and> (''a'' = n \<or> ''a'' = trim n)"
proof -
  have "fld model_text ''capability'' = JStr ''a''" by (simp add: model_text_def draft_of_def)
  from repaired_draft_names_no_other_capability [OF harness_shape this] show ?thesis
    by (simp add: TIME_GET_def)
qed

end
