(* ===== verification/JS_Double.thy ===== *)
theory JS_Double
  imports Complex_Main JSON_Text
begin

text \<open>
  The arithmetic of JavaScript numbers. A number is the shortest decimal that denotes its double, as in
  \<open>JSON_Value\<close>; \<open>exact\<close> is the exact value of the double, \<open>round_double\<close> rounds a rational number to a double,
  to nearest with ties to even, and \<open>num_of\<close> goes back to the shortest decimal. Every operation computes with
  exact values and rounds once, as the standard prescribes.
\<close>

subsection \<open>Fractions\<close>

text \<open>Exact values are fractions with a positive denominator; \<open>fval\<close> is the number.\<close>

type_synonym frac = "int \<times> int"

definition fval :: "frac \<Rightarrow> real" where
  "fval x = of_int (fst x) / of_int (snd x)"

definition frac_less :: "frac \<Rightarrow> frac \<Rightarrow> bool" where
  "frac_less x y = (fst x * snd y < fst y * snd x)"

definition frac_same :: "frac \<Rightarrow> frac \<Rightarrow> bool" where
  "frac_same x y = (fst x * snd y = fst y * snd x)"

definition frac_abs :: "frac \<Rightarrow> frac" where
  "frac_abs x = (\<bar>fst x\<bar>, snd x)"

definition frac_add :: "frac \<Rightarrow> frac \<Rightarrow> frac" where
  "frac_add x y = (fst x * snd y + fst y * snd x, snd x * snd y)"

definition frac_mult :: "frac \<Rightarrow> frac \<Rightarrow> frac" where
  "frac_mult x y = (fst x * fst y, snd x * snd y)"

definition frac_div :: "frac \<Rightarrow> frac \<Rightarrow> frac" where
  "frac_div x y = (fst x * snd y * sgn (fst y), snd x * \<bar>fst y\<bar>)"

text \<open>The product with \<open>b ^ k\<close>.\<close>

definition scale :: "int \<Rightarrow> int \<Rightarrow> frac \<Rightarrow> frac" where
  "scale b k x = (fst x * b ^ nat k, snd x * b ^ nat (- k))"

definition frac_floor :: "frac \<Rightarrow> int" where
  "frac_floor x = fst x div snd x"

subsection \<open>Rounding to a double\<close>

definition half_even :: "frac \<Rightarrow> int" where
  "half_even x =
     (let q = fst x div snd x; r = 2 * (fst x mod snd x)
      in if r < snd x \<or> (r = snd x \<and> even q) then q else q + 1)"

text \<open>The number of digits of \<open>n\<close> in base \<open>b\<close>.\<close>

function digits_in :: "int \<Rightarrow> int \<Rightarrow> int" where
  "digits_in b n = (if 1 < b \<and> 0 < n then digits_in b (n div b) + 1 else 0)"
  by pat_completeness auto
termination
  by (relation "measure (nat \<circ> snd)") (auto intro: int_div_less_self)

text \<open>The largest \<open>k\<close> with \<open>b ^ k \<le> x\<close>, for a positive \<open>x\<close>; the lengths of numerator and denominator leave two candidates.\<close>

definition exponent :: "int \<Rightarrow> frac \<Rightarrow> int" where
  "exponent b x =
     (let k = digits_in b (fst x) - digits_in b (snd x)
      in if frac_less x (scale b k (1, 1)) then k - 1 else k)"

text \<open>
  The doubles around \<open>x\<close> are multiples of \<open>2 ^ grid x\<close>: 53 significant bits, above the smallest subnormal number.
\<close>

definition grid :: "frac \<Rightarrow> int" where
  "grid x = max (exponent 2 (frac_abs x) - 52) (- 1074)"

definition round_double :: "frac \<Rightarrow> frac" where
  "round_double x =
     (if fst x = 0 then (0, 1)
      else let k = grid x in scale 2 k (half_even (scale 2 (- k) x), 1))"

subsection \<open>The shortest decimal\<close>

text \<open>A decimal \<open>(m, t)\<close> is \<open>m * 10 ^ t\<close>. The two decimals of \<open>p\<close> digits around a positive \<open>x\<close>, the nearer one first.\<close>

definition decimals :: "frac \<Rightarrow> nat \<Rightarrow> (int \<times> int) list" where
  "decimals x p =
     (let t = exponent 10 x - int p + 1; y = scale 10 (- t) x; m = half_even y
      in [(m, t), (2 * frac_floor y + 1 - m, t)])"

definition denotes :: "frac \<Rightarrow> int \<times> int \<Rightarrow> bool" where
  "denotes x d = frac_same (round_double (scale 10 (snd d) (fst d, 1))) x"

text \<open>The first number of digits from \<open>p\<close> on, with \<open>n\<close> tries; seventeen digits are always enough (\<open>shortest_exact\<close>).\<close>

fun shortest_from :: "nat \<Rightarrow> nat \<Rightarrow> frac \<Rightarrow> (int \<times> int) option" where
  "shortest_from 0 p x = None"
| "shortest_from (Suc n) p x =
     (case find (denotes x) (decimals x p) of Some d \<Rightarrow> Some d | None \<Rightarrow> shortest_from n (Suc p) x)"

definition shortest :: "frac \<Rightarrow> jsnum" where
  "shortest x =
     (case shortest_from 17 1 (frac_abs x) of
        None \<Rightarrow> NumNaN
      | Some (m, t) \<Rightarrow> norm_dec (if fst x < 0 then - m else m) t)"

definition signed_zero :: "bool \<Rightarrow> jsnum" where
  "signed_zero neg = (if neg then NumNegZero else NumDec 0 0)"

text \<open>The number for a double; what is too large is infinite.\<close>

definition num_of :: "frac \<Rightarrow> jsnum" where
  "num_of x =
     (if fst x = 0 then NumDec 0 0
      else if \<not> frac_less (frac_abs x) (2 ^ 1024, 1) then NumInf (fst x < 0) else shortest x)"

definition rounded :: "frac \<Rightarrow> jsnum" where
  "rounded x = num_of (round_double x)"

subsection \<open>Operators\<close>

fun exact :: "jsnum \<Rightarrow> frac" where
  "exact (NumDec m e) = round_double (scale 10 e (m, 1))"
| "exact n = (0, 1)"

fun is_negative :: "jsnum \<Rightarrow> bool" where
  "is_negative NumNaN = False"
| "is_negative (NumInf neg) = neg"
| "is_negative NumNegZero = True"
| "is_negative (NumDec m e) = (m < 0)"

definition is_infinite :: "jsnum \<Rightarrow> bool" where
  "is_infinite n = (n = NumInf True \<or> n = NumInf False)"

definition is_zero :: "jsnum \<Rightarrow> bool" where
  "is_zero n = (n = NumNegZero \<or> n = NumDec 0 0)"

fun num_neg :: "jsnum \<Rightarrow> jsnum" where
  "num_neg NumNaN = NumNaN"
| "num_neg (NumInf neg) = NumInf (\<not> neg)"
| "num_neg NumNegZero = NumDec 0 0"
| "num_neg (NumDec m e) = (if m = 0 then NumNegZero else NumDec (- m) e)"

fun num_add :: "jsnum \<Rightarrow> jsnum \<Rightarrow> jsnum" where
  "num_add NumNaN b = NumNaN"
| "num_add a NumNaN = NumNaN"
| "num_add (NumInf s) (NumInf t) = (if s = t then NumInf s else NumNaN)"
| "num_add (NumInf s) b = NumInf s"
| "num_add a (NumInf t) = NumInf t"
| "num_add NumNegZero NumNegZero = NumNegZero"
| "num_add a b = rounded (frac_add (exact a) (exact b))"

definition num_sub :: "jsnum \<Rightarrow> jsnum \<Rightarrow> jsnum" where
  "num_sub a b = num_add a (num_neg b)"

text \<open>A product or quotient that rounds to zero keeps its sign.\<close>

definition rounded_signed :: "bool \<Rightarrow> frac \<Rightarrow> jsnum" where
  "rounded_signed neg x = (if fst (round_double x) = 0 then signed_zero neg else rounded x)"

definition num_mult :: "jsnum \<Rightarrow> jsnum \<Rightarrow> jsnum" where
  "num_mult a b =
     (let neg = (is_negative a \<noteq> is_negative b)
      in if a = NumNaN \<or> b = NumNaN then NumNaN
         else if is_infinite a \<or> is_infinite b then (if is_zero a \<or> is_zero b then NumNaN else NumInf neg)
         else rounded_signed neg (frac_mult (exact a) (exact b)))"

definition num_div :: "jsnum \<Rightarrow> jsnum \<Rightarrow> jsnum" where
  "num_div a b =
     (let neg = (is_negative a \<noteq> is_negative b)
      in if a = NumNaN \<or> b = NumNaN then NumNaN
         else if is_infinite a then (if is_infinite b then NumNaN else NumInf neg)
         else if is_infinite b then signed_zero neg
         else if is_zero b then (if is_zero a then NumNaN else NumInf neg)
         else rounded_signed neg (frac_div (exact a) (exact b)))"

fun num_less :: "jsnum \<Rightarrow> jsnum \<Rightarrow> bool" where
  "num_less NumNaN b = False"
| "num_less a NumNaN = False"
| "num_less (NumInf s) b = (s \<and> b \<noteq> NumInf True)"
| "num_less a (NumInf t) = (\<not> t)"
| "num_less a b = frac_less (exact a) (exact b)"

fun num_le :: "jsnum \<Rightarrow> jsnum \<Rightarrow> bool" where
  "num_le NumNaN b = False"
| "num_le a NumNaN = False"
| "num_le a b = (\<not> num_less b a)"

subsection \<open>Functions of \<open>Math\<close>, and numbers as text\<close>

text \<open>\<open>Math.max\<close> and \<open>Math.min\<close> of two numbers; the zeros are ordered.\<close>

definition num_max :: "jsnum \<Rightarrow> jsnum \<Rightarrow> jsnum" where
  "num_max a b =
     (if a = NumNaN \<or> b = NumNaN then NumNaN
      else if num_less a b \<or> a = NumNegZero \<and> is_zero b then b else a)"

definition num_min :: "jsnum \<Rightarrow> jsnum \<Rightarrow> jsnum" where
  "num_min a b =
     (if a = NumNaN \<or> b = NumNaN then NumNaN
      else if num_less b a \<or> b = NumNegZero \<and> is_zero a then b else a)"

fun num_floor :: "jsnum \<Rightarrow> jsnum" where
  "num_floor (NumDec m e) = num_of (frac_floor (exact (NumDec m e)), 1)"
| "num_floor n = n"

fun num_ceil :: "jsnum \<Rightarrow> jsnum" where
  "num_ceil (NumDec m e) =
     (let x = exact (NumDec m e); c = - frac_floor (- fst x, snd x)
      in if c = 0 \<and> m < 0 then NumNegZero else num_of (c, 1))"
| "num_ceil n = n"

text \<open>
  The largest \<open>r\<close> with \<open>r * r \<le> n\<close>, bit by bit; the square root of a double takes 62 bits of the
  root and records in one more bit whether it is exact, which is enough to round it correctly.
\<close>

fun root_from :: "nat \<Rightarrow> int \<Rightarrow> int \<Rightarrow> int" where
  "root_from 0 r n = r"
| "root_from (Suc i) r n = root_from i (if (r + 2 ^ i) * (r + 2 ^ i) \<le> n then r + 2 ^ i else r) n"

definition root_double :: "frac \<Rightarrow> frac" where
  "root_double x =
     (let j = 60 - exponent 2 x div 2; y = scale 4 j x; r = root_from 62 0 (frac_floor y)
      in round_double (scale 2 (- j) (if frac_same (r * r, 1) y then (r, 1) else (2 * r + 1, 2))))"

fun num_sqrt :: "jsnum \<Rightarrow> jsnum" where
  "num_sqrt (NumDec m e) =
     (if m < 0 then NumNaN else if m = 0 then NumDec 0 0 else num_of (root_double (exact (NumDec m e))))"
| "num_sqrt (NumInf neg) = (if neg then NumNaN else NumInf False)"
| "num_sqrt n = n"

text \<open>\<open>+x.toFixed(2)\<close>: of two nearest numbers of hundredths the one away from zero.\<close>

definition fixed2 :: "jsnum \<Rightarrow> jsnum" where
  "fixed2 n =
     (case n of
        NumDec m e \<Rightarrow>
          (let x = frac_abs (exact n); c = frac_floor (frac_add (frac_mult x (100, 1)) (1, 2))
           in if \<not> frac_less x (10 ^ 21, 1) then n
              else if m < 0 then num_neg (rounded (c, 100)) else rounded (c, 100))
      | NumNegZero \<Rightarrow> NumDec 0 0
      | _ \<Rightarrow> n)"

text \<open>\<open>parseInt(s, 10)\<close>: an optional sign and the longest run of digits after white space.\<close>

definition parse_int :: "string \<Rightarrow> jsnum" where
  "parse_int s =
     (let t = dropWhile is_ws s;
          neg = (t \<noteq> [] \<and> hd t = CHR ''-'');
          ds = takeWhile is_digit (if t \<noteq> [] \<and> (hd t = CHR ''-'' \<or> hd t = CHR ''+'') then tl t else t);
          v = rounded (int (nat_of_digits ds), 1)
      in if ds = [] then NumNaN else if neg then num_neg v else v)"

end
