(* ===== verification/Zak_Sigil.thy ===== *)
theory Zak_Sigil
  imports Proxy_Frames JS_Double SHA256
begin

text \<open>
  The zero-asset kernel's sigils and their validator, \<open>zak-core/src/kernel/validator.ts\<close>. The body of a sigil is
  a JSON document, as the scripts read it from a file: the validator inspects it dynamically, so a member that is
  missing or has another type gives the value that JavaScript computes, or an exception.
\<close>

subsection \<open>Dynamic access\<close>

definition type_error :: message where
  "type_error = ''TypeError''"

text \<open>Reading a property of \<open>undefined\<close> or \<open>null\<close> throws; destructuring an object reads its properties.\<close>

definition prop_of :: "json \<Rightarrow> string \<Rightarrow> json result" where
  "prop_of v k = (if is_null_or_undef v then Inl type_error else Inr (fld v k))"

text \<open>\<open>ToNumber\<close>; an array or an object is converted through its string.\<close>

fun to_number :: "json \<Rightarrow> jsnum" where
  "to_number JUndef = NumNaN"
| "to_number JNull = NumDec 0 0"
| "to_number (JBool b) = (if b then NumDec 1 0 else NumDec 0 0)"
| "to_number (JNum n) = n"
| "to_number (JBig i) = norm_dec i 0"
| "to_number v = js_number (js_string v)"

text \<open>The items of a \<open>for ... of\<close> loop or of a destructured array: arrays and strings can be iterated.\<close>

definition items_of :: "json \<Rightarrow> json list result" where
  "items_of v =
     (case v of JArr xs \<Rightarrow> Inr xs | JStr s \<Rightarrow> Inr (map (\<lambda>c. JStr [c]) s) | _ \<Rightarrow> Inl type_error)"

definition length_of :: "json \<Rightarrow> json result" where
  "length_of v =
     (case v of
        JArr xs \<Rightarrow> Inr (JNum (norm_dec (int (length xs)) 0))
      | JStr s \<Rightarrow> Inr (JNum (norm_dec (int (length s)) 0))
      | _ \<Rightarrow> prop_of v ''length'')"

definition item_at :: "json list \<Rightarrow> nat \<Rightarrow> json" where
  "item_at xs i = (if i < length xs then xs ! i else JUndef)"

subsection \<open>Sigils\<close>

record sigil_meta =
  sigil_id :: string
  sigil_version :: jsnum
  author_signature :: string
  content_hash :: string
  created_at :: jsnum

record sigil =
  sigil_meta :: sigil_meta
  sigil_body :: json

text \<open>
  The private printer of the validator, and of the tuner: the keys are sorted, and they are not escaped. Inside
  an array \<open>undefined\<close> is joined as the empty string, as a property it is interpolated.
\<close>

fun canonicalStringify :: "json \<Rightarrow> string"
  and canonical_elems :: "json list \<Rightarrow> string list"
  and canonical_members :: "(string \<times> json) list \<Rightarrow> (string \<times> string) list" where
  "canonicalStringify (JArr xs) = ''['' @ join '','' (canonical_elems xs) @ '']''"
| "canonicalStringify (JObj kvs) =
     ''{'' @ join '','' (map snd (sort_key fst (canonical_members kvs))) @ ''}''"
| "canonicalStringify v = json_print v"
| "canonical_elems [] = []"
| "canonical_elems (x # xs) = (if x = JUndef then [] else canonicalStringify x) # canonical_elems xs"
| "canonical_members [] = []"
| "canonical_members ((k, v) # kvs) =
     (k, CHR 0x22 # k @ [CHR 0x22] @ '':'' @ canonicalStringify v) # canonical_members kvs"

text \<open>\<open>JSON.stringify\<close> throws on a \<open>BigInt\<close>, and hashing \<open>undefined\<close> throws.\<close>

definition computeCanonicalHash :: "json \<Rightarrow> string result" where
  "computeCanonicalHash b =
     (if has_bigint b then Inl bigint_error
      else if b = JUndef then Inl type_error
      else Inr (sha256Hex (canonicalStringify b)))"

subsection \<open>The law\<close>

definition MAX_VECTORS :: jsnum where
  "MAX_VECTORS = NumDec 8 0"

definition MAX_VECTOR_MAGNITUDE :: jsnum where
  "MAX_VECTOR_MAGNITUDE = NumDec 10001 (- 4)"

definition ALLOWED_TOPOLOGIES :: "string list" where
  "ALLOWED_TOPOLOGIES = [''closed'', ''open'', ''porous'', ''directed'']"

definition INVARIANT_REGISTRY :: "string list" where
  "INVARIANT_REGISTRY =
     [''OUTPUT_LIMIT_WORDS'', ''REFUSE_EXTERNAL_TOOLS'', ''REFUSE_PERSONAL_OPINION'', ''STRICT_FORMAT_JSON'',
      ''STRICT_FORMAT_MARKDOWN'']"

text \<open>The bands of \<open>BAND_LIMITS\<close>: the ceiling of an amplitude by its base frequency.\<close>

definition band_ceiling :: "jsnum \<Rightarrow> jsnum" where
  "band_ceiling f =
     (if num_le f (NumDec 1 2) then NumDec 1 0
      else if num_le f (NumDec 5 2) then NumDec 8 (- 1)
      else NumDec 6 (- 1))"

definition magnitude :: "jsnum \<Rightarrow> jsnum \<Rightarrow> jsnum \<Rightarrow> jsnum" where
  "magnitude x y z = num_sqrt (num_add (num_add (num_mult x x) (num_mult y y)) (num_mult z z))"

text \<open>A verdict is the reason of a rejection, or none.\<close>

type_synonym verdict = "string option"

definition vector_too_long :: "json \<Rightarrow> bool result" where
  "vector_too_long v =
     bind_result (items_of v) (\<lambda>c. Inr (num_less MAX_VECTOR_MAGNITUDE
       (magnitude (to_number (item_at c 0)) (to_number (item_at c 1)) (to_number (item_at c 2)))))"

fun check_vectors :: "json list \<Rightarrow> verdict result" where
  "check_vectors [] = Inr None"
| "check_vectors (v # vs) =
     bind_result (vector_too_long v) (\<lambda>long. if long then Inr (Some ''Vector magnitude overflow'') else check_vectors vs)"

definition invariant_key :: "json \<Rightarrow> string result" where
  "invariant_key v = (case v of JStr s \<Rightarrow> Inr (hd (split_on (CHR '':'') s)) | _ \<Rightarrow> Inl type_error)"

fun check_invariants :: "json list \<Rightarrow> verdict result" where
  "check_invariants [] = Inr None"
| "check_invariants (v # vs) =
     bind_result (invariant_key v) (\<lambda>k.
       if k \<in> set INVARIANT_REGISTRY then check_invariants vs else Inr (Some (''Unknown invariant '' @ k)))"

text \<open>The next check runs when the one before found nothing.\<close>

definition and_check :: "verdict result \<Rightarrow> verdict result \<Rightarrow> verdict result" where
  "and_check a b = bind_result a (\<lambda>r. case r of None \<Rightarrow> b | Some e \<Rightarrow> Inr (Some e))"

definition check_geometry :: "json \<Rightarrow> verdict result" where
  "check_geometry b =
     bind_result (prop_of b ''geometry'') (\<lambda>g.
     bind_result (prop_of g ''vectors'') (\<lambda>vectors.
     let topology = fld g ''topology''
     in if topology \<notin> JStr ` set ALLOWED_TOPOLOGIES then Inr (Some (''Invalid topology '' @ js_string topology))
        else bind_result (length_of vectors) (\<lambda>n.
          if num_less MAX_VECTORS (to_number n) then Inr (Some ''Too many vectors'')
          else bind_result (items_of vectors) check_vectors)))"

definition check_resonance :: "json \<Rightarrow> verdict result" where
  "check_resonance b =
     bind_result (prop_of b ''resonance'') (\<lambda>r.
     bind_result (prop_of r ''base_frequency'') (\<lambda>f.
       if num_less (band_ceiling (to_number f)) (to_number (fld r ''amplitude''))
       then Inr (Some ''Amplitude exceeds band ceiling'') else Inr None))"

definition check_field_effect :: "json \<Rightarrow> verdict result" where
  "check_field_effect b =
     bind_result (prop_of b ''field_effect'') (\<lambda>e.
     bind_result (prop_of e ''invariants'') (\<lambda>is.
     bind_result (items_of is) check_invariants))"

text \<open>\<open>ZAKValidator.validate\<close>; an exception of a check leaves the validator.\<close>

definition zak_validate :: "sigil \<Rightarrow> verdict result" where
  "zak_validate s =
     bind_result (computeCanonicalHash (sigil_body s)) (\<lambda>computed.
       if computed \<noteq> content_hash (sigil_meta s)
       then Inr (Some (''Hash mismatch: '' @ computed @ '' != '' @ content_hash (sigil_meta s)))
       else and_check (check_geometry (sigil_body s))
              (and_check (check_resonance (sigil_body s)) (check_field_effect (sigil_body s))))"

end
