(* ===== verification/Zak_Compiler.thy ===== *)
theory Zak_Compiler
  imports Zak_Sigil
begin

text \<open>
  The compiler of sigils into an execution manifest, \<open>zak-core/src/kernel/compiler.ts\<close>. It reads the members that
  the interface \<open>Sigil\<close> declares; \<open>compiled_view\<close> takes them from a body that has the declared types.
\<close>

subsection \<open>Data\<close>

datatype response_format = Text_format | Json_object

record io_gates =
  allow_tools :: bool
  allow_rag :: bool
  response_format :: response_format

record engine_options =
  temperature :: jsnum
  top_p :: jsnum
  top_k :: jsnum
  repeat_penalty :: jsnum
  max_tokens :: "jsnum option"
  logit_bias :: "(string \<times> json) list option"

record manifest =
  engine :: engine_options
  io_gates :: io_gates

record compiled_sigil =
  cs_id :: string
  cs_topology :: string
  cs_roughness :: jsnum
  cs_frequency :: jsnum
  cs_amplitude :: jsnum
  cs_invariants :: "string list"

text \<open>The members of a body that has the declared types.\<close>

definition as_str :: "json \<Rightarrow> string option" where
  "as_str v = (case v of JStr s \<Rightarrow> Some s | _ \<Rightarrow> None)"

definition as_num :: "json \<Rightarrow> jsnum option" where
  "as_num v = (case v of JNum n \<Rightarrow> Some n | _ \<Rightarrow> None)"

fun as_strs :: "json list \<Rightarrow> string list option" where
  "as_strs [] = Some []"
| "as_strs (v # vs) =
     (case as_str v of None \<Rightarrow> None | Some s \<Rightarrow> map_option ((#) s) (as_strs vs))"

definition compiled_view :: "sigil \<Rightarrow> compiled_sigil option" where
  "compiled_view s =
     (let b = sigil_body s
      in case (as_str (fld (fld b ''geometry'') ''topology''), as_num (fld (fld b ''material'') ''roughness''),
               as_num (fld (fld b ''resonance'') ''base_frequency''), as_num (fld (fld b ''resonance'') ''amplitude''),
               case fld (fld b ''field_effect'') ''invariants'' of JArr xs \<Rightarrow> as_strs xs | _ \<Rightarrow> None) of
           (Some t, Some r, Some f, Some a, Some is) \<Rightarrow>
             Some \<lparr>cs_id = sigil_id (sigil_meta s), cs_topology = t, cs_roughness = r, cs_frequency = f,
                   cs_amplitude = a, cs_invariants = is\<rparr>
         | _ \<Rightarrow> None)"

subsection \<open>The order of the sigils\<close>

definition band_of :: "jsnum \<Rightarrow> nat" where
  "band_of f = (if num_le f (NumDec 1 2) then 0 else if num_le f (NumDec 5 2) then 1 else 2)"

text \<open>
  Whether the comparator puts \<open>a\<close> after \<open>b\<close>: by band, by falling amplitude, by identifier. A difference that is not a
  number counts as equal.
\<close>

definition num_differs :: "jsnum \<Rightarrow> jsnum \<Rightarrow> bool" where
  "num_differs a b = (a = NumNaN \<or> b = NumNaN \<or> \<not> num_same a b)"

definition comes_after :: "compiled_sigil \<Rightarrow> compiled_sigil \<Rightarrow> bool" where
  "comes_after a b =
     (if band_of (cs_frequency a) \<noteq> band_of (cs_frequency b) then band_of (cs_frequency b) < band_of (cs_frequency a)
      else if num_differs (cs_amplitude b) (cs_amplitude a) then
        num_less (NumDec 0 0) (num_sub (cs_amplitude b) (cs_amplitude a))
      else cs_id b < cs_id a)"

text \<open>A stable sort: an item is put behind those that it comes after and those that were there before.\<close>

fun place :: "compiled_sigil \<Rightarrow> compiled_sigil list \<Rightarrow> compiled_sigil list" where
  "place x [] = [x]"
| "place x (y # ys) = (if comes_after x y then y # place x ys else x # y # ys)"

definition sort_sigils :: "compiled_sigil list \<Rightarrow> compiled_sigil list" where
  "sort_sigils xs = foldr place xs []"

subsection \<open>The manifest\<close>

definition materialPhysics :: "jsnum \<Rightarrow> engine_options" where
  "materialPhysics r =
     \<lparr>temperature = num_max (NumDec 1 (- 1)) (fixed2 (num_sub (NumDec 1 0) (num_mult r (NumDec 9 (- 1))))),
      top_p = num_max (NumDec 5 (- 1)) (fixed2 (num_sub (NumDec 1 0) (num_mult r (NumDec 5 (- 1))))),
      top_k = num_floor (num_sub (NumDec 1 2) (num_mult r (NumDec 8 1))),
      repeat_penalty = fixed2 (num_add (NumDec 1 0) (num_mult r (NumDec 2 (- 1)))),
      max_tokens = None, logit_bias = None\<rparr>"

text \<open>What the loop over the sigils accumulates.\<close>

record compile_state =
  maxRoughness :: jsnum
  minWords :: jsnum
  allowTools :: bool
  allowRag :: bool
  forceJson :: bool
  opinions_refused :: bool

definition compile_start :: compile_state where
  "compile_start =
     \<lparr>maxRoughness = NumDec 0 0, minWords = NumInf False, allowTools = True, allowRag = True, forceJson = False,
      opinions_refused = False\<rparr>"

definition compile_invariant :: "string \<Rightarrow> compile_state \<Rightarrow> compile_state" where
  "compile_invariant rule_text st =
     (let parts = split_on (CHR '':'') rule_text; key = hd parts; param = (if length parts < 2 then [] else parts ! 1);
          st1 = (if key = ''OUTPUT_LIMIT_WORDS'' \<and> param \<noteq> []
                 then st\<lparr>minWords := num_min (minWords st) (parse_int param)\<rparr> else st)
      in if key = ''REFUSE_PERSONAL_OPINION'' then st1\<lparr>opinions_refused := True\<rparr> else st1)"

definition compile_step :: "compiled_sigil \<Rightarrow> compile_state \<Rightarrow> compile_state" where
  "compile_step s st =
     (let closed = (cs_topology s = ''closed'' \<or> cs_topology s = ''directed'');
          st1 = st\<lparr>maxRoughness := num_max (maxRoughness st) (cs_roughness s),
                   allowTools := (allowTools st \<and> \<not> closed), allowRag := (allowRag st \<and> \<not> closed),
                   forceJson := (forceJson st \<or> cs_topology s = ''directed'')\<rparr>
      in fold compile_invariant (cs_invariants s) st1)"

definition opinion_bias :: "(string \<times> json) list" where
  "opinion_bias = [(''I think'', JNum (NumDec (- 1) 2)), (''I feel'', JNum (NumDec (- 1) 2))]"

definition manifest_of :: "compile_state \<Rightarrow> manifest" where
  "manifest_of st =
     \<lparr>engine = (materialPhysics (maxRoughness st))
        \<lparr>max_tokens := if minWords st \<noteq> NumInf False then Some (num_ceil (num_mult (minWords st) (NumDec 13 (- 1)))) else None,
         logit_bias := if opinions_refused st then Some opinion_bias else None\<rparr>,
      io_gates = \<lparr>allow_tools = allowTools st, allow_rag = allowRag st,
        response_format = if forceJson st then Json_object else Text_format\<rparr>\<rparr>"

definition compileContext :: "compiled_sigil list \<Rightarrow> manifest" where
  "compileContext sigils = manifest_of (fold compile_step (sort_sigils sigils) compile_start)"

end
