(* ===== verification/Zak_Runner.thy ===== *)
theory Zak_Runner
  imports Zak_Compiler
begin

text \<open>
  The runner of a compiled manifest, \<open>zak-core/src/kernel/runner.ts\<close>. The engine adapter is a parameter with a state
  of its own; the three readings of the clock are arguments. The line that is written to the standard output is
  part of the result.
\<close>

subsection \<open>Data\<close>

record 's llm_engine =
  tokenize :: "string \<Rightarrow> 's \<Rightarrow> jsnum list result \<times> 's"
  generate_text :: "string \<Rightarrow> engine_options \<Rightarrow> 's \<Rightarrow> string result \<times> 's"

record run_audit =
  audit_correlation :: string
  audit_timestamp :: int
  audit_duration :: int
  audit_gates :: io_gates
  audit_actions :: "string list"

record runner_result =
  run_ok :: bool
  run_text :: "string option"
  refusal :: "string option"
  run_audit :: run_audit

text \<open>The readings of the clock: at the start, for the time stamp and for the duration.\<close>

record run_clock =
  clock_start :: int
  clock_stamp :: int
  clock_end :: int

subsection \<open>Logit bias\<close>

text \<open>\<open>translatedBias[token.toString()] = bias\<close> for every token of a phrase.\<close>

definition bias_tokens :: "json \<Rightarrow> jsnum list \<Rightarrow> (string \<times> json) list \<Rightarrow> (string \<times> json) list" where
  "bias_tokens bias tokens out = fold (\<lambda>t. obj_assign (num_print t) bias) tokens out"

fun translate_bias ::
  "'s llm_engine \<Rightarrow> (string \<times> json) list \<Rightarrow> (string \<times> json) list \<Rightarrow> 's \<Rightarrow> (string \<times> json) list result \<times> 's" where
  "translate_bias a [] out s = (Inr out, s)"
| "translate_bias a ((phrase, bias) # more_phrases) out s =
     (case tokenize a phrase s of
        (Inl e, s') \<Rightarrow> (Inl e, s')
      | (Inr tokens, s') \<Rightarrow> translate_bias a more_phrases (bias_tokens bias tokens out) s')"

subsection \<open>What is done with the text\<close>

text \<open>\<open>text.split(/\s+/)\<close> of a trimmed text: the runs of other characters, or the empty text alone.\<close>

function words_of :: "string \<Rightarrow> string list" where
  "words_of s =
     (let w = takeWhile (\<lambda>c. \<not> is_ws c) s; r = dropWhile (\<lambda>c. \<not> is_ws c) s
      in if r = [] then [w] else w # words_of (dropWhile is_ws r))"
  by pat_completeness auto
termination
proof (relation "measure length", goal_cases)
  case 1
  show ?case by simp
next
  case (2 s w r)
  then obtain c cs where r: "r = c # cs" unfolding neq_Nil_conv by blast
  then have "is_ws c" using dropWhile_hd [of "\<lambda>c. \<not> is_ws c" s] 2(2) by simp
  then have "length (dropWhile is_ws r) \<le> length cs" by (simp add: r length_dropWhile_le)
  moreover have "length r \<le> length s" using 2 by (simp add: length_dropWhile_le)
  ultimately show ?case using r by simp
qed

text \<open>\<open>text.substring(start, end + 1)\<close> between the first opening and the last closing brace.\<close>

definition braced_part :: "string \<Rightarrow> string option" where
  "braced_part t =
     (case (index_of (CHR ''{'') t, last_index_of (CHR ''}'') t) of
        (Some i, Some j) \<Rightarrow> if i < j then Some (take (j + 1 - i) (drop i t)) else None
      | _ \<Rightarrow> None)"

text \<open>The gate for JSON: the text that goes on, or the reason of a failure, with the actions that are recorded.\<close>

definition json_gate :: "response_format \<Rightarrow> string \<Rightarrow> string result \<times> string list" where
  "json_gate f t =
     (if f \<noteq> Json_object then (Inr t, [])
      else if json_parse t \<noteq> None then (Inr t, [''JSON_VALIDATED''])
      else case braced_part t of
        None \<Rightarrow> (Inl ''JSON_STRUCTURE_NOT_FOUND'', [''JSON_PARSE_FIRST_PASS_FAILED''])
      | Some p \<Rightarrow>
          if json_parse p \<noteq> None then (Inr p, [''JSON_PARSE_FIRST_PASS_FAILED'', ''JSON_REPAIRED_VIA_SUBSTRING''])
          else (Inl ''JSON_REPAIR_FAILED'', [''JSON_PARSE_FIRST_PASS_FAILED'']))"

text \<open>\<open>xs.slice(0, n)\<close> for a whole number \<open>n\<close>; a negative one counts from the end.\<close>

definition slice_front :: "jsnum \<Rightarrow> 'a list \<Rightarrow> 'a list" where
  "slice_front n xs =
     (case n of
        NumDec m e \<Rightarrow>
          (let k = frac_floor (exact n) in if k < 0 then take (nat (int (length xs) + k)) xs else take (nat k) xs)
      | NumInf neg \<Rightarrow> if neg then [] else xs
      | _ \<Rightarrow> [])"

definition word_limit :: "jsnum \<Rightarrow> jsnum" where
  "word_limit tokens = num_floor (num_div tokens (NumDec 13 (- 1)))"

definition cut_words :: "jsnum option \<Rightarrow> string \<Rightarrow> string \<times> string list" where
  "cut_words tokens t =
     (case tokens of
        None \<Rightarrow> (t, [])
      | Some n \<Rightarrow>
          if \<not> truthy (JNum n) then (t, [])
          else let limit = word_limit n; ws = words_of (trim t)
               in if num_less limit (norm_dec (int (length ws)) 0)
                  then (join '' '' (slice_front limit ws), [''WORD_LIMIT_ENFORCED_AT_'' @ num_print limit])
                  else (t, []))"

subsection \<open>The run\<close>

definition format_text :: "response_format \<Rightarrow> string" where
  "format_text f = (if f = Json_object then ''json_object'' else ''text'')"

definition whole_json :: "int \<Rightarrow> json" where
  "whole_json n = JNum (norm_dec n 0)"

definition audit_json :: "run_audit \<Rightarrow> json" where
  "audit_json a =
     JObj [(''correlationId'', JStr (audit_correlation a)), (''timestamp'', whole_json (audit_timestamp a)),
           (''duration_ms'', whole_json (audit_duration a)),
           (''gates'', JObj [(''allow_tools'', JBool (allow_tools (audit_gates a))),
              (''allow_rag'', JBool (allow_rag (audit_gates a))),
              (''response_format'', JStr (format_text (response_format (audit_gates a))))]),
           (''actions'', JArr (map JStr (audit_actions a)))]"

definition audit_of :: "manifest \<Rightarrow> string \<Rightarrow> run_clock \<Rightarrow> string list \<Rightarrow> run_audit" where
  "audit_of m corr clk actions =
     \<lparr>audit_correlation = corr, audit_timestamp = clock_stamp clk, audit_duration = clock_end clk - clock_start clk,
      audit_gates = io_gates m, audit_actions = actions\<rparr>"

definition run_failed :: "manifest \<Rightarrow> string \<Rightarrow> run_clock \<Rightarrow> string list \<Rightarrow> string \<Rightarrow> runner_result" where
  "run_failed m corr clk actions reason =
     \<lparr>run_ok = False, run_text = None, refusal = Some ''Execution refused: protocol or security violation.'',
      run_audit = audit_of m corr clk (actions @ [''FAILURE: '' @ reason])\<rparr>"

definition run_done :: "manifest \<Rightarrow> string \<Rightarrow> run_clock \<Rightarrow> string list \<Rightarrow> string \<Rightarrow> runner_result" where
  "run_done m corr clk actions t =
     \<lparr>run_ok = True, run_text = Some t, refusal = None, run_audit = audit_of m corr clk actions\<rparr>"

text \<open>From the generated text to the result.\<close>

definition post_process :: "manifest \<Rightarrow> string \<Rightarrow> run_clock \<Rightarrow> string list \<Rightarrow> string \<Rightarrow> runner_result" where
  "post_process m corr clk actions t =
     (case json_gate (response_format (io_gates m)) t of
        (Inl reason, more_actions) \<Rightarrow> run_failed m corr clk (actions @ more_actions) reason
      | (Inr t1, more_actions) \<Rightarrow>
          (case cut_words (max_tokens (engine m)) t1 of
             (t2, cut_actions) \<Rightarrow> run_done m corr clk (actions @ more_actions @ cut_actions) t2))"

definition runtime_error :: "manifest \<Rightarrow> string \<Rightarrow> run_clock \<Rightarrow> string list \<Rightarrow> message \<Rightarrow> runner_result" where
  "runtime_error m corr clk actions e = run_failed m corr clk actions (''RUNTIME_ERROR: '' @ e)"

text \<open>The options that the engine gets: the phrases of the bias are replaced by their tokens.\<close>

definition engine_call ::
  "'s llm_engine \<Rightarrow> manifest \<Rightarrow> 's \<Rightarrow> (engine_options \<times> string list) result \<times> 's" where
  "engine_call a m s =
     (case logit_bias (engine m) of
        None \<Rightarrow> (Inr (engine m, [''START_EXECUTION'']), s)
      | Some phrases \<Rightarrow>
          (case translate_bias a phrases [] s of
             (Inl e, s') \<Rightarrow> (Inl e, s')
           | (Inr bias, s') \<Rightarrow>
               (Inr ((engine m)\<lparr>logit_bias := Some bias\<rparr>, [''START_EXECUTION'', ''LOGIT_BIAS_TRANSLATED'']), s')))"

definition zak_execute ::
  "'s llm_engine \<Rightarrow> manifest \<Rightarrow> string \<Rightarrow> string \<Rightarrow> run_clock \<Rightarrow> 's \<Rightarrow> runner_result \<times> 's" where
  "zak_execute a m prompt corr clk s =
     (case engine_call a m s of
        (Inl e, s1) \<Rightarrow> (runtime_error m corr clk [''START_EXECUTION''] e, s1)
      | (Inr (opts, actions), s1) \<Rightarrow>
          (case generate_text a prompt opts s1 of
             (Inl e, s2) \<Rightarrow> (runtime_error m corr clk actions e, s2)
           | (Inr t, s2) \<Rightarrow> (post_process m corr clk (actions @ [''GENERATION_COMPLETE'']) t, s2)))"

text \<open>The line that every run writes.\<close>

definition run_line :: "runner_result \<Rightarrow> string" where
  "run_line r = json_print (audit_json (run_audit r)) @ [CHR 0x0A]"

end
