(* ===== verification/Zak_Hosts.thy ===== *)
theory Zak_Hosts
  imports Zak_Runner
begin

text \<open>
  The hosts of the kernel: the engine adapters of \<open>zak-core/src/adapters\<close>, the pilot server \<open>zak-core/src/ui/server.ts\<close>,
  and the bridge and the server of \<open>zak-core/zak-zem/backend/src\<close>. The model library, \<open>fetch\<close>, the files and the
  random numbers are parameters; a handler gives the status and the body of its answer, or an exception.
\<close>

subsection \<open>The manifest as JSON\<close>

text \<open>The members in the order in which the compiler creates them.\<close>

definition engine_members :: "engine_options \<Rightarrow> (string \<times> json) list" where
  "engine_members e =
     [(''temperature'', JNum (temperature e)), (''repeat_penalty'', JNum (repeat_penalty e)),
      (''top_p'', JNum (top_p e)), (''top_k'', JNum (top_k e))]
     @ (case max_tokens e of None \<Rightarrow> [] | Some n \<Rightarrow> [(''max_tokens'', JNum n)])
     @ (case logit_bias e of None \<Rightarrow> [] | Some b \<Rightarrow> [(''logit_bias'', JObj b)])"

definition manifest_json :: "manifest \<Rightarrow> json" where
  "manifest_json m =
     JObj [(''engine'', JObj (engine_members (engine m))),
           (''io_gates'', JObj [(''allow_tools'', JBool (allow_tools (io_gates m))),
              (''allow_rag'', JBool (allow_rag (io_gates m))),
              (''response_format'', JStr (format_text (response_format (io_gates m))))])]"

text \<open>A sigil file, for a document that has the declared types of the metadata.\<close>

definition sigil_of_json :: "json \<Rightarrow> sigil option" where
  "sigil_of_json v =
     (let m = fld v ''meta''
      in case (as_str (fld m ''id''), as_num (fld m ''version''), as_str (fld m ''author_signature''),
               as_str (fld m ''content_hash''), as_num (fld m ''created_at'')) of
           (Some i, Some n, Some a, Some h, Some c) \<Rightarrow>
             Some \<lparr>sigil_meta = \<lparr>sigil_id = i, sigil_version = n, author_signature = a, content_hash = h, created_at = c\<rparr>,
                   sigil_body = fld v ''body''\<rparr>
         | _ \<Rightarrow> None)"

subsection \<open>\<open>llama_cpp.ts\<close>\<close>

text \<open>The model library: what it is called with is an object, in which a missing option is \<open>undefined\<close>.\<close>

record 's llama_model =
  llama_tokenize :: "string \<Rightarrow> 's \<Rightarrow> jsnum list result \<times> 's"
  llama_generate :: "json \<Rightarrow> 's \<Rightarrow> (string \<times> jsnum) result \<times> 's"

definition opt_num :: "jsnum option \<Rightarrow> json" where
  "opt_num n = (case n of None \<Rightarrow> JUndef | Some x \<Rightarrow> JNum x)"

definition llama_call :: "string \<Rightarrow> engine_options \<Rightarrow> json" where
  "llama_call prompt e =
     JObj [(''prompt'', JStr prompt), (''temperature'', JNum (temperature e)), (''top_p'', JNum (top_p e)),
           (''top_k'', JNum (top_k e)), (''repeat_penalty'', JNum (repeat_penalty e)),
           (''max_tokens'', opt_num (max_tokens e)), (''stop'', JUndef),
           (''logit_bias'', (case logit_bias e of None \<Rightarrow> JUndef | Some b \<Rightarrow> JObj b)), (''grammar'', JUndef)]"

text \<open>The text and the usage.\<close>

definition llama_answer ::
  "'s llama_model \<Rightarrow> string \<Rightarrow> engine_options \<Rightarrow> 's \<Rightarrow> (string \<times> json) result \<times> 's" where
  "llama_answer lib prompt e s =
     (case llama_generate lib (llama_call prompt e) s of
        (Inl err, s') \<Rightarrow> (Inl err, s')
      | (Inr (txt, used), s') \<Rightarrow>
          (Inr (txt, JObj [(''input'', JNum (NumDec 0 0)), (''output'', JNum used)]), s'))"

definition LlamaCppAdapter :: "'s llama_model \<Rightarrow> 's llm_engine" where
  "LlamaCppAdapter lib =
     \<lparr>tokenize = llama_tokenize lib,
      generate_text = (\<lambda>prompt e s. (case llama_answer lib prompt e s of
        (Inl err, s') \<Rightarrow> (Inl err, s') | (Inr (txt, _), s') \<Rightarrow> (Inr txt, s')))\<rparr>"

subsection \<open>\<open>vllm.ts\<close>\<close>

text \<open>What \<open>fetch\<close> answers: the flag \<open>ok\<close> and the result of \<open>res.json()\<close>; it is called with a URL and a body.\<close>

record fetch_answer =
  fetch_ok :: bool
  fetch_json :: "json result"

type_synonym 's fetcher = "string \<Rightarrow> string \<Rightarrow> 's \<Rightarrow> fetch_answer result \<times> 's"

definition new_vllm :: "string option \<Rightarrow> string \<Rightarrow> string result" where
  "new_vllm VLLM_HOST url =
     (let host = (case VLLM_HOST of None \<Rightarrow> ''127.0.0.1'' | Some h \<Rightarrow> if h = [] then ''127.0.0.1'' else h)
      in if host \<noteq> ''127.0.0.1'' \<and> host \<noteq> ''localhost''
         then Inl ''SECURITY FAULT: Adapter configured for external interface.'' else Inr url)"

definition vllm_post :: "'s fetcher \<Rightarrow> string \<Rightarrow> string \<Rightarrow> json \<Rightarrow> 's \<Rightarrow> json result \<times> 's" where
  "vllm_post f failure url b s =
     (case f url (json_print b) s of
        (Inl err, s') \<Rightarrow> (Inl err, s')
      | (Inr a, s') \<Rightarrow> (if \<not> fetch_ok a then Inl failure else fetch_json a, s'))"

definition vllm_tokenize :: "'s fetcher \<Rightarrow> string \<Rightarrow> string \<Rightarrow> 's \<Rightarrow> json result \<times> 's" where
  "vllm_tokenize f url txt s =
     (case vllm_post f ''vLLM tokenize failed'' (url @ ''/tokenize'') (JObj [(''text'', JStr txt)]) s of
        (Inl err, s') \<Rightarrow> (Inl err, s')
      | (Inr v, s') \<Rightarrow> (prop_of v ''tokens'', s'))"

text \<open>\<open>json.usage?.input ?? 0\<close>\<close>

definition usage_of :: "json \<Rightarrow> string \<Rightarrow> json" where
  "usage_of v k =
     nullish_else (fld (fld v ''usage'') k) (JNum (NumDec 0 0))"

definition vllm_answer :: "'s fetcher \<Rightarrow> string \<Rightarrow> string \<Rightarrow> engine_options \<Rightarrow> 's \<Rightarrow> (json \<times> json) result \<times> 's" where
  "vllm_answer f url prompt e s =
     (case vllm_post f ''vLLM generate failed'' (url @ ''/generate'')
             (JObj ((''prompt'', JStr prompt) # engine_members e)) s of
        (Inl err, s') \<Rightarrow> (Inl err, s')
      | (Inr v, s') \<Rightarrow>
          (bind_result (prop_of v ''text'') (\<lambda>txt.
             Inr (txt, JObj [(''input'', usage_of v ''input''), (''output'', usage_of v ''output'')])), s'))"

text \<open>The runner uses tokens and text at their declared types.\<close>

fun as_nums :: "json list \<Rightarrow> jsnum list option" where
  "as_nums [] = Some []"
| "as_nums (v # vs) = (case as_num v of None \<Rightarrow> None | Some n \<Rightarrow> map_option ((#) n) (as_nums vs))"

definition declared :: "('a \<Rightarrow> 'b option) \<Rightarrow> 'a result \<Rightarrow> 'b result" where
  "declared f r = bind_result r (\<lambda>x. case f x of None \<Rightarrow> Inl type_error | Some y \<Rightarrow> Inr y)"

definition VLLMAdapter :: "'s fetcher \<Rightarrow> string \<Rightarrow> 's llm_engine" where
  "VLLMAdapter f url =
     \<lparr>tokenize = (\<lambda>txt s. apfst (declared (\<lambda>v. case v of JArr xs \<Rightarrow> as_nums xs | _ \<Rightarrow> None)) (vllm_tokenize f url txt s)),
      generate_text = (\<lambda>prompt e s. apfst (declared (\<lambda>p. as_str (fst p))) (vllm_answer f url prompt e s))\<rparr>"

subsection \<open>\<open>ui/server.ts\<close>\<close>

text \<open>The mock of the pilot: tokens are character codes, the text repeats the start of the prompt.\<close>

definition char_codes :: "string \<Rightarrow> jsnum list" where
  "char_codes txt = map (\<lambda>c. norm_dec (int (of_char c)) 0) txt"

definition mock_text :: "string \<Rightarrow> engine_options \<Rightarrow> string" where
  "mock_text prompt e =
     join [CHR 0x0A]
       [''[MOCK RESPONSE] '',
        ''I have analyzed your request: \"'' @ take 50 prompt @ ''...\".'',
        ''Based on the current manifest (Temperature: '' @ num_print (temperature e) @ ''), '',
        ''the corporate response is ready. '',
        ''{ \"status\": \"approved\", \"compliance\": true }'']"

definition pilot_mock :: "unit llm_engine" where
  "pilot_mock =
     \<lparr>tokenize = (\<lambda>txt s. (Inr (char_codes txt), s)), generate_text = (\<lambda>prompt e s. (Inr (mock_text prompt e), s))\<rparr>"

text \<open>The start: without the root sigil, or with one that is no JSON, the process ends.\<close>

definition boot_pilot :: "string option \<Rightarrow> json result" where
  "boot_pilot root_file =
     (case root_file of
        None \<Rightarrow> Inl ''CRITICAL: Root sigil not found. Run seed script first.''
      | Some txt \<Rightarrow> (case json_parse txt of None \<Rightarrow> Inl ''SyntaxError'' | Some v \<Rightarrow> Inr v))"

definition host_error :: "string \<Rightarrow> json" where
  "host_error e = JObj [(''ok'', JBool False), (''error'', JStr e)]"

text \<open>What a client sees of a run: the text, or the refusal.\<close>

definition sanitized :: "runner_result \<Rightarrow> json" where
  "sanitized r =
     (if run_ok r then JObj [(''ok'', JBool True), (''result'', (case run_text r of None \<Rightarrow> JUndef | Some t \<Rightarrow> JStr t))]
      else JObj [(''ok'', JBool False), (''refusal'', (case refusal r of None \<Rightarrow> JUndef | Some t \<Rightarrow> JStr t))])"

definition pilot_correlation :: "int \<Rightarrow> string \<Rightarrow> string" where
  "pilot_correlation stamp random_text = ''zak-'' @ show_int stamp @ ''-'' @ drop 7 random_text"

text \<open>
  The endpoint, for sigils with the declared types: their compilation throws nothing, and the runner catches what the
  engine throws, so that the answer 500 is not reached. The sigils are not validated.
\<close>

definition pilot_execute ::
  "'s llm_engine \<Rightarrow> compiled_sigil list \<Rightarrow> json \<Rightarrow> int \<Rightarrow> string \<Rightarrow> run_clock \<Rightarrow> 's \<Rightarrow> (nat \<times> json) result \<times> 's" where
  "pilot_execute a sigils b stamp random_text clk s =
     (case prop_of b ''prompt'' of
        Inl e \<Rightarrow> (Inl e, s)
      | Inr (JStr prompt) \<Rightarrow>
          (if prompt = [] then (Inr (400, host_error ''Invalid prompt''), s)
           else case zak_execute a (compileContext sigils) prompt (pilot_correlation stamp random_text) clk s of
             (r, s') \<Rightarrow> (Inr (200, sanitized r), s'))
      | Inr _ \<Rightarrow> (Inr (400, host_error ''Invalid prompt''), s))"

subsection \<open>\<open>kernel-bridge.ts\<close> and the server of the demonstration\<close>

text \<open>The state of the bridge is the list of active sigils; a missing file leaves it as it is.\<close>

definition loadInitialSigils :: "string option \<Rightarrow> json list \<Rightarrow> json list result" where
  "loadInitialSigils root_file active =
     (case root_file of
        None \<Rightarrow> Inr active
      | Some txt \<Rightarrow> (case json_parse txt of None \<Rightarrow> Inl ''SyntaxError'' | Some v \<Rightarrow> Inr [v]))"

text \<open>\<open>validateSigil\<close> on a document from a client: the validator reads its members dynamically.\<close>

definition validateSigil :: "json \<Rightarrow> verdict result" where
  "validateSigil v =
     bind_result (prop_of v ''body'') (\<lambda>b.
     bind_result (computeCanonicalHash b) (\<lambda>computed.
     bind_result (prop_of (fld v ''meta'') ''content_hash'') (\<lambda>h.
       if h \<noteq> JStr computed
       then Inr (Some (''Hash mismatch: '' @ computed @ '' != '' @ js_string h))
       else and_check (check_geometry b) (and_check (check_resonance b) (check_field_effect b)))))"

definition upload_sigil :: "json \<Rightarrow> (nat \<times> json) result" where
  "upload_sigil v =
     bind_result (validateSigil v) (\<lambda>r. case r of
        None \<Rightarrow> Inr (200, JObj [(''ok'', JBool True), (''message'', JStr ''Sigil Validated'')])
      | Some e \<Rightarrow> Inr (400, host_error e))"

definition executeQuery ::
  "'s llm_engine \<Rightarrow> compiled_sigil list \<Rightarrow> string \<Rightarrow> int \<Rightarrow> run_clock \<Rightarrow> 's \<Rightarrow> (runner_result \<times> manifest) \<times> 's" where
  "executeQuery a sigils prompt stamp clk s =
     (let m = compileContext sigils
      in case zak_execute a m prompt (''zem-'' @ show_int stamp) clk s of (r, s') \<Rightarrow> ((r, m), s'))"

definition zem_mock :: "unit llm_engine" where
  "zem_mock =
     \<lparr>tokenize = (\<lambda>txt s. (Inr (char_codes txt), s)),
      generate_text = (\<lambda>prompt e s. (Inr (''[ZEM SIMULATION] Response to: '' @ prompt), s))\<rparr>"

text \<open>The result of a run as it is sent; members that are missing are not printed.\<close>

definition run_result_json :: "runner_result \<Rightarrow> json" where
  "run_result_json r =
     JObj ((''ok'', JBool (run_ok r))
       # (case run_text r of None \<Rightarrow> [] | Some t \<Rightarrow> [(''result'', JStr t)])
       @ (case refusal r of None \<Rightarrow> [] | Some t \<Rightarrow> [(''refusal'', JStr t)])
       @ [(''audit'', audit_json (run_audit r))])"

text \<open>\<open>POST /api/execute\<close> for a prompt that is a text.\<close>

definition zem_execute :: "compiled_sigil list \<Rightarrow> string \<Rightarrow> int \<Rightarrow> run_clock \<Rightarrow> json" where
  "zem_execute sigils prompt stamp clk =
     (case executeQuery zem_mock sigils prompt stamp clk () of
        ((r, m), _) \<Rightarrow> JObj [(''result'', run_result_json r), (''manifest'', manifest_json m)])"

text \<open>The statistics, from three random numbers.\<close>

definition random_below :: "int \<Rightarrow> int \<Rightarrow> jsnum \<Rightarrow> jsnum" where
  "random_below n base r = num_add (num_floor (num_mult r (norm_dec n 0))) (norm_dec base 0)"

definition getSystemStats :: "jsnum \<Rightarrow> jsnum \<Rightarrow> jsnum \<Rightarrow> json" where
  "getSystemStats r1 r2 r3 =
     JObj [(''gpu'', JObj [(''load'', JNum (random_below 20 10 r1)), (''vram_used'', JNum (NumDec 12 0)),
              (''vram_total'', JNum (NumDec 24 0)), (''power_draw'', JNum (random_below 50 150 r2)),
              (''temp'', JNum (random_below 5 60 r3))]),
           (''kernel'', JObj [(''status'', JStr ''active''), (''repatriation_index'', JNum (NumDec 1 2)),
              (''threats_blocked_today'', JNum (NumDec 14 0))])]"

subsection \<open>The red team\<close>

text \<open>\<open>tests/red-team/simulate_attack.ts\<close>: the sigil is validated, compiled, and its manifest is checked.\<close>

definition attack_neutralized :: "manifest \<Rightarrow> bool" where
  "attack_neutralized m =
     (temperature (engine m) = NumDec 1 (- 1) \<and> \<not> allow_tools (io_gates m)
      \<and> (case logit_bias (engine m) of None \<Rightarrow> False | Some b \<Rightarrow> map_of b ''I think'' = Some (JNum (NumDec (- 1) 2))))"

definition simulate_attack :: "sigil \<Rightarrow> unit result" where
  "simulate_attack s =
     bind_result (zak_validate s) (\<lambda>r. case r of
        Some reason \<Rightarrow> Inl reason
      | None \<Rightarrow>
          (case compiled_view s of
             None \<Rightarrow> Inl type_error
           | Some c \<Rightarrow> if attack_neutralized (compileContext [c]) then Inr () else Inl ''FAILURE: Kernel leak detected''))"

end
