(* ===== verification/JS_Double_Facts.thy ===== *)
theory JS_Double_Facts
  imports JS_Double
begin

text \<open>
  What the arithmetic of \<open>JS_Double\<close> computes, over the reals: rounding to the nearest double is a function
  \<open>rd\<close> of the exact value, it is monotone, it leaves every double alone and moves no number that is close enough
  to a double away from it, and the shortest decimal of a double denotes this double.
\<close>

subsection \<open>Fractions as reals\<close>

definition frac_ok :: "frac \<Rightarrow> bool" where
  "frac_ok x = (0 < snd x)"

lemma frac_ok_pair [simp]: "frac_ok (n, 1)" "frac_ok (n, 2)" "frac_ok (n, 100)"
  by (simp_all add: frac_ok_def)

lemma frac_ok_ops [simp]:
  "0 < b \<Longrightarrow> frac_ok x \<Longrightarrow> frac_ok (scale b k x)"
  "frac_ok x \<Longrightarrow> frac_ok (frac_abs x)"
  "frac_ok x \<Longrightarrow> frac_ok y \<Longrightarrow> frac_ok (frac_add x y)"
  "frac_ok x \<Longrightarrow> frac_ok y \<Longrightarrow> frac_ok (frac_mult x y)"
  "frac_ok x \<Longrightarrow> fst y \<noteq> 0 \<Longrightarrow> frac_ok (frac_div x y)"
  by (simp_all add: frac_ok_def scale_def frac_abs_def frac_add_def frac_mult_def frac_div_def)

lemma fval_int [simp]: "fval (n, 1) = of_int n"
  by (simp add: fval_def)

lemma powi_split: "(b::real) powi k = b ^ nat k / b ^ nat (- k)"
  by (simp add: power_int_def inverse_eq_divide power_divide)

lemma fval_scale [simp]: "frac_ok x \<Longrightarrow> 0 < b \<Longrightarrow> fval (scale b k x) = fval x * of_int b powi k"
  by (simp add: fval_def scale_def powi_split)

lemma fval_abs [simp]: "frac_ok x \<Longrightarrow> fval (frac_abs x) = \<bar>fval x\<bar>"
  by (simp add: fval_def frac_abs_def frac_ok_def)

lemma fval_add [simp]: "frac_ok x \<Longrightarrow> frac_ok y \<Longrightarrow> fval (frac_add x y) = fval x + fval y"
  by (simp add: fval_def frac_add_def frac_ok_def field_simps)

lemma fval_mult [simp]: "fval (frac_mult x y) = fval x * fval y"
  by (simp add: fval_def frac_mult_def)

lemma fval_div [simp]: "fval (frac_div x y) = fval x / fval y"
  by (cases "fst y" "0 :: int" rule: linorder_cases) (simp_all add: fval_def frac_div_def)

lemma fval_zero_iff [simp]: "frac_ok x \<Longrightarrow> fval x = 0 \<longleftrightarrow> fst x = 0"
  by (simp add: fval_def frac_ok_def)

lemma fval_pos_iff: "frac_ok x \<Longrightarrow> 0 < fval x \<longleftrightarrow> 0 < fst x"
  by (simp add: fval_def frac_ok_def zero_less_divide_iff)

lemma fval_neg_iff: "frac_ok x \<Longrightarrow> fval x < 0 \<longleftrightarrow> fst x < 0"
  by (simp add: fval_def frac_ok_def divide_less_0_iff)

lemma cross_less:
  assumes "0 < b" "0 < d"
  shows "real_of_int a / of_int b < of_int c / of_int d \<longleftrightarrow> a * d < c * b"
proof -
  have "real_of_int a / of_int b < of_int c / of_int d \<longleftrightarrow> real_of_int a * of_int d < of_int c * of_int b"
    using assms by (simp add: field_simps)
  also have "\<dots> \<longleftrightarrow> real_of_int (a * d) < of_int (c * b)" by simp
  finally show ?thesis by (simp only: of_int_less_iff)
qed

lemma frac_less_iff [simp]: "frac_ok x \<Longrightarrow> frac_ok y \<Longrightarrow> frac_less x y \<longleftrightarrow> fval x < fval y"
  by (simp add: fval_def frac_less_def frac_ok_def cross_less)

lemma frac_same_iff [simp]: "frac_ok x \<Longrightarrow> frac_ok y \<Longrightarrow> frac_same x y \<longleftrightarrow> fval x = fval y"
  using cross_less [of "snd x" "snd y" "fst x" "fst y"] cross_less [of "snd y" "snd x" "fst y" "fst x"]
  by (auto simp: fval_def frac_same_def frac_ok_def)

lemma frac_floor_eq [simp]: "frac_floor x = \<lfloor>fval x\<rfloor>"
  by (simp add: frac_floor_def fval_def floor_divide_of_int_eq)

subsection \<open>Ties to even\<close>

definition he :: "real \<Rightarrow> int" where
  "he v = (if v - \<lfloor>v\<rfloor> < 1 / 2 \<or> v - \<lfloor>v\<rfloor> = 1 / 2 \<and> even \<lfloor>v\<rfloor> then \<lfloor>v\<rfloor> else \<lfloor>v\<rfloor> + 1)"

lemma half_even_eq: "frac_ok x \<Longrightarrow> half_even x = he (fval x)"
proof -
  assume ok: "frac_ok x"
  have fl: "\<lfloor>fval x\<rfloor> = fst x div snd x" by (simp add: fval_def floor_divide_of_int_eq)
  have "real_of_int (fst x) = of_int (snd x * (fst x div snd x) + fst x mod snd x)" by simp
  then have "fval x = of_int (fst x div snd x) + of_int (fst x mod snd x) / of_int (snd x)"
    using ok unfolding of_int_add of_int_mult by (simp add: fval_def frac_ok_def field_simps del: mult_div_mod_eq)
  then have "fval x - \<lfloor>fval x\<rfloor> = of_int (fst x mod snd x) / of_int (snd x)" unfolding fl by linarith
  moreover have "of_int (fst x mod snd x) / of_int (snd x) < (1 / 2 :: real) \<longleftrightarrow> 2 * (fst x mod snd x) < snd x"
      "of_int (fst x mod snd x) / of_int (snd x) = (1 / 2 :: real) \<longleftrightarrow> 2 * (fst x mod snd x) = snd x"
    using ok unfolding frac_ok_def by (simp_all add: field_simps, linarith+)
  ultimately show ?thesis by (simp add: half_even_def he_def Let_def fl)
qed

lemma he_int [simp]: "he (of_int m) = m"
  by (simp add: he_def)

lemma floor_part: "\<exists>n f. v = real_of_int n + f \<and> 0 \<le> f \<and> f < 1"
  by (rule exI [of _ "\<lfloor>v\<rfloor>"], rule exI [of _ "v - \<lfloor>v\<rfloor>"]) linarith

lemma he_parts:
  "0 \<le> f \<Longrightarrow> f < 1 \<Longrightarrow> he (of_int n + f) = (if f < 1 / 2 \<or> f = 1 / 2 \<and> even n then n else n + 1)"
proof -
  assume "0 \<le> f" "f < 1"
  then have "\<lfloor>of_int n + f\<rfloor> = n" by linarith
  then show ?thesis by (simp add: he_def)
qed

lemma he_near: "\<bar>of_int (he v) - v\<bar> \<le> 1 / 2"
proof -
  obtain n f where v: "v = real_of_int n + f" "0 \<le> f" "f < 1" using floor_part by blast
  then show ?thesis by (simp add: he_parts)
qed

lemma he_mono: "v \<le> w \<Longrightarrow> he v \<le> he w"
proof -
  assume le: "v \<le> w"
  then have fl: "\<lfloor>v\<rfloor> \<le> \<lfloor>w\<rfloor>" by (rule floor_mono)
  show ?thesis
  proof (cases "\<lfloor>v\<rfloor> = \<lfloor>w\<rfloor>")
    case True
    then show ?thesis using le by (auto simp: he_def)
  next
    case False
    then show ?thesis using fl by (auto simp: he_def)
  qed
qed

lemma he_unique: "\<bar>v - of_int m\<bar> < 1 / 2 \<Longrightarrow> he v = m"
  using he_near [of v] by linarith

lemma he_neg: "he (- v) = - he v"
proof -
  obtain n f where v: "v = real_of_int n + f" "0 \<le> f" "f < 1" using floor_part by blast
  show ?thesis
  proof (cases "f = 0")
    case True
    then show ?thesis using v by (metis add.right_neutral he_int of_int_minus)
  next
    case False
    have "- v = of_int (- n - 1) + (1 - f)" using v by simp
    then have "he (- v) = (if 1 - f < 1 / 2 \<or> 1 - f = 1 / 2 \<and> even (- n - 1) then - n - 1 else - n)"
      using he_parts [of "1 - f" "- n - 1"] v False by simp
    then show ?thesis using v by (simp add: he_parts) linarith
  qed
qed

subsection \<open>The exponent\<close>

declare digits_in.simps [simp del]

lemma digits_in_bounds:
  assumes "1 < b" "0 < n"
  shows "0 < digits_in b n \<and> b ^ nat (digits_in b n - 1) \<le> n \<and> n < b ^ nat (digits_in b n)"
  using assms
proof (induction b n rule: digits_in.induct)
  case (1 b n)
  show ?case
  proof (cases "n < b")
    case True
    then have "digits_in b n = 1" using 1 by (simp add: digits_in.simps [of b n] digits_in.simps [of b 0])
    then show ?thesis using True 1 by simp
  next
    case False
    let ?m = "n div b" and ?k = "digits_in b (n div b)"
    have m: "0 < ?m" using False 1 by (simp add: pos_imp_zdiv_pos_iff)
    then have ih: "0 < ?k" "b ^ nat (?k - 1) \<le> ?m" "?m < b ^ nat ?k" using 1 by auto
    have k: "digits_in b n = ?k + 1" using 1 by (simp add: digits_in.simps [of b n])
    obtain j where j: "?k = int (Suc j)" using ih(1) by (metis pos_int_cases Suc_pred)
    have "b * b ^ j \<le> b * ?m" using ih(2) 1(2) by (simp add: j)
    also have "b * ?m \<le> n" using pos_mod_sign [of b n] mult_div_mod_eq [of b n] 1(2) by linarith
    finally have "b ^ Suc j \<le> n" by simp
    have "n < b * ?m + b" using pos_mod_bound [of b n] mult_div_mod_eq [of b n] 1(2) by linarith
    also have "b * ?m + b = b * (?m + 1)" by (simp add: distrib_left)
    also have "\<dots> \<le> b * b ^ Suc j" using ih(3) 1(2) by (intro mult_left_mono) (simp_all add: j nat_add_distrib)
    finally have "n < b ^ Suc (Suc j)" by simp
    with \<open>b ^ Suc j \<le> n\<close> show ?thesis by (simp add: k j nat_add_distrib)
  qed
qed

lemma digits_real:
  assumes "1 < b" "0 < n"
  shows "real_of_int b powi (digits_in b n - 1) \<le> of_int n" "of_int n < real_of_int b powi digits_in b n"
proof -
  have p: "real_of_int b powi k = of_int (b ^ nat k)" if "0 \<le> k" for k
    using that by (simp add: power_int_def)
  have d: "0 < digits_in b n" "b ^ nat (digits_in b n - 1) \<le> n" "n < b ^ nat (digits_in b n)"
    using digits_in_bounds [OF assms] by blast+
  show "real_of_int b powi (digits_in b n - 1) \<le> of_int n" "of_int n < real_of_int b powi digits_in b n"
    using d by (simp_all only: p of_int_le_iff of_int_less_iff)
qed

lemma exponent_bounds:
  assumes "1 < b" "0 < fst x" "frac_ok x"
  shows "of_int b powi exponent b x \<le> fval x" "fval x < of_int b powi (exponent b x + 1)"
proof -
  let ?b = "real_of_int b"
  let ?n = "digits_in b (fst x)" and ?d = "digits_in b (snd x)"
  have b: "1 < ?b" "?b \<noteq> 0" using assms(1) by simp_all
  have d: "0 < snd x" using assms(3) by (simp add: frac_ok_def)
  note n' = digits_real [OF assms(1,2)] and d' = digits_real [OF assms(1) d]
  have lower: "?b powi (?n - ?d - 1) \<le> fval x"
  proof -
    have "?b powi (?n - 1) / ?b powi ?d \<le> of_int (fst x) / of_int (snd x)"
      using n'(1) d'(2) d b assms(2) by (intro frac_le) simp_all
    moreover have "?b powi (?n - 1) / ?b powi ?d = ?b powi (?n - ?d - 1)"
    proof -
      have "?n - 1 - ?d = ?n - ?d - 1" by simp
      then show ?thesis by (metis b(2) power_int_diff)
    qed
    ultimately show ?thesis by (simp add: fval_def)
  qed
  have upper: "fval x < ?b powi (?n - ?d + 1)"
  proof -
    have "of_int (fst x) / of_int (snd x) < ?b powi ?n / ?b powi (?d - 1)"
      using n'(2) d'(1) d b assms(2) by (intro frac_less) simp_all
    moreover have "?b powi ?n / ?b powi (?d - 1) = ?b powi (?n - ?d + 1)"
    proof -
      have "?n - ?d + 1 = ?n - (?d - 1)" by simp
      then show ?thesis by (metis b(2) power_int_diff)
    qed
    ultimately show ?thesis by (simp add: fval_def)
  qed
  have t: "frac_less x (scale b (?n - ?d) (1, 1)) \<longleftrightarrow> fval x < ?b powi (?n - ?d)"
    using assms by simp
  show "of_int b powi exponent b x \<le> fval x" "fval x < of_int b powi (exponent b x + 1)"
    using lower upper t by (auto simp: exponent_def Let_def not_less)
qed

subsection \<open>Rounding as a function of the value\<close>

definition binade :: "real \<Rightarrow> int" where
  "binade v = \<lfloor>log 2 \<bar>v\<bar>\<rfloor>"

definition step_of :: "real \<Rightarrow> int" where
  "step_of v = max (binade v - 52) (- 1074)"

definition rd :: "real \<Rightarrow> real" where
  "rd v = (if v = 0 then 0 else of_int (he (v / 2 powi step_of v)) * 2 powi step_of v)"

lemma binade_eq: "v \<noteq> 0 \<Longrightarrow> binade v = k \<longleftrightarrow> 2 powi k \<le> \<bar>v\<bar> \<and> \<bar>v\<bar> < 2 powi (k + 1)"
  using floor_log_eq_powr_iff [of "\<bar>v\<bar>" 2 k] powr_real_of_int' [of 2 k] powr_real_of_int' [of 2 "k + 1"]
  by (simp add: binade_def)

lemma binade_bounds: "v \<noteq> 0 \<Longrightarrow> 2 powi binade v \<le> \<bar>v\<bar>" "v \<noteq> 0 \<Longrightarrow> \<bar>v\<bar> < 2 powi (binade v + 1)"
  using binade_eq by auto

lemma grid_eq: "frac_ok x \<Longrightarrow> fst x \<noteq> 0 \<Longrightarrow> grid x = step_of (fval x)"
proof -
  assume x: "frac_ok x" "fst x \<noteq> 0"
  then have "0 < fst (frac_abs x)" by (simp add: frac_abs_def)
  then have "binade (fval x) = exponent 2 (frac_abs x)"
    using x exponent_bounds [of 2 "frac_abs x"] by (subst binade_eq) simp_all
  then show ?thesis by (simp add: grid_def step_of_def)
qed

lemma round_ok [simp]: "frac_ok (round_double x)"
  by (simp add: round_double_def Let_def)

text \<open>The code rounds as \<open>rd\<close> prescribes.\<close>

lemma fval_round [simp]: "frac_ok x \<Longrightarrow> fval (round_double x) = rd (fval x)"
proof (cases "fst x = 0")
  case True
  then show "frac_ok x \<Longrightarrow> ?thesis" by (simp add: round_double_def rd_def fval_def)
next
  case False
  assume x: "frac_ok x"
  have "half_even (scale 2 (- grid x) x) = he (fval x / 2 powi step_of (fval x))"
    using x False by (simp add: half_even_eq grid_eq power_int_minus divide_inverse)
  then show ?thesis using x False by (simp add: round_double_def rd_def Let_def grid_eq)
qed

lemma rd_neg: "rd (- v) = - rd v"
proof -
  have "step_of (- v) = step_of v" by (simp add: step_of_def binade_def)
  then show ?thesis using he_neg [of "v / 2 powi step_of v"] by (simp add: rd_def)
qed

lemma rd_0 [simp]: "rd 0 = 0"
  by (simp add: rd_def)

definition is_double :: "real \<Rightarrow> bool" where
  "is_double v = (\<exists>m k. v = of_int m * 2 powi k \<and> \<bar>m\<bar> < 2 ^ 53 \<and> - 1074 \<le> k)"

lemma powi_less: "(2::real) powi a < 2 powi b \<longleftrightarrow> a < b" "(2::real) powi a \<le> 2 powi b \<longleftrightarrow> a \<le> b"
  using power_int_strict_increasing [of a b "2::real"] power_int_increasing [of b a "2::real"]
    power_int_strict_increasing [of b a "2::real"] power_int_increasing [of a b "2::real"]
  by (cases "a < b"; cases "a = b"; force)+

lemma binade_mono: "v \<noteq> 0 \<Longrightarrow> \<bar>v\<bar> \<le> \<bar>w\<bar> \<Longrightarrow> binade v \<le> binade w"
  by (simp add: binade_def floor_mono)

lemma binade_less: "v \<noteq> 0 \<Longrightarrow> \<bar>v\<bar> < 2 powi k \<Longrightarrow> binade v < k"
  using binade_bounds(1) [of v] powi_less by (meson le_less_trans)

lemma step_le:
  assumes "v = of_int m * 2 powi k" "\<bar>m\<bar> < 2 ^ 53" "- 1074 \<le> k" "v \<noteq> 0"
  shows "step_of v \<le> k"
proof -
  have "\<bar>real_of_int m\<bar> < 2 ^ 53" using assms(2) by (simp flip: of_int_abs)
  then have "\<bar>v\<bar> < 2 ^ 53 * 2 powi k" by (simp add: assms(1) abs_mult)
  also have "\<dots> = 2 powi (53 + k)" by (simp add: power_int_add)
  finally have "binade v < 53 + k" using assms(4) by (rule binade_less [rotated])
  then show ?thesis using assms(3) by (simp add: step_of_def)
qed

lemma powi_coarser: "s \<le> k \<Longrightarrow> (2::real) powi k = of_int (2 ^ nat (k - s)) * 2 powi s"
  using power_int_add [of "2::real" "k - s" s] by (simp add: power_int_def [of _ "k - s"])

text \<open>A double is a multiple of its own step and of every finer one.\<close>

lemma double_on_grid:
  assumes "is_double v" "v \<noteq> 0" "s \<le> step_of v"
  shows "\<exists>m. v = of_int m * 2 powi s"
proof -
  obtain m k where v: "v = of_int m * 2 powi k" "\<bar>m\<bar> < 2 ^ 53" "- 1074 \<le> k"
    using assms(1) by (auto simp: is_double_def)
  then have "s \<le> k" using step_le assms(2,3) by (meson order_trans)
  from v(1) show ?thesis unfolding powi_coarser [OF \<open>s \<le> k\<close>]
    by (intro exI [of _ "m * 2 ^ nat (k - s)"]) simp
qed

lemma rd_on_grid: "v \<noteq> 0 \<Longrightarrow> x = of_int m * 2 powi step_of v \<Longrightarrow> \<bar>v - x\<bar> < 2 powi step_of v / 2 \<Longrightarrow> rd v = x"
proof -
  let ?u = "(2::real) powi step_of v"
  assume v: "v \<noteq> 0" and x: "x = of_int m * ?u" "\<bar>v - x\<bar> < ?u / 2"
  have "v / ?u - of_int m = (v - x) / ?u" by (simp add: x(1) diff_divide_distrib)
  then have "\<bar>v / ?u - of_int m\<bar> = \<bar>v - x\<bar> / ?u" by (simp add: abs_divide)
  also have "\<dots> < 1 / 2" using x(2) by (simp add: divide_less_eq)
  finally show ?thesis using v by (simp add: he_unique rd_def x(1))
qed

lemma rd_id: "is_double v \<Longrightarrow> rd v = v"
  using double_on_grid [of v "step_of v"] by (cases "v = 0") (auto intro: rd_on_grid)

lemma double_int [simp]: "\<bar>m\<bar> < 2 ^ 53 \<Longrightarrow> is_double (of_int m)"
  unfolding is_double_def by (rule exI [of _ m], rule exI [of _ 0]) simp

lemma double_powi: "- 1074 \<le> k \<Longrightarrow> is_double (2 powi k)"
  unfolding is_double_def by (rule exI [of _ 1], rule exI [of _ k]) simp

text \<open>Rounding is monotone.\<close>

lemma rd_binade_le:
  assumes "v \<noteq> 0" "\<bar>v\<bar> \<le> 2 powi k" "step_of v \<le> k"
  shows "\<bar>rd v\<bar> \<le> 2 powi k"
proof -
  let ?u = "(2::real) powi step_of v"
  have k: "2 powi k = of_int (2 ^ nat (k - step_of v)) * ?u" by (rule powi_coarser) (rule assms(3))
  have le: "he (\<bar>v\<bar> / ?u) \<le> 2 ^ nat (k - step_of v)"
  proof -
    have "\<bar>v\<bar> / ?u \<le> of_int (2 ^ nat (k - step_of v))" using assms(2) unfolding k by (simp add: divide_le_eq)
    then have "he (\<bar>v\<bar> / ?u) \<le> he (of_int (2 ^ nat (k - step_of v)))" by (rule he_mono)
    then show ?thesis by (simp only: he_int)
  qed
  have "0 \<le> he (\<bar>v\<bar> / ?u)" using he_mono [of 0 "\<bar>v\<bar> / ?u"] he_int [of 0] by simp
  moreover have "\<bar>rd v\<bar> = \<bar>rd \<bar>v\<bar>\<bar>" by (cases "v < 0") (simp_all add: rd_neg)
  moreover have "rd \<bar>v\<bar> = of_int (he (\<bar>v\<bar> / ?u)) * ?u"
    using assms(1) by (simp add: rd_def step_of_def binade_def)
  ultimately have "\<bar>rd v\<bar> = of_int (he (\<bar>v\<bar> / ?u)) * ?u" by (simp add: abs_mult)
  also have "\<dots> \<le> of_int (2 ^ nat (k - step_of v)) * ?u" using le by (intro mult_right_mono) (simp_all only: of_int_le_iff, simp)
  finally show ?thesis by (simp only: k)
qed

lemma rd_nonneg: "0 \<le> v \<Longrightarrow> 0 \<le> rd v"
  using he_mono [of 0 "v / 2 powi step_of v"] he_int [of 0] by (simp add: rd_def)

lemma rd_mono_pos:
  assumes "0 < v" "v \<le> w"
  shows "rd v \<le> rd w"
proof (cases "step_of v = step_of w")
  case True
  have "he (v / 2 powi step_of w) \<le> he (w / 2 powi step_of w)" using assms(2) by (intro he_mono divide_right_mono) simp_all
  then show ?thesis using assms True by (simp add: rd_def)
next
  case False
  let ?k = "binade w"
  have w: "0 < w" "w \<noteq> 0" using assms by simp_all
  have b: "binade v \<le> ?k" using assms by (intro binade_mono) simp_all
  with False have "binade v < ?k" "step_of w = ?k - 52" by (auto simp: step_of_def split: if_splits)
  have "\<bar>rd v\<bar> \<le> 2 powi ?k"
  proof (rule rd_binade_le)
    have "\<bar>v\<bar> < 2 powi (binade v + 1)" using assms by (intro binade_bounds) simp
    also have "\<dots> \<le> 2 powi ?k" using \<open>binade v < ?k\<close> by (simp add: powi_less)
    finally show "\<bar>v\<bar> \<le> 2 powi ?k" by simp
    show "step_of v \<le> ?k" using \<open>binade v < ?k\<close> \<open>step_of w = ?k - 52\<close> by (simp add: step_of_def)
  qed (use assms in simp)
  moreover have "2 powi ?k \<le> rd w"
  proof -
    let ?u = "(2::real) powi step_of w"
    have k: "2 powi ?k = of_int (2 ^ 52) * ?u"
      using powi_coarser [of "step_of w" ?k] by (simp add: \<open>step_of w = ?k - 52\<close>)
    have "2 powi ?k \<le> w" using binade_bounds(1) [OF w(2)] w(1) by simp
    then have "of_int (2 ^ 52) \<le> w / ?u" unfolding k by (simp add: le_divide_eq)
    then have "2 ^ 52 \<le> he (w / ?u)" using he_mono [of "of_int (2 ^ 52)" "w / ?u"] by (simp only: he_int)
    then have "of_int (2 ^ 52) * ?u \<le> of_int (he (w / ?u)) * ?u"
      by (intro mult_right_mono) (simp_all only: of_int_le_iff, simp)
    then show ?thesis using w by (simp only: k rd_def if_False)
  qed
  ultimately show ?thesis by linarith
qed

lemma rd_mono: "v \<le> w \<Longrightarrow> rd v \<le> rd w"
proof -
  assume le: "v \<le> w"
  consider "0 < v" | "v = 0" | "v < 0" "w < 0" | "v < 0" "0 \<le> w" by linarith
  then show ?thesis
  proof cases
    case 1
    then show ?thesis using le by (rule rd_mono_pos)
  next
    case 2
    then show ?thesis using le rd_nonneg by simp
  next
    case 3
    then show ?thesis using rd_mono_pos [of "- w" "- v"] le by (simp add: rd_neg)
  next
    case 4
    then show ?thesis using rd_nonneg [of "- v"] rd_nonneg [of w] by (simp add: rd_neg)
  qed
qed

lemma grid_gap: "0 < u \<Longrightarrow> of_int a * u < of_int b * (u::real) \<Longrightarrow> of_int a * u + u \<le> of_int b * u"
proof -
  assume u: "0 < u" "of_int a * u < of_int b * u"
  then have "real_of_int (a + 1) \<le> of_int b" by (simp add: mult_less_cancel_right)
  then have "of_int (a + 1) * u \<le> of_int b * u" using u(1) by (intro mult_right_mono) simp_all
  then show ?thesis by (simp add: distrib_right)
qed

lemma powi_shift: "(2::real) powi (k - int n) = 2 powi k / 2 ^ n" "(2::real) powi (k + int n) = 2 powi k * 2 ^ n"
  by (simp_all add: power_int_diff power_int_add)

lemma double_binade: "is_double x \<Longrightarrow> x \<noteq> 0 \<Longrightarrow> - 1074 \<le> binade x"
proof -
  assume x: "is_double x" "x \<noteq> 0"
  then obtain m k where m: "x = of_int m * 2 powi k" "- 1074 \<le> k" by (auto simp: is_double_def)
  have "1 \<le> \<bar>m\<bar>" using m(1) x(2) by auto
  then have "1 * 2 powi k \<le> real_of_int \<bar>m\<bar> * 2 powi k" by (intro mult_right_mono) simp_all
  then have "2 powi k \<le> \<bar>x\<bar>" by (simp add: m(1) abs_mult)
  also have "\<dots> < 2 powi (binade x + 1)" using x(2) by (rule binade_bounds)
  finally show ?thesis using m(2) by (simp add: powi_less)
qed

text \<open>A number that is close to a double, relative to its size, is rounded to it; first just below a power of two.\<close>

lemma near_half: "\<bar>v - p\<bar> * 2 < p \<Longrightarrow> p / 2 \<le> (v :: real)"
  using abs_ge_minus_self [of "v - p"] by simp

lemma rd_near_below:
  assumes "0 < v" "v < 2 powi k" "\<bar>v - 2 powi k\<bar> * 2 ^ 54 < 2 powi k" "- 1074 \<le> k"
  shows "rd v = 2 powi k"
proof -
  have B1: "(2::real) powi (k - 1) = 2 powi k / 2" using powi_shift(1) [of k 1] by simp
  have "\<bar>v - 2 powi k\<bar> * 2 \<le> \<bar>v - 2 powi k\<bar> * 2 ^ 54" by (intro mult_left_mono) simp_all
  also note assms(3)
  finally have "2 powi k / 2 \<le> v" by (rule near_half)
  then have "binade v = k - 1" using assms by (subst binade_eq) (simp_all add: B1)
  then have s: "step_of v \<le> k" "k - 53 \<le> step_of v" using assms(4) by (simp_all add: step_of_def)
  obtain n where "(2::real) powi k = of_int n * 2 powi step_of v" using powi_coarser [OF s(1)] by blast
  moreover have "2 powi k / 2 ^ 53 \<le> (2::real) powi step_of v"
    using s(2) powi_less(2) [of "k - 53" "step_of v"] powi_shift(1) [of k 53] by simp
  then have "\<bar>v - 2 powi k\<bar> < 2 powi step_of v / 2" using assms(3) by (simp add: field_simps)
  ultimately show ?thesis using rd_on_grid [of v "2 powi k" n] assms(1) by simp
qed

lemma rd_near:
  assumes "is_double x" "0 < x" "\<bar>v - x\<bar> * 2 ^ 54 < x"
  shows "rd v = x"
proof -
  let ?B = "binade x" and ?u = "(2::real) powi step_of x"
  have x: "x \<noteq> 0" "2 powi ?B \<le> x" "x < 2 powi (?B + 1)"
    using assms(2) binade_bounds [of x] by simp_all
  have low: "- 1074 \<le> ?B" using assms(1) x(1) by (rule double_binade)
  then have fine: "step_of x \<le> ?B" "?B - 52 \<le> step_of x" by (simp_all add: step_of_def)
  have u: "0 < ?u" "2 powi ?B / 2 ^ 52 \<le> ?u"
    using fine(2) powi_less(2) [of "?B - 52" "step_of x"] powi_shift(1) [of ?B 52] by simp_all
  have close: "\<bar>v - x\<bar> * 2 ^ 54 < 2 powi ?B * 2"
    using assms(3) x(3) powi_shift(2) [of ?B 1] by simp
  then have half: "\<bar>v - x\<bar> < ?u / 2" using u(2) by (simp add: field_simps)
  have v: "0 < v" using assms(2,3) by (cases "v \<le> 0") (simp_all add: abs_if split: if_splits)
  obtain m where m: "x = of_int m * ?u" using double_on_grid [OF assms(1) x(1), of "step_of x"] by auto
  obtain b where b: "2 powi ?B = of_int b * ?u" using powi_coarser [OF fine(1)] by blast
  show ?thesis
  proof (cases "2 powi ?B \<le> v")
    case True
    have "x + ?u \<le> 2 powi (?B + 1)"
      using grid_gap [of ?u m "2 * b"] x(3) powi_shift(2) [of ?B 1] by (simp add: m [symmetric] b mult.commute mult.left_commute)
    then have "v < 2 powi (?B + 1)" using half u(1) by linarith
    with True have "binade v = ?B" using v by (subst binade_eq) simp_all
    then have "step_of v = step_of x" by (simp add: step_of_def)
    then show ?thesis using rd_on_grid [of v x m] v half m by simp
  next
    case False
    have "x = 2 powi ?B"
    proof (rule ccontr)
      assume "x \<noteq> 2 powi ?B"
      then have "of_int b * ?u < of_int m * ?u" using x(2) unfolding m [symmetric] b [symmetric] by linarith
      then have "of_int b * ?u + ?u \<le> of_int m * ?u" by (rule grid_gap [OF u(1)])
      then have "2 powi ?B + ?u \<le> x" unfolding m [symmetric] b [symmetric] .
      then show False using half False u(1) by linarith
    qed
    then show ?thesis using rd_near_below [of v ?B] v False low assms(3) by simp
  qed
qed

lemma double_rd: "is_double (rd v)"
proof (cases "v = 0")
  case True
  then show ?thesis using double_int [of 0] by simp
next
  case False
  let ?s = "step_of v" and ?m = "he (v / 2 powi step_of v)"
  have rd: "rd v = of_int ?m * 2 powi ?s" using False by (simp add: rd_def)
  have "binade v + 1 \<le> ?s + 53" by (simp add: step_of_def)
  then have "\<bar>v\<bar> \<le> 2 powi (?s + 53)"
    using binade_bounds(2) [OF False] powi_less(2) [of "binade v + 1" "?s + 53"] by linarith
  then have "\<bar>rd v\<bar> \<le> 2 powi (?s + 53)" using False by (intro rd_binade_le) simp_all
  also have "\<dots> = 2 ^ 53 * 2 powi ?s" using powi_shift(2) [of ?s 53] by simp
  finally have "real_of_int \<bar>?m\<bar> \<le> of_int (2 ^ 53)" by (simp add: rd abs_mult)
  then have le: "\<bar>?m\<bar> \<le> 2 ^ 53" by (simp only: of_int_le_iff)
  show ?thesis
  proof (cases "\<bar>?m\<bar> = 2 ^ 53")
    case True
    then obtain h where h: "?m = 2 * h" "\<bar>h\<bar> < 2 ^ 53" by (cases "?m < 0") (auto intro: that [of "2 ^ 52"] that [of "- (2 ^ 52)"])
    have "rd v = of_int h * 2 powi (?s + 1)" using powi_shift(2) [of ?s 1] unfolding rd h(1) by simp
    then show ?thesis unfolding is_double_def using h(2)
      by (intro exI [of _ h] exI [of _ "?s + 1"]) (simp add: step_of_def)
  next
    case False
    then show ?thesis using rd le unfolding is_double_def
      by (intro exI [of _ ?m] exI [of _ ?s]) (simp add: step_of_def)
  qed
qed

subsection \<open>The shortest decimal denotes its double\<close>

lemma norm_dec_same: "\<exists>m' e'. norm_dec m e = NumDec m' e' \<and> of_int m' * 10 powi e' = (of_int m * 10 powi e :: real)"
proof (induction m e rule: norm_dec.induct)
  case (1 m e)
  show ?case
  proof (cases "m \<noteq> 0 \<and> 10 dvd m")
    case True
    then obtain k where k: "m = 10 * k" by (auto elim: dvdE)
    have "(10::real) powi (e + 1) = 10 * 10 powi e" by (simp add: power_int_add)
    then have "real_of_int (m div 10) * 10 powi (e + 1) = of_int m * 10 powi e" by (simp add: k)
    then show ?thesis using 1 True by (simp add: norm_dec.simps [of m e])
  next
    case False
    then show ?thesis by (auto simp: norm_dec.simps [of m e])
  qed
qed

lemma scaled_error: "0 < p \<Longrightarrow> \<bar>a - v / p\<bar> \<le> 1 / 2 \<Longrightarrow> \<bar>a * p - v\<bar> \<le> p / (2 :: real)"
proof -
  assume p: "0 < p" "\<bar>a - v / p\<bar> \<le> 1 / 2"
  have "a * p - v = (a - v / p) * p" using p(1) by (simp add: field_simps)
  then have "\<bar>a * p - v\<bar> = \<bar>a - v / p\<bar> * p" using p(1) by (simp add: abs_mult)
  also have "\<dots> \<le> 1 / 2 * p" using p by (intro mult_right_mono) simp_all
  finally show ?thesis by simp
qed

lemma decimals_17:
  assumes "frac_ok x" "is_double (fval x)" "0 < fval x"
  shows "\<exists>d \<in> set (decimals x 17). denotes x d"
proof -
  let ?t = "exponent 10 x - 16" and ?v = "fval x"
  let ?m = "half_even (scale 10 (- ?t) x)"
  have t: "(10::real) powi (?t + 16) \<le> ?v"
    using exponent_bounds(1) [of 10 x] assms(1,3) fval_pos_iff [OF assms(1)] by simp
  have p: "0 < (10::real) powi ?t" by simp
  have "?m = he (?v / 10 powi ?t)"
    using assms(1) by (simp add: half_even_eq divide_inverse flip: power_int_minus)
  then have "\<bar>of_int ?m - ?v / 10 powi ?t\<bar> \<le> 1 / 2" by (simp only: he_near)
  then have "\<bar>of_int ?m * 10 powi ?t - ?v\<bar> \<le> 10 powi ?t / 2" by (rule scaled_error [OF p])
  then have "\<bar>of_int ?m * 10 powi ?t - ?v\<bar> * 2 ^ 54 \<le> 10 powi ?t * 2 ^ 53" by simp
  also have "\<dots> < 10 powi ?t * 10 ^ 16" using p by (intro mult_strict_left_mono) simp_all
  also have "\<dots> = 10 powi (?t + 16)" using power_int_add [of "10 :: real" ?t 16] by simp
  finally have "rd (of_int ?m * 10 powi ?t) = ?v" using t assms(2,3) by (intro rd_near) simp_all
  then have "denotes x (?m, ?t)" using assms(1) by (simp add: denotes_def)
  then show ?thesis by (simp add: decimals_def Let_def)
qed

lemma shortest_from_denotes:
  assumes "frac_ok x" "is_double (fval x)" "0 < fval x" "p + n = 18" "0 < n"
  shows "\<exists>d. shortest_from n p x = Some d \<and> denotes x d"
  using assms(4,5)
proof (induction n arbitrary: p)
  case 0
  then show ?case by simp
next
  case (Suc n)
  show ?case
  proof (cases "find (denotes x) (decimals x p)")
    case None
    then have "p \<noteq> 17" using decimals_17 [OF assms(1-3)] by (auto simp: find_None_iff)
    then show ?thesis using Suc None by simp
  next
    case (Some d)
    then have "denotes x d" by (auto simp: find_Some_iff)
    then show ?thesis using Some by (cases d) simp
  qed
qed

theorem shortest_exact:
  assumes "frac_ok x" "is_double (fval x)" "fval x \<noteq> 0"
  shows "\<exists>m e. shortest x = NumDec m e \<and> fval (exact (NumDec m e)) = fval x"
proof -
  let ?a = "frac_abs x"
  have "is_double \<bar>fval x\<bar>" using double_rd [of "\<bar>fval x\<bar>"] rd_id [OF assms(2)]
    by (cases "fval x < 0") (simp_all add: rd_neg)
  then obtain m t where d: "shortest_from 17 1 ?a = Some (m, t)" "denotes ?a (m, t)"
    using shortest_from_denotes [of ?a 1 17] assms by auto
  let ?m = "if fst x < 0 then - m else m"
  obtain m' e' where n: "norm_dec ?m t = NumDec m' e'" "of_int m' * 10 powi e' = (of_int ?m * 10 powi t :: real)"
    using norm_dec_same by blast
  have "rd (of_int m * 10 powi t) = \<bar>fval x\<bar>" using d(2) assms(1) by (simp add: denotes_def)
  then have "rd (of_int ?m * 10 powi t) = fval x" using assms fval_neg_iff [OF assms(1)] by (auto simp: rd_neg)
  then show ?thesis using n d(1) by (simp add: shortest_def)
qed

subsection \<open>Numbers\<close>

definition nval :: "jsnum \<Rightarrow> real" where
  "nval n = fval (exact n)"

definition is_dec :: "jsnum \<Rightarrow> bool" where
  "is_dec n = (\<exists>m e. n = NumDec m e)"

lemma exact_ok [simp]: "frac_ok (exact n)"
  by (cases n) simp_all

lemma nval_dec: "nval (NumDec m e) = rd (of_int m * 10 powi e)"
  by (simp add: nval_def)

lemma nval_double: "is_double (nval n)"
  using double_int [of 0] by (cases n) (simp_all add: nval_def double_rd)

lemma num_of_exact:
  assumes "frac_ok x" "is_double (fval x)" "\<bar>fval x\<bar> < 2 ^ 1024"
  shows "is_dec (num_of x) \<and> nval (num_of x) = fval x"
proof (cases "fst x = 0")
  case True
  then show ?thesis using assms(1) by (simp add: num_of_def is_dec_def nval_dec fval_def)
next
  case False
  have "frac_less (frac_abs x) (2 ^ 1024, 1)" using assms(1,3) by simp
  then show ?thesis using shortest_exact [of x] assms False by (auto simp: num_of_def is_dec_def nval_def)
qed

lemma rounded_exact:
  assumes "frac_ok x" "\<bar>rd (fval x)\<bar> < 2 ^ 1024"
  shows "is_dec (rounded x)" "nval (rounded x) = rd (fval x)"
  using num_of_exact [of "round_double x"] assms by (simp_all add: rounded_def double_rd)

lemma finite_bound: "\<bar>v\<bar> < 2 ^ 53 \<Longrightarrow> \<bar>v\<bar> < (2::real) ^ 1024"
proof -
  assume "\<bar>v\<bar> < 2 ^ 53"
  also have "(2::real) ^ 53 \<le> 2 ^ 1024" by (rule power_increasing) simp_all
  finally show ?thesis .
qed

text \<open>Numbers depend on the value of a fraction only.\<close>

lemma exponent_cong:
  assumes "1 < b" "frac_ok x" "frac_ok y" "0 < fst x" "fval x = fval y"
  shows "exponent b x = exponent b y"
proof -
  have y: "0 < fst y" using assms fval_pos_iff by metis
  note bx = exponent_bounds [OF assms(1,4,2)] and by' = exponent_bounds [OF assms(1) y assms(3)]
  have "real_of_int b powi exponent b x < of_int b powi (exponent b y + 1)" using bx(1) by'(2) assms(5) by linarith
  moreover have "real_of_int b powi exponent b y < of_int b powi (exponent b x + 1)" using bx(2) by'(1) assms(5) by linarith
  moreover have less: "k < l" if "real_of_int b powi k < of_int b powi l" for k l
    using that power_int_increasing [of l k "real_of_int b"] assms(1) by (cases "k < l") simp_all
  ultimately have "exponent b x < exponent b y + 1" "exponent b y < exponent b x + 1" by (blast intro: less)+
  then show ?thesis by simp
qed

lemma decimals_cong:
  assumes "frac_ok x" "frac_ok y" "0 < fst x" "fval x = fval y"
  shows "decimals x = decimals y"
  using assms exponent_cong [OF _ assms] by (auto simp: decimals_def Let_def fun_eq_iff half_even_eq)

lemma shortest_from_cong:
  assumes "frac_ok x" "frac_ok y" "0 < fst x" "fval x = fval y"
  shows "shortest_from n p x = shortest_from n p y"
proof -
  have "denotes x = denotes y" using assms(1,2,4) by (auto simp: denotes_def fun_eq_iff)
  then show ?thesis
  proof (induction n arbitrary: p)
    case (Suc n)
    then show ?case by (simp add: decimals_cong [OF assms] Suc.IH [of "Suc p"] split: option.split)
  qed simp
qed

lemma num_of_cong:
  assumes "frac_ok x" "frac_ok y" "fval x = fval y"
  shows "num_of x = num_of y"
proof (cases "fst x = 0")
  case True
  then have "fst y = 0" using assms fval_zero_iff by metis
  with True show ?thesis by (simp add: num_of_def)
next
  case False
  then have y: "fst y \<noteq> 0" using assms fval_zero_iff by metis
  have "shortest_from 17 1 (frac_abs x) = shortest_from 17 1 (frac_abs y)"
  proof (rule shortest_from_cong)
    show "0 < fst (frac_abs x)" using False by (simp add: frac_abs_def)
  qed (use assms in simp_all)
  moreover have "fst x < 0 \<longleftrightarrow> fst y < 0" using assms fval_neg_iff by metis
  ultimately have "shortest x = shortest y" by (simp only: shortest_def)
  then show ?thesis using False y assms \<open>fst x < 0 \<longleftrightarrow> fst y < 0\<close> by (simp add: num_of_def)
qed

text \<open>A number as the program computes it: its decimal is the shortest one.\<close>

definition canonical_num :: "jsnum \<Rightarrow> bool" where
  "canonical_num n = (\<forall>m e. n = NumDec m e \<longrightarrow> num_of (exact n) = n)"

lemma canonical_eq: "canonical_num a \<Longrightarrow> canonical_num b \<Longrightarrow> is_dec a \<Longrightarrow> is_dec b \<Longrightarrow> nval a = nval b \<Longrightarrow> a = b"
  unfolding canonical_num_def is_dec_def nval_def by (metis exact_ok num_of_cong)

lemma canonical_num_of: "frac_ok x \<Longrightarrow> is_double (fval x) \<Longrightarrow> canonical_num (num_of x)"
proof -
  assume x: "frac_ok x" "is_double (fval x)"
  show ?thesis
  proof (cases "\<bar>fval x\<bar> < 2 ^ 1024")
    case True
    then have "fval (exact (num_of x)) = fval x" using num_of_exact [OF x] by (simp add: nval_def)
    then have "num_of (exact (num_of x)) = num_of x" using x by (intro num_of_cong) simp_all
    then show ?thesis unfolding canonical_num_def by metis
  next
    case False
    moreover have "fst x \<noteq> 0"
    proof
      assume "fst x = 0"
      then show False using False x(1) by (simp add: fval_def)
    qed
    ultimately have "num_of x = NumInf (fst x < 0)" using x(1) by (simp add: num_of_def)
    then show ?thesis by (simp add: canonical_num_def)
  qed
qed

lemma canonical_rounded: "frac_ok x \<Longrightarrow> canonical_num (rounded x)"
  by (simp add: rounded_def canonical_num_of double_rd)

end
