(* ===== verification/Zak_Limits.thy ===== *)
theory Zak_Limits
  imports JS_Double_Facts Zak_Runner
begin

text \<open>
  The limit of words through the kernel: the compiler turns a number of words into a number of tokens with a
  product by \<open>1.3\<close> that is rounded to a double and then up, and the runner turns it back with a quotient that is
  rounded to a double and then down. The two roundings cancel for every limit below \<open>2 ^ 48\<close>.
\<close>

subsection \<open>Operators on values\<close>

lemma dec_pos: "0 < nval (NumDec m e) \<Longrightarrow> 0 < m"
proof (rule ccontr)
  assume p: "0 < nval (NumDec m e)" and "\<not> 0 < m"
  then have "real_of_int m * 10 powi e \<le> 0" by (simp add: mult_nonpos_nonneg)
  then have "rd (of_int m * 10 powi e) \<le> rd 0" by (rule rd_mono)
  then show False using p by (simp add: nval_dec)
qed

lemma signed_pos:
  assumes "frac_ok x" "0 < rd (fval x)" "rd (fval x) < 2 ^ 1024"
  shows "is_dec (rounded_signed neg x)" "nval (rounded_signed neg x) = rd (fval x)"
proof -
  have "fst (round_double x) \<noteq> 0" using assms(1,2) fval_zero_iff [of "round_double x"] by simp
  moreover have "\<bar>rd (fval x)\<bar> < 2 ^ 1024" using assms(2,3) by (metis abs_of_pos)
  ultimately show "is_dec (rounded_signed neg x)" "nval (rounded_signed neg x) = rd (fval x)"
    using rounded_exact [OF assms(1)] by (simp_all only: rounded_signed_def if_False)
qed

lemma mult_value:
  assumes "is_dec a" "is_dec b" "0 < rd (nval a * nval b)" "rd (nval a * nval b) < 2 ^ 1024"
  shows "is_dec (num_mult a b) \<and> nval (num_mult a b) = rd (nval a * nval b)"
proof -
  obtain m e k l where ab: "a = NumDec m e" "b = NumDec k l" using assms(1,2) by (auto simp: is_dec_def)
  have "num_mult a b = rounded_signed (is_negative a \<noteq> is_negative b) (frac_mult (exact a) (exact b))"
    by (simp add: ab num_mult_def is_infinite_def)
  moreover have "fval (frac_mult (exact a) (exact b)) = nval a * nval b" by (simp add: nval_def)
  ultimately show ?thesis using signed_pos [of "frac_mult (exact a) (exact b)"] assms(3,4) by (simp only: frac_ok_ops exact_ok)
qed

lemma div_value:
  assumes "is_dec a" "is_dec b" "0 < nval b" "0 < rd (nval a / nval b)" "rd (nval a / nval b) < 2 ^ 1024"
  shows "is_dec (num_div a b) \<and> nval (num_div a b) = rd (nval a / nval b)"
proof -
  obtain m e k l where ab: "a = NumDec m e" "b = NumDec k l" using assms(1,2) by (auto simp: is_dec_def)
  have "0 < k" using assms(3) unfolding ab by (rule dec_pos)
  then have "num_div a b = rounded_signed (is_negative a \<noteq> is_negative b) (frac_div (exact a) (exact b))"
    by (simp add: ab num_div_def is_infinite_def is_zero_def)
  moreover have "fval (frac_div (exact a) (exact b)) = nval a / nval b" by (simp add: nval_def)
  moreover have "fst (exact b) \<noteq> 0" using assms(3) fval_zero_iff [OF exact_ok, of b] unfolding nval_def by linarith
  moreover have "frac_ok (frac_div (exact a) (exact b))" using \<open>fst (exact b) \<noteq> 0\<close> by simp
  ultimately show ?thesis using signed_pos [of "frac_div (exact a) (exact b)"] assms(4,5) by (simp only: simp_thms)
qed

lemma whole_value: "\<bar>k\<bar> < 2 ^ 53 \<Longrightarrow> is_dec (num_of (k, 1)) \<and> nval (num_of (k, 1)) = of_int k"
proof -
  assume k: "\<bar>k\<bar> < 2 ^ 53"
  then have "real_of_int \<bar>k\<bar> < of_int (2 ^ 53)" by (simp only: of_int_less_iff)
  then have "\<bar>real_of_int k\<bar> < 2 ^ 53" by simp
  then show ?thesis using num_of_exact [of "(k, 1)"] k by (simp only: frac_ok_pair fval_int double_int finite_bound)
qed

lemma floor_value:
  "is_dec a \<Longrightarrow> \<bar>\<lfloor>nval a\<rfloor>\<bar> < 2 ^ 53 \<Longrightarrow> is_dec (num_floor a) \<and> nval (num_floor a) = of_int \<lfloor>nval a\<rfloor>"
  using whole_value [of "\<lfloor>nval a\<rfloor>"] by (auto simp: is_dec_def nval_def simp del: exact.simps)

lemma ceil_value:
  assumes "is_dec a" "0 < \<lceil>nval a\<rceil>" "\<lceil>nval a\<rceil> < 2 ^ 53"
  shows "is_dec (num_ceil a) \<and> nval (num_ceil a) = of_int \<lceil>nval a\<rceil>"
proof -
  obtain m e where a: "a = NumDec m e" using assms(1) by (auto simp: is_dec_def)
  have "fval (- fst x, snd x) = - fval x" for x by (simp add: fval_def)
  then have c: "- frac_floor (- fst (exact a), snd (exact a)) = \<lceil>nval a\<rceil>" by (simp add: nval_def ceiling_def)
  have "num_ceil a = (if \<lceil>nval a\<rceil> = 0 \<and> m < 0 then NumNegZero else num_of (\<lceil>nval a\<rceil>, 1))"
    unfolding c [symmetric] by (simp only: a num_ceil.simps Let_def)
  then have "num_ceil a = num_of (\<lceil>nval a\<rceil>, 1)" using assms(2) by simp
  then show ?thesis using whole_value [of "\<lceil>nval a\<rceil>"] assms(2,3) by simp
qed

subsection \<open>The factor\<close>

text \<open>The double nearest to \<open>1.3\<close> is a little larger.\<close>

definition factor :: real where
  "factor = 5854679515581645 / 2 ^ 52"

lemma factor_value: "nval (NumDec 13 (- 1)) = factor" "is_dec (NumDec 13 (- 1))"
proof -
  have f: "factor = of_int 5854679515581645 * 2 powi (- 52)" 
    using powi_split [of 2 "- 52"] by (simp only: factor_def) simp
  have d: "is_double factor" unfolding is_double_def
    by (rule exI [of _ 5854679515581645], rule exI [of _ "- 52"], intro conjI f) simp_all
  have "rd (13 / 10) = factor" by (rule rd_near [OF d]) (simp_all add: factor_def)
  then show "nval (NumDec 13 (- 1)) = factor" by (simp add: nval_dec power_int_def)
qed (simp add: is_dec_def)

lemma factor_bounds: "13 / 10 < factor" "(factor - 13 / 10) * 2 ^ 52 = 1 / 5"
  by (simp_all add: factor_def)

lemma double_eighths: "0 \<le> k \<Longrightarrow> k < 2 ^ 53 \<Longrightarrow> is_double (of_int k / 16)"
  unfolding is_double_def using powi_split [of 2 "- 4"] by (intro exI [of _ k] exI [of _ "- 4"]) simp

text \<open>Up: the product is rounded up to the least integer that is not below \<open>1.3 * w\<close>.\<close>

lemma tokens_of_words:
  assumes "1 \<le> w" "w < 2 ^ 48" "n = (13 * w + 9) div 10"
  shows "\<lceil>rd (of_int w * factor)\<rceil> = n"
proof -
  let ?x = "of_int w * factor"
  have w: "1 \<le> real_of_int w" "real_of_int w < 2 ^ 48" using assms(1,2) by simp_all
  have e: "of_int w * (factor - 13 / 10) * 2 ^ 52 = of_int w / (5 :: real)"
    using factor_bounds(2) by (metis mult.assoc mult.right_neutral times_divide_eq_right)
  have n: "1 \<le> n" "n < 2 ^ 49" using assms by simp_all
  show ?thesis
  proof (cases "10 dvd w")
    case True
    then obtain k where k: "w = 10 * k" by (auto elim: dvdE)
    then have nk: "n = 13 * k" using assms(3) by simp
    have "rd ?x = of_int n"
    proof (rule rd_near)
      show "is_double (of_int n)" using n by (intro double_int) simp
      show "0 < real_of_int n" using n by simp
      have "?x - of_int n = of_int w * (factor - 13 / 10)" by (simp add: k nk algebra_simps)
      then have "(?x - of_int n) * 2 ^ 52 = of_int w / 5" using e by simp
      moreover have "0 \<le> ?x - of_int n" using factor_bounds(1) w(1) \<open>?x - of_int n = _\<close> by simp
      moreover have "real_of_int w / 5 * 4 < of_int n" using assms(1) by (simp add: k nk)
      ultimately show "\<bar>?x - of_int n\<bar> * 2 ^ 54 < of_int n" by simp
    qed
    then show ?thesis by simp
  next
    case False
    then have "\<not> 10 dvd 13 * w" by presburger
    then have "13 * w + 1 \<le> 10 * n" "10 * n \<le> 13 * w + 9" unfolding assms(3) by presburger+
    then have b: "13 * real_of_int w + 1 \<le> 10 * of_int n" "10 * of_int n \<le> 13 * real_of_int w + 9" by linarith+
    have up: "?x = 13 / 10 * of_int w + of_int w * (factor - 13 / 10)" by (simp add: algebra_simps)
    have "0 \<le> of_int w * (factor - 13 / 10)" using w(1) factor_bounds(1) by simp
    then have "of_int (16 * n - 15) / 16 \<le> ?x" using b(2) unfolding up by simp
    moreover have "is_double (of_int (16 * n - 15) / 16)" using n by (intro double_eighths) simp_all
    ultimately have "of_int (16 * n - 15) / 16 \<le> rd ?x" using rd_mono rd_id by metis
    then have low: "of_int n - 1 < rd ?x" by simp
    have "of_int w * (factor - 13 / 10) * 2 ^ 52 \<le> 1 / 10 * 2 ^ 52" unfolding e using w(2) by simp
    then have "of_int w * (factor - 13 / 10) \<le> 1 / 10" by (rule mult_right_le_imp_le) simp
    then have "?x \<le> of_int n" using b(1) unfolding up by simp
    moreover have "is_double (of_int n)" using n by (intro double_int) simp
    ultimately have "rd ?x \<le> of_int n" using rd_mono rd_id by metis
    with low show ?thesis by (simp add: ceiling_unique)
  qed
qed

text \<open>And down: the quotient is rounded down to the words that the tokens stand for.\<close>

lemma words_of_tokens:
  assumes "1 \<le> w" "w < 2 ^ 48" "n = (13 * w + 9) div 10"
  shows "\<lfloor>rd (of_int n / factor)\<rfloor> = w"
proof -
  have b: "13 * real_of_int w \<le> 10 * of_int n" "10 * of_int n \<le> 13 * real_of_int w + 9"
  proof -
    have "13 * w \<le> 10 * n" "10 * n \<le> 13 * w + 9" unfolding assms(3) by presburger+
    then show "13 * real_of_int w \<le> 10 * of_int n" "10 * of_int n \<le> 13 * real_of_int w + 9" by linarith+
  qed
  have f: "0 < factor" "13 / 10 < factor" using factor_bounds(1) by simp_all
  have w: "0 < real_of_int w" using assms(1) by simp
  let ?q = "13 / 10 * of_int w / factor"
  have "rd ?q = of_int w"
  proof (rule rd_near)
    show "is_double (of_int w)" using assms(1,2) by (intro double_int) simp
    have q: "(of_int w - ?q) * factor = of_int w * (factor - 13 / 10)" using f(1) by (simp add: field_simps)
    have "?q \<le> of_int w" using f w by (simp add: divide_le_eq)
    then have "\<bar>?q - of_int w\<bar> * 2 ^ 54 * factor = (of_int w - ?q) * factor * 2 ^ 54" by simp
    also have "\<dots> = of_int w * 4 / 5" unfolding q using factor_bounds(2) by simp
    also have "\<dots> < of_int w * factor" using w f(2) by simp
    finally show "\<bar>?q - of_int w\<bar> * 2 ^ 54 < of_int w" using f(1) by simp
  qed (use w in simp)
  moreover have "rd ?q \<le> rd (of_int n / factor)" using b(1) f(1) by (intro rd_mono divide_right_mono) simp_all
  moreover have "rd (of_int n / factor) \<le> of_int (16 * w + 12) / 16"
  proof -
    have "of_int n \<le> (of_int w + 3 / 4) * (13 / 10 :: real)" using b(2) by simp
    also have "\<dots> \<le> (of_int w + 3 / 4) * factor" using w f(2) by (intro mult_left_mono) simp_all
    finally have "of_int n / factor \<le> of_int (16 * w + 12) / 16" using f(1) by (simp add: divide_le_eq algebra_simps)
    moreover have "is_double (of_int (16 * w + 12) / 16)" using assms(1,2) by (intro double_eighths) simp_all
    ultimately show ?thesis using rd_mono rd_id by metis
  qed
  ultimately show ?thesis by (simp add: floor_unique)
qed

end
