(* ===== verification/Zak_Compiler_Facts.thy ===== *)
theory Zak_Compiler_Facts
  imports Zak_Limits "HOL-Library.Product_Lexorder"
begin

text \<open>
  Facts on the manifest compiler: what its loop accumulates, read off the list of sigils, and the laws of a
  selection such as \<open>Math.max\<close> and \<open>Math.min\<close> that make a fold depend on the set of its arguments only.
\<close>

subsection \<open>Selections\<close>

text \<open>
  A selection returns one of its two arguments, the one that is not below the other; a bad argument spoils the
  result.
\<close>

locale selection =
  fixes pick :: "'a \<Rightarrow> 'a \<Rightarrow> 'a" and bad :: 'a and below :: "'a \<Rightarrow> 'a \<Rightarrow> bool" and good :: "'a \<Rightarrow> bool"
  assumes pick_bad: "pick bad b = bad" "pick a bad = bad"
    and pick_good: "good a \<Longrightarrow> good b \<Longrightarrow> a \<noteq> bad \<Longrightarrow> b \<noteq> bad \<Longrightarrow> pick a b = (if below a b then b else a)"
    and below_refl: "below a a"
    and below_total: "below a b \<or> below b a"
    and below_trans: "below a b \<Longrightarrow> below b c \<Longrightarrow> below a c"
    and below_antisym: "good a \<Longrightarrow> good b \<Longrightarrow> a \<noteq> bad \<Longrightarrow> b \<noteq> bad \<Longrightarrow> below a b \<Longrightarrow> below b a \<Longrightarrow> a = b"
begin

definition chosen :: "'a \<Rightarrow> 'a list \<Rightarrow> 'a" where
  "chosen a xs = fold (\<lambda>x b. pick b x) xs a"

lemma chosen_bad: "bad \<in> set (a # xs) \<Longrightarrow> chosen a xs = bad"
proof (induction xs arbitrary: a)
  case Nil
  then show ?case by (simp add: chosen_def)
next
  case (Cons x xs)
  have "bad \<in> set (pick a x # xs)" using Cons.prems pick_bad by (metis list.set_intros set_ConsD)
  then have "chosen (pick a x) xs = bad" by (rule Cons.IH)
  then show ?case by (simp add: chosen_def)
qed

lemma chosen_best:
  "\<forall>x \<in> set (a # xs). good x \<and> x \<noteq> bad \<Longrightarrow> chosen a xs \<in> set (a # xs) \<and> (\<forall>x \<in> set (a # xs). below x (chosen a xs))"
proof (induction xs arbitrary: a)
  case Nil
  then show ?case by (simp add: chosen_def below_refl)
next
  case (Cons x xs)
  let ?b = "if below a x then x else a"
  have p: "pick a x = ?b" using Cons.prems pick_good by simp
  then have c: "chosen a (x # xs) = chosen ?b xs" by (simp add: chosen_def)
  have ih: "chosen ?b xs \<in> set (?b # xs)" "\<forall>y \<in> set (?b # xs). below y (chosen ?b xs)"
    using Cons.IH [of ?b] Cons.prems by auto
  have "below a ?b" "below x ?b" using below_refl below_total by auto
  moreover have "below ?b (chosen ?b xs)" using ih(2) by (metis list.set_intros(1))
  ultimately have "below a (chosen ?b xs)" "below x (chosen ?b xs)" by (blast intro: below_trans)+
  then show ?case using ih unfolding c by auto
qed

text \<open>What is chosen depends on the set of the candidates only.\<close>

lemma chosen_set:
  assumes "set (a # xs) = set (b # ys)" "\<forall>x \<in> set (a # xs). good x"
  shows "chosen a xs = chosen b ys"
proof (cases "bad \<in> set (a # xs)")
  case True
  then show ?thesis using assms(1) chosen_bad by metis
next
  case False
  then have ok: "\<forall>x \<in> set (a # xs). good x \<and> x \<noteq> bad" "\<forall>x \<in> set (b # ys). good x \<and> x \<noteq> bad"
    using assms by metis+
  from chosen_best [OF ok(1)] chosen_best [OF ok(2)] show ?thesis
    using ok by (intro below_antisym) (simp_all only: assms(1), blast+)
qed

lemma chosen_least: "b \<in> set (a # xs) \<Longrightarrow> \<forall>x \<in> set (a # xs). good x \<and> x \<noteq> bad \<and> below x b \<Longrightarrow> chosen a xs = b"
  using chosen_best [of a xs] below_antisym by blast

end

subsection \<open>The order of numbers\<close>

text \<open>Infinities outside, and the negative zero below zero.\<close>

definition num_key :: "jsnum \<Rightarrow> int \<times> real \<times> int" where
  "num_key n =
     (case n of
        NumInf neg \<Rightarrow> (if neg then - 1 else 1, 0, 0)
      | NumDec m e \<Rightarrow> (0, nval n, 1)
      | _ \<Rightarrow> (0, 0, 0))"

definition num_below_eq :: "jsnum \<Rightarrow> jsnum \<Rightarrow> bool" where
  "num_below_eq a b = (num_key a \<le> num_key b)"

lemma canonical_zero: "canonical_num (NumDec m e) \<Longrightarrow> nval (NumDec m e) = 0 \<Longrightarrow> m = 0 \<and> e = 0"
proof -
  assume c: "canonical_num (NumDec m e)" "nval (NumDec m e) = 0"
  then have "fst (exact (NumDec m e)) = 0" using fval_zero_iff [OF exact_ok, of "NumDec m e"] by (simp only: nval_def)
  then have "num_of (exact (NumDec m e)) = NumDec 0 0" by (simp add: num_of_def del: exact.simps)
  then show ?thesis using c(1) by (metis canonical_num_def jsnum.inject(2))
qed

lemma num_key_inj:
  assumes "canonical_num a" "canonical_num b" "a \<noteq> NumNaN" "b \<noteq> NumNaN" "num_key a = num_key b"
  shows "a = b"
  using assms canonical_eq [OF assms(1,2)] by (cases a; cases b) (auto simp: num_key_def is_dec_def split: if_splits)

lemma num_less_key:
  assumes "canonical_num a" "canonical_num b" "a \<noteq> NumNaN" "b \<noteq> NumNaN"
  shows "num_less a b \<or> a = NumNegZero \<and> is_zero b \<longleftrightarrow> num_key a < num_key b \<or> a = NumNegZero \<and> b = NumNegZero"
proof -
  have z: "rd (of_int m * 10 powi e) = 0 \<longleftrightarrow> m = 0 \<and> e = 0" if "canonical_num (NumDec m e)" for m e
    using canonical_zero [OF that] by (auto simp: nval_dec)
  show ?thesis
    using assms z by (cases a; cases b) (auto simp: num_key_def is_zero_def nval_dec)
qed

lemma selected:
  assumes "canonical_num a" "canonical_num b" "a \<noteq> NumNaN" "b \<noteq> NumNaN"
  shows "num_max a b = (if num_below_eq a b then b else a)" "num_min a b = (if num_below_eq b a then b else a)"
proof -
  have "num_below_eq a b \<longleftrightarrow> num_key a < num_key b \<or> a = b"
    using num_key_inj [OF assms] by (auto simp: num_below_eq_def le_less)
  then show "num_max a b = (if num_below_eq a b then b else a)"
    using assms num_less_key [OF assms] by (simp add: num_max_def)
  have "num_below_eq b a \<longleftrightarrow> num_key b < num_key a \<or> a = b"
    using num_key_inj [OF assms] by (auto simp: num_below_eq_def le_less)
  then show "num_min a b = (if num_below_eq b a then b else a)"
    using assms num_less_key [OF assms(2,1,4,3)] by (simp add: num_min_def)
qed

interpretation greatest: selection num_max NumNaN num_below_eq canonical_num
proof (unfold_locales, goal_cases)
  case (3 a b)
  then show ?case by (rule selected)
next
  case (7 a b)
  from 7(5,6) have "num_key a = num_key b" unfolding num_below_eq_def by simp
  with 7(1-4) show ?case by (rule num_key_inj)
next
  case (6 a b c)
  then show ?case unfolding num_below_eq_def by (blast intro: order_trans)
qed (simp_all add: num_max_def num_below_eq_def linear)

interpretation least: selection num_min NumNaN "\<lambda>a b. num_below_eq b a" canonical_num
proof (unfold_locales, goal_cases)
  case (3 a b)
  then show ?case by (rule selected)
next
  case (7 a b)
  from 7(5,6) have "num_key a = num_key b" unfolding num_below_eq_def by simp
  with 7(1-4) show ?case by (rule num_key_inj)
next
  case (6 a b c)
  then show ?case unfolding num_below_eq_def by (blast intro: order_trans)
qed (simp_all add: num_min_def num_below_eq_def linear)

subsection \<open>What the loop accumulates\<close>

lemma mset_place [simp]: "mset (place x ys) = add_mset x (mset ys)"
  by (induction ys) auto

lemma mset_sort_sigils [simp]: "mset (sort_sigils xs) = mset xs"
  by (induction xs) (simp_all add: sort_sigils_def)

lemma set_sort_sigils [simp]: "set (sort_sigils xs) = set xs"
  by (metis mset_sort_sigils set_mset_mset)

text \<open>The limits that the invariants of a sigil declare, and whether it refuses opinions.\<close>

definition declared_limit :: "string \<Rightarrow> jsnum option" where
  "declared_limit i =
     (let parts = split_on (CHR '':'') i
      in if hd parts = ''OUTPUT_LIMIT_WORDS'' \<and> 2 \<le> length parts \<and> parts ! 1 \<noteq> [] then Some (parse_int (parts ! 1)) else None)"

definition limits_of :: "compiled_sigil list \<Rightarrow> jsnum list" where
  "limits_of ss = List.map_filter declared_limit (concat (map cs_invariants ss))"

definition refuses_opinions :: "compiled_sigil \<Rightarrow> bool" where
  "refuses_opinions s = (\<exists>i \<in> set (cs_invariants s). hd (split_on (CHR '':'') i) = ''REFUSE_PERSONAL_OPINION'')"

definition closes_tools :: "compiled_sigil \<Rightarrow> bool" where
  "closes_tools s = (cs_topology s \<in> {''closed'', ''directed''})"

lemma fold_invariants:
  "fold compile_invariant is st = st
     \<lparr>minWords := least.chosen (minWords st) (List.map_filter declared_limit is),
      opinions_refused := (opinions_refused st \<or> (\<exists>i \<in> set is. hd (split_on (CHR '':'') i) = ''REFUSE_PERSONAL_OPINION''))\<rparr>"
proof (induction "is" arbitrary: st)
  case Nil
  then show ?case by (simp add: least.chosen_def List.map_filter_simps)
next
  case (Cons i "is")
  have "compile_invariant i st = st
     \<lparr>minWords := (case declared_limit i of None \<Rightarrow> minWords st | Some n \<Rightarrow> num_min (minWords st) n),
      opinions_refused := (opinions_refused st \<or> hd (split_on (CHR '':'') i) = ''REFUSE_PERSONAL_OPINION'')\<rparr>"
    by (auto simp: compile_invariant_def declared_limit_def Let_def)
  then show ?case by (auto simp: Cons.IH least.chosen_def List.map_filter_simps split: option.split)
qed

lemma limits_Cons: "limits_of (s # ss) = List.map_filter declared_limit (cs_invariants s) @ limits_of ss"
  by (simp add: limits_of_def List.map_filter_def)

lemma chosen_append:
  "least.chosen a (xs @ ys) = least.chosen (least.chosen a xs) ys"
  by (simp add: least.chosen_def)

text \<open>The state of the loop after a list of sigils.\<close>

definition compiled_state :: "compiled_sigil list \<Rightarrow> compile_state \<Rightarrow> compile_state" where
  "compiled_state ss st =
     \<lparr>maxRoughness = greatest.chosen (maxRoughness st) (map cs_roughness ss),
      minWords = least.chosen (minWords st) (limits_of ss),
      allowTools = (allowTools st \<and> (\<forall>s \<in> set ss. \<not> closes_tools s)),
      allowRag = (allowRag st \<and> (\<forall>s \<in> set ss. \<not> closes_tools s)),
      forceJson = (forceJson st \<or> (\<exists>s \<in> set ss. cs_topology s = ''directed'')),
      opinions_refused = (opinions_refused st \<or> (\<exists>s \<in> set ss. refuses_opinions s))\<rparr>"

lemma compile_step_state: "compile_step s st = compiled_state [s] st"
  by (auto simp: compile_step_def compiled_state_def fold_invariants closes_tools_def refuses_opinions_def
      greatest.chosen_def limits_of_def Let_def)

lemma fold_sigils: "fold compile_step ss st = compiled_state ss st"
proof (induction ss arbitrary: st)
  case Nil
  show ?case by (simp add: compiled_state_def greatest.chosen_def least.chosen_def limits_of_def List.map_filter_simps)
next
  case (Cons s ss)
  have "fold compile_step (s # ss) st = compiled_state ss (compiled_state [s] st)"
    by (simp add: Cons.IH flip: compile_step_state)
  also have "\<dots> = compiled_state (s # ss) st"
    by (simp add: compiled_state_def greatest.chosen_def limits_Cons [of s ss] limits_Cons [of s "[]"] chosen_append)
      (simp add: limits_of_def List.map_filter_simps conj_assoc disj_assoc least.chosen_def)
  finally show ?case .
qed

lemma compileContext_state: "compileContext ss = manifest_of (compiled_state (sort_sigils ss) compile_start)"
  by (simp add: compileContext_def fold_sigils)

subsection \<open>Declared limits are canonical numbers\<close>

lemma norm_dec_neg: "norm_dec (- m) e = num_neg (norm_dec m e)" if "m \<noteq> 0"
  using that
proof (induction m e rule: norm_dec.induct)
  case (1 m e)
  show ?case
  proof (cases "10 dvd m")
    case True
    then have "(- m) div 10 = - (m div 10)" by (simp add: dvd_neg_div)
    then show ?thesis using 1 True by (simp add: norm_dec.simps [of m] norm_dec.simps [of "- m"] dvd_div_eq_0_iff)
  next
    case False
    then show ?thesis using 1 by (simp add: norm_dec.simps [of m] norm_dec.simps [of "- m"])
  qed
qed

lemma num_of_neg:
  assumes "frac_ok x" "is_double (fval x)" "fst x \<noteq> 0"
  shows "num_of (- fst x, snd x) = num_neg (num_of x)"
proof -
  have "fval x \<noteq> 0" using assms by simp
  then have pos: "0 < fval (frac_abs x)" using assms(1) by (simp del: fval_zero_iff)
  have "is_double (fval (frac_abs x))"
    using assms double_rd [of "- fval x"] rd_id [OF assms(2)] by (simp add: abs_if rd_neg)
  obtain m t where d: "shortest_from 17 1 (frac_abs x) = Some (m, t)" "denotes (frac_abs x) (m, t)"
    using shortest_from_denotes [of "frac_abs x" 1 17] assms(1) pos \<open>is_double (fval (frac_abs x))\<close> by auto
  have "m \<noteq> 0"
  proof
    assume "m = 0"
    then show False using d(2) pos assms(1) by (simp add: denotes_def)
  qed
  then have n: "norm_dec (- m) t = num_neg (norm_dec m t)" "norm_dec m t = num_neg (norm_dec (- m) t)"
    using norm_dec_neg [of m t] norm_dec_neg [of "- m" t] by simp_all
  have "frac_abs (- fst x, snd x) = frac_abs x" by (simp add: frac_abs_def)
  then show ?thesis using assms(3) d(1) n by (auto simp: num_of_def shortest_def)
qed

lemma canonical_neg_rounded: "frac_ok x \<Longrightarrow> canonical_num (num_neg (rounded x))"
proof (cases "fst (round_double x) = 0")
  case True
  then show ?thesis by (simp add: rounded_def num_of_def canonical_num_def)
next
  case False
  assume x: "frac_ok x"
  let ?y = "round_double x"
  have y: "fval (- fst ?y, snd ?y) = - rd (fval x)" using x fval_round [OF x] by (simp add: fval_def)
  have "frac_ok (- fst ?y, snd ?y)" using round_ok [of x] by (simp add: frac_ok_def)
  moreover have "is_double (fval (- fst ?y, snd ?y))" unfolding y using double_rd [of "- fval x"] by (simp add: rd_neg)
  ultimately have "canonical_num (num_of (- fst ?y, snd ?y))" by (rule canonical_num_of)
  then show ?thesis using num_of_neg [of ?y] False x by (simp add: rounded_def double_rd)
qed

lemma canonical_parse_int: "canonical_num (parse_int s)"
  using canonical_rounded canonical_neg_rounded by (auto simp: parse_int_def Let_def canonical_num_def [of NumNaN])

lemma canonical_limits: "n \<in> set (limits_of ss) \<Longrightarrow> canonical_num n"
  using canonical_parse_int
  by (auto simp: limits_of_def declared_limit_def Let_def List.map_filter_def split: if_splits)

end
