(* ===== verification/Zak_Run_Properties.thy ===== *)
theory Zak_Run_Properties
  imports Zak_Compiler_Facts
begin

text \<open>
  Properties of the compiler and the runner of the zero-asset kernel: the manifest depends on the set of the sigils
  only, a closed sigil closes the gates, a run fails closed, and the declared limit of words is kept exactly.
\<close>

subsection \<open>The manifest\<close>

text \<open>C14: The manifest is deterministic: it depends on the set of the sigils only. Neither their order, nor a sigil that
  is given twice, nor the sort that the compiler does first, has any influence on the options of the engine or on
  the gates.
\<close>

theorem manifest_depends_on_sigil_set:
  assumes "set ss = set ts" and "\<forall>s \<in> set ss. canonical_num (cs_roughness s)"
  shows "compileContext ss = compileContext ts"
proof -
  let ?a = "sort_sigils ss" and ?b = "sort_sigils ts"
  have s: "set ?a = set ?b" using assms(1) by simp
  have "greatest.chosen (NumDec 0 0) (map cs_roughness ?a) = greatest.chosen (NumDec 0 0) (map cs_roughness ?b)"
  proof (rule greatest.chosen_set)
    show "set (NumDec 0 0 # map cs_roughness ?a) = set (NumDec 0 0 # map cs_roughness ?b)" using s by simp
    have "canonical_num (NumDec 0 0)" using canonical_rounded [of "(0, 1)"] by (simp add: rounded_def round_double_def num_of_def)
    then show "\<forall>x \<in> set (NumDec 0 0 # map cs_roughness ?a). canonical_num x" using assms(2) by simp
  qed
  moreover have "least.chosen (NumInf False) (limits_of ?a) = least.chosen (NumInf False) (limits_of ?b)"
  proof (rule least.chosen_set)
    have "set (limits_of xs) = (\<Union>s \<in> set xs. \<Union>i \<in> set (cs_invariants s). set_option (declared_limit i))" for xs
      by (force simp: limits_of_def List.map_filter_def)
    then show "set (NumInf False # limits_of ?a) = set (NumInf False # limits_of ?b)" using s by simp
    show "\<forall>x \<in> set (NumInf False # limits_of ?a). canonical_num x"
      using canonical_limits by (auto simp: canonical_num_def [of "NumInf False"])
  qed
  ultimately show ?thesis
    unfolding compileContext_state compiled_state_def compile_start_def compile_state.select_convs s by simp
qed

text \<open>C15: The gates fail closed: tools and retrieval are allowed exactly when no sigil has a closed or directed topology,
  and the output must be JSON exactly when some sigil is directed. One closed sigil among any others is enough.
\<close>

theorem gates_fail_closed:
  "(allow_tools (io_gates (compileContext ss)) \<longleftrightarrow> (\<nexists>s. s \<in> set ss \<and> cs_topology s \<in> {''closed'', ''directed''}))
  \<and> (allow_rag (io_gates (compileContext ss)) \<longleftrightarrow> (\<nexists>s. s \<in> set ss \<and> cs_topology s \<in> {''closed'', ''directed''}))
  \<and> (response_format (io_gates (compileContext ss)) = Json_object \<longleftrightarrow> (\<exists>s. s \<in> set ss \<and> cs_topology s = ''directed''))"
  by (auto simp: compileContext_state manifest_of_def compiled_state_def compile_start_def closes_tools_def)

subsection \<open>Runs\<close>

lemma post_process_cases:
  "run_ok (post_process m corr clk acts t) \<Longrightarrow> \<exists>t1 more_acts. json_gate (response_format (io_gates m)) t = (Inr t1, more_acts)
     \<and> run_text (post_process m corr clk acts t) = Some (fst (cut_words (max_tokens (engine m)) t1))"
  by (auto simp: post_process_def run_failed_def run_done_def split: prod.splits sum.splits)

lemma execute_answer:
  assumes "zak_execute a m p corr clk s = (r, s')" "run_ok r"
  shows "\<exists>opts acts0 s1 raw t1 acts. engine_call a m s = (Inr (opts, acts0), s1) \<and> generate_text a p opts s1 = (Inr raw, s')
    \<and> json_gate (response_format (io_gates m)) raw = (Inr t1, acts)
    \<and> run_text r = Some (fst (cut_words (max_tokens (engine m)) t1))"
  using assms
  by (auto simp: zak_execute_def runtime_error_def run_failed_def split: prod.splits sum.splits dest!: post_process_cases)

subsection \<open>Words\<close>

abbreviation plain_word :: "string \<Rightarrow> bool" where
  "plain_word w \<equiv> w \<noteq> [] \<and> (\<forall>c \<in> set w. \<not> is_ws c)"

declare words_of.simps [simp del]

lemma last_dropWhile: "dropWhile P xs \<noteq> [] \<Longrightarrow> last (dropWhile P xs) = last xs"
  by (induction xs) auto

text \<open>The words of a trimmed text, and the text that they are joined to.\<close>

lemma words_of_plain:
  "s \<noteq> [] \<Longrightarrow> \<not> is_ws (hd s) \<Longrightarrow> \<not> is_ws (last s) \<Longrightarrow> \<forall>w \<in> set (words_of s). plain_word w"
proof (induction s rule: words_of.induct)
  case (1 s)
  let ?w = "takeWhile (\<lambda>c. \<not> is_ws c) s" and ?r = "dropWhile (\<lambda>c. \<not> is_ws c) s"
  have w: "plain_word ?w" using 1(2,3) by (cases s) (auto dest: set_takeWhileD)
  show ?case
  proof (cases "?r = []")
    case True
    then have "words_of s = [?w]" by (subst words_of.simps) (simp add: Let_def)
    with w show ?thesis by simp
  next
    case False
    have l: "last ?r = last s" using False by (rule last_dropWhile)
    have d: "dropWhile is_ws ?r \<noteq> []"
    proof
      assume "dropWhile is_ws ?r = []"
      then have "is_ws (last ?r)" using last_in_set [OF False] by (simp only: dropWhile_eq_Nil_conv)
      then show False using l 1(4) by simp
    qed
    have "words_of s = ?w # words_of (dropWhile is_ws ?r)" by (simp only: words_of.simps [of s] Let_def False if_False)
    moreover have "\<forall>w \<in> set (words_of (dropWhile is_ws ?r)). plain_word w"
    proof (rule 1(1) [OF refl refl False d])
      show "\<not> is_ws (hd (dropWhile is_ws ?r))" by (rule dropWhile_hd [OF d])
      show "\<not> is_ws (last (dropWhile is_ws ?r))" using 1(4) by (simp only: last_dropWhile [OF d] l not_False_eq_True)
    qed
    ultimately show ?thesis using w by (metis set_ConsD)
  qed
qed

lemma words_of_Nil: "words_of [] = [[]]"
  by (subst words_of.simps) simp

lemma words_of_not_Nil: "words_of s \<noteq> []"
  by (subst words_of.simps) (simp add: Let_def)

lemma words_of_word: "plain_word w \<Longrightarrow> words_of w = [w]"
  by (subst words_of.simps) (auto simp: Let_def takeWhile_eq_all_conv dropWhile_eq_Nil_conv)

lemma space_ws [simp]: "is_ws (CHR '' '')"
  by (simp add: is_ws_def)

lemma words_of_step: "plain_word w \<Longrightarrow> t \<noteq> [] \<Longrightarrow> \<not> is_ws (hd t) \<Longrightarrow> words_of (w @ CHR '' '' # t) = w # words_of t"
proof -
  assume w: "plain_word w" and t: "t \<noteq> []" "\<not> is_ws (hd t)"
  have "dropWhile is_ws t = t" using t by (cases t) simp_all
  then show ?thesis using w by (subst words_of.simps) (simp add: Let_def takeWhile_append dropWhile_append)
qed

lemma join_words:
  assumes "ws \<noteq> []" "\<forall>w \<in> set ws. plain_word w"
  shows "words_of (join '' '' ws) = ws \<and> join '' '' ws \<noteq> [] \<and> \<not> is_ws (hd (join '' '' ws)) \<and> \<not> is_ws (last (join '' '' ws))"
  using assms
proof (induction ws)
  case Nil
  then show ?case by simp
next
  case (Cons w ws)
  show ?case
  proof (cases ws)
    case Nil
    then show ?thesis using Cons.prems words_of_word [of w] by (cases w rule: rev_cases) (auto simp: hd_append)
  next
    case (Cons v vs)
    then have j: "join '' '' (w # ws) = w @ CHR '' '' # join '' '' ws" by simp
    have "words_of (join '' '' ws) = ws \<and> join '' '' ws \<noteq> [] \<and> \<not> is_ws (hd (join '' '' ws)) \<and> \<not> is_ws (last (join '' '' ws))"
      using Cons.IH Cons.prems Cons by simp
    then show ?thesis unfolding j using Cons.prems words_of_step [of w "join '' '' ws"] by (cases w) auto
  qed
qed

text \<open>A text that is cut to a positive number of words has that many.\<close>

lemma cut_text_words:
  assumes "1 \<le> w" "w < length (words_of (trim t))"
  shows "words_of (trim (join '' '' (take w (words_of (trim t))))) = take w (words_of (trim t))"
proof -
  have "trim t \<noteq> []" using assms words_of_Nil by auto
  then have "\<forall>x \<in> set (words_of (trim t)). plain_word x" using trim_ends by (intro words_of_plain)
  then have p: "\<forall>x \<in> set (take w (words_of (trim t))). plain_word x" by (meson in_set_takeD)
  have "take w (words_of (trim t)) \<noteq> []" using assms by auto
  from join_words [OF this p] show ?thesis using trim_id by metis
qed

subsection \<open>The limit of words\<close>

lemma digit_plain: "is_digit c \<Longrightarrow> \<not> is_ws c \<and> c \<noteq> CHR '':'' \<and> c \<noteq> CHR ''-'' \<and> c \<noteq> CHR ''+''"
  by (auto simp: is_digit_def is_ws_def)

lemma parse_int_show [simp]: "parse_int (show_nat k) = rounded (int k, 1)"
proof -
  obtain c cs where s: "show_nat k = c # cs" by (cases "show_nat k") simp_all
  then have d: "\<forall>x \<in> set (c # cs). is_digit x" using show_nat_digits by metis
  then have tw: "takeWhile is_digit cs = cs" by (simp add: takeWhile_eq_all_conv)
  have "nat_of_digits (c # cs) = k" using nat_of_digits_show_nat [of k] by (simp only: s)
  then show ?thesis using d digit_plain [of c] by (simp add: parse_int_def Let_def s tw)
qed

lemma small_value:
  assumes "0 < k" "k < 2 ^ 48"
  shows "is_dec (rounded (int k, 1)) \<and> nval (rounded (int k, 1)) = real k"
proof -
  have d: "rd (real k) = real k" using rd_id [OF double_int [of "int k"]] assms by simp
  have "\<bar>real k\<bar> < 2 ^ 53" using assms by simp
  then have "\<bar>real k\<bar> < 2 ^ 1024" by (rule finite_bound)
  then show ?thesis using rounded_exact [of "(int k, 1)"] d by (simp only: frac_ok_pair fval_int of_int_of_nat_eq)
qed

definition limit_text :: "nat \<Rightarrow> string" where
  "limit_text k = ''OUTPUT_LIMIT_WORDS:'' @ show_nat k"

lemma split_limit: "split_on (CHR '':'') (limit_text k) = [''OUTPUT_LIMIT_WORDS'', show_nat k]"
proof -
  have "CHR '':'' \<notin> set (show_nat k)" using show_nat_digits digit_plain by blast
  then show ?thesis using split_on_append [of "CHR '':''" "''OUTPUT_LIMIT_WORDS''" "show_nat k"]
    by (simp add: limit_text_def)
qed

lemma declared_limit_text [simp]: "declared_limit (limit_text k) = Some (rounded (int k, 1))"
  by (simp add: declared_limit_def Let_def split_limit)

text \<open>The sigils declare limits in the plain form, and \<open>w\<close> is the least of them.\<close>

definition least_limit :: "nat \<Rightarrow> compiled_sigil list \<Rightarrow> bool" where
  "least_limit w ss \<longleftrightarrow> (\<exists>s \<in> set ss. limit_text w \<in> set (cs_invariants s))
     \<and> (\<forall>s \<in> set ss. \<forall>i \<in> set (cs_invariants s). hd (split_on (CHR '':'') i) = ''OUTPUT_LIMIT_WORDS''
          \<longrightarrow> (\<exists>k. i = limit_text k \<and> w \<le> k \<and> k < 2 ^ 48))"

lemma least_limits:
  assumes "least_limit w ss"
  shows "rounded (int w, 1) \<in> set (limits_of ss)" "n \<in> set (limits_of ss) \<Longrightarrow> \<exists>k. n = rounded (int k, 1) \<and> w \<le> k \<and> k < 2 ^ 48"
proof -
  have m: "set (limits_of xs) = (\<Union>s \<in> set xs. \<Union>i \<in> set (cs_invariants s). set_option (declared_limit i))" for xs
    by (force simp: limits_of_def List.map_filter_def)
  show "rounded (int w, 1) \<in> set (limits_of ss)" using assms unfolding m least_limit_def by force
  have h: "hd (split_on (CHR '':'') i) = ''OUTPUT_LIMIT_WORDS''" if "declared_limit i = Some n" for i n
    using that by (simp add: declared_limit_def Let_def split: if_splits)
  show "\<exists>k. n = rounded (int k, 1) \<and> w \<le> k \<and> k < 2 ^ 48" if "n \<in> set (limits_of ss)"
  proof -
    from that obtain s i where i: "s \<in> set ss" "i \<in> set (cs_invariants s)" "n \<in> set_option (declared_limit i)"
      unfolding m by blast
    then have "declared_limit i = Some n" by (simp add: elem_set)
    then obtain k where "i = limit_text k" "w \<le> k" "k < 2 ^ 48" using assms h i(1,2) unfolding least_limit_def by blast
    then show ?thesis using \<open>declared_limit i = Some n\<close> by auto
  qed
qed

lemma least_limit_bound: "least_limit w ss \<Longrightarrow> w < 2 ^ 48"
proof -
  assume l: "least_limit w ss"
  then obtain s where "s \<in> set ss" "limit_text w \<in> set (cs_invariants s)" by (auto simp: least_limit_def)
  then obtain k where "limit_text w = limit_text k" "w \<le> k" "k < 2 ^ 48"
    using l split_limit [of w] unfolding least_limit_def by (metis list.sel(1))
  then show ?thesis by simp
qed

lemma compiled_limit:
  assumes "least_limit w ss" "1 \<le> w"
  shows "minWords (compiled_state (sort_sigils ss) compile_start) = rounded (int w, 1)"
proof -
  have ls: "least_limit w (sort_sigils ss)" using assms(1) by (simp add: least_limit_def)
  have "least.chosen (NumInf False) (limits_of (sort_sigils ss)) = rounded (int w, 1)"
  proof (rule least.chosen_least)
    show "rounded (int w, 1) \<in> set (NumInf False # limits_of (sort_sigils ss))" using least_limits(1) [OF ls] by simp
    have "canonical_num n \<and> n \<noteq> NumNaN \<and> num_below_eq (rounded (int w, 1)) n" if n: "n \<in> set (NumInf False # limits_of (sort_sigils ss))" for n
    proof (cases "n = NumInf False")
      case True
      have "is_dec (rounded (int w, 1))" using small_value [of w] assms least_limit_bound [OF ls] by simp
      then show ?thesis using True by (auto simp: canonical_num_def num_below_eq_def num_key_def is_dec_def)
    next
      case False
      then obtain k where k: "n = rounded (int k, 1)" "w \<le> k" "k < 2 ^ 48" using n least_limits(2) [OF ls, of n] by auto
      obtain m e m' e' where d: "rounded (int k, 1) = NumDec m e" "rounded (int w, 1) = NumDec m' e'"
        using small_value [of k] small_value [of w] k(2,3) assms(2) by (auto simp: is_dec_def)
      have "nval (NumDec m' e') \<le> nval (NumDec m e)"
        using small_value [of k] small_value [of w] k(2,3) assms(2) by (simp add: d)
      then show ?thesis using canonical_rounded [of "(int k, 1)"] by (simp add: k(1) d num_below_eq_def num_key_def)
    qed
    then show "\<forall>x \<in> set (NumInf False # limits_of (sort_sigils ss)).
        canonical_num x \<and> x \<noteq> NumNaN \<and> num_below_eq (rounded (int w, 1)) x" by blast
  qed
  then show ?thesis by (simp add: compiled_state_def compile_start_def)
qed

lemma int_less_words: "is_dec n \<Longrightarrow> nval n = real w \<Longrightarrow> w < 2 ^ 48 \<Longrightarrow> num_less n (norm_dec (int l) 0) \<longleftrightarrow> w < l"
proof -
  assume n: "is_dec n" "nval n = real w" "w < 2 ^ 48"
  obtain m e where l: "norm_dec (int l) 0 = NumDec m e" "of_int m * 10 powi e = (real l :: real)"
    using norm_dec_same [of "int l" 0] by auto
  have "num_less n (norm_dec (int l) 0) \<longleftrightarrow> real w < rd (real l)"
    using n(1,2) l by (auto simp: is_dec_def nval_def)
  also have "\<dots> \<longleftrightarrow> w < l"
  proof (cases "w < l")
    case True
    have "rd (real (Suc w)) = real (Suc w)" using rd_id [OF double_int [of "int (Suc w)"]] n(3) by simp
    moreover have "rd (real (Suc w)) \<le> rd (real l)" using True by (intro rd_mono) simp
    ultimately show ?thesis using True by simp
  next
    case False
    have "rd (real w) = real w" using rd_id [OF double_int [of "int w"]] n(3) by simp
    moreover have "rd (real l) \<le> rd (real w)" using False by (intro rd_mono) simp
    ultimately show ?thesis using False by simp
  qed
  finally show ?thesis .
qed

text \<open>The two conversions, on the numbers of the program.\<close>

lemma tokens_number:
  assumes "0 < w" "w < 2 ^ 48" "is_dec n" "nval n = real w"
  shows "is_dec (num_ceil (num_mult n (NumDec 13 (- 1))))"
    "nval (num_ceil (num_mult n (NumDec 13 (- 1)))) = of_int ((13 * int w + 9) div 10)"
proof -
  let ?n = "(13 * int w + 9) div 10" and ?m = "num_mult n (NumDec 13 (- 1))"
  have n: "1 \<le> ?n" "?n < 2 ^ 49" using assms(1,2) by simp_all
  have up: "\<lceil>rd (real w * factor)\<rceil> = ?n" using tokens_of_words [of "int w" ?n] assms(1,2) by simp
  have f: "1 \<le> factor" using factor_bounds(1) by simp
  then have "1 \<le> real w * factor" using assms(1) mult_mono [of 1 "real w" 1 factor] by simp
  then have "rd 1 \<le> rd (real w * factor)" by (rule rd_mono)
  then have pos: "1 \<le> rd (real w * factor)" using rd_id [OF double_int [of 1]] by simp
  have "real_of_int ?n < of_int (2 ^ 49)" using n(2) by (simp only: of_int_less_iff)
  moreover have "rd (real w * factor) \<le> of_int ?n" unfolding up [symmetric] by (rule le_of_int_ceiling)
  ultimately have "rd (real w * factor) < 2 ^ 49" by simp
  moreover have "(2::real) ^ 49 \<le> 2 ^ 1024" by (rule power_increasing) simp_all
  ultimately have "rd (real w * factor) < 2 ^ 1024" by linarith
  then have m: "is_dec ?m" "nval ?m = rd (real w * factor)"
    using mult_value [OF assms(3) factor_value(2)] pos unfolding assms(4) factor_value(1) by force+
  have "?n < 2 ^ 53" "0 < ?n" using n by simp_all
  then show "is_dec (num_ceil ?m)" "nval (num_ceil ?m) = of_int ?n"
    using ceil_value [OF m(1)] unfolding m(2) up by blast+
qed

lemma words_number:
  assumes "0 < w" "w < 2 ^ 48" "is_dec n" "nval n = of_int ((13 * int w + 9) div 10)"
  shows "is_dec (word_limit n) \<and> nval (word_limit n) = real w"
proof -
  let ?q = "nval n / factor"
  have down: "\<lfloor>rd ?q\<rfloor> = int w" unfolding assms(4) using words_of_tokens [OF _ _ refl, of "int w"] assms(1,2) by simp
  then have b: "1 \<le> rd ?q" "rd ?q < real w + 1" using assms(1) by linarith+
  have "real w + 1 < (2::real) ^ 53" using assms(2) by simp
  moreover have "(2::real) ^ 53 \<le> 2 ^ 1024" by (rule power_increasing) simp_all
  ultimately have "rd ?q < 2 ^ 1024" using b(2) by linarith
  moreover have "0 < factor" "0 < rd ?q" using factor_bounds(1) b(1) by simp_all
  ultimately have q: "is_dec (num_div n (NumDec 13 (- 1)))" "nval (num_div n (NumDec 13 (- 1))) = rd ?q"
    using div_value [OF assms(3) factor_value(2)] unfolding factor_value(1) by blast+
  show ?thesis using floor_value [OF q(1)] assms(2) by (simp add: word_limit_def q(2) down)
qed

lemma compiled_tokens:
  assumes "least_limit w ss" "1 \<le> w"
  shows "\<exists>n. max_tokens (engine (compileContext ss)) = Some n \<and> truthy (JNum n)
    \<and> is_dec (word_limit n) \<and> nval (word_limit n) = real w"
proof -
  have w: "0 < w" "w < 2 ^ 48" using assms least_limit_bound by auto
  let ?n = "num_ceil (num_mult (rounded (int w, 1)) (NumDec 13 (- 1)))"
  have v: "is_dec (rounded (int w, 1))" "nval (rounded (int w, 1)) = real w" using small_value [OF w] by simp_all
  note t = tokens_number [OF w v]
  have "minWords (compiled_state (sort_sigils ss) compile_start) = rounded (int w, 1)" using assms by (rule compiled_limit)
  moreover have "rounded (int w, 1) \<noteq> NumInf False" using v(1) by (auto simp: is_dec_def)
  ultimately have "max_tokens (engine (compileContext ss)) = Some ?n" by (simp add: compileContext_state manifest_of_def)
  moreover have "1 \<le> (13 * int w + 9) div 10" using w by simp
  then have "nval ?n \<noteq> 0" by (simp add: t(2))
  then have "?n \<noteq> NumDec 0 0" by (auto simp: nval_dec)
  then have "truthy (JNum ?n)" using t(1) by (auto simp: is_dec_def)
  ultimately show ?thesis using words_number [OF w t] by blast
qed

text \<open>C13: The declared limit of words is kept exactly: when \<open>w\<close> is the least limit that the sigils declare, at least one
  and below \<open>2 ^ 48\<close> as all of them, each written as a plain number in digits (a limit of zero is not enforced), the compiler
  multiplies it by \<open>1.3\<close> in floating point and rounds up, the runner divides by \<open>1.3\<close> and rounds down, and what a
  successful run returns has at most \<open>w\<close> words. A text that has no more words than that is returned as it is, and
  of a longer one the first \<open>w\<close> words are kept.
\<close>

theorem declared_word_limit_is_kept:
  assumes "least_limit w ss" and "1 \<le> w"
    and "zak_execute a (compileContext ss) p corr clk s = (r, s')" and "run_ok r"
  shows "\<exists>raw t1 acts opts s1 t. generate_text a p opts s1 = (Inr raw, s')
    \<and> json_gate (response_format (io_gates (compileContext ss))) raw = (Inr t1, acts)
    \<and> run_text r = Some t \<and> length (words_of (trim t)) \<le> w
    \<and> (length (words_of (trim t1)) \<le> w \<longrightarrow> t = t1)
    \<and> (w < length (words_of (trim t1)) \<longrightarrow> words_of (trim t) = take w (words_of (trim t1)))"
proof -
  from execute_answer [OF assms(3,4)] obtain raw t1 acts opts s1 where
    e: "generate_text a p opts s1 = (Inr raw, s')"
      "json_gate (response_format (io_gates (compileContext ss))) raw = (Inr t1, acts)"
      "run_text r = Some (fst (cut_words (max_tokens (engine (compileContext ss))) t1))" by blast
  obtain n where n: "max_tokens (engine (compileContext ss)) = Some n" "truthy (JNum n)"
      "is_dec (word_limit n)" "nval (word_limit n) = real w" using compiled_tokens [OF assms(1,2)] by blast
  have l: "num_less (word_limit n) (norm_dec (int k) 0) \<longleftrightarrow> w < k" for k
    using int_less_words [OF n(3,4) least_limit_bound [OF assms(1)]] .
  have sl: "slice_front (word_limit n) xs = take w xs" for xs :: "string list"
    using n(3,4) by (auto simp: slice_front_def is_dec_def nval_def simp del: exact.simps)
  let ?t = "if length (words_of (trim t1)) \<le> w then t1 else join '' '' (take w (words_of (trim t1)))"
  have t: "fst (cut_words (max_tokens (engine (compileContext ss))) t1) = ?t"
    using n(1,2) l sl by (simp add: cut_words_def Let_def del: truthy.simps)
  have "w < length (words_of (trim t1)) \<Longrightarrow> words_of (trim ?t) = take w (words_of (trim t1))"
    using cut_text_words [OF assms(2), of t1] by simp
  moreover have "length (words_of (trim ?t)) \<le> w" using calculation by (cases "length (words_of (trim t1)) \<le> w") simp_all
  ultimately show ?thesis using e t
    by (intro exI [of _ raw] exI [of _ t1] exI [of _ acts] exI [of _ opts] exI [of _ s1] exI [of _ ?t]) simp
qed

lemma execute_shape:
  "zak_execute a m p corr clk s = (r, s') \<Longrightarrow>
     (\<exists>acts t. r = run_done m corr clk acts t) \<or> (\<exists>acts e. r = run_failed m corr clk acts e)"
  by (auto simp: zak_execute_def runtime_error_def post_process_def split: prod.splits sum.splits)

lemma gate_passes:
  "json_gate f raw = (Inr t1, acts) \<Longrightarrow>
     (f \<noteq> Json_object \<and> t1 = raw) \<or> (f = Json_object \<and> json_parse t1 \<noteq> None
       \<and> (t1 = raw \<or> json_parse raw = None \<and> braced_part raw = Some t1))"
  by (auto simp: json_gate_def split: if_splits option.splits)

text \<open>C16: A run fails closed. When it succeeds, its text is what the engine generated for the prompt and the options of the
  manifest, passed through the JSON gate and the word limit and nothing else: without a demand for JSON the gate
  changes nothing; with it, what passes parses as JSON, and is the generated text or, where that does not parse,
  the part of it from the first to the last brace; and without a limit of tokens the word limit changes nothing.
  When it fails, no text is returned at all, only the fixed refusal, and the last action of the audit names the
  failure.
\<close>

theorem run_fails_closed:
  assumes "zak_execute a m p corr clk s = (r, s')"
  shows "(run_ok r \<longrightarrow> refusal r = None
      \<and> (\<exists>opts acts0 s1 raw t1. engine_call a m s = (Inr (opts, acts0), s1) \<and> generate_text a p opts s1 = (Inr raw, s')
          \<and> (response_format (io_gates m) = Text_format \<and> t1 = raw
             \<or> response_format (io_gates m) = Json_object \<and> json_parse t1 \<noteq> None
               \<and> (t1 = raw \<or> json_parse raw = None \<and> braced_part raw = Some t1))
          \<and> run_text r = Some (fst (cut_words (max_tokens (engine m)) t1))
          \<and> (max_tokens (engine m) = None \<longrightarrow> run_text r = Some t1)))
    \<and> (\<not> run_ok r \<longrightarrow> run_text r = None \<and> refusal r = Some ''Execution refused: protocol or security violation.''
      \<and> (\<exists>acts e. audit_actions (run_audit r) = acts @ [''FAILURE: '' @ e]))"
proof (cases "run_ok r")
  case True
  from execute_answer [OF assms True] obtain opts acts0 s1 raw t1 acts where
    e: "engine_call a m s = (Inr (opts, acts0), s1)" "generate_text a p opts s1 = (Inr raw, s')"
      "json_gate (response_format (io_gates m)) raw = (Inr t1, acts)"
      "run_text r = Some (fst (cut_words (max_tokens (engine m)) t1))" by blast
  have "refusal r = None" using execute_shape [OF assms] True by (auto simp: run_done_def run_failed_def)
  moreover have "response_format (io_gates m) = Text_format \<and> t1 = raw
      \<or> response_format (io_gates m) = Json_object \<and> json_parse t1 \<noteq> None
        \<and> (t1 = raw \<or> json_parse raw = None \<and> braced_part raw = Some t1)"
    using gate_passes [OF e(3)] by (cases "response_format (io_gates m)") simp_all
  moreover have "max_tokens (engine m) = None \<longrightarrow> run_text r = Some t1" using e(4) by (simp add: cut_words_def)
  ultimately have "refusal r = None \<and> (\<exists>opts acts0 s1 raw t1. engine_call a m s = (Inr (opts, acts0), s1)
      \<and> generate_text a p opts s1 = (Inr raw, s')
      \<and> (response_format (io_gates m) = Text_format \<and> t1 = raw
         \<or> response_format (io_gates m) = Json_object \<and> json_parse t1 \<noteq> None
           \<and> (t1 = raw \<or> json_parse raw = None \<and> braced_part raw = Some t1))
      \<and> run_text r = Some (fst (cut_words (max_tokens (engine m)) t1))
      \<and> (max_tokens (engine m) = None \<longrightarrow> run_text r = Some t1))"
    using e(1,2,4) by (intro conjI exI [of _ opts] exI [of _ acts0] exI [of _ s1] exI [of _ raw] exI [of _ t1])
  with True show ?thesis by blast
next
  case False
  then show ?thesis using execute_shape [OF assms] by (auto simp: run_done_def run_failed_def audit_of_def)
qed

subsection \<open>Examples\<close>

definition example_sigil :: "jsnum \<Rightarrow> string \<Rightarrow> string list \<Rightarrow> compiled_sigil" where
  "example_sigil roughness topology invs =
     \<lparr>cs_id = ''root'', cs_topology = topology, cs_roughness = roughness, cs_frequency = NumDec 5 1,
      cs_amplitude = NumDec 9 (- 1), cs_invariants = invs\<rparr>"

definition talker :: "string \<Rightarrow> unit llm_engine" where
  "talker t = \<lparr>tokenize = (\<lambda>x s. (Inr [], s)), generate_text = (\<lambda>x opts s. (Inr t, s))\<rparr>"

definition example_clock :: run_clock where
  "example_clock = \<lparr>clock_start = 1, clock_stamp = 5, clock_end = 7\<rparr>"

lemma canonical_examples: "canonical_num (NumDec 5 (- 1))" "canonical_num (NumDec 0 0)"
proof -
  have "num_of (exact (NumDec 5 (- 1))) = NumDec 5 (- 1)" "num_of (exact (NumDec 0 0)) = NumDec 0 0" by code_simp+
  then show "canonical_num (NumDec 5 (- 1))" "canonical_num (NumDec 0 0)" by (simp_all add: canonical_num_def)
qed

theorem manifest_depends_on_sigil_set_witness:
  "let s = example_sigil (NumDec 5 (- 1)) ''open'' []; t = example_sigil (NumDec 0 0) ''closed'' [limit_text 7]
   in compileContext [s, t] = compileContext [t, s, t]"
  unfolding Let_def by (rule manifest_depends_on_sigil_set) (auto simp: example_sigil_def canonical_examples)

definition limited :: "compiled_sigil list" where
  "limited = [example_sigil (NumDec 0 0) ''open'' [limit_text 2]]"

lemma limited_least: "least_limit 2 limited"
  by (auto simp: least_limit_def limited_def example_sigil_def)

lemma limited_manifest:
  "logit_bias (engine (compileContext limited)) = None" "response_format (io_gates (compileContext limited)) = Text_format"
  by (simp_all add: compileContext_state manifest_of_def compiled_state_def compile_start_def limited_def example_sigil_def
      refuses_opinions_def split_limit sort_sigils_def)

lemma limited_run:
  "run_ok (fst (zak_execute (talker ''one two three'') (compileContext limited) p corr clk ()))"
  by (simp add: zak_execute_def engine_call_def limited_manifest talker_def post_process_def json_gate_def run_done_def
      split: prod.split)

theorem declared_word_limit_is_kept_witness:
  "\<exists>t. run_text (fst (zak_execute (talker ''one two three'') (compileContext limited) ''count'' ''c1'' example_clock ())) = Some t
     \<and> length (words_of (trim t)) \<le> 2"
  using declared_word_limit_is_kept [OF limited_least _ prod.collapse [symmetric] limited_run,
      of "''count''" "''c1''" example_clock] by auto

definition json_only :: manifest where
  "json_only = \<lparr>engine = materialPhysics (NumDec 0 0),
     io_gates = \<lparr>allow_tools = False, allow_rag = False, response_format = Json_object\<rparr>\<rparr>"

lemma json_only_fails: "\<not> run_ok (fst (zak_execute (talker ''no'') json_only p corr clk ()))"
proof -
  have "json_parse ''no'' = None" by code_simp
  then show ?thesis
    by (simp add: zak_execute_def engine_call_def json_only_def materialPhysics_def talker_def post_process_def
        json_gate_def braced_part_def run_failed_def)
qed

theorem run_fails_closed_witness:
  "run_text (fst (zak_execute (talker ''no'') json_only ''p'' ''c1'' example_clock ())) = None
   \<and> run_text (fst (zak_execute (talker ''one two three'') (compileContext limited) ''p'' ''c1'' example_clock ()))
     = Some (fst (cut_words (max_tokens (engine (compileContext limited))) ''one two three''))"
proof -
  let ?r = "zak_execute (talker ''one two three'') (compileContext limited) ''p'' ''c1'' example_clock ()"
  have "generate_text (talker t) p opts s = (Inr t, s)" for t p opts s by (simp add: talker_def)
  then have "run_text (fst ?r) = Some (fst (cut_words (max_tokens (engine (compileContext limited))) ''one two three''))"
    using run_fails_closed [OF prod.collapse [symmetric], of "talker ''one two three''" "compileContext limited" "''p''"
        "''c1''" example_clock "()"] limited_run [of "''p''" "''c1''" example_clock] limited_manifest(2) by auto
  then show ?thesis
    using run_fails_closed [OF prod.collapse [symmetric], of "talker ''no''" json_only "''p''" "''c1''" example_clock "()"]
      json_only_fails by blast
qed

subsection \<open>What the code does at its edges\<close>

text \<open>
  The words are cut after the JSON gate: a directed sigil with a limit of words can return a text that is no JSON.
\<close>

lemma cut_json_is_broken:
  "json_gate Json_object ''{ \"a\": 1 }'' = (Inr ''{ \"a\": 1 }'', [''JSON_VALIDATED''])"
  "join '' '' (take 2 (words_of ''{ \"a\": 1 }'')) = ''{ \"a\":''" "json_parse ''{ \"a\":'' = None"
  by code_simp+

text \<open>A limit that is not a number spoils every other limit, and no limit is enforced then.\<close>

lemma unreadable_limit_disables_all:
  "least.chosen (NumInf False) (limits_of [example_sigil r t [''OUTPUT_LIMIT_WORDS:many'', limit_text 7]]) = NumNaN"
  "cut_words (Some (num_ceil (num_mult NumNaN (NumDec 13 (- 1))))) x = (x, [])"
proof -
  have "declared_limit ''OUTPUT_LIMIT_WORDS:many'' = Some NumNaN" by code_simp
  then have "limits_of [example_sigil r t [''OUTPUT_LIMIT_WORDS:many'', limit_text 7]] = [NumNaN, rounded (7, 1)]"
    by (simp add: limits_of_def example_sigil_def List.map_filter_simps)
  then show "least.chosen (NumInf False) (limits_of [example_sigil r t [''OUTPUT_LIMIT_WORDS:many'', limit_text 7]]) = NumNaN"
    using least.chosen_bad by simp
  show "cut_words (Some (num_ceil (num_mult NumNaN (NumDec 13 (- 1))))) x = (x, [])"
    by (simp add: num_mult_def cut_words_def)
qed

text \<open>A limit of zero words is no limit: zero tokens count as absent.\<close>

lemma zero_limit_is_not_enforced: "cut_words (Some (num_ceil (num_mult (NumDec 0 0) (NumDec 13 (- 1))))) x = (x, [])"
proof -
  have "num_ceil (num_mult (NumDec 0 0) (NumDec 13 (- 1))) = NumDec 0 0" by code_simp
  then show ?thesis by (simp add: cut_words_def)
qed

end
