(* ===== verification/Zak_Tuner.thy ===== *)
theory Zak_Tuner
  imports Zak_Sigil
begin

text \<open>
  The tuner, \<open>zak-core/src/kernel/tuner.ts\<close>: bounded changes of the numbers of a sigil under a write contract,
  followed by a new seal. A path is read through the own properties of objects, the elements and the length of
  arrays, and the length of strings; a path through a name that a body only inherits leads to no number here.
\<close>

record delta_limit =
  max_step :: jsnum
  hard_min :: "jsnum option"
  hard_max :: "jsnum option"

record write_profile =
  profile_id :: string
  allow_write_paths :: "string list"
  delta_limits :: "(string \<times> delta_limit) list"
  required_signature :: string

subsection \<open>Paths\<close>

definition index_in :: "string \<Rightarrow> 'a list \<Rightarrow> nat option" where
  "index_in k xs =
     (if array_index k \<and> nat_of_digits k < length xs then Some (nat_of_digits k) else None)"

definition read_key :: "json \<Rightarrow> string \<Rightarrow> json" where
  "read_key v k =
     (case v of
        JArr xs \<Rightarrow>
          (if k = ''length'' then JNum (norm_dec (int (length xs)) 0)
           else case index_in k xs of Some i \<Rightarrow> xs ! i | None \<Rightarrow> JUndef)
      | JStr s \<Rightarrow>
          (if k = ''length'' then JNum (norm_dec (int (length s)) 0)
           else case index_in k s of Some i \<Rightarrow> JStr [s ! i] | None \<Rightarrow> JUndef)
      | _ \<Rightarrow> fld v k)"

definition getByPath :: "json \<Rightarrow> string \<Rightarrow> json" where
  "getByPath v path = foldl (\<lambda>part k. if truthy part then read_key part k else JUndef) v (split_on (CHR ''.'') path)"

text \<open>
  Writing a key. The length of an array accepts only array lengths, and cuts or extends it; a string cannot be
  written in strict mode.
\<close>

definition set_length :: "jsnum \<Rightarrow> json list \<Rightarrow> json result" where
  "set_length n xs =
     (let k = frac_floor (exact n); whole = (frac_same (exact n) (k, 1) \<and> n \<noteq> NumNaN \<and> \<not> is_infinite n)
      in if whole \<and> 0 \<le> k \<and> k < 4294967296
         then Inr (JArr (take (nat k) xs @ replicate (nat k - length xs) JUndef))
         else Inl ''Invalid array length'')"

definition write_key :: "json \<Rightarrow> string \<Rightarrow> jsnum \<Rightarrow> json result" where
  "write_key v k n =
     (case v of
        JObj kvs \<Rightarrow> Inr (JObj (obj_set k (JNum n) kvs))
      | JArr xs \<Rightarrow>
          (if k = ''length'' then set_length n xs
           else case index_in k xs of
             Some i \<Rightarrow> Inr (JArr (xs[i := JNum n]))
           | None \<Rightarrow> Inl type_error)
      | _ \<Rightarrow> Inl type_error)"

text \<open>Replacing the part of a value under a key that was read from it.\<close>

definition put_key :: "json \<Rightarrow> string \<Rightarrow> json \<Rightarrow> json" where
  "put_key v k w =
     (case v of
        JObj kvs \<Rightarrow> JObj (AList.update k w kvs)
      | JArr xs \<Rightarrow> (case index_in k xs of Some i \<Rightarrow> JArr (xs[i := w]) | None \<Rightarrow> v)
      | _ \<Rightarrow> v)"

fun set_keys :: "json \<Rightarrow> string list \<Rightarrow> jsnum \<Rightarrow> json result" where
  "set_keys v [] n = Inr v"
| "set_keys v [k] n = write_key v k n"
| "set_keys v (k # ks) n = bind_result (set_keys (read_key v k) ks n) (\<lambda>w. Inr (put_key v k w))"

definition setByPath :: "json \<Rightarrow> string \<Rightarrow> jsnum \<Rightarrow> json result" where
  "setByPath v path n = set_keys v (split_on (CHR ''.'') path) n"

subsection \<open>Tuning\<close>

definition clamped_step :: "delta_limit \<Rightarrow> jsnum \<Rightarrow> jsnum" where
  "clamped_step l delta = num_max (num_neg (max_step l)) (num_min delta (max_step l))"

definition bounded :: "delta_limit \<Rightarrow> jsnum \<Rightarrow> jsnum" where
  "bounded l v =
     (let v1 = (case hard_min l of None \<Rightarrow> v | Some lo \<Rightarrow> num_max v lo)
      in case hard_max l of None \<Rightarrow> v1 | Some hi \<Rightarrow> num_min v1 hi)"

definition tune_one :: "write_profile \<Rightarrow> string \<Rightarrow> jsnum \<Rightarrow> json \<Rightarrow> json result" where
  "tune_one contract path delta b =
     (if path \<notin> set (allow_write_paths contract) then Inr b
      else case map_of (delta_limits contract) path of
        None \<Rightarrow> Inr b
      | Some l \<Rightarrow>
          (case getByPath b path of
             JNum n \<Rightarrow> setByPath b path (bounded l (num_add n (clamped_step l delta)))
           | _ \<Rightarrow> Inr b))"

fun tune_all :: "write_profile \<Rightarrow> (string \<times> jsnum) list \<Rightarrow> json \<Rightarrow> json result" where
  "tune_all contract [] b = Inr b"
| "tune_all contract ((path, delta) # more_deltas) b =
     bind_result (tune_one contract path delta b) (tune_all contract more_deltas)"

text \<open>\<open>clock_reading\<close> is the reading of \<open>Date.now()\<close>.\<close>

definition applyTuning :: "int \<Rightarrow> sigil \<Rightarrow> (string \<times> jsnum) list \<Rightarrow> write_profile \<Rightarrow> sigil result" where
  "applyTuning clock_reading s deltas contract =
     bind_result (tune_all contract deltas (sigil_body s)) (\<lambda>b.
     bind_result (computeCanonicalHash b) (\<lambda>h.
       Inr \<lparr>sigil_meta = (sigil_meta s)
              \<lparr>sigil_version := num_add (sigil_version (sigil_meta s)) (NumDec 1 0),
               created_at := norm_dec clock_reading 0, content_hash := h\<rparr>,
            sigil_body = b\<rparr>))"

end
