(* ===== verification/Zak_Seal_Properties.thy ===== *)
theory Zak_Seal_Properties
  imports Zak_Tuner Definition_Hash JS_Double_Facts
begin

text \<open>
  Properties of the seal and of the tuner: the content hash pins the body of a sigil whose keys need no escape,
  a tuned sigil is sealed again, and the tuner changes nothing but what its contract names, within its bounds.
\<close>

subsection \<open>The canonical text\<close>

lemma canonical_elems_map: "canonical_elems xs = map (\<lambda>x. if x = JUndef then [] else canonicalStringify x) xs"
  by (induction xs) auto

lemma canonical_members_map:
  "canonical_members kvs = map (\<lambda>p. (fst p, CHR 0x22 # fst p @ [CHR 0x22] @ '':'' @ canonicalStringify (snd p))) kvs"
  by (induction kvs) auto

text \<open>Keys that \<open>JSON.stringify\<close> prints as they are.\<close>

fun plain_keys :: "json \<Rightarrow> bool"
  and plain_keys_elems :: "json list \<Rightarrow> bool"
  and plain_keys_members :: "(string \<times> json) list \<Rightarrow> bool" where
  "plain_keys (JArr xs) = plain_keys_elems xs"
| "plain_keys (JObj kvs) = plain_keys_members kvs"
| "plain_keys v = True"
| "plain_keys_elems [] = True"
| "plain_keys_elems (x # xs) = (plain_keys x \<and> plain_keys_elems xs)"
| "plain_keys_members [] = True"
| "plain_keys_members ((k, v) # kvs) = ((\<forall>c \<in> set k. esc_char c = [c]) \<and> plain_keys v \<and> plain_keys_members kvs)"

lemma concat_singletons: "\<forall>c \<in> set k. f c = [c] \<Longrightarrow> concat (map f k) = k"
  by (induction k) auto

lemma canonical_is_stable:
  "plain_keys v \<Longrightarrow> canonicalStringify v = stable_print v"
  "plain_keys_elems xs \<Longrightarrow> canonical_elems xs = stable_elems xs"
  "plain_keys_members kvs \<Longrightarrow> canonical_members kvs = stable_members kvs"
  by (induction v and xs and kvs rule: canonicalStringify_canonical_elems_canonical_members.induct)
    (auto simp: quote_def concat_singletons)

text \<open>C20: The seal pins the body: two plain JSON bodies whose keys need no escape and whose content hashes are equal are
  the same document up to the order of keys, or their canonical texts are a collision of SHA-256. So a body that
  was changed after the seal is rejected by the validator.
\<close>

theorem seal_pins_body:
  assumes "json_plain a" "json_plain b" "plain_keys a" "plain_keys b"
    and "computeCanonicalHash a = Inr h" "computeCanonicalHash b = Inr h"
  shows "canon a = canon b \<or> sha_collision (canonicalStringify a) (canonicalStringify b)"
proof -
  have "sha256Hex (stable_print a) = sha256Hex (stable_print b)"
    using assms canonical_is_stable(1) by (auto simp: computeCanonicalHash_def split: if_splits)
  then show ?thesis using assms(1-4) stable_print_inj [of a b] canonical_is_stable(1)
    by (auto simp: sha_collision_def sha256Tagged_def)
qed

text \<open>With a quotation mark in a key, two different bodies have the same seal.\<close>

lemma unescaped_keys_collide:
  "canonicalStringify (JObj [(''a'', JNum (NumDec 1 0)), (''b'', JNum (NumDec 2 0))])
     = canonicalStringify (JObj [(''a\":1,\"b'', JNum (NumDec 2 0))])"
  by code_simp

subsection \<open>Paths\<close>

text \<open>One step of a path; only what is truthy is entered.\<close>

definition enter :: "json \<Rightarrow> string \<Rightarrow> json" where
  "enter v k = (if truthy v then read_key v k else JUndef)"

lemma getByPath_keys: "getByPath v path = foldl enter v (split_on (CHR ''.'') path)"
  by (simp add: getByPath_def enter_def [abs_def])

text \<open>Two paths part when neither is the beginning of the other.\<close>

fun part_ways :: "string list \<Rightarrow> string list \<Rightarrow> bool" where
  "part_ways (k # ks) (q # qs) = (k \<noteq> q \<or> part_ways ks qs)"
| "part_ways _ _ = False"

definition apart :: "string \<Rightarrow> string \<Rightarrow> bool" where
  "apart p q = part_ways (split_on (CHR ''.'') p) (split_on (CHR ''.'') q)"

definition writes_length :: "string \<Rightarrow> bool" where
  "writes_length p = (''length'' \<in> set (split_on (CHR ''.'') p))"

lemma array_index_inj: "array_index k \<Longrightarrow> array_index q \<Longrightarrow> nat_of_digits k = nat_of_digits q \<Longrightarrow> k = q"
  by (metis array_index_def)

lemma index_in_update [simp]: "index_in k (xs[i := v]) = index_in k xs"
  by (simp add: index_in_def)

lemma index_in_less: "index_in k xs = Some i \<Longrightarrow> i < length xs"
  by (auto simp: index_in_def split: if_splits)

lemma index_in_inj: "index_in k xs = Some i \<Longrightarrow> index_in q xs = Some i \<Longrightarrow> k = q"
  by (auto simp: index_in_def split: if_splits intro: array_index_inj)

lemma updated_at [simp]:
  "index_in k xs = Some i \<Longrightarrow> xs[i := v] ! i = v"
  "index_in k xs = Some i \<Longrightarrow> index_in q xs = Some j \<Longrightarrow> q \<noteq> k \<Longrightarrow> xs[i := v] ! j = xs ! j"
  using index_in_less [of k xs i] index_in_inj [of k xs i q] by (auto simp: nth_list_update)

lemma index_of_name [simp]: "\<not> array_index k \<Longrightarrow> index_in k xs = None"
  by (simp add: index_in_def)

definition container :: "json \<Rightarrow> bool" where
  "container v = (case v of JObj _ \<Rightarrow> True | JArr _ \<Rightarrow> True | _ \<Rightarrow> False)"

lemma container_cases:
  assumes "container v"
  obtains (obj) kvs where "v = JObj kvs" | (arr) xs where "v = JArr xs"
  using assms by (cases v) (auto simp: container_def)

lemma container_truthy: "container v \<Longrightarrow> truthy v"
  by (cases v) (auto simp: container_def)

lemma enter_container [simp]: "container v \<Longrightarrow> enter v k = read_key v k"
  by (simp add: enter_def container_truthy)

lemma write_key_container: "write_key v k n = Inr w \<Longrightarrow> container v \<and> container w"
  by (cases v) (auto simp: write_key_def container_def set_length_def Let_def split: option.splits if_splits)

lemma put_key_container [simp]: "container (put_key v k w) = container v"
  by (cases v) (auto simp: put_key_def container_def split: option.splits)

text \<open>Nothing can be written below a value that has no parts.\<close>

lemma read_key_leaf: "\<not> container v \<Longrightarrow> \<not> container (read_key v k)"
  by (cases v) (auto simp: read_key_def container_def fld_def split: option.splits)

lemma set_keys_container:
  "set_keys v ks n = Inr w \<Longrightarrow> ks \<noteq> [] \<Longrightarrow> container v \<and> container w"
proof (induction v ks n arbitrary: w rule: set_keys.induct)
  case (2 v k n)
  then show ?case using write_key_container by simp
next
  case (3 v k k' ks n)
  then obtain u where "set_keys (read_key v k) (k' # ks) n = Inr u" "w = put_key v k u"
    by (auto simp: bind_result_def split: sum.splits)
  then show ?case using "3.IH" [of u] read_key_leaf [of v k] by auto
qed simp

text \<open>Reading a key back after it was written or replaced, and reading another key.\<close>

lemma read_write_same:
  assumes "write_key v k n = Inr w" "k \<noteq> ''length''"
  shows "read_key w k = JNum n"
  using assms
  by (cases v) (auto simp: write_key_def read_key_def fld_obj_set split: option.splits)

lemma read_write_other:
  assumes "write_key v k n = Inr w" "k \<noteq> ''length''" "q \<noteq> k"
  shows "read_key w q = read_key v q"
proof (cases v)
  case (JArr xs)
  then obtain i where i: "index_in k xs = Some i" "w = JArr (xs[i := JNum n])"
    using assms by (auto simp: write_key_def split: option.splits)
  then show ?thesis using JArr assms(3)
    by (auto simp: read_key_def split: option.splits)
qed (use assms in \<open>auto simp: write_key_def read_key_def fld_obj_set\<close>)

lemma read_put_same:
  assumes "container (read_key v k)" "k \<noteq> ''length''"
  shows "read_key (put_key v k w) k = w"
  using assms
  by (cases v) (auto simp: put_key_def read_key_def fld_def container_def split: option.splits)

lemma read_put_other: "q \<noteq> k \<Longrightarrow> read_key (put_key v k w) q = read_key v q"
proof (cases v)
  case (JArr xs)
  moreover assume "q \<noteq> k"
  ultimately show ?thesis
    by (auto simp: put_key_def read_key_def split: option.splits)
qed (auto simp: put_key_def read_key_def fld_def)

lemma set_keys_read_back:
  "set_keys v ks n = Inr w \<Longrightarrow> ks \<noteq> [] \<Longrightarrow> ''length'' \<notin> set ks \<Longrightarrow> foldl enter w ks = JNum n"
proof (induction v ks n arbitrary: w rule: set_keys.induct)
  case (2 v k n)
  then show ?case using write_key_container read_write_same by fastforce
next
  case (3 v k k' ks n)
  then obtain u where u: "set_keys (read_key v k) (k' # ks) n = Inr u" "w = put_key v k u"
    by (auto simp: bind_result_def split: sum.splits)
  then have "container (read_key v k)" "container v"
    using set_keys_container [OF u(1)] read_key_leaf [of v k] by auto
  then have "enter w k = u" using u(2) "3.prems"(3) read_put_same [of v k u] by auto
  moreover have "foldl enter u (k' # ks) = JNum n" using "3.IH" [OF u(1)] "3.prems"(3) by simp
  ultimately show ?case by simp
qed simp

lemma set_keys_frame:
  "set_keys v ks n = Inr w \<Longrightarrow> part_ways ks qs \<Longrightarrow> ''length'' \<notin> set ks \<Longrightarrow> foldl enter w qs = foldl enter v qs"
proof (induction v ks n arbitrary: w qs rule: set_keys.induct)
  case (2 v k n)
  then obtain q qs' where q: "qs = q # qs'" "q \<noteq> k" by (cases qs) auto
  then show ?case using "2.prems" write_key_container [of v k n w] read_write_other [of v k n w q] by simp
next
  case (3 v k k' ks n)
  then obtain u where u: "set_keys (read_key v k) (k' # ks) n = Inr u" "w = put_key v k u"
    by (auto simp: bind_result_def split: sum.splits)
  from "3.prems" obtain q qs' where q: "qs = q # qs'" "k \<noteq> q \<or> part_ways (k' # ks) qs'" by (cases qs) auto
  have c: "container (read_key v k)" "container v"
    using set_keys_container [OF u(1)] read_key_leaf [of v k] by auto
  show ?case
  proof (cases "q = k")
    case True
    then have "enter w q = u" using u(2) c "3.prems"(3) read_put_same [of v k u] by auto
    moreover have "foldl enter u qs' = foldl enter (read_key v k) qs'"
      using "3.IH" [OF u(1)] q True "3.prems"(3) by simp
    ultimately show ?thesis using q c True by simp
  next
    case False
    then show ?thesis using q u(2) c read_put_other [of q k v u] by simp
  qed
qed simp

subsection \<open>Tuning\<close>

definition writable :: "write_profile \<Rightarrow> string \<Rightarrow> bool" where
  "writable c p = (p \<in> set (allow_write_paths c) \<and> map_of (delta_limits c) p \<noteq> None)"

lemma set_path_frame:
  "setByPath b p n = Inr b' \<Longrightarrow> apart p q \<Longrightarrow> \<not> writes_length p \<Longrightarrow> getByPath b' q = getByPath b q"
  unfolding getByPath_keys by (rule set_keys_frame) (simp_all add: setByPath_def apart_def writes_length_def)

lemma set_path_read_back: "setByPath b p n = Inr b' \<Longrightarrow> \<not> writes_length p \<Longrightarrow> getByPath b' p = JNum n"
  unfolding getByPath_keys by (rule set_keys_read_back) (simp_all add: setByPath_def writes_length_def)

lemma tune_one_frame:
  assumes "tune_one c p d b = Inr b'" "writable c p \<Longrightarrow> apart p q \<and> \<not> writes_length p"
  shows "getByPath b' q = getByPath b q"
  using assms set_path_frame [of b p _ b' q]
  by (auto simp: tune_one_def writable_def split: if_splits option.splits json.splits)

lemma tune_all_Cons: "tune_all c (pd # ds) b = bind_result (tune_one c (fst pd) (snd pd) b) (tune_all c ds)"
  by (cases pd) simp

lemma tune_all_frame:
  assumes "tune_all c ds b = Inr b'" "\<And>p. p \<in> fst ` set ds \<Longrightarrow> writable c p \<Longrightarrow> apart p q \<and> \<not> writes_length p"
  shows "getByPath b' q = getByPath b q"
  using assms
proof (induction ds arbitrary: b)
  case (Cons pd ds)
  then obtain u where u: "tune_one c (fst pd) (snd pd) b = Inr u" "tune_all c ds u = Inr b'"
    by (auto simp: tune_all_Cons bind_result_def split: sum.splits)
  have "getByPath b' q = getByPath u q" using Cons.IH [OF u(2)] Cons.prems(2) by simp
  then show ?case using tune_one_frame [OF u(1)] Cons.prems(2) by simp
qed simp

lemma tune_all_append: "tune_all c (xs @ ys) b = bind_result (tune_all c xs b) (tune_all c ys)"
  by (induction xs arbitrary: b) (auto simp: tune_all_Cons bind_result_def split: sum.splits)

lemma applyTuning_sealed:
  assumes "applyTuning t s ds c = Inr s'"
  shows "tune_all c ds (sigil_body s) = Inr (sigil_body s')"
    "computeCanonicalHash (sigil_body s') = Inr (content_hash (sigil_meta s'))"
    "sigil_id (sigil_meta s') = sigil_id (sigil_meta s)"
    "author_signature (sigil_meta s') = author_signature (sigil_meta s)"
  using assms by (auto simp: applyTuning_def bind_result_def split: sum.splits)

text \<open>C18: The write contract is a frame: a tuning that returns leaves every part of the body as it was whose path parts
  from the proposed paths that the contract names with a limit (none of which writes the length of an array),
  whatever else the proposal contains. The identity and the author of the sigil are kept, and its content hash
  is the hash of the new body, so that the integrity check of the validator accepts it.
\<close>

theorem tuning_changes_only_writable_paths:
  assumes "applyTuning t s ds c = Inr s'"
    and "\<And>p. p \<in> fst ` set ds \<Longrightarrow> writable c p \<Longrightarrow> apart p q \<and> \<not> writes_length p"
  shows "getByPath (sigil_body s') q = getByPath (sigil_body s) q
    \<and> computeCanonicalHash (sigil_body s') = Inr (content_hash (sigil_meta s'))
    \<and> sigil_id (sigil_meta s') = sigil_id (sigil_meta s)
    \<and> author_signature (sigil_meta s') = author_signature (sigil_meta s)"
  using applyTuning_sealed [OF assms(1)] tune_all_frame [of c ds "sigil_body s" "sigil_body s'" q] assms(2) by blast

subsection \<open>Limits\<close>

lemma num_le_iff: "a \<noteq> NumNaN \<Longrightarrow> b \<noteq> NumNaN \<Longrightarrow> num_le a b \<longleftrightarrow> \<not> num_less b a"
  by (cases a; cases b) auto

lemma num_less_irrefl: "\<not> num_less a a"
  by (cases a) (auto simp: frac_less_def)

lemma num_less_asym: "num_less a b \<Longrightarrow> \<not> num_less b a"
  by (cases a; cases b) (auto simp: frac_less_def)

lemma zero_not_less: "is_zero a \<Longrightarrow> \<not> num_less a NumNegZero" "is_zero a \<Longrightarrow> \<not> num_less NumNegZero a"
  by (auto simp: is_zero_def frac_less_def round_double_def scale_def)

lemma max_above:
  assumes "a \<noteq> NumNaN" "b \<noteq> NumNaN"
  shows "num_max a b \<noteq> NumNaN" "num_le b (num_max a b)" "num_max a b = a \<or> num_max a b = b"
  using assms num_less_irrefl by (auto simp: num_max_def num_le_iff)

lemma min_below:
  assumes "a \<noteq> NumNaN" "b \<noteq> NumNaN"
  shows "num_min a b \<noteq> NumNaN" "num_le (num_min a b) b" "num_min a b = a \<or> num_min a b = b"
  using assms num_less_irrefl by (auto simp: num_min_def num_le_iff)

lemma bounded_within:
  assumes "v \<noteq> NumNaN" "hard_min l = Some lo" "hard_max l = Some hi" "num_le lo hi"
  shows "num_le lo (bounded l v)" "num_le (bounded l v) hi"
proof -
  have nan: "lo \<noteq> NumNaN" "hi \<noteq> NumNaN" using assms(4) by (cases lo; cases hi; auto)+
  note a = max_above [OF assms(1) nan(1)]
  note b = min_below [OF a(1) nan(2)]
  have e: "bounded l v = num_min (num_max v lo) hi" using assms by (simp add: bounded_def)
  show "num_le (bounded l v) hi" using b(2) by (simp add: e)
  show "num_le lo (bounded l v)" using b(3) a(2) assms(4) unfolding e by metis
qed

lemma clamped_within:
  assumes "clamped_step l d \<noteq> NumNaN" "num_le (num_neg (max_step l)) (max_step l)"
  shows "num_le (clamped_step l d) (max_step l)" "num_le (num_neg (max_step l)) (clamped_step l d)"
proof -
  have nan: "d \<noteq> NumNaN" "max_step l \<noteq> NumNaN" "num_neg (max_step l) \<noteq> NumNaN"
    using assms by (auto simp: clamped_step_def num_max_def num_min_def)
  note a = min_below [OF nan(1,2)]
  note b = max_above [OF nan(3) a(1)]
  show "num_le (clamped_step l d) (max_step l)" using a(2) b(3) assms(2) unfolding clamped_step_def by metis
  show "num_le (num_neg (max_step l)) (clamped_step l d)"
    using nan a(1) num_less_irrefl num_less_asym zero_not_less
    by (auto simp: clamped_step_def num_max_def num_le_iff)
qed

lemma tune_one_read_back:
  assumes "tune_one c p d b = Inr b'" "writable c p" "\<not> writes_length p" "map_of (delta_limits c) p = Some l"
    and "getByPath b p = JNum n"
  shows "getByPath b' p = JNum (bounded l (num_add n (clamped_step l d)))"
  using assms set_path_read_back by (auto simp: tune_one_def writable_def)

text \<open>C19: The limits are kept: a number at a writable path that the proposal names once, the other proposed paths
  parting from it, becomes its old value plus the clamped step, cut to the hard bounds of the contract. The
  step is within the maximal step, and the number written is within the hard bounds, also after the rounding
  of the sum, if the sum is a number.
\<close>

theorem tuned_number_is_within_limits:
  assumes "applyTuning t s (ds1 @ (p, d) # ds2) c = Inr s'"
    and "\<And>p'. p' \<in> fst ` set (ds1 @ ds2) \<Longrightarrow> writable c p' \<Longrightarrow> apart p' p \<and> \<not> writes_length p'"
    and "p \<in> set (allow_write_paths c)" "map_of (delta_limits c) p = Some l" "\<not> writes_length p"
    and "getByPath (sigil_body s) p = JNum n"
    and "hard_min l = Some lo" "hard_max l = Some hi" "num_le lo hi"
    and "num_le (num_neg (max_step l)) (max_step l)" "num_add n (clamped_step l d) \<noteq> NumNaN"
  shows "getByPath (sigil_body s') p = JNum (bounded l (num_add n (clamped_step l d)))
    \<and> num_le lo (bounded l (num_add n (clamped_step l d)))
    \<and> num_le (bounded l (num_add n (clamped_step l d))) hi
    \<and> num_le (clamped_step l d) (max_step l)
    \<and> num_le (num_neg (max_step l)) (clamped_step l d)"
proof -
  from applyTuning_sealed(1) [OF assms(1)] obtain b1 b2 where b: "tune_all c ds1 (sigil_body s) = Inr b1"
      "tune_one c p d b1 = Inr b2" "tune_all c ds2 b2 = Inr (sigil_body s')"
    by (auto simp: tune_all_append bind_result_def split: sum.splits)
  have parted: "apart p' p \<and> \<not> writes_length p'" if "p' \<in> fst ` set ds1 \<union> fst ` set ds2" "writable c p'" for p'
    using assms(2) [of p'] that by auto
  have "getByPath b1 p = JNum n" using tune_all_frame [OF b(1), of p] parted assms(6) by simp
  then have "getByPath b2 p = JNum (bounded l (num_add n (clamped_step l d)))"
    using tune_one_read_back [OF b(2)] assms(3-5) by (simp add: writable_def)
  then have "getByPath (sigil_body s') p = JNum (bounded l (num_add n (clamped_step l d)))"
    using tune_all_frame [OF b(3), of p] parted by simp
  moreover have "num_le lo (bounded l (num_add n (clamped_step l d)))" "num_le (bounded l (num_add n (clamped_step l d))) hi"
    using bounded_within assms(7-9,11) by blast+
  moreover have "clamped_step l d \<noteq> NumNaN" using assms(11) by (cases n) auto
  then have "num_le (clamped_step l d) (max_step l)" "num_le (num_neg (max_step l)) (clamped_step l d)"
    using clamped_within assms(10) by blast+
  ultimately show ?thesis by blast
qed

subsection \<open>A tuned sigil\<close>

definition demo_body :: "jsnum \<Rightarrow> json" where
  "demo_body amplitude = JObj
     [(''tone'', JStr ''calm''),
      (''resonance'', JObj [(''base_frequency'', JNum (NumDec 4 1)), (''amplitude'', JNum amplitude)])]"

definition demo_sigil :: "int \<Rightarrow> jsnum \<Rightarrow> jsnum \<Rightarrow> sigil" where
  "demo_sigil clock_reading vn amplitude =
     \<lparr>sigil_meta = \<lparr>sigil_id = ''s'', sigil_version = vn, author_signature = ''a'',
        content_hash = sha256Hex (canonicalStringify (demo_body amplitude)), created_at = norm_dec clock_reading 0\<rparr>,
      sigil_body = demo_body amplitude\<rparr>"

definition demo_limit :: delta_limit where
  "demo_limit = \<lparr>max_step = NumDec 2 (- 1), hard_min = Some (NumDec 0 0), hard_max = Some (NumDec 6 (- 1))\<rparr>"

definition demo_contract :: write_profile where
  "demo_contract = \<lparr>profile_id = ''p'', allow_write_paths = [''resonance.amplitude''],
     delta_limits = [(''resonance.amplitude'', demo_limit), (''tone'', demo_limit)], required_signature = ''self''\<rparr>"

lemma demo_tuned:
  "tune_all demo_contract [(''tone'', NumDec 1 0), (''resonance.amplitude'', NumDec 9 (- 1))] (demo_body (NumDec 5 (- 1)))
     = Inr (demo_body (NumDec 6 (- 1)))"
  by code_simp

lemma demo_applied:
  "applyTuning 7 (demo_sigil 5 (NumDec 1 0) (NumDec 5 (- 1)))
     [(''tone'', NumDec 1 0), (''resonance.amplitude'', NumDec 9 (- 1))] demo_contract
     = Inr (demo_sigil 7 (NumDec 2 0) (NumDec 6 (- 1)))"
proof -
  have "num_add (NumDec 1 0) (NumDec 1 0) = NumDec 2 0" by code_simp
  moreover have "\<not> has_bigint (demo_body a)" "demo_body a \<noteq> JUndef" for a by (simp_all add: demo_body_def)
  ultimately show ?thesis
    by (simp del: tune_all.simps add: applyTuning_def demo_sigil_def demo_tuned bind_result_def computeCanonicalHash_def)
qed

theorem tuning_changes_only_writable_paths_witness:
  "getByPath (sigil_body (demo_sigil 7 (NumDec 2 0) (NumDec 6 (- 1)))) ''tone''
     = getByPath (sigil_body (demo_sigil 5 (NumDec 1 0) (NumDec 5 (- 1)))) ''tone''
   \<and> apart ''resonance.amplitude'' ''tone''"
proof -
  have "apart p ''tone'' \<and> \<not> writes_length p"
    if "p \<in> fst ` set [(''tone'', NumDec 1 0), (''resonance.amplitude'', NumDec 9 (- 1))]" "writable demo_contract p" for p
    using that by (auto simp: writable_def demo_contract_def apart_def writes_length_def)
  from tuning_changes_only_writable_paths [OF demo_applied this] show ?thesis by (simp add: apart_def)
qed

theorem tuned_number_is_within_limits_witness:
  "getByPath (sigil_body (demo_sigil 7 (NumDec 2 0) (NumDec 6 (- 1)))) ''resonance.amplitude'' = JNum (NumDec 6 (- 1))
   \<and> num_le (NumDec 6 (- 1)) (NumDec 6 (- 1))"
proof -
  let ?d = "NumDec 9 (- 1)"
  have path: "p' \<notin> fst ` set ([(''tone'', NumDec 1 0)] @ [])" if "writable demo_contract p'" for p'
    using that by (auto simp: writable_def demo_contract_def)
  have now: "getByPath (sigil_body (demo_sigil 5 (NumDec 1 0) (NumDec 5 (- 1)))) ''resonance.amplitude'' = JNum (NumDec 5 (- 1))"
    by (simp add: demo_sigil_def demo_body_def getByPath_def read_key_def)
  have steps: "clamped_step demo_limit ?d = NumDec 2 (- 1)" "num_add (NumDec 5 (- 1)) (NumDec 2 (- 1)) = NumDec 7 (- 1)"
      "bounded demo_limit (NumDec 7 (- 1)) = NumDec 6 (- 1)" "num_le (NumDec 0 0) (NumDec 6 (- 1))"
      "num_le (num_neg (max_step demo_limit)) (max_step demo_limit)" "num_le (NumDec 6 (- 1)) (NumDec 6 (- 1))"
    by code_simp+
  note at = tuned_number_is_within_limits
    [where ?ds1.0 = "[(''tone'', NumDec 1 0)]" and ?ds2.0 = "[]" and p = "''resonance.amplitude''" and d = ?d
      and l = demo_limit and lo = "NumDec 0 0" and hi = "NumDec 6 (- 1)" and n = "NumDec 5 (- 1)", simplified append.simps,
      OF demo_applied]
  have "getByPath (sigil_body (demo_sigil 7 (NumDec 2 0) (NumDec 6 (- 1)))) ''resonance.amplitude''
      = JNum (bounded demo_limit (num_add (NumDec 5 (- 1)) (clamped_step demo_limit ?d)))"
    by (rule at [THEN conjunct1]) (use path now steps in \<open>auto simp: demo_contract_def demo_limit_def writes_length_def\<close>)
  then show ?thesis by (simp only: steps simp_thms)
qed

theorem seal_pins_body_witness:
  "canon (JObj [(''x'', JNum (NumDec 1 0)), (''y'', JNull)]) = canon (JObj [(''y'', JNull), (''x'', JNum (NumDec 1 0))])
   \<or> sha_collision (canonicalStringify (JObj [(''x'', JNum (NumDec 1 0)), (''y'', JNull)]))
       (canonicalStringify (JObj [(''y'', JNull), (''x'', JNum (NumDec 1 0))]))"
proof (rule seal_pins_body)
  have "canonicalStringify (JObj [(''x'', JNum (NumDec 1 0)), (''y'', JNull)])
      = canonicalStringify (JObj [(''y'', JNull), (''x'', JNum (NumDec 1 0))])" by code_simp
  then show "computeCanonicalHash (JObj [(''y'', JNull), (''x'', JNum (NumDec 1 0))])
      = Inr (sha256Hex (canonicalStringify (JObj [(''x'', JNum (NumDec 1 0)), (''y'', JNull)])))"
    by (simp add: computeCanonicalHash_def)
  show "computeCanonicalHash (JObj [(''x'', JNum (NumDec 1 0)), (''y'', JNull)])
      = Inr (sha256Hex (canonicalStringify (JObj [(''x'', JNum (NumDec 1 0)), (''y'', JNull)])))"
    by (simp add: computeCanonicalHash_def)
qed code_simp+

end
