(* ===== verification/Zak_Law_Properties.thy ===== *)
theory Zak_Law_Properties
  imports Zak_Run_Properties Zak_Seal_Properties
begin

text \<open>
  Properties of the validator and of its composition with the tuner and the compiler: what it accepts, what an
  accepted sigil contributes to a manifest, and that tuning within the law keeps a sigil accepted.
\<close>

subsection \<open>The law\<close>

definition lawful_vector :: "json \<Rightarrow> bool" where
  "lawful_vector v =
     (\<exists>c. items_of v = Inr c
        \<and> \<not> num_less MAX_VECTOR_MAGNITUDE (magnitude (to_number (item_at c 0)) (to_number (item_at c 1)) (to_number (item_at c 2))))"

definition lawful_geometry :: "json \<Rightarrow> bool" where
  "lawful_geometry g =
     (\<exists>vs. \<not> is_null_or_undef g \<and> fld g ''topology'' \<in> JStr ` set ALLOWED_TOPOLOGIES
        \<and> items_of (fld g ''vectors'') = Inr vs \<and> length vs \<le> 8 \<and> (\<forall>v \<in> set vs. lawful_vector v))"

definition lawful_resonance :: "json \<Rightarrow> bool" where
  "lawful_resonance r =
     (\<not> is_null_or_undef r
        \<and> \<not> num_less (band_ceiling (to_number (fld r ''base_frequency''))) (to_number (fld r ''amplitude'')))"

definition lawful_effect :: "json \<Rightarrow> bool" where
  "lawful_effect e =
     (\<exists>is. \<not> is_null_or_undef e \<and> items_of (fld e ''invariants'') = Inr is
        \<and> (\<forall>i \<in> set is. \<exists>s. i = JStr s \<and> hd (split_on (CHR '':'') s) \<in> set INVARIANT_REGISTRY))"

definition lawful :: "sigil \<Rightarrow> bool" where
  "lawful s =
     (let b = sigil_body s
      in computeCanonicalHash b = Inr (content_hash (sigil_meta s)) \<and> lawful_geometry (fld b ''geometry'')
         \<and> lawful_resonance (fld b ''resonance'') \<and> lawful_effect (fld b ''field_effect''))"

lemma bind_passes: "bind_result r f = Inr None \<longleftrightarrow> (\<exists>x. r = Inr x \<and> f x = Inr None)"
  by (cases r) (auto simp: bind_result_def)

lemma and_check_passes: "and_check a b = Inr None \<longleftrightarrow> a = Inr None \<and> b = Inr None"
  by (auto simp: and_check_def bind_passes split: option.splits)

lemma prop_of_passes: "prop_of v k = Inr x \<longleftrightarrow> \<not> is_null_or_undef v \<and> x = fld v k"
  by (auto simp: prop_of_def)

lemma check_vectors_passes: "check_vectors vs = Inr None \<longleftrightarrow> (\<forall>v \<in> set vs. lawful_vector v)"
  by (induction vs)
    (auto simp: vector_too_long_def lawful_vector_def bind_result_def split: sum.splits)

lemma check_invariants_passes:
  "check_invariants is = Inr None
     \<longleftrightarrow> (\<forall>i \<in> set is. \<exists>s. i = JStr s \<and> hd (split_on (CHR '':'') s) \<in> set INVARIANT_REGISTRY)"
proof (induction "is")
  case (Cons i "is")
  then show ?case by (cases i) (auto simp: invariant_key_def bind_result_def)
qed simp

lemma eight_less: "num_less MAX_VECTORS (norm_dec (int l) 0) \<longleftrightarrow> 8 < l"
proof -
  have "is_dec MAX_VECTORS" "nval MAX_VECTORS = real 8"
    using rd_id [OF double_int [of 8]] by (simp_all add: MAX_VECTORS_def is_dec_def nval_dec)
  then show ?thesis using int_less_words [of MAX_VECTORS 8 l] by simp
qed

lemma items_of_length: "items_of v = Inr xs \<Longrightarrow> length_of v = Inr (JNum (norm_dec (int (length xs)) 0))"
  by (cases v) (auto simp: items_of_def length_of_def)

lemma check_geometry_passes:
  "check_geometry b = Inr None \<longleftrightarrow> \<not> is_null_or_undef b \<and> lawful_geometry (fld b ''geometry'')"
proof -
  have count: "num_less MAX_VECTORS (to_number (JNum (norm_dec (int l) 0))) \<longleftrightarrow> 8 < l" for l
    by (simp add: eight_less)
  have "check_geometry b = Inr None \<longleftrightarrow> \<not> is_null_or_undef b \<and> \<not> is_null_or_undef (fld b ''geometry'')
      \<and> fld (fld b ''geometry'') ''topology'' \<in> JStr ` set ALLOWED_TOPOLOGIES
      \<and> (\<exists>n. length_of (fld (fld b ''geometry'') ''vectors'') = Inr n \<and> \<not> num_less MAX_VECTORS (to_number n)
          \<and> (\<exists>vs. items_of (fld (fld b ''geometry'') ''vectors'') = Inr vs \<and> check_vectors vs = Inr None))"
    by (auto simp: check_geometry_def bind_passes prop_of_passes Let_def)
  also have "\<dots> \<longleftrightarrow> \<not> is_null_or_undef b \<and> lawful_geometry (fld b ''geometry'')"
    unfolding lawful_geometry_def check_vectors_passes using items_of_length count by fastforce
  finally show ?thesis .
qed

lemma check_resonance_passes:
  "check_resonance b = Inr None \<longleftrightarrow> \<not> is_null_or_undef b \<and> lawful_resonance (fld b ''resonance'')"
  by (auto simp: check_resonance_def lawful_resonance_def bind_passes prop_of_passes)

lemma check_field_effect_passes:
  "check_field_effect b = Inr None \<longleftrightarrow> \<not> is_null_or_undef b \<and> lawful_effect (fld b ''field_effect'')"
  by (auto simp: check_field_effect_def lawful_effect_def bind_passes prop_of_passes check_invariants_passes)

lemma lawful_body: "lawful_geometry (fld b k) \<Longrightarrow> \<not> is_null_or_undef b"
  by (cases b) (auto simp: lawful_geometry_def is_null_or_undef_def)

text \<open>The validator accepts exactly the lawful sigils: those whose content hash is the hash of the body, whose
  topology is one of the four, with at most eight vectors none of which is too long, with an amplitude that is
  not above the ceiling of its band, and with registered invariants only. Nothing that breaks one of these
  rules, on any of its vectors or invariants, is accepted, and no lawful sigil is rejected or ends in an error.
\<close>

lemma validate_lawful: "zak_validate s = Inr None \<longleftrightarrow> lawful s"
proof -
  have "zak_validate s = Inr None \<longleftrightarrow> (\<exists>h. computeCanonicalHash (sigil_body s) = Inr h \<and> h = content_hash (sigil_meta s)
      \<and> check_geometry (sigil_body s) = Inr None \<and> check_resonance (sigil_body s) = Inr None
      \<and> check_field_effect (sigil_body s) = Inr None)"
    by (auto simp: zak_validate_def bind_passes and_check_passes split: if_splits)
  then show ?thesis
    using lawful_body [of "sigil_body s" "''geometry''"]
    by (auto simp: lawful_def Let_def check_geometry_passes check_resonance_passes check_field_effect_passes)
qed

subsection \<open>Tuning within the law\<close>

lemma le_not_less_trans:
  assumes "num_le a b" "num_le b c"
  shows "\<not> num_less c a"
proof
  assume c: "num_less c a"
  show False using assms c
    by (cases a; cases b; cases c) (auto split: if_splits)
qed

lemma bounded_not_above:
  assumes "hard_max l = Some hi" "num_le hi c"
  shows "\<not> num_less c (bounded l v)"
proof (cases "bounded l v = NumNaN")
  case True
  then show ?thesis by (cases c) auto
next
  case False
  obtain v1 where v: "bounded l v = num_min v1 hi" using assms(1) by (auto simp: bounded_def Let_def)
  with False have "v1 \<noteq> NumNaN" "hi \<noteq> NumNaN" by (auto simp: num_min_def)
  then have "num_le (bounded l v) hi" using min_below v by simp
  then show ?thesis using le_not_less_trans assms(2) by blast
qed

definition body_lawful :: "json \<Rightarrow> json \<Rightarrow> bool" where
  "body_lawful f b =
     (lawful_geometry (fld b ''geometry'') \<and> lawful_resonance (fld b ''resonance'')
      \<and> lawful_effect (fld b ''field_effect'') \<and> fld (fld b ''resonance'') ''base_frequency'' = f)"

lemma amplitude_path: "split_on (CHR ''.'') ''resonance.amplitude'' = [''resonance'', ''amplitude'']"
  by simp

lemma geometry_object: "lawful_geometry (fld b k) \<Longrightarrow> \<exists>kvs. b = JObj kvs"
  by (cases b) (simp_all add: lawful_geometry_def is_null_or_undef_def fld_def)

lemma set_amplitude:
  assumes "body_lawful f b" "setByPath b ''resonance.amplitude'' n = Inr b'"
    and "\<not> num_less (band_ceiling (to_number f)) n"
  shows "body_lawful f b'"
proof -
  obtain kvs where b: "b = JObj kvs" using assms(1) geometry_object unfolding body_lawful_def by blast
  have "bind_result (write_key (fld b ''resonance'') ''amplitude'' n) (\<lambda>w. Inr (put_key b ''resonance'' w)) = Inr b'"
    using assms(2) by (simp add: setByPath_def amplitude_path b read_key_def del: fld_JObj)
  then obtain r' where r': "write_key (fld b ''resonance'') ''amplitude'' n = Inr r'" "b' = put_key b ''resonance'' r'"
    by (cases "write_key (fld b ''resonance'') ''amplitude'' n") (simp_all add: bind_result_def)
  have "\<not> array_index ''amplitude''" by (rule not_array_index) code_simp
  then obtain rs where rs: "fld b ''resonance'' = JObj rs" "r' = JObj (obj_set ''amplitude'' (JNum n) rs)"
    using r'(1) by (cases "fld b ''resonance''") (auto simp: write_key_def)
  have "fld b' k = (if k = ''resonance'' then r' else fld b k)" for k
    using r'(2) by (auto simp: b put_key_def fld_def)
  then show ?thesis using assms(1,3) unfolding body_lawful_def lawful_resonance_def
    by (simp add: rs fld_obj_set is_null_or_undef_def)
qed

lemma tune_one_lawful:
  assumes "body_lawful f b" "tune_one c p d b = Inr b'"
    and "writable c p \<Longrightarrow> p = ''resonance.amplitude''"
    and "\<And>l. map_of (delta_limits c) ''resonance.amplitude'' = Some l \<Longrightarrow>
           \<exists>hi. hard_max l = Some hi \<and> num_le hi (band_ceiling (to_number f))"
  shows "body_lawful f b'"
proof (cases "b' = b")
  case False
  then have p: "p = ''resonance.amplitude''"
    using assms(2,3) by (auto simp: tune_one_def writable_def split: if_splits option.splits)
  with False assms(2) obtain l v where l: "map_of (delta_limits c) p = Some l" "setByPath b p (bounded l v) = Inr b'"
    by (auto simp: tune_one_def split: if_splits option.splits json.splits)
  with assms(4) p have "\<not> num_less (band_ceiling (to_number f)) (bounded l v)" using bounded_not_above by metis
  then show ?thesis using set_amplitude assms(1) l(2) p by simp
qed (use assms(1) in simp)

lemma tune_all_lawful:
  assumes "body_lawful f b" "tune_all c ds b = Inr b'"
    and "\<And>p. p \<in> fst ` set ds \<Longrightarrow> writable c p \<Longrightarrow> p = ''resonance.amplitude''"
    and "\<And>l. map_of (delta_limits c) ''resonance.amplitude'' = Some l \<Longrightarrow>
           \<exists>hi. hard_max l = Some hi \<and> num_le hi (band_ceiling (to_number f))"
  shows "body_lawful f b'"
  using assms(1-3)
proof (induction ds arbitrary: b)
  case (Cons pd ds)
  then obtain u where u: "tune_one c (fst pd) (snd pd) b = Inr u" "tune_all c ds u = Inr b'"
    by (auto simp: tune_all_Cons bind_result_def split: sum.splits)
  have "body_lawful f u" using tune_one_lawful [OF Cons.prems(1) u(1)] Cons.prems(3) assms(4) by simp
  then show ?case using Cons.IH [OF _ u(2)] Cons.prems(3) by simp
qed simp

text \<open>C17: Tuning within the law keeps a sigil accepted: when a contract lets a proposal write nothing but the amplitude, with
  a hard maximum that is not above the ceiling of the sigil's band, then whatever is proposed, as often as it is
  proposed, an accepted sigil is accepted again after the tuning: the validator never rejects the tuner's seal.
\<close>

theorem tuning_within_the_law_is_accepted:
  assumes "zak_validate s = Inr None" "applyTuning t s ds c = Inr s'"
    and "\<And>p. p \<in> fst ` set ds \<Longrightarrow> writable c p \<Longrightarrow> p = ''resonance.amplitude''"
    and "\<And>l. map_of (delta_limits c) ''resonance.amplitude'' = Some l \<Longrightarrow> \<exists>hi. hard_max l = Some hi
           \<and> num_le hi (band_ceiling (to_number (fld (fld (sigil_body s) ''resonance'') ''base_frequency'')))"
  shows "zak_validate s' = Inr None"
proof -
  let ?f = "fld (fld (sigil_body s) ''resonance'') ''base_frequency''"
  have "body_lawful ?f (sigil_body s)" using assms(1) by (simp add: validate_lawful lawful_def body_lawful_def Let_def)
  from tune_all_lawful [OF this applyTuning_sealed(1) [OF assms(2)] assms(3,4)] show ?thesis using applyTuning_sealed(2) [OF assms(2)]
    by (simp add: validate_lawful lawful_def body_lawful_def Let_def)
qed

definition law_body :: "jsnum \<Rightarrow> json" where
  "law_body amplitude = JObj
     [(''geometry'', JObj [(''topology'', JStr ''closed''),
        (''vectors'', JArr [JArr [JNum (NumDec 0 0), JNum (NumDec 0 0), JNum (NumDec 1 0)]])]),
      (''resonance'', JObj [(''base_frequency'', JNum (NumDec 4 1)), (''amplitude'', JNum amplitude)]),
      (''field_effect'', JObj [(''invariants'', JArr [JStr ''OUTPUT_LIMIT_WORDS:20''])])]"

definition law_sigil :: "int \<Rightarrow> jsnum \<Rightarrow> jsnum \<Rightarrow> sigil" where
  "law_sigil clock_reading vn amplitude =
     \<lparr>sigil_meta = \<lparr>sigil_id = ''s'', sigil_version = vn, author_signature = ''a'',
        content_hash = sha256Hex (canonicalStringify (law_body amplitude)), created_at = norm_dec clock_reading 0\<rparr>,
      sigil_body = law_body amplitude\<rparr>"

lemma law_sigil_accepted: "zak_validate (law_sigil 5 (NumDec 1 0) (NumDec 5 (- 1))) = Inr None"
proof -
  have "check_geometry (law_body (NumDec 5 (- 1))) = Inr None" "check_resonance (law_body (NumDec 5 (- 1))) = Inr None"
      "check_field_effect (law_body (NumDec 5 (- 1))) = Inr None"
    by code_simp+
  moreover have "\<not> has_bigint (law_body a)" "law_body a \<noteq> JUndef" for a by (simp_all add: law_body_def)
  ultimately show ?thesis
    by (simp add: zak_validate_def law_sigil_def computeCanonicalHash_def bind_result_def and_check_def)
qed

lemma law_sigil_tuned:
  "applyTuning 7 (law_sigil 5 (NumDec 1 0) (NumDec 5 (- 1))) [(''resonance.amplitude'', NumDec 9 (- 1))] demo_contract
     = Inr (law_sigil 7 (NumDec 2 0) (NumDec 6 (- 1)))"
proof -
  have "tune_all demo_contract [(''resonance.amplitude'', NumDec 9 (- 1))] (law_body (NumDec 5 (- 1)))
      = Inr (law_body (NumDec 6 (- 1)))" "num_add (NumDec 1 0) (NumDec 1 0) = NumDec 2 0"
    by code_simp+
  moreover have "\<not> has_bigint (law_body a)" "law_body a \<noteq> JUndef" for a by (simp_all add: law_body_def)
  ultimately show ?thesis
    by (simp del: tune_all.simps add: applyTuning_def law_sigil_def bind_result_def computeCanonicalHash_def)
qed

theorem tuning_within_the_law_is_accepted_witness:
  "zak_validate (law_sigil 7 (NumDec 2 0) (NumDec 6 (- 1))) = Inr None"
proof (rule tuning_within_the_law_is_accepted [OF law_sigil_accepted law_sigil_tuned])
  fix l assume "map_of (delta_limits demo_contract) ''resonance.amplitude'' = Some l"
  then have "l = demo_limit" by (simp add: demo_contract_def)
  moreover have "num_le (NumDec 6 (- 1)) (band_ceiling (to_number (fld (fld (law_body (NumDec 5 (- 1))) ''resonance'') ''base_frequency'')))"
    by code_simp
  ultimately show "\<exists>hi. hard_max l = Some hi \<and> num_le hi (band_ceiling (to_number
      (fld (fld (sigil_body (law_sigil 5 (NumDec 1 0) (NumDec 5 (- 1)))) ''resonance'') ''base_frequency'')))"
    by (simp add: demo_limit_def law_sigil_def)
qed (simp add: demo_contract_def)

text \<open>A vector with two components has no magnitude, so no vector of that kind is ever too long.\<close>

lemma short_vectors_pass: "check_vectors [JArr [JNum (NumDec 5 9), JNum (NumDec 5 9)]] = Inr None"
  by code_simp

text \<open>A step that is not a number passes the clamp and the bounds, and is written as \<open>null\<close>.\<close>

lemma undefined_step_destroys_value:
  "tune_all demo_contract [(''resonance.amplitude'', NumNaN)] (law_body (NumDec 5 (- 1))) = Inr (law_body NumNaN)"
  by code_simp

end
