(* ===== verification/Zak_Host_Properties.thy ===== *)
theory Zak_Host_Properties
  imports Zak_Hosts Zak_Law_Properties
begin

text \<open>
  The hosts of the kernel: the root sigil that the repository ships, the agreement of the upload with the validator,
  and what a client of the pilot server sees.
\<close>

subsection \<open>The root sigil\<close>

text \<open>The body of \<open>zak-core/sigils/root/corp.root.v1.json\<close>.\<close>

definition root_body :: json where
  "root_body =
     JObj [(''geometry'', JObj [(''topology'', JStr ''closed''), (''complexity_weight'', JNum (NumDec 1 0)),
      (''vectors'', JArr [JArr [JNum (NumDec 0 0), JNum (NumDec 0 0), JNum (NumDec 0 0)]])]), (''material'',
      JObj [(''roughness'', JNum (NumDec 1 0)), (''luminosity'', JNum (NumDec 5 (- 1)))]), (''resonance'', JObj
      [(''base_frequency'', JNum (NumDec 1 2)), (''amplitude'', JNum (NumDec 1 (- 1))),
      (''dissonance_frequencies'', JArr [])]), (''field_effect'', JObj [(''scope'', JStr ''global''),
      (''invariants'', JArr [JStr ''REFUSE_PERSONAL_OPINION'', JStr ''OUTPUT_LIMIT_WORDS:500'']),
      (''directives'', JArr [])])]"

definition root_sigil :: sigil where
  "root_sigil =
     \<lparr>sigil_meta = \<lparr>sigil_id = ''corp.root.v1'', sigil_version = NumDec 1 0, author_signature = ''SIG_0x123'',
        content_hash = ''5f5504e3e2dbc2df3886f31dcd7d6b37759acc335e6f901d1e3469dd7da38f69'',
        created_at = NumDec 1766831811744 0\<rparr>, sigil_body = root_body\<rparr>"

text \<open>
  The texts that are hashed: the digest of the first is the content hash in the file, that of the second is the
  manifest hash recorded in \<open>zak-core/tests/determinism/manifest_hashes.json\<close>. Both were compared outside Isabelle.
\<close>

lemma root_canonical_text:
  "canonicalStringify root_body =
     ''{\"field_effect\":{\"directives\":[],\"invariants\":[\"REFUSE_PERSONAL_OPINION\",\"OUTPUT_LIMIT_WORDS:500\"],\"scope\":\"global\"},\"geometry\":{\"complexity_weight\":1,\"topology\":\"closed\",\"vectors\":[[0,0,0]]},\"material\":{\"luminosity\":0.5,\"roughness\":1},\"resonance\":{\"amplitude\":0.1,\"base_frequency\":100,\"dissonance_frequencies\":[]}}''"
  by code_simp

lemma root_manifest_text:
  "json_print (manifest_json (compileContext [the (compiled_view root_sigil)])) =
     ''{\"engine\":{\"temperature\":0.1,\"repeat_penalty\":1.2,\"top_p\":0.5,\"top_k\":20,\"max_tokens\":650,\"logit_bias\":{\"I think\":-100,\"I feel\":-100}},\"io_gates\":{\"allow_tools\":false,\"allow_rag\":false,\"response_format\":\"text\"}}''"
  by code_simp

lemma root_body_passes:
  "check_geometry root_body = Inr None" "check_resonance root_body = Inr None" "check_field_effect root_body = Inr None"
  by code_simp+

subsection \<open>Uploads\<close>

text \<open>On a document with the declared types the upload answers what the validator says.\<close>

lemma validateSigil_typed: "sigil_of_json v = Some s \<Longrightarrow> validateSigil v = zak_validate s"
proof -
  assume s: "sigil_of_json v = Some s"
  then have b: "sigil_body s = fld v ''body''" and h: "fld (fld v ''meta'') ''content_hash'' = JStr (content_hash (sigil_meta s))"
    by (auto simp: sigil_of_json_def Let_def as_str_def as_num_def split: option.splits json.splits)
  from h have "\<not> is_null_or_undef (fld v ''meta'')" "\<not> is_null_or_undef v"
    by (auto simp: is_null_or_undef_def)
  then show ?thesis
    by (auto simp: validateSigil_def zak_validate_def prop_of_def b h bind_result_def split: sum.splits)
qed

lemma upload_answers_for_the_law:
  assumes "sigil_of_json v = Some s"
  shows "(\<exists>r. upload_sigil v = Inr (200, r)) \<longleftrightarrow> lawful s"
  using validateSigil_typed [OF assms] validate_lawful [of s]
  by (auto simp: upload_sigil_def bind_result_def split: sum.splits option.splits)

subsection \<open>The pilot\<close>

text \<open>
  The server of the pilot answers every prompt: with the mock and no directed sigil it returns a text.
\<close>

lemma mock_tokens: "\<exists>out'. translate_bias pilot_mock ps out () = (Inr out', ())"
  by (induction ps arbitrary: out) (auto simp: pilot_mock_def)

lemma mock_call:
  obtains e acts where "engine_call pilot_mock m () = (Inr (e, acts), ())"
proof (cases "logit_bias (engine m)")
  case None
  then show ?thesis using that [of "engine m"] by (simp add: engine_call_def)
next
  case (Some ps)
  obtain bias where "translate_bias pilot_mock ps [] () = (Inr bias, ())" using mock_tokens by metis
  then show ?thesis using that [of "(engine m)\<lparr>logit_bias := Some bias\<rparr>"] Some by (simp add: engine_call_def)
qed

lemma pilot_answers:
  assumes "prop_of b ''prompt'' = Inr (JStr prompt)" "prompt \<noteq> []" "\<forall>s \<in> set sigils. cs_topology s \<noteq> ''directed''"
  shows "\<exists>t. pilot_execute pilot_mock sigils b stamp rnd clk ()
           = (Inr (200, JObj [(''ok'', JBool True), (''result'', JStr t)]), ())"
proof -
  let ?m = "compileContext sigils"
  have f: "response_format (io_gates ?m) = Text_format"
    using assms(3) by (auto simp: compileContext_state manifest_of_def compiled_state_def compile_start_def)
  obtain e acts where c: "engine_call pilot_mock ?m () = (Inr (e, acts), ())" by (rule mock_call)
  have "generate_text pilot_mock prompt e () = (Inr (mock_text prompt e), ())" by (simp add: pilot_mock_def)
  then show ?thesis using assms(1,2) f c
    by (auto simp: pilot_execute_def zak_execute_def post_process_def json_gate_def sanitized_def run_done_def
        split: prod.splits)
qed

text \<open>The check of the adapter for \<open>vLLM\<close> looks at an environment variable, not at the endpoint that is used.\<close>

lemma external_endpoint_accepted: "new_vllm None ''http://203.0.113.7:8000'' = Inr ''http://203.0.113.7:8000''"
  by (simp add: new_vllm_def)

subsection \<open>The red team\<close>

text \<open>
  The attack is neutralized not only for the shipped root sigil alone, as the simulation tests, but whatever sigils of
  roughness at most one are compiled with it, and in whatever order.
\<close>

definition root_view :: compiled_sigil where
  "root_view =
     \<lparr>cs_id = ''corp.root.v1'', cs_topology = ''closed'', cs_roughness = NumDec 1 0, cs_frequency = NumDec 1 2,
      cs_amplitude = NumDec 1 (- 1), cs_invariants = [''REFUSE_PERSONAL_OPINION'', ''OUTPUT_LIMIT_WORDS:500'']\<rparr>"

lemma root_view_is_compiled: "compiled_view root_sigil = Some root_view"
  by (simp add: compiled_view_def root_sigil_def root_body_def root_view_def as_str_def as_num_def)

lemma canonical_small: "canonical_num (NumDec 0 0)" "canonical_num (NumDec 1 0)"
proof -
  have "num_of (exact (NumDec 0 0)) = NumDec 0 0" "num_of (exact (NumDec 1 0)) = NumDec 1 0" by code_simp+
  then show "canonical_num (NumDec 0 0)" "canonical_num (NumDec 1 0)" by (simp_all add: canonical_num_def)
qed

lemma rough_physics: "temperature (materialPhysics (NumDec 1 0)) = NumDec 1 (- 1)"
  by code_simp

lemma root_sigil_neutralizes_attack:
  assumes "root_view \<in> set ss"
    and "\<forall>s \<in> set ss. canonical_num (cs_roughness s) \<and> cs_roughness s \<noteq> NumNaN
           \<and> num_below_eq (cs_roughness s) (NumDec 1 0)"
  shows "attack_neutralized (compileContext ss)"
proof -
  let ?rs = "map cs_roughness (sort_sigils ss)"
  have "NumDec 1 0 \<in> set (NumDec 0 0 # ?rs)" using assms(1) by (force simp: root_view_def)
  moreover have "num_below_eq (NumDec 0 0) (NumDec 1 0)"
    using rd_id [OF double_int [of 1]] rd_id [OF double_int [of 0]] by (simp add: num_below_eq_def num_key_def nval_dec)
  ultimately have rough: "greatest.chosen (NumDec 0 0) ?rs = NumDec 1 0"
    using assms(2) canonical_small by (intro greatest.chosen_least) auto
  have "refuses_opinions root_view" "closes_tools root_view"
    by (simp_all add: refuses_opinions_def closes_tools_def root_view_def)
  then have "\<exists>s \<in> set ss. refuses_opinions s" "\<exists>s \<in> set ss. closes_tools s" using assms(1) by blast+
  then show ?thesis
    by (auto simp: attack_neutralized_def compileContext_state manifest_of_def compiled_state_def compile_start_def
        rough rough_physics opinion_bias_def)
qed

end
