(* ===== verification/Draft_Pipeline.thy ===== *)
theory Draft_Pipeline
  imports Harness_Routes JSON_Pretty
begin

text \<open>
  The example host \<open>capability-registry/examples/openai-draft-pipeline/run.mjs\<close>: it asks a language model for a draft,
  checks its shape, and has the bridge prepare it with the authority level \<open>none\<close>; nothing is executed. The client
  of the model, the file system and the clock are parameters. The result is how the process ends.
\<close>

record pipeline_env =
  OPENAI_MODEL :: "string option"
  OPENAI_API_KEY :: "string option"
  PIPELINE_CONSTITUTION :: "string option"

record pipeline_end =
  exit_code :: nat
  printed :: "string option"
  complained :: "string list"

definition pipeline_prompt :: string where
  "pipeline_prompt =
     join [CHR 0x0A]
       [''You are generating a capability request draft.'', '''',
        ''Output ONLY JSON (no markdown, no prose).'', '''',
        ''Top-level object must have exactly two keys: \"capability\" and \"input\". No other top-level keys.'', '''',
        ''Schema shape:'',
        ''{'',
        ''  \"capability\": string,'',
        ''  \"input\": object'',
        ''}'', '''',
        ''Rules:'',
        ''- capability must be exactly \"hai.particle.update\"'',
        ''- input must satisfy: particle_id non-empty string, attributes object; you may set attributes.hue as a number between 0 and 1 inclusive'',
        ''- no extra top-level keys beyond capability and input'']"

definition pipelineDraftShape :: "json \<Rightarrow> json result" where
  "pipelineDraftShape parsed =
     (if \<not> is_record parsed then Inl ''parsed JSON must be a plain object''
      else if length (keys_of parsed) \<noteq> 2 \<or> \<not> has_own parsed ''capability'' \<or> \<not> has_own parsed ''input'' then
        Inl ''model output must be exactly { \"capability\", \"input\" }''
      else if \<not> is_str (fld parsed ''capability'') then Inl ''capability must be a string''
      else if \<not> is_record (fld parsed ''input'') then Inl ''input must be an object''
      else Inr parsed)"

text \<open>Without a key the process ends with code 1; otherwise there is a draft, or an exception.\<close>

datatype draft_end = No_key | Drafted "json result"

definition model_call :: "pipeline_env \<Rightarrow> json" where
  "model_call env =
     JObj [(''model'', JStr (or_else (OPENAI_MODEL env) ''gpt-4o'')), (''input'', JStr pipeline_prompt),
           (''text'', JObj [(''format'', JObj [(''type'', JStr ''json_object'')])])]"

definition read_draft :: "json \<Rightarrow> json result" where
  "read_draft response =
     (case nonempty_text (fld response ''output_text'') of
        None \<Rightarrow> Inl ''empty model output (no output_text)''
      | Some raw \<Rightarrow>
          (case json_parse raw of
             None \<Rightarrow> Inl ''invalid JSON from model: SyntaxError''
           | Some parsed \<Rightarrow> pipelineDraftShape parsed))"

definition generateDraft :: "'s llm_client \<Rightarrow> pipeline_env \<Rightarrow> 's \<Rightarrow> draft_end \<times> 's" where
  "generateDraft cl env s =
     (if truthy_opt (OPENAI_API_KEY env) = None then (No_key, s)
      else case read_response read_draft (responses_create cl (model_call env) s) of
        (r, s') \<Rightarrow> (Drafted (bind_result r (\<lambda>d. d)), s'))"

definition pipeline_caught :: "message \<Rightarrow> string list \<Rightarrow> pipeline_end" where
  "pipeline_caught e lines =
     \<lparr>exit_code = 1, printed = None,
      complained = lines @ [json_print (JObj [(''ok'', JBool False), (''errors'', JArr [JObj [(''message'', JStr e)]])])]\<rparr>"

text \<open>The draft that the bridge gets, and the options of the preparation.\<close>

definition pipeline_draft :: "pipeline_env \<Rightarrow> json \<Rightarrow> bridge_draft" where
  "pipeline_draft env draft_doc =
     \<lparr>draft_capability = js_string (fld draft_doc ''capability''), draft_input = fld draft_doc ''input'',
      draft_context = JObj [(''constitution_id'', JStr (or_else (PIPELINE_CONSTITUTION env) ''zak-default''))],
      draft_version = None\<rparr>"

definition pipeline_options :: "string \<Rightarrow> runtime \<Rightarrow> prepare_options" where
  "pipeline_options now_iso rt =
     \<lparr>opt_authority = Some (resolveAuthorityContext now_iso ''none''
        (Some \<lparr>in_source = Some ''example-cli'', in_evaluated_at = Some now_iso, in_session_id = Some ''openai-draft-pipeline'',
               in_subject_id = None, in_authority_context_id = None\<rparr>)),
      opt_runtime = Some rt, opt_class_policy = None\<rparr>"

definition prepared_text :: "bridge_request \<Rightarrow> adapter_binding \<Rightarrow> string" where
  "prepared_text req ad =
     json_pretty [] (JObj [(''ok'', JBool True), (''request'', request_json req), (''adapter'', adapter_json ad)])"

definition print_preparation :: "string list \<Rightarrow> prepare_result \<Rightarrow> pipeline_end" where
  "print_preparation lines prep =
     (case prep of
        Prepared req ad \<Rightarrow>
          \<lparr>exit_code = 0,
           printed = Some (prepared_text req ad), complained = lines\<rparr>
      | Refused stage errors \<Rightarrow>
          \<lparr>exit_code = 1,
           printed = Some (json_pretty [] (JObj [(''ok'', JBool False), (''errors'', JArr (map error_json errors))])), complained = lines\<rparr>)"

definition prepare_draft ::
  "'v host \<Rightarrow> pipeline_env \<Rightarrow> string \<Rightarrow> proc \<Rightarrow> json \<Rightarrow> pipeline_end" where
  "prepare_draft h env now_iso p draft_doc =
     (let lines = [''[model raw draft] '' @ json_print draft_doc]
      in case fst (prepareExecutionRequest h (in_cache p) (reg p) (pipeline_draft env draft_doc) (pipeline_options now_iso (gov p))) of
           Inl e \<Rightarrow> pipeline_caught e lines
         | Inr prep \<Rightarrow> print_preparation lines prep)"

text \<open>An exception outside the \<open>try\<close> ends the process with code 1 as well.\<close>

definition failed_start :: "message \<Rightarrow> pipeline_end" where
  "failed_start e = \<lparr>exit_code = 1, printed = None, complained = [e]\<rparr>"

definition start_pipeline ::
  "schema_compiler \<Rightarrow> (string \<Rightarrow> bool) \<Rightarrow> string \<Rightarrow> string \<Rightarrow> node option \<Rightarrow> file_system \<Rightarrow> (nat \<Rightarrow> string) \<Rightarrow> proc result" where
  "start_pipeline ajv semver_valid caps_dir gov_dir tree journals clk =
     (if tree = None then Inl (''Missing compiled capabilities at '' @ caps_dir)
      else case createRegistryFromCompiledCapabilities ajv semver_valid caps_dir tree
             \<lparr>verifyDefinitionHashFile = None, registerSemanticValidators = None\<rparr> [] of
        (ls, Inl e, c) \<Rightarrow> Inl e
      | (ls, Inr r, c) \<Rightarrow>
          bind_result (fst (createFileGovernanceRuntime
              \<lparr>rootDir = gov_dir, environmentId = ''openai-draft-pipeline'', runtimeId = ''openai-draft-pipeline''\<rparr>
              clk 0 journals)) (\<lambda>rt. Inr \<lparr>reg = r, in_cache = c, out_cache = [], gov = rt\<rparr>))"

definition run_pipeline ::
  "'v host \<Rightarrow> 's llm_client \<Rightarrow> pipeline_env \<Rightarrow> string \<Rightarrow> proc result \<Rightarrow> 's \<Rightarrow> pipeline_end \<times> 's" where
  "run_pipeline h cl env now_iso start s =
     (case start of
        Inl e \<Rightarrow> (failed_start e, s)
      | Inr p \<Rightarrow>
          (case generateDraft cl env s of
             (No_key, s') \<Rightarrow> (failed_start ''Missing OPENAI_API_KEY'', s')
           | (Drafted (Inl e), s') \<Rightarrow> (pipeline_caught e [], s')
           | (Drafted (Inr draft_doc), s') \<Rightarrow> (prepare_draft h env now_iso p draft_doc, s')))"

subsection \<open>What it prints\<close>

lemma prepared_end:
  assumes "exit_code (prepare_draft h env now_iso p draft_doc) = 0"
  obtains req ad where
    "fst (prepareExecutionRequest h (in_cache p) (reg p) (pipeline_draft env draft_doc) (pipeline_options now_iso (gov p)))
       = Inr (Prepared req ad)"
    "printed (prepare_draft h env now_iso p draft_doc)
       = Some (prepared_text req ad)"
  using assms that
  by (auto simp: prepare_draft_def print_preparation_def pipeline_caught_def Let_def split: sum.splits prepare_result.splits)

lemma shape_is_exact:
  "pipelineDraftShape v = Inr w \<longleftrightarrow> w = v \<and> is_record v \<and> length (keys_of v) = 2 \<and> has_own v ''capability'' \<and> has_own v ''input''
     \<and> is_str (fld v ''capability'') \<and> is_record (fld v ''input'')"
  by (auto simp: pipelineDraftShape_def)

text \<open>
  The pipeline succeeds only with a request that has passed every gate of the bridge for the authority level \<open>none\<close>, on
  a draft that is the exact object of two members which the model wrote, with an object as its input.
\<close>

lemma pipeline_success_is_admissible:
  assumes "run_pipeline h cl env now_iso (Inr p) s = (e, s')" "exit_code e = 0"
  shows "\<exists>raw draft_doc req ad authority rt' def m.
      json_parse raw = Some draft_doc \<and> length (keys_of draft_doc) = 2 \<and> is_record (fld draft_doc ''input'')
      \<and> resolveExecutionAuthorityContext (pipeline_draft env draft_doc) (gov p) (opt_authority (pipeline_options now_iso (gov p))) = (authority, rt')
      \<and> resolved_authority_level authority = ''none''
      \<and> admissible h (in_cache p) (reg p) (pipeline_draft env draft_doc) authority None rt' def m
      \<and> req_capability req = js_string (fld draft_doc ''capability'') \<and> req_input req = fld draft_doc ''input''
      \<and> printed e = Some (prepared_text req ad)"
proof -
  from assms obtain draft_doc where d: "generateDraft cl env s = (Drafted (Inr draft_doc), s')"
      "e = prepare_draft h env now_iso p draft_doc"
    by (auto simp: run_pipeline_def failed_start_def pipeline_caught_def split: prod.splits draft_end.splits sum.splits)
  from d(1) obtain response where r: "read_draft response = Inr draft_doc"
    by (auto simp: generateDraft_def read_response_def bind_result_def split: prod.splits sum.splits if_splits)
  then obtain raw where raw: "json_parse raw = Some draft_doc" "pipelineDraftShape draft_doc = Inr draft_doc"
    by (auto simp: read_draft_def shape_is_exact split: option.splits)
  obtain authority rt' where a: "resolveExecutionAuthorityContext (pipeline_draft env draft_doc) (gov p)
      (opt_authority (pipeline_options now_iso (gov p))) = (authority, rt')" by fastforce
  then have level: "resolved_authority_level authority = ''none''"
    by (auto simp: resolveExecutionAuthorityContext_def pipeline_options_def resolveAuthorityContext_def Let_def split: prod.splits)
  obtain req ad where q: "fst (prepareExecutionRequest h (in_cache p) (reg p) (pipeline_draft env draft_doc)
        (pipeline_options now_iso (gov p))) = Inr (Prepared req ad)"
      "printed e = Some (prepared_text req ad)"
    using assms(2) unfolding d(2) by (rule prepared_end)
  from q(1) have "prepare_resolved h (in_cache p) (reg p) (pipeline_draft env draft_doc) authority None rt' = Inr (Prepared req ad)"
    using a by (simp add: prepareExecutionRequest_def pipeline_options_def)
  then obtain def m where "admissible h (in_cache p) (reg p) (pipeline_draft env draft_doc) authority None rt' def m"
      "req_capability req = js_string (fld draft_doc ''capability'')" "req_input req = fld draft_doc ''input''"
    unfolding prepare_resolved_Prepared by (auto simp: pipeline_draft_def)
  then show ?thesis using raw q(2) a level unfolding shape_is_exact by blast
qed

end
