(* ===== verification/Spec2Isabelle.thy ===== *)
theory Spec2Isabelle
  imports Execution_Properties Startup_Properties Compiler_Properties Adapter_Properties
    Proxy_Client_Properties Gold_Properties Harness_Properties Zak_Host_Properties
    Draft_Pipeline
begin

text \<open>
  ZAKAI is a constitutional execution substrate: capabilities are compiled from worksheets, loaded and
  registered by a host, and executed only after validation, admission and replay checks; every execution
  leaves a receipt in a hash-chained journal, and the adapters reach the kernel only through a proxy that
  admits before it executes. This library models the TypeScript packages that do this and proves what makes
  them correct. Sources are named below \<open>src/\<close>.

  Values and texts. \<open>JSON_Value\<close>, \<open>JSON_Canon\<close>, \<open>JSON_Text\<close> and \<open>JSON_Pretty\<close> hold JavaScript values, their
  printers and their parser, with the round trips; \<open>SHA256\<close> is \<open>sha256.ts\<close> with the operators of JavaScript on
  integers, and \<open>SHA256_FIPS\<close> its refinement of the standard on 32-bit words. \<open>Prelude\<close> has results as sums,
  strings and association lists.

  The registry (\<open>capability-registry/src\<close>). \<open>Definition_Hash\<close>: \<open>types.ts\<close>, \<open>canonical-json.ts\<close>,
  \<open>definition-hash.ts\<close>. \<open>Capability_Meta\<close>: \<open>capability-meta.ts\<close>. \<open>Version_Sort\<close>, \<open>Registry\<close>:
  \<open>version-sort.ts\<close>, \<open>validate.ts\<close>, \<open>registry.ts\<close>, \<open>ui.ts\<close>; the state is the two maps of the class and the
  module's cache of compiled schemas. \<open>Governance_Runtime\<close>: \<open>governance-runtime.ts\<close>, with the journals as text
  and the projections as fields; \<open>Governance_Chain\<close>, \<open>Governance_Journal\<close>, \<open>Governance_State\<close> and
  \<open>Governance_Properties\<close> prove that the two hash chains are tamper evident, that a restart rebuilds the
  state, and that replay protection is permanent. \<open>Enforcement\<close> and \<open>Enforcement_Properties\<close>:
  \<open>enforcement.ts\<close>. \<open>Bridge\<close>, \<open>Governed_Execution\<close>, \<open>Execution_Facts\<close> and \<open>Execution_Properties\<close>:
  \<open>bridge.ts\<close> and \<open>governed-execution.ts\<close>; an execution is split at its await, so that executions interleave
  as steps of \<open>exec_step\<close>. \<open>Disk_Loader\<close> and \<open>Disk_Properties\<close>: \<open>load-capabilities-from-disk.ts\<close> over a file
  tree. \<open>Startup\<close> and \<open>Startup_Properties\<close>: \<open>builtins.ts\<close> and \<open>index.ts\<close>.

  The compiler (\<open>capability-compiler/src\<close>). \<open>Worksheet\<close>: \<open>normalize.ts\<close>, \<open>output-schema.ts\<close>, \<open>validate.ts\<close>,
  \<open>compile-def.ts\<close>, \<open>meta.ts\<close>. \<open>Compiler_Emit\<close>: \<open>emit.ts\<close>, \<open>gen-test.ts\<close>, \<open>cli.ts\<close>. \<open>Compiler_Facts\<close> and
  \<open>Compiler_Properties\<close> compose it with the loader: what is compiled is loaded back as one bundle with the
  identity and the metadata of the worksheet.

  The adapters (\<open>zak-adapters/src\<close>). \<open>Kernel_Contracts\<close>: \<open>contracts\<close>, \<open>utils/money.ts\<close>, and the locale
  \<open>governed_kernel\<close>, the interface between an adapter and its kernel. \<open>Proxy_Frames\<close>: the frames of one
  execution in \<open>proxy/ProxyKernelClient.ts\<close>. \<open>Adapters\<close>: the HTTP adapter and server, the sentry, \<open>index.ts\<close>.
  \<open>Adapter_Properties\<close> interprets the locale on the proxy client, so that a success that reaches an HTTP
  client was admitted and executed. \<open>Proxy_Client\<close>: the connection of the same class as a state machine
  over the events of its socket; \<open>Proxy_Client_Properties\<close> shows by rule induction over the reachable states
  that answers match requests, that a lost transport is final, and that queued calls are answered in order.

  The invocation gate (\<open>engine/gold_invoke.mjs\<close>). \<open>Node_Files\<close> has POSIX paths and a disk with the calls of
  Node that the gate uses; \<open>Gold_Invoke\<close> is the gate, one definition for each handler; \<open>Gold_Properties\<close> shows
  which file a run can change, that the answer reaches the proxy client, what a granted worksheet and a
  proposal leave on the disk, and what the hashes of the gate cover.

  The draft harness (\<open>draft-test-harness\<close>), a host that turns the text of a language model into governed
  executions. \<open>JS_Regex\<close> is a backtracking matcher for the regular expressions of the harness;
  \<open>Intent_Classify\<close>, \<open>Harness_Lib\<close>: the files of \<open>lib\<close>; \<open>Harness_Draft\<close>, \<open>Harness_Server\<close>, \<open>Harness_Routes\<close>:
  \<open>server.js\<close>. \<open>Harness_Properties\<close> composes it with the execution pipeline: what a model writes changes the
  governed process only through an execution that was prepared, validated and recorded.

  The zero-asset kernel (\<open>zak-core/src/kernel\<close>) seals sigils, checks them against a law, compiles them into a manifest
  and runs a language model under it. Its numbers are doubles: \<open>JS_Double\<close> computes them exactly on fractions, with
  rounding to the nearest even and the shortest text, and \<open>JS_Double_Facts\<close> refines this to rounding over the reals.
  \<open>Zak_Sigil\<close>: \<open>validator.ts\<close>; \<open>Zak_Compiler\<close>: \<open>compiler.ts\<close>; \<open>Zak_Runner\<close>: \<open>runner.ts\<close>; \<open>Zak_Tuner\<close>: \<open>tuner.ts\<close>.
  \<open>Zak_Limits\<close> and \<open>Zak_Compiler_Facts\<close> carry \<open>Zak_Run_Properties\<close>: the manifest depends on the set of the sigils, its
  gates and a run fail closed, and the declared limit of words survives the multiplication by \<open>1.3\<close> and the division.
  \<open>Zak_Seal_Properties\<close> and \<open>Zak_Law_Properties\<close>: what the seal pins, what a tuning can change and within which limits,
  and that a tuning within the law is accepted again. \<open>Zak_Hosts\<close> and \<open>Zak_Host_Properties\<close>: the engine adapters, the
  pilot server, the bridge and server of \<open>zak-zem\<close>, the red-team simulation, and the root sigil that is shipped, whose
  canonical text and manifest have the digests recorded in the repository. \<open>Draft_Pipeline\<close> is the example host \<open>openai-draft-pipeline\<close>
  on the registry and the bridge.

  Locales are the interfaces: the order of versions (\<open>Version_Sort\<close>), the chain of digests
  (\<open>Governance_Chain\<close>), the governed kernel, and the selection by \<open>Math.max\<close> and \<open>Math.min\<close>
  (\<open>Zak_Compiler_Facts\<close>); each is interpreted on the definitions of the program.

  Parameters. Code that is not in the repository is an argument: the Ajv compiler, \<open>semver\<close>, the collation
  of \<open>localeCompare\<close>, the YAML parser and printer, the proxy at the other end of the socket, the adapter that a
  host supplies, the client of the language model, the model server behind \<open>fetch\<close>, the programs that the
  invocation gate starts, the calendar of \<open>Intl\<close>. The clock and random identifiers are numbered readings; the outcome of an append to a
  journal is an argument, so that every theorem covers failing appends.

  Bounds and fuel. Strings are lists of code units below 256. Numbers are exact decimals; a numeral that
  is read keeps all its digits, and arithmetic rounds to doubles. 17 digits are enough for the shortest text of a double
  (\<open>shortest_exact\<close>), 62 bits for its square root; the word limits of the theorem lie below \<open>2 ^ 48\<close>. \<open>json_parse\<close> gives its recursive functions fuel
  proportional to the length of the text, and \<open>parse_fuel_enough\<close> shows that more changes nothing. The two loops
  over matches of the harness are partial functions, and both are proved to return on every text. All other functions terminate by structural
  recursion or a measure.

  Not modelled: the file system calls, sockets, pages and console output around the modelled servers; the frontend of
  \<open>zak-core/zak-zem\<close>, its telemetry socket and its halt, which ends the process; scripts and test drivers; the bundles
  under \<open>dist\<close>, which the build generates. The manifest compiler takes the members of a sigil at their declared types.
\<close>

end
